(* ===== verification/Prelude.thy ===== *)
theory Prelude
  imports Main "HOL-Library.Multiset" "HOL-Library.List_Lexorder" "HOL-Library.Char_ord"
begin

text \<open>
  The prelude of the DurableFlow development: the collections of rewrite rules the component
  theories share, and the generic facts on key-indexed row lists, ordering with a limit, and
  grouping that the proofs about the SQL store rest on.

  A table is a list of rows.  \<open>select_by\<close> is a lookup by key, \<open>update_by\<close> an
  \<^verbatim>\<open>UPDATE .. WHERE key = k\<close>, and \<open>order_limit\<close> an
  \<^verbatim>\<open>ORDER BY .. LIMIT n\<close>.
\<close>

named_theorems status_simps \<open>the status constants and their pairwise distinctness\<close>
named_theorems tx_simps \<open>unfolding of the transaction combinators\<close>
named_theorems sql_simps \<open>unfolding of the SQL statements\<close>

type_synonym go_time = int
type_synonym go_duration = int

section \<open>Rows indexed by a key\<close>

definition select_by :: "('r \<Rightarrow> 'k) \<Rightarrow> 'k \<Rightarrow> 'r list \<Rightarrow> 'r option" where
  "select_by key k rows = find (\<lambda>r. key r = k) rows"

definition update_by :: "('r \<Rightarrow> 'k) \<Rightarrow> 'k \<Rightarrow> ('r \<Rightarrow> 'r) \<Rightarrow> 'r list \<Rightarrow> 'r list" where
  "update_by key k f rows = map (\<lambda>r. if key r = k then f r else r) rows"

definition order_limit :: "('r \<Rightarrow> 'o::linorder) \<Rightarrow> int \<Rightarrow> 'r list \<Rightarrow> 'r list" where
  "order_limit key n rows = take (nat n) (sort_key key rows)"

lemma select_by_Nil [simp]: "select_by key k [] = None"
  by (simp add: select_by_def)

lemma select_by_Cons [simp]:
  "select_by key k (r # rs) = (if key r = k then Some r else select_by key k rs)"
  by (simp add: select_by_def)

lemma select_by_append [simp]:
  "select_by key k (xs @ ys) =
     (case select_by key k xs of None \<Rightarrow> select_by key k ys | Some r \<Rightarrow> Some r)"
  by (induction xs) auto

lemma select_by_SomeD: "select_by key k rows = Some r \<Longrightarrow> r \<in> set rows \<and> key r = k"
  by (induction rows) (auto split: if_splits)

lemma select_by_None: "select_by key k rows = None \<longleftrightarrow> k \<notin> key ` set rows"
  by (induction rows) auto

lemma select_by_key: "select_by key k rows = Some r \<Longrightarrow> key r = k"
  by (drule select_by_SomeD) simp

lemma select_by_mem: "select_by key k rows = Some r \<Longrightarrow> r \<in> set rows"
  by (drule select_by_SomeD) simp

lemma select_by_distinct:
  "distinct (map key rows) \<Longrightarrow> r \<in> set rows \<Longrightarrow> select_by key (key r) rows = Some r"
  by (induction rows) (auto simp: image_iff)

lemma update_by_Nil [simp]: "update_by key k f [] = []"
  by (simp add: update_by_def)

lemma update_by_Cons [simp]:
  "update_by key k f (r # rs) = (if key r = k then f r else r) # update_by key k f rs"
  by (simp add: update_by_def)

lemma update_by_append [simp]:
  "update_by key k f (xs @ ys) = update_by key k f xs @ update_by key k f ys"
  by (simp add: update_by_def)

lemma length_update_by [simp]: "length (update_by key k f rows) = length rows"
  by (simp add: update_by_def)

lemma set_update_by:
  "set (update_by key k f rows) = (\<lambda>r. if key r = k then f r else r) ` set rows"
  by (simp add: update_by_def)

lemma update_by_idle: "k \<notin> key ` set rows \<Longrightarrow> update_by key k f rows = rows"
  by (induction rows) auto

text \<open>A column no assignment of the update touches keeps its values, in order.\<close>

lemma map_update_by:
  "(\<And>r. key r = k \<Longrightarrow> g (f r) = g r) \<Longrightarrow> map g (update_by key k f rows) = map g rows"
  by (induction rows) auto

lemma select_update_by_same:
  assumes "\<And>r. key (f r) = key r"
  shows "select_by key k (update_by key k f rows) = map_option f (select_by key k rows)"
  by (induction rows) (auto simp: assms)

lemma select_update_by_other:
  assumes "\<And>r. key (f r) = key r" and "k \<noteq> k'"
  shows "select_by key k' (update_by key k f rows) = select_by key k' rows"
  using assms(2) by (induction rows) (auto simp: assms(1))

lemma list_all_update_by:
  assumes "list_all P rows" and "\<And>r. r \<in> set rows \<Longrightarrow> key r = k \<Longrightarrow> P r \<Longrightarrow> P (f r)"
  shows "list_all P (update_by key k f rows)"
  using assms by (auto simp: list_all_iff set_update_by)

lemma filter_update_by_other:
  assumes "\<And>r. key r = k \<Longrightarrow> P (f r) = P r" and "\<And>r. key r = k \<Longrightarrow> \<not> P r"
  shows "filter P (update_by key k f rows) = filter P rows"
  using assms by (induction rows) auto

section \<open>Ordering with a limit\<close>

lemma set_order_limit: "set (order_limit key n rows) \<subseteq> set rows"
  unfolding order_limit_def by (metis set_sort set_take_subset)

lemma length_order_limit: "length (order_limit key n rows) \<le> nat n"
  by (simp add: order_limit_def)

lemma sorted_order_limit: "sorted (map key (order_limit key n rows))"
  by (simp add: order_limit_def flip: take_map)

lemma mset_order_limit: "mset (order_limit key n rows) \<subseteq># mset rows"
proof -
  have "mset (take (nat n) (sort_key key rows)) \<subseteq># mset (sort_key key rows)"
    by (metis append_take_drop_id mset_append mset_subset_eq_add_left)
  then show ?thesis by (simp add: order_limit_def)
qed

lemma order_limit_all: "length rows \<le> nat n \<Longrightarrow> order_limit key n rows = sort_key key rows"
  by (simp add: order_limit_def)

text \<open>No row that was left out sorts strictly before a row that was taken.\<close>

lemma order_limit_least:
  assumes "r \<in> set rows" and "r \<notin> set (order_limit key n rows)"
    and "t \<in> set (order_limit key n rows)"
  shows "key t \<le> key r"
proof -
  let ?s = "sort_key key rows"
  have "r \<in> set (drop (nat n) ?s)"
    using assms(1,2) by (metis Un_iff append_take_drop_id order_limit_def set_append set_sort)
  moreover have "sorted (map key (take (nat n) ?s) @ map key (drop (nat n) ?s))"
    by (simp flip: map_append)
  ultimately show ?thesis
    using assms(3) by (auto simp: order_limit_def sorted_append)
qed

lemma distinct_order_limit: "distinct rows \<Longrightarrow> distinct (order_limit key n rows)"
  by (simp add: order_limit_def)

lemma distinct_map_order_limit:
  assumes "distinct (map g rows)"
  shows "distinct (map g (order_limit key n rows))"
proof -
  have "mset (map g (sort_key key rows)) = mset (map g rows)" by simp
  then have "distinct (map g (sort_key key rows))"
    using assms by (metis mset_eq_imp_distinct_iff)
  then show ?thesis by (simp add: order_limit_def flip: take_map)
qed

end
