(* ===== verification/GoLib.thy ===== *)
theory GoLib
  imports Prelude "HOL-Library.Word"
begin

text \<open>
  What DurableFlow uses of the Go language and its standard library: byte strings and their
  UTF-8 structure (\<^verbatim>\<open>unicode/utf8\<close>), \<^verbatim>\<open>strings.TrimSpace\<close>, the 64-bit
  arithmetic of \<^verbatim>\<open>time.Duration\<close>, and error values with their wrapping chain
  (\<^verbatim>\<open>errors.Is\<close>, \<^verbatim>\<open>fmt.Errorf\<close> with \<^verbatim>\<open>%w\<close>).

  A Go string is a sequence of bytes, here a list of \<^typ>\<open>char\<close>; \<open>length\<close> is Go's
  \<^verbatim>\<open>len\<close>.
\<close>

section \<open>UTF-8\<close>

definition byte :: "char \<Rightarrow> nat" where
  "byte c = of_char c"

definition byte_in :: "nat \<Rightarrow> nat \<Rightarrow> char \<Rightarrow> bool" where
  "byte_in lo hi c \<longleftrightarrow> lo \<le> byte c \<and> byte c \<le> hi"

text \<open>
  The number of bytes of the well-formed encoding that starts with \<open>c\<close> and goes on with
  \<open>cs\<close>, and 0 when there is none (\<^verbatim>\<open>utf8.DecodeRune\<close> answers
  \<^verbatim>\<open>RuneError\<close> with width 1 there).
\<close>

definition rune_len :: "char \<Rightarrow> string \<Rightarrow> nat" where
  "rune_len c cs =
     (let b = byte c in
      if b < 128 then 1
      else if 194 \<le> b \<and> b \<le> 223 then
        (case cs of c1 # _ \<Rightarrow> if byte_in 128 191 c1 then 2 else 0 | _ \<Rightarrow> 0)
      else if 224 \<le> b \<and> b \<le> 239 then
        (case cs of
           c1 # c2 # _ \<Rightarrow>
             if byte_in (if b = 224 then 160 else 128) (if b = 237 then 159 else 191) c1 \<and>
                byte_in 128 191 c2 then 3 else 0
         | _ \<Rightarrow> 0)
      else if 240 \<le> b \<and> b \<le> 244 then
        (case cs of
           c1 # c2 # c3 # _ \<Rightarrow>
             if byte_in (if b = 240 then 144 else 128) (if b = 244 then 143 else 191) c1 \<and>
                byte_in 128 191 c2 \<and> byte_in 128 191 c3 then 4 else 0
         | _ \<Rightarrow> 0)
      else 0)"

text \<open>The string cut into its runes; a byte that starts no well-formed rune is cut alone.\<close>

fun chunks :: "string \<Rightarrow> string list" where
  "chunks [] = []"
| "chunks (c # cs) =
     (c # take (rune_len c cs - 1) cs) # chunks (drop (rune_len c cs - 1) cs)"

definition valid_chunk :: "string \<Rightarrow> bool" where
  "valid_chunk ch = (case ch of [] \<Rightarrow> True | c # cs \<Rightarrow> rune_len c cs \<noteq> 0)"

definition utf8_valid :: "string \<Rightarrow> bool" where
  "utf8_valid s = list_all valid_chunk (chunks s)"

lemma concat_chunks [simp]: "concat (chunks s) = s"
  by (induction s rule: chunks.induct) auto

lemma chunks_nonempty: "[] \<notin> set (chunks s)"
  by (induction s rule: chunks.induct) auto

definition ascii :: "string \<Rightarrow> bool" where
  "ascii s = list_all (\<lambda>c. byte c < 128) s"

lemma rune_len_ascii [simp]: "byte c < 128 \<Longrightarrow> rune_len c cs = 1"
  by (simp add: rune_len_def)

lemma chunks_ascii: "ascii s \<Longrightarrow> chunks s = map (\<lambda>c. [c]) s"
  by (induction s) (auto simp: ascii_def)

lemma utf8_valid_ascii: "ascii s \<Longrightarrow> utf8_valid s"
  by (simp add: utf8_valid_def chunks_ascii list_all_iff)
     (simp add: valid_chunk_def ascii_def list_all_iff)

text \<open>A byte sequence with every ill-formed byte replaced by U+FFFD.\<close>

definition rune_error :: string where
  "rune_error = [CHR 0xEF, CHR 0xBF, CHR 0xBD]"

definition to_valid_utf8 :: "string \<Rightarrow> string" where
  "to_valid_utf8 s = concat (map (\<lambda>ch. if valid_chunk ch then ch else rune_error) (chunks s))"

lemma to_valid_utf8_id: "utf8_valid s \<Longrightarrow> to_valid_utf8 s = s"
proof -
  assume "utf8_valid s"
  then have "map (\<lambda>ch. if valid_chunk ch then ch else rune_error) (chunks s) = chunks s"
    by (auto simp: utf8_valid_def list_all_iff intro: map_idI)
  then show ?thesis by (simp add: to_valid_utf8_def)
qed

text \<open>\<^verbatim>\<open>utf8.EncodeRune\<close> for a code point of the basic plane or a surrogate pair.\<close>

definition utf8_encode :: "nat \<Rightarrow> string" where
  "utf8_encode r =
     (if r < 128 then [char_of r]
      else if r < 2048 then [char_of (192 + r div 64), char_of (128 + r mod 64)]
      else if r < 65536 then
        [char_of (224 + r div 4096), char_of (128 + (r div 64) mod 64), char_of (128 + r mod 64)]
      else
        [char_of (240 + r div 262144), char_of (128 + (r div 4096) mod 64),
         char_of (128 + (r div 64) mod 64), char_of (128 + r mod 64)])"

section \<open>The package strings\<close>

text \<open>The runes of \<^verbatim>\<open>unicode.IsSpace\<close>, by their encodings.\<close>

definition space_runes :: "string list" where
  "space_runes =
     [[CHR 0x09], [CHR 0x0A], [CHR 0x0B], [CHR 0x0C], [CHR 0x0D], [CHR 0x20],
      [CHR 0xC2, CHR 0x85], [CHR 0xC2, CHR 0xA0], [CHR 0xE1, CHR 0x9A, CHR 0x80],
      [CHR 0xE2, CHR 0x80, CHR 0x80], [CHR 0xE2, CHR 0x80, CHR 0x81],
      [CHR 0xE2, CHR 0x80, CHR 0x82], [CHR 0xE2, CHR 0x80, CHR 0x83],
      [CHR 0xE2, CHR 0x80, CHR 0x84], [CHR 0xE2, CHR 0x80, CHR 0x85],
      [CHR 0xE2, CHR 0x80, CHR 0x86], [CHR 0xE2, CHR 0x80, CHR 0x87],
      [CHR 0xE2, CHR 0x80, CHR 0x88], [CHR 0xE2, CHR 0x80, CHR 0x89],
      [CHR 0xE2, CHR 0x80, CHR 0x8A], [CHR 0xE2, CHR 0x80, CHR 0xA8],
      [CHR 0xE2, CHR 0x80, CHR 0xA9], [CHR 0xE2, CHR 0x80, CHR 0xAF],
      [CHR 0xE2, CHR 0x81, CHR 0x9F], [CHR 0xE3, CHR 0x80, CHR 0x80]]"

definition is_space :: "string \<Rightarrow> bool" where
  "is_space ch \<longleftrightarrow> ch \<in> set space_runes"

definition trim_chunks :: "string list \<Rightarrow> string list" where
  "trim_chunks chs = rev (dropWhile is_space (rev (dropWhile is_space chs)))"

definition TrimSpace :: "string \<Rightarrow> string" where
  "TrimSpace s = concat (trim_chunks (chunks s))"

lemma TrimSpace_Nil [simp]: "TrimSpace [] = []"
  by (simp add: TrimSpace_def trim_chunks_def)

text \<open>
  Trimming an ASCII string leaves it unchanged exactly when neither end is a space; the
  readable form that concrete names evaluate with.
\<close>

lemma trim_chunks_id:
  "chs \<noteq> [] \<Longrightarrow> \<not> is_space (hd chs) \<Longrightarrow> \<not> is_space (last chs) \<Longrightarrow> trim_chunks chs = chs"
proof -
  assume "chs \<noteq> []" "\<not> is_space (hd chs)" "\<not> is_space (last chs)"
  then have "dropWhile is_space chs = chs" and "dropWhile is_space (rev chs) = rev chs"
    by (cases chs, auto) (metis dropWhile.simps(2) hd_rev list.exhaust_sel rev_is_Nil_conv)
  then show ?thesis by (simp add: trim_chunks_def)
qed

section \<open>64-bit integers\<close>

text \<open>
  Go's \<^verbatim>\<open>int\<close> and \<^verbatim>\<open>time.Duration\<close> are 64-bit two's complement and wrap
  around silently.
\<close>

definition int64 :: "int \<Rightarrow> int" where
  "int64 i = sint (word_of_int i :: 64 word)"

definition mul64 :: "int \<Rightarrow> int \<Rightarrow> int" where
  "mul64 a b = int64 (a * b)"

definition int64_min :: int where "int64_min = - 9223372036854775808"
definition int64_max :: int where "int64_max = 9223372036854775807"

lemma int64_id: "int64_min \<le> i \<Longrightarrow> i \<le> int64_max \<Longrightarrow> int64 i = i"
  by (simp add: int64_def int64_min_def int64_max_def signed_of_int signed_take_bit_int_eq_self)

lemma int64_range: "int64_min \<le> int64 i \<and> int64 i \<le> int64_max"
  using sint_range_size [of "word_of_int i :: 64 word"]
  by (simp add: int64_def int64_min_def int64_max_def word_size)

definition Second :: go_duration where "Second = 1000000000"

section \<open>Errors\<close>

text \<open>
  The error values that reach DurableFlow's code.  \<open>ErrorString\<close> is
  \<^verbatim>\<open>errors.New\<close>, \<open>Wrap p e\<close> is \<^verbatim>\<open>fmt.Errorf\<close> with the text \<open>p\<close> before
  \<^verbatim>\<open>%w\<close>.  The others come from libraries: \<open>ErrNoRows\<close> is \<^verbatim>\<open>pgx.ErrNoRows\<close>,
  \<open>PgError c\<close> a server error with SQLSTATE \<open>c\<close>, \<open>DriverError\<close> any other failure of a
  client call (a lost connection, a parameter the driver cannot encode), \<open>RedisNil\<close> is
  \<^verbatim>\<open>redis.Nil\<close>, \<open>ContextError\<close> the error of a cancelled context, and the two JSON errors
  and \<open>TextError\<close> (of \<^verbatim>\<open>strconv\<close>, \<^verbatim>\<open>time\<close> and \<^verbatim>\<open>fmt.Sscan\<close>) carry the rejected input.
\<close>

datatype go_error =
    ErrorString string
  | Wrap string go_error
  | ErrNoRows
  | PgError string
  | DriverError string
  | RedisNil
  | ContextError string
  | JsonSyntaxError string
  | JsonTypeError string
  | TextError string

text \<open>\<^verbatim>\<open>errors.Is(err, target)\<close>: the chain of wrapped errors holds the target.\<close>

fun error_is :: "go_error \<Rightarrow> go_error \<Rightarrow> bool" where
  "error_is (Wrap p e) target = (Wrap p e = target \<or> error_is e target)"
| "error_is e target = (e = target)"

text \<open>
  \<^verbatim>\<open>err.Error()\<close>.  The texts of library errors are not part of this code: \<open>lib\<close>
  renders them.
\<close>

fun error_text :: "(go_error \<Rightarrow> string) \<Rightarrow> go_error \<Rightarrow> string" where
  "error_text lib (ErrorString s) = s"
| "error_text lib (Wrap p e) = p @ error_text lib e"
| "error_text lib e = lib e"

lemma error_is_refl [simp]: "error_is e e"
  by (cases e) auto

end
