(* ===== verification/GoJson.thy ===== *)
theory GoJson
  imports GoLib
begin

text \<open>
  The part of \<^verbatim>\<open>encoding/json\<close> that DurableFlow uses: the grammar check and decoding of
  \<^verbatim>\<open>json.Unmarshal\<close> (a byte automaton for the tokens and a pushdown automaton for the values,
  as the package's scanner is one), field matching, and the encoding of \<^verbatim>\<open>json.Marshal\<close>
  with its HTML-safe escapes.  Both automata read their input once and are structurally recursive,
  so no fuel is needed.

  The main results are \<open>json_decode_print_strings\<close>, the round trip of a flat object of strings
  through \<^verbatim>\<open>json.Marshal\<close> and \<^verbatim>\<open>json.Unmarshal\<close>, and the lexing lemmas it rests on.
\<close>

section \<open>Tokens\<close>

datatype json_token =
    TBeginObj | TEndObj | TBeginArr | TEndArr | TColon | TComma
  | TStr string | TNum string | TTrue | TFalse | TNull

datatype num_state = NNeg | NZero | NInt | NDot | NFrac | NExp | NExpSign | NExpDigits

text \<open>
  The modes of the byte automaton: between tokens; inside a string (the decoded bytes so far and a
  high surrogate that waits for its partner); after a backslash; inside the four digits of
  \<^verbatim>\<open>\u\<close>; inside a number; inside a literal (the bytes still expected).
\<close>

datatype lex_mode =
    LIdle
  | LStr string "nat option"
  | LEsc string "nat option"
  | LHex nat nat string "nat option"
  | LNum num_state string
  | LLit string json_token

definition is_digit :: "char \<Rightarrow> bool" where
  "is_digit c = byte_in 48 57 c"

definition hex_val :: "char \<Rightarrow> nat option" where
  "hex_val c =
     (let b = byte c in
      if 48 \<le> b \<and> b \<le> 57 then Some (b - 48)
      else if 97 \<le> b \<and> b \<le> 102 then Some (b - 87)
      else if 65 \<le> b \<and> b \<le> 70 then Some (b - 55)
      else None)"

definition flush :: "string \<Rightarrow> nat option \<Rightarrow> string" where
  "flush acc hi = (case hi of None \<Rightarrow> acc | Some _ \<Rightarrow> acc @ rune_error)"

definition esc_char :: "char \<Rightarrow> char option" where
  "esc_char c =
     (if c = CHR 0x22 then Some (CHR 0x22)
      else if c = CHR 0x5C then Some (CHR 0x5C)
      else if c = CHR 0x2F then Some (CHR 0x2F)
      else if c = CHR ''b'' then Some (CHR 0x08)
      else if c = CHR ''f'' then Some (CHR 0x0C)
      else if c = CHR ''n'' then Some (CHR 0x0A)
      else if c = CHR ''r'' then Some (CHR 0x0D)
      else if c = CHR ''t'' then Some (CHR 0x09)
      else None)"

definition num_step :: "num_state \<Rightarrow> char \<Rightarrow> num_state option" where
  "num_step st c =
     (let e = (c = CHR ''e'' \<or> c = CHR ''E'') in
      case st of
        NNeg \<Rightarrow> if c = CHR ''0'' then Some NZero else if is_digit c then Some NInt else None
      | NZero \<Rightarrow> if c = CHR ''.'' then Some NDot else if e then Some NExp else None
      | NInt \<Rightarrow> if is_digit c then Some NInt
               else if c = CHR ''.'' then Some NDot else if e then Some NExp else None
      | NDot \<Rightarrow> if is_digit c then Some NFrac else None
      | NFrac \<Rightarrow> if is_digit c then Some NFrac else if e then Some NExp else None
      | NExp \<Rightarrow> if c = CHR ''+'' \<or> c = CHR ''-'' then Some NExpSign
               else if is_digit c then Some NExpDigits else None
      | NExpSign \<Rightarrow> if is_digit c then Some NExpDigits else None
      | NExpDigits \<Rightarrow> if is_digit c then Some NExpDigits else None)"

definition num_final :: "num_state \<Rightarrow> bool" where
  "num_final st = (case st of NZero \<Rightarrow> True | NInt \<Rightarrow> True | NFrac \<Rightarrow> True | NExpDigits \<Rightarrow> True
                   | _ \<Rightarrow> False)"

definition idle_step :: "char \<Rightarrow> (lex_mode \<times> json_token list) option" where
  "idle_step c =
     (if c = CHR 0x20 \<or> c = CHR 0x09 \<or> c = CHR 0x0D \<or> c = CHR 0x0A then Some (LIdle, [])
      else if c = CHR 0x7B then Some (LIdle, [TBeginObj])
      else if c = CHR 0x7D then Some (LIdle, [TEndObj])
      else if c = CHR 0x5B then Some (LIdle, [TBeginArr])
      else if c = CHR 0x5D then Some (LIdle, [TEndArr])
      else if c = CHR 0x3A then Some (LIdle, [TColon])
      else if c = CHR 0x2C then Some (LIdle, [TComma])
      else if c = CHR 0x22 then Some (LStr [] None, [])
      else if c = CHR ''-'' then Some (LNum NNeg [c], [])
      else if c = CHR ''0'' then Some (LNum NZero [c], [])
      else if is_digit c then Some (LNum NInt [c], [])
      else if c = CHR ''t'' then Some (LLit ''rue'' TTrue, [])
      else if c = CHR ''f'' then Some (LLit ''alse'' TFalse, [])
      else if c = CHR ''n'' then Some (LLit ''ull'' TNull, [])
      else None)"

text \<open>
  A complete \<^verbatim>\<open>\uXXXX\<close>: a low surrogate completes a waiting high one, a high one waits, and
  a lone surrogate becomes U+FFFD.
\<close>

definition code_unit :: "nat \<Rightarrow> string \<Rightarrow> nat option \<Rightarrow> lex_mode" where
  "code_unit v acc hi =
     (case hi of
        Some h \<Rightarrow>
          if 56320 \<le> v \<and> v < 57344
          then LStr (acc @ utf8_encode (65536 + (h - 55296) * 1024 + (v - 56320))) None
          else if 55296 \<le> v \<and> v < 56320 then LStr (acc @ rune_error) (Some v)
          else LStr (acc @ rune_error @ utf8_encode v) None
      | None \<Rightarrow>
          if 55296 \<le> v \<and> v < 56320 then LStr acc (Some v)
          else if 56320 \<le> v \<and> v < 57344 then LStr (acc @ rune_error) None
          else LStr (acc @ utf8_encode v) None)"

fun lex_step :: "lex_mode \<Rightarrow> char \<Rightarrow> (lex_mode \<times> json_token list) option" where
  "lex_step LIdle c = idle_step c"
| "lex_step (LStr acc hi) c =
     (if c = CHR 0x22 then Some (LIdle, [TStr (flush acc hi)])
      else if c = CHR 0x5C then Some (LEsc acc hi, [])
      else if byte c < 32 then None
      else Some (LStr (flush acc hi @ [c]) None, []))"
| "lex_step (LEsc acc hi) c =
     (if c = CHR ''u'' then Some (LHex 0 0 acc hi, [])
      else case esc_char c of
             None \<Rightarrow> None
           | Some d \<Rightarrow> Some (LStr (flush acc hi @ [d]) None, []))"
| "lex_step (LHex k v acc hi) c =
     (case hex_val c of
        None \<Rightarrow> None
      | Some d \<Rightarrow>
          if k = 3 then Some (code_unit (16 * v + d) acc hi, [])
          else Some (LHex (k + 1) (16 * v + d) acc hi, []))"
| "lex_step (LNum st acc) c =
     (case num_step st c of
        Some st' \<Rightarrow> Some (LNum st' (acc @ [c]), [])
      | None \<Rightarrow>
          if num_final st
          then map_option (\<lambda>(m, ts). (m, TNum acc # ts)) (idle_step c)
          else None)"
| "lex_step (LLit rest tok) c =
     (case rest of
        [] \<Rightarrow> None
      | r # rs \<Rightarrow>
          if c = r then (if rs = [] then Some (LIdle, [tok]) else Some (LLit rs tok, []))
          else None)"

definition lex_end :: "lex_mode \<Rightarrow> json_token list option" where
  "lex_end m = (case m of LIdle \<Rightarrow> Some []
                | LNum st acc \<Rightarrow> if num_final st then Some [TNum acc] else None
                | _ \<Rightarrow> None)"

fun lex :: "lex_mode \<Rightarrow> string \<Rightarrow> json_token list option" where
  "lex m [] = lex_end m"
| "lex m (c # cs) =
     (case lex_step m c of
        None \<Rightarrow> None
      | Some (m', ts) \<Rightarrow> map_option (append ts) (lex m' cs))"

section \<open>Values\<close>

datatype json =
    JNull
  | JBool bool
  | JNum string
  | JStr string
  | JArr "json list"
  | JObj "(string \<times> json) list"

datatype json_frame = FArr "json list" | FObj "(string \<times> json) list" string

datatype parse_state =
    PVal | PValOrEnd
  | PElem "json list"
  | PKeyOrEnd
  | PKey "(string \<times> json) list"
  | PColon "(string \<times> json) list" string
  | PMem "(string \<times> json) list"
  | PDone json

type_synonym parse_conf = "parse_state \<times> json_frame list"

definition max_nesting_depth :: int where "max_nesting_depth = 10000"

fun deliver :: "json \<Rightarrow> json_frame list \<Rightarrow> parse_conf" where
  "deliver v [] = (PDone v, [])"
| "deliver v (FArr xs # st) = (PElem (xs @ [v]), st)"
| "deliver v (FObj ms k # st) = (PMem (ms @ [(k, v)]), st)"

definition begin_value :: "json_token \<Rightarrow> json_frame list \<Rightarrow> parse_conf option" where
  "begin_value t st =
     (case t of
        TStr s \<Rightarrow> Some (deliver (JStr s) st)
      | TNum n \<Rightarrow> Some (deliver (JNum n) st)
      | TTrue \<Rightarrow> Some (deliver (JBool True) st)
      | TFalse \<Rightarrow> Some (deliver (JBool False) st)
      | TNull \<Rightarrow> Some (deliver JNull st)
      | TBeginArr \<Rightarrow>
          if int (length st) < max_nesting_depth then Some (PValOrEnd, FArr [] # st) else None
      | TBeginObj \<Rightarrow>
          if int (length st) < max_nesting_depth then Some (PKeyOrEnd, st) else None
      | _ \<Rightarrow> None)"

definition parse_step :: "parse_conf \<Rightarrow> json_token \<Rightarrow> parse_conf option" where
  "parse_step conf t =
     (case conf of (p, st) \<Rightarrow>
      (case p of
         PVal \<Rightarrow> begin_value t st
       | PValOrEnd \<Rightarrow> if t = TEndArr then Some (deliver (JArr []) (tl st)) else begin_value t st
       | PElem xs \<Rightarrow>
           if t = TComma then Some (PVal, FArr xs # st)
           else if t = TEndArr then Some (deliver (JArr xs) st) else None
       | PKeyOrEnd \<Rightarrow>
           (case t of TStr k \<Rightarrow> Some (PColon [] k, st)
            | TEndObj \<Rightarrow> Some (deliver (JObj []) st) | _ \<Rightarrow> None)
       | PKey ms \<Rightarrow> (case t of TStr k \<Rightarrow> Some (PColon ms k, st) | _ \<Rightarrow> None)
       | PColon ms k \<Rightarrow> if t = TColon then Some (PVal, FObj ms k # st) else None
       | PMem ms \<Rightarrow>
           if t = TComma then Some (PKey ms, st)
           else if t = TEndObj then Some (deliver (JObj ms) st) else None
       | PDone v \<Rightarrow> None))"

fun parse_tokens :: "parse_conf \<Rightarrow> json_token list \<Rightarrow> json option" where
  "parse_tokens (p, st) [] = (case p of PDone v \<Rightarrow> Some v | _ \<Rightarrow> None)"
| "parse_tokens conf (t # ts) =
     (case parse_step conf t of None \<Rightarrow> None | Some conf' \<Rightarrow> parse_tokens conf' ts)"

text \<open>
  The value of a JSON text, or \<open>None\<close> when the text is not valid JSON.  Ill-formed UTF-8 is
  replaced first: outside strings the replacement is a syntax error as the raw byte is, and inside
  strings this is what the decoder does.
\<close>

definition json_decode :: "string \<Rightarrow> json option" where
  "json_decode s =
     (case lex LIdle (to_valid_utf8 s) of
        None \<Rightarrow> None
      | Some ts \<Rightarrow> parse_tokens (PVal, []) ts)"

section \<open>Decoding into Go values\<close>

text \<open>
  Field matching: an exact match of the key, else the first field equal under the package's
  case folding (the two non-ASCII runes that fold to ASCII letters are U+017F and U+212A).
\<close>

definition fold_chunk :: "string \<Rightarrow> string" where
  "fold_chunk ch =
     (if ch = [CHR 0xC5, CHR 0xBF] then ''S''
      else if ch = [CHR 0xE2, CHR 0x84, CHR 0xAA] then ''K''
      else map (\<lambda>c. if byte_in 97 122 c then char_of (byte c - 32) else c) ch)"

definition fold_name :: "string \<Rightarrow> string" where
  "fold_name k = concat (map fold_chunk (chunks k))"

definition match_field :: "string list \<Rightarrow> string \<Rightarrow> string option" where
  "match_field names k =
     (if k \<in> set names then Some k else find (\<lambda>n. fold_name n = fold_name k) names)"

text \<open>\<^verbatim>\<open>strconv.ParseInt(s, 10, 64)\<close> on a JSON number literal.\<close>

definition digits_val :: "string \<Rightarrow> int" where
  "digits_val ds = foldl (\<lambda>v c. 10 * v + (int (byte c) - 48)) 0 ds"

definition parse_int64 :: "string \<Rightarrow> int option" where
  "parse_int64 s =
     (let neg = (case s of [] \<Rightarrow> False | c # _ \<Rightarrow> c = CHR ''-'');
          ds = (if neg then tl s else s);
          v = (if neg then - digits_val ds else digits_val ds)
      in if ds \<noteq> [] \<and> list_all is_digit ds \<and> int64_min \<le> v \<and> v \<le> int64_max
         then Some v else None)"

text \<open>Each decoder takes the value already in the target; \<open>None\<close> is a type mismatch.\<close>

definition unmarshal_string :: "json \<Rightarrow> string \<Rightarrow> string option" where
  "unmarshal_string j old = (case j of JStr s \<Rightarrow> Some s | JNull \<Rightarrow> Some old | _ \<Rightarrow> None)"

definition unmarshal_int :: "json \<Rightarrow> int \<Rightarrow> int option" where
  "unmarshal_int j old = (case j of JNum n \<Rightarrow> parse_int64 n | JNull \<Rightarrow> Some old | _ \<Rightarrow> None)"

text \<open>An object into a struct: \<open>set_field\<close> stores the member that matches a field name.\<close>

fun unmarshal_members ::
  "string list \<Rightarrow> (string \<Rightarrow> json \<Rightarrow> 'a \<Rightarrow> 'a option) \<Rightarrow> (string \<times> json) list \<Rightarrow> 'a \<Rightarrow> 'a option"
where
  "unmarshal_members names set_field [] v = Some v"
| "unmarshal_members names set_field ((k, j) # ms) v =
     (case match_field names k of
        None \<Rightarrow> unmarshal_members names set_field ms v
      | Some f \<Rightarrow>
          (case set_field f j v of
             None \<Rightarrow> None
           | Some v' \<Rightarrow> unmarshal_members names set_field ms v'))"

definition unmarshal_struct ::
  "string list \<Rightarrow> (string \<Rightarrow> json \<Rightarrow> 'a \<Rightarrow> 'a option) \<Rightarrow> json \<Rightarrow> 'a \<Rightarrow> 'a option"
where
  "unmarshal_struct names set_field j v =
     (case j of JObj ms \<Rightarrow> unmarshal_members names set_field ms v | JNull \<Rightarrow> Some v | _ \<Rightarrow> None)"

text \<open>\<^verbatim>\<open>json.Unmarshal(raw, &v)\<close> with the decoder of the type of \<open>v\<close>.\<close>

definition json_unmarshal :: "(json \<Rightarrow> 'a option) \<Rightarrow> string \<Rightarrow> go_error + 'a" where
  "json_unmarshal dec raw =
     (case json_decode raw of
        None \<Rightarrow> Inl (JsonSyntaxError raw)
      | Some j \<Rightarrow> (case dec j of None \<Rightarrow> Inl (JsonTypeError raw) | Some v \<Rightarrow> Inr v))"

section \<open>Encoding\<close>

definition hex_digit :: "nat \<Rightarrow> char" where
  "hex_digit d = (if d < 10 then char_of (48 + d) else char_of (87 + d))"

definition quote_ascii :: "char \<Rightarrow> string" where
  "quote_ascii c =
     (if c = CHR 0x22 \<or> c = CHR 0x5C then [CHR 0x5C, c]
      else if c = CHR 0x08 then [CHR 0x5C, CHR ''b'']
      else if c = CHR 0x0C then [CHR 0x5C, CHR ''f'']
      else if c = CHR 0x0A then [CHR 0x5C, CHR ''n'']
      else if c = CHR 0x0D then [CHR 0x5C, CHR ''r'']
      else if c = CHR 0x09 then [CHR 0x5C, CHR ''t'']
      else if byte c < 32 \<or> c = CHR 0x3C \<or> c = CHR 0x3E \<or> c = CHR 0x26
      then [CHR 0x5C, CHR ''u'', CHR ''0'', CHR ''0'',
            hex_digit (byte c div 16), hex_digit (byte c mod 16)]
      else [c])"

definition quote_chunk :: "string \<Rightarrow> string" where
  "quote_chunk ch =
     (if \<not> valid_chunk ch then [CHR 0x5C] @ ''ufffd''
      else if ch = [CHR 0xE2, CHR 0x80, CHR 0xA8] then [CHR 0x5C] @ ''u2028''
      else if ch = [CHR 0xE2, CHR 0x80, CHR 0xA9] then [CHR 0x5C] @ ''u2029''
      else case ch of [c] \<Rightarrow> quote_ascii c | _ \<Rightarrow> ch)"

definition json_quote :: "string \<Rightarrow> string" where
  "json_quote s = [CHR 0x22] @ concat (map quote_chunk (chunks s)) @ [CHR 0x22]"

fun join_comma :: "string list \<Rightarrow> string" where
  "join_comma [] = []"
| "join_comma [x] = x"
| "join_comma (x # xs) = x @ [CHR 0x2C] @ join_comma xs"

fun json_print :: "json \<Rightarrow> string" where
  "json_print JNull = ''null''"
| "json_print (JBool b) = (if b then ''true'' else ''false'')"
| "json_print (JNum n) = n"
| "json_print (JStr s) = json_quote s"
| "json_print (JArr js) = [CHR 0x5B] @ join_comma (map json_print js) @ [CHR 0x5D]"
| "json_print (JObj ms) =
     [CHR 0x7B] @ join_comma (map (\<lambda>(k, j). json_quote k @ [CHR 0x3A] @ json_print j) ms) @ [CHR 0x7D]"

text \<open>\<^verbatim>\<open>json.Marshal\<close> never fails on the values this code builds.\<close>

definition json_marshal :: "json \<Rightarrow> go_error + string" where
  "json_marshal j = Inr (json_print j)"

section \<open>The round trip\<close>

subsection \<open>Runes\<close>

definition rune :: "string \<Rightarrow> bool" where
  "rune ch = (case ch of [] \<Rightarrow> False | c # cs \<Rightarrow> rune_len c cs = length ch)"

lemma short_list_cases:
  obtains "cs = []" | a where "cs = [a]" | a b where "cs = [a, b]"
    | a b d ds where "cs = a # b # d # ds"
  by (cases cs; cases "tl cs"; cases "tl (tl cs)") auto

lemma rune_len_append: "rune_len c cs \<noteq> 0 \<Longrightarrow> rune_len c (cs @ rest) = rune_len c cs"
  by (cases cs rule: short_list_cases; cases rest) (simp_all add: rune_len_def Let_def split: if_split_asm)

lemma rune_len_take: "rune_len c cs \<noteq> 0 \<Longrightarrow> rune_len c (take (rune_len c cs - 1) cs) = rune_len c cs"
  by (cases cs rule: short_list_cases) (simp_all add: rune_len_def Let_def split: if_split_asm)

lemma rune_len_le: "rune_len c cs \<le> Suc (length cs)"
  by (auto simp: rune_len_def Let_def split: list.splits)

lemma rune_len_Nil: "rune_len c [] \<noteq> 0 \<Longrightarrow> rune_len c cs = 1"
  by (auto simp: rune_len_def Let_def split: if_splits)

lemma chunks_rune_append: "rune ch \<Longrightarrow> chunks (ch @ rest) = ch # chunks rest"
proof -
  assume r: "rune ch"
  then obtain c cs where ch: "ch = c # cs" and n: "rune_len c cs = Suc (length cs)"
    by (cases ch) (auto simp: rune_def)
  then show ?thesis using rune_len_append [of c cs rest] by simp
qed

lemma chunks_runes: "list_all rune chs \<Longrightarrow> chunks (concat chs @ rest) = chs @ chunks rest"
  by (induction chs) (auto simp: chunks_rune_append)

lemma valid_chunk_rune: "ch \<in> set (chunks s) \<Longrightarrow> valid_chunk ch \<Longrightarrow> rune ch"
proof (induction s rule: chunks.induct)
  case 1
  then show ?case by simp
next
  case (2 c cs)
  show ?case
  proof (cases "ch = c # take (rune_len c cs - 1) cs")
    case True
    with "2.prems"(2) have nz: "rune_len c (take (rune_len c cs - 1) cs) \<noteq> 0"
      by (simp add: valid_chunk_def)
    then have "rune_len c cs \<noteq> 0"
      using rune_len_Nil [of c cs] by (cases "rune_len c cs") auto
    then show ?thesis
      using True rune_len_take [of c cs] rune_len_le [of c cs] by (auto simp: rune_def)
  next
    case False
    with 2 show ?thesis by simp
  qed
qed

lemma rune_valid_chunk: "rune ch \<Longrightarrow> valid_chunk ch"
  by (auto simp: rune_def valid_chunk_def split: list.splits)

lemma utf8_valid_runes: "utf8_valid s \<longleftrightarrow> list_all rune (chunks s)"
  by (auto simp: utf8_valid_def list_all_iff dest: valid_chunk_rune rune_valid_chunk)

lemma utf8_valid_concat: "list_all rune chs \<Longrightarrow> utf8_valid (concat chs)"
  using chunks_runes [of chs "[]"] by (simp add: utf8_valid_runes)

lemma utf8_valid_append: "utf8_valid a \<Longrightarrow> utf8_valid b \<Longrightarrow> utf8_valid (a @ b)"
  using utf8_valid_concat [of "chunks a @ chunks b"] by (simp add: utf8_valid_runes)

lemma utf8_valid_Nil [simp]: "utf8_valid []"
  by (simp add: utf8_valid_def)

lemma utf8_valid_concat_list: "list_all utf8_valid xs \<Longrightarrow> utf8_valid (concat xs)"
  by (induction xs) (auto intro: utf8_valid_append)

text \<open>The bytes of a rune of more than one byte are all outside ASCII.\<close>

lemma rune_high: "rune (c # d # ds) \<Longrightarrow> list_all (\<lambda>x. 128 \<le> byte x) (c # d # ds)"
  by (auto simp: rune_def rune_len_def Let_def byte_in_def split: list.splits if_splits)

lemma rune_single: "rune [c] \<longleftrightarrow> byte c < 128"
  by (auto simp: rune_def rune_len_def Let_def split: list.splits if_splits)

subsection \<open>Lexing a quoted string\<close>

lemma map_option_append_Nil [simp]: "map_option (append []) x = x"
  by (cases x) auto

lemma map_option_append_append:
  "map_option (append xs) (map_option (append ys) z) = map_option (append (xs @ ys)) z"
  by (cases z) auto

lemma lex_plain:
  "c \<noteq> CHR 0x22 \<Longrightarrow> c \<noteq> CHR 0x5C \<Longrightarrow> 32 \<le> byte c \<Longrightarrow>
   lex (LStr acc None) (c # rest) = lex (LStr (acc @ [c]) None) rest"
  by (simp add: flush_def)

lemma byte_lits: "byte (CHR 0x22) = 34" "byte (CHR 0x5C) = 92"
  by (simp_all add: byte_def)

lemma lex_high:
  "list_all (\<lambda>x. 128 \<le> byte x) ch \<Longrightarrow>
   lex (LStr acc None) (ch @ rest) = lex (LStr (acc @ ch) None) rest"
proof (induction ch arbitrary: acc)
  case Nil
  then show ?case by simp
next
  case (Cons c cs)
  then have "128 \<le> byte c" by simp
  then have "c \<noteq> CHR 0x22" "c \<noteq> CHR 0x5C" "32 \<le> byte c"
    by (auto simp: byte_lits)
  with Cons show ?case using lex_plain [of c acc "cs @ rest"] by simp
qed

lemma byte_lt: "byte c < 256"
  by (simp add: byte_def)

lemma char_of_byte [simp]: "char_of (byte c) = c"
  by (simp add: byte_def)

lemma byte_char_of: "n < 256 \<Longrightarrow> byte (char_of n) = n"
  by (simp add: byte_def of_char_of)

lemma hex_val_digit: "d < 16 \<Longrightarrow> hex_val (hex_digit d) = Some d"
  by (auto simp: hex_val_def hex_digit_def byte_char_of Let_def)

lemma hex_val_0 [simp]: "hex_val (CHR ''0'') = Some 0"
  by (simp add: hex_val_def byte_def)

lemma lex_control:
  assumes "n < 64"
  shows "lex (LStr acc None)
      ([CHR 0x5C, CHR ''u'', CHR ''0'', CHR ''0'', hex_digit (n div 16), hex_digit (n mod 16)] @ rest)
    = lex (LStr (acc @ [char_of n]) None) rest"
  using assms
  by (simp add: hex_val_digit code_unit_def utf8_encode_def Let_def)

lemma quote_ascii_short_lex:
  "lex (LStr acc None) (CHR 0x5C # CHR 0x22 # rest) = lex (LStr (acc @ [CHR 0x22]) None) rest"
  "lex (LStr acc None) (CHR 0x5C # CHR 0x5C # rest) = lex (LStr (acc @ [CHR 0x5C]) None) rest"
  "lex (LStr acc None) (CHR 0x5C # CHR ''b'' # rest) = lex (LStr (acc @ [CHR 0x08]) None) rest"
  "lex (LStr acc None) (CHR 0x5C # CHR ''f'' # rest) = lex (LStr (acc @ [CHR 0x0C]) None) rest"
  "lex (LStr acc None) (CHR 0x5C # CHR ''n'' # rest) = lex (LStr (acc @ [CHR 0x0A]) None) rest"
  "lex (LStr acc None) (CHR 0x5C # CHR ''r'' # rest) = lex (LStr (acc @ [CHR 0x0D]) None) rest"
  "lex (LStr acc None) (CHR 0x5C # CHR ''t'' # rest) = lex (LStr (acc @ [CHR 0x09]) None) rest"
  by (simp_all add: esc_char_def flush_def)

lemma hex_escaped_byte:
  "byte c < 32 \<or> c = CHR 0x3C \<or> c = CHR 0x3E \<or> c = CHR 0x26 \<Longrightarrow> byte c < 64"
  by (elim disjE) (simp_all add: byte_def)

lemma if_choice: "(b \<Longrightarrow> P x) \<Longrightarrow> (\<not> b \<Longrightarrow> P y) \<Longrightarrow> P (if b then x else y)"
  by simp

lemma quote_ascii_lex:
  "lex (LStr acc None) (quote_ascii c @ rest) = lex (LStr (acc @ [c]) None) rest"
proof -
  let ?P = "\<lambda>q. lex (LStr acc None) (q @ rest) = lex (LStr (acc @ [c]) None) rest"
  have short: "?P [CHR 0x5C, c]" if "c = CHR 0x22 \<or> c = CHR 0x5C"
    using that by (elim disjE) (simp_all only: append_Cons append_Nil quote_ascii_short_lex)
  have hex: "?P [CHR 0x5C, CHR ''u'', CHR ''0'', CHR ''0'', hex_digit (byte c div 16), hex_digit (byte c mod 16)]"
    if "byte c < 32 \<or> c = CHR 0x3C \<or> c = CHR 0x3E \<or> c = CHR 0x26"
    using lex_control [OF hex_escaped_byte [OF that], of acc rest] by (simp only: char_of_byte)
  have plain: "?P [c]" if "\<not> (c = CHR 0x22 \<or> c = CHR 0x5C)" "\<not> (byte c < 32 \<or> Q)" for Q
  proof -
    from that have "c \<noteq> CHR 0x22" "c \<noteq> CHR 0x5C" "32 \<le> byte c" by (blast, blast, linarith)
    from lex_plain [OF this] show ?thesis by (simp only: append_Cons append_Nil)
  qed
  show ?thesis
    unfolding quote_ascii_def
    by (intro if_choice [where P = ?P] short hex plain; assumption?)
       (simp_all only: append_Cons append_Nil quote_ascii_short_lex)
qed

lemma char_of_lits:
  "char_of (226::nat) = CHR 0xE2" "char_of (128::nat) = CHR 0x80"
  "char_of (168::nat) = CHR 0xA8" "char_of (169::nat) = CHR 0xA9"
  by code_simp+

lemma lex_u2028:
  "lex (LStr acc None) ([CHR 0x5C] @ ''u2028'' @ rest) =
     lex (LStr (acc @ [CHR 0xE2, CHR 0x80, CHR 0xA8]) None) rest"
  "lex (LStr acc None) ([CHR 0x5C] @ ''u2029'' @ rest) =
     lex (LStr (acc @ [CHR 0xE2, CHR 0x80, CHR 0xA9]) None) rest"
  by (simp_all add: hex_val_def byte_def code_unit_def utf8_encode_def Let_def char_of_lits)

lemma quote_chunk_lex:
  assumes "rune ch"
  shows "lex (LStr acc None) (quote_chunk ch @ rest) = lex (LStr (acc @ ch) None) rest"
proof -
  from assms have v: "valid_chunk ch" by (rule rune_valid_chunk)
  from assms obtain c cs where ch: "ch = c # cs" by (cases ch) (auto simp: rune_def)
  show ?thesis
  proof (cases cs)
    case Nil
    with assms ch have "byte c < 128" by (simp add: rune_single)
    with v ch Nil show ?thesis by (simp add: quote_chunk_def quote_ascii_lex)
  next
    case (Cons d ds)
    with assms ch have "list_all (\<lambda>x. 128 \<le> byte x) ch" using rune_high by blast
    with v ch Cons show ?thesis
      using lex_u2028 [of acc rest] lex_high [of ch acc rest] by (auto simp: quote_chunk_def)
  qed
qed

lemma quote_chunks_lex:
  "list_all rune chs \<Longrightarrow>
   lex (LStr acc None) (concat (map quote_chunk chs) @ rest) = lex (LStr (acc @ concat chs) None) rest"
  by (induction chs arbitrary: acc) (auto simp: quote_chunk_lex)

lemma json_quote_lex:
  "utf8_valid s \<Longrightarrow> lex LIdle (json_quote s @ rest) = map_option (append [TStr s]) (lex LIdle rest)"
  using quote_chunks_lex [of "chunks s" "[]" "CHR 0x22 # rest"]
  by (simp add: json_quote_def idle_step_def utf8_valid_runes flush_def)

lemma ascii_append [simp]: "ascii (a @ b) \<longleftrightarrow> ascii a \<and> ascii b"
  by (simp add: ascii_def)

lemma hex_digit_ascii: "d < 16 \<Longrightarrow> byte (hex_digit d) < 128"
  by (auto simp: hex_digit_def byte_char_of)

lemma quote_ascii_ascii: "byte c < 128 \<Longrightarrow> ascii (quote_ascii c)"
  using hex_digit_ascii [of "byte c div 16"] hex_digit_ascii [of "byte c mod 16"]
  by (auto simp: quote_ascii_def ascii_def byte_def)

lemma utf8_valid_quote_chunk: "rune ch \<Longrightarrow> utf8_valid (quote_chunk ch)"
proof -
  assume r: "rune ch"
  have self: "utf8_valid ch" using utf8_valid_concat [of "[ch]"] r by simp
  have lit: "utf8_valid (CHR 0x5C # ''u2028'')" "utf8_valid (CHR 0x5C # ''u2029'')"
    by (rule utf8_valid_ascii, simp add: ascii_def byte_def)+
  have single: "utf8_valid (quote_ascii c)" if "rune [c]" for c
    using that by (auto simp: rune_single intro: utf8_valid_ascii quote_ascii_ascii)
  show ?thesis
    using self lit single r rune_valid_chunk [OF r] by (auto simp: quote_chunk_def split: list.split)
qed

lemma utf8_valid_json_quote: "utf8_valid s \<Longrightarrow> utf8_valid (json_quote s)"
proof -
  assume "utf8_valid s"
  then have "list_all rune (chunks s)" by (simp add: utf8_valid_runes)
  then have "list_all utf8_valid (map quote_chunk (chunks s))"
    by (auto simp: list_all_iff intro: utf8_valid_quote_chunk)
  then have "utf8_valid (concat (map quote_chunk (chunks s)))" by (rule utf8_valid_concat_list)
  moreover have "utf8_valid [CHR 0x22]" by (rule utf8_valid_ascii) (simp add: ascii_def byte_def)
  ultimately show ?thesis unfolding json_quote_def by (intro utf8_valid_append)
qed

subsection \<open>Flat objects of strings\<close>

definition string_obj :: "(string \<times> string) list \<Rightarrow> json" where
  "string_obj kvs = JObj (map (\<lambda>(k, v). (k, JStr v)) kvs)"

definition member_text :: "string \<times> string \<Rightarrow> string" where
  "member_text kv = json_quote (fst kv) @ [CHR 0x3A] @ json_quote (snd kv)"

lemma json_print_string_obj:
  "json_print (string_obj kvs) = [CHR 0x7B] @ join_comma (map member_text kvs) @ [CHR 0x7D]"
  by (simp add: string_obj_def member_text_def [abs_def] case_prod_beta comp_def)

definition members_valid :: "(string \<times> string) list \<Rightarrow> bool" where
  "members_valid kvs = list_all (\<lambda>(k, v). utf8_valid k \<and> utf8_valid v) kvs"

fun member_tokens :: "(string \<times> string) list \<Rightarrow> json_token list" where
  "member_tokens [] = []"
| "member_tokens [kv] = [TStr (fst kv), TColon, TStr (snd kv)]"
| "member_tokens (kv # kvs) = [TStr (fst kv), TColon, TStr (snd kv), TComma] @ member_tokens kvs"

lemma lex_punct:
  "lex LIdle (CHR 0x3A # r) = map_option (append [TColon]) (lex LIdle r)"
  "lex LIdle (CHR 0x2C # r) = map_option (append [TComma]) (lex LIdle r)"
  by (simp_all add: idle_step_def)

lemma lex_member:
  assumes "utf8_valid k" and "utf8_valid v"
  shows "lex LIdle (member_text (k, v) @ rest) =
     map_option (append [TStr k, TColon, TStr v]) (lex LIdle rest)"
proof -
  have "lex LIdle (json_quote k @ CHR 0x3A # json_quote v @ rest) =
      map_option (append ([TStr k] @ [TColon] @ [TStr v])) (lex LIdle rest)"
    unfolding json_quote_lex [OF assms(1)] lex_punct json_quote_lex [OF assms(2)]
      map_option_append_append ..
  then show ?thesis by (simp add: member_text_def)
qed

lemma lex_members:
  "members_valid kvs \<Longrightarrow>
   lex LIdle (join_comma (map member_text kvs) @ rest) =
     map_option (append (member_tokens kvs)) (lex LIdle rest)"
proof (induction kvs rule: member_tokens.induct)
  case 1
  then show ?case by (simp add: option.map_ident)
next
  case (2 kv)
  then have "utf8_valid (fst kv)" "utf8_valid (snd kv)" by (auto simp: members_valid_def)
  from lex_member [OF this, of rest] show ?case
    by (simp only: list.map join_comma.simps member_tokens.simps prod.collapse)
next
  case (3 kv kv' kvs)
  let ?tail = "join_comma (map member_text (kv' # kvs)) @ rest"
  from "3.prems" have v: "utf8_valid (fst kv)" "utf8_valid (snd kv)" "members_valid (kv' # kvs)"
    by (auto simp: members_valid_def)
  have "lex LIdle (member_text (fst kv, snd kv) @ CHR 0x2C # ?tail) =
      map_option (append ([TStr (fst kv), TColon, TStr (snd kv)] @ [TComma] @ member_tokens (kv' # kvs)))
        (lex LIdle rest)"
    unfolding lex_member [OF v(1,2)] lex_punct "3.IH" [OF v(3)] map_option_append_append ..
  then show ?case by (cases "lex LIdle rest") simp_all
qed

lemma parse_members:
  "kvs \<noteq> [] \<Longrightarrow>
   parse_tokens (PKey ms, []) (member_tokens kvs @ [TEndObj]) =
     Some (JObj (ms @ map (\<lambda>(k, v). (k, JStr v)) kvs))"
  by (induction kvs arbitrary: ms rule: member_tokens.induct)
     (auto simp: parse_step_def begin_value_def)

lemma parse_members_fresh:
  "parse_tokens (PKeyOrEnd, []) (member_tokens kvs @ [TEndObj]) =
     Some (JObj (map (\<lambda>(k, v). (k, JStr v)) kvs))"
proof (cases kvs)
  case Nil
  then show ?thesis by (simp add: parse_step_def)
next
  case (Cons kv rest)
  then have "parse_tokens (PKeyOrEnd, []) (member_tokens kvs @ [TEndObj]) =
      parse_tokens (PKey [], []) (member_tokens kvs @ [TEndObj])"
    by (cases rest) (simp_all add: parse_step_def)
  with Cons show ?thesis by (simp add: parse_members)
qed

lemma utf8_valid_join_comma: "list_all utf8_valid xs \<Longrightarrow> utf8_valid (join_comma xs)"
proof (induction xs rule: join_comma.induct)
  case (3 x y xs)
  have "utf8_valid [CHR 0x2C]" by (rule utf8_valid_ascii) (simp add: ascii_def byte_def)
  with 3 show ?case by (simp only: join_comma.simps) (intro utf8_valid_append; simp)
qed auto

lemma utf8_valid_member: "utf8_valid k \<Longrightarrow> utf8_valid v \<Longrightarrow> utf8_valid (member_text (k, v))"
proof -
  assume kv: "utf8_valid k" "utf8_valid v"
  have "utf8_valid [CHR 0x3A]" by (rule utf8_valid_ascii) (simp add: ascii_def byte_def)
  with kv show ?thesis
    unfolding member_text_def fst_conv snd_conv by (intro utf8_valid_append utf8_valid_json_quote)
qed

lemma utf8_valid_print_string_obj: "members_valid kvs \<Longrightarrow> utf8_valid (json_print (string_obj kvs))"
proof -
  assume v: "members_valid kvs"
  then have "utf8_valid (join_comma (map member_text kvs))"
    by (intro utf8_valid_join_comma)
       (auto simp: members_valid_def list_all_iff intro: utf8_valid_member)
  moreover have "utf8_valid [CHR 0x7B]" "utf8_valid [CHR 0x7D]"
    by (rule utf8_valid_ascii, simp add: ascii_def byte_def)+
  ultimately show ?thesis unfolding json_print_string_obj by (intro utf8_valid_append)
qed

lemma json_decode_print_strings:
  assumes "members_valid kvs"
  shows "json_decode (json_print (string_obj kvs)) = Some (string_obj kvs)"
proof -
  let ?rest = "[CHR 0x7D]"
  have "lex LIdle (json_print (string_obj kvs)) = Some (TBeginObj # member_tokens kvs @ [TEndObj])"
    using lex_members [OF assms, of ?rest]
    by (simp add: json_print_string_obj idle_step_def lex_end_def)
  moreover have "parse_tokens (PVal, []) (TBeginObj # member_tokens kvs @ [TEndObj]) =
      Some (string_obj kvs)"
    using parse_members_fresh [of kvs]
    by (simp add: parse_step_def begin_value_def max_nesting_depth_def string_obj_def)
  ultimately show ?thesis
    using to_valid_utf8_id [OF utf8_valid_print_string_obj [OF assms]]
    by (simp add: json_decode_def)
qed

end
