(* ===== verification/Domain.thy ===== *)
theory Domain
  imports GoJson
begin

text \<open>
  \<^verbatim>\<open>internal/domain/models.go\<close>: the status constants, the structs the components exchange, and
  the JSON decoding and encoding that the struct tags give them.  A \<^verbatim>\<open>json.RawMessage\<close> is its
  bytes (nil and empty are both \<open>[]\<close>: the code only asks for its length), a
  \<^verbatim>\<open>*time.Time\<close> an option.  Struct fields carry a short prefix, since two structs may share a
  field name.

  \<open>payload_roundtrip\<close> and \<open>message_roundtrip\<close> (theory \<open>Queue\<close>) are the encode/decode laws.
\<close>

section \<open>Status constants\<close>

definition WorkflowDefinitionStatusActive :: string where
  "WorkflowDefinitionStatusActive = ''active''"

definition ExecutionStatusRunning :: string where "ExecutionStatusRunning = ''running''"
definition ExecutionStatusSucceeded :: string where "ExecutionStatusSucceeded = ''succeeded''"
definition ExecutionStatusFailed :: string where "ExecutionStatusFailed = ''failed''"

definition TaskStatusPending :: string where "TaskStatusPending = ''pending''"
definition TaskStatusRunning :: string where "TaskStatusRunning = ''running''"
definition TaskStatusSucceeded :: string where "TaskStatusSucceeded = ''succeeded''"
definition TaskStatusFailed :: string where "TaskStatusFailed = ''failed''"
definition TaskStatusDeadLettered :: string where "TaskStatusDeadLettered = ''dead_lettered''"

definition TaskAttemptStatusRunning :: string where "TaskAttemptStatusRunning = ''running''"
definition TaskAttemptStatusSucceeded :: string where "TaskAttemptStatusSucceeded = ''succeeded''"
definition TaskAttemptStatusFailed :: string where "TaskAttemptStatusFailed = ''failed''"

definition IdempotencyStatusInProgress :: string where
  "IdempotencyStatusInProgress = ''in_progress''"
definition IdempotencyStatusCompleted :: string where
  "IdempotencyStatusCompleted = ''completed''"

lemma task_status_distinct [simp]:
  "TaskStatusPending \<noteq> TaskStatusRunning" "TaskStatusRunning \<noteq> TaskStatusPending"
  "TaskStatusPending \<noteq> TaskStatusSucceeded" "TaskStatusSucceeded \<noteq> TaskStatusPending"
  "TaskStatusPending \<noteq> TaskStatusDeadLettered" "TaskStatusDeadLettered \<noteq> TaskStatusPending"
  "TaskStatusRunning \<noteq> TaskStatusSucceeded" "TaskStatusSucceeded \<noteq> TaskStatusRunning"
  "TaskStatusRunning \<noteq> TaskStatusDeadLettered" "TaskStatusDeadLettered \<noteq> TaskStatusRunning"
  "TaskStatusSucceeded \<noteq> TaskStatusDeadLettered" "TaskStatusDeadLettered \<noteq> TaskStatusSucceeded"
  by (simp_all add: TaskStatusPending_def TaskStatusRunning_def TaskStatusSucceeded_def
      TaskStatusDeadLettered_def)

lemma execution_status_distinct [simp]:
  "ExecutionStatusRunning \<noteq> ExecutionStatusSucceeded"
  "ExecutionStatusSucceeded \<noteq> ExecutionStatusRunning"
  "ExecutionStatusRunning \<noteq> ExecutionStatusFailed" "ExecutionStatusFailed \<noteq> ExecutionStatusRunning"
  "ExecutionStatusSucceeded \<noteq> ExecutionStatusFailed"
  "ExecutionStatusFailed \<noteq> ExecutionStatusSucceeded"
  by (simp_all add: ExecutionStatusRunning_def ExecutionStatusSucceeded_def ExecutionStatusFailed_def)

lemma attempt_status_distinct [simp]:
  "TaskAttemptStatusRunning \<noteq> TaskAttemptStatusSucceeded"
  "TaskAttemptStatusSucceeded \<noteq> TaskAttemptStatusRunning"
  "TaskAttemptStatusRunning \<noteq> TaskAttemptStatusFailed"
  "TaskAttemptStatusFailed \<noteq> TaskAttemptStatusRunning"
  "TaskAttemptStatusSucceeded \<noteq> TaskAttemptStatusFailed"
  "TaskAttemptStatusFailed \<noteq> TaskAttemptStatusSucceeded"
  by (simp_all add: TaskAttemptStatusRunning_def TaskAttemptStatusSucceeded_def
      TaskAttemptStatusFailed_def)

lemma idempotency_status_distinct [simp]:
  "IdempotencyStatusInProgress \<noteq> IdempotencyStatusCompleted"
  "IdempotencyStatusCompleted \<noteq> IdempotencyStatusInProgress"
  by (simp_all add: IdempotencyStatusInProgress_def IdempotencyStatusCompleted_def)

text \<open>The values a status column may take.\<close>

definition task_statuses :: "string list" where
  "task_statuses = [TaskStatusPending, TaskStatusRunning, TaskStatusSucceeded, TaskStatusDeadLettered]"

definition execution_statuses :: "string list" where
  "execution_statuses = [ExecutionStatusRunning, ExecutionStatusSucceeded, ExecutionStatusFailed]"

definition attempt_statuses :: "string list" where
  "attempt_statuses =
     [TaskAttemptStatusRunning, TaskAttemptStatusSucceeded, TaskAttemptStatusFailed]"

lemmas status_sets = task_statuses_def execution_statuses_def attempt_statuses_def

section \<open>Workflow definitions\<close>

record WorkflowTaskSpec =
  spec_Name :: string
  spec_HandlerKey :: string
  spec_MaxAttempts :: int
  spec_BackoffSeconds :: int
  spec_NextTask :: string

record WorkflowDefinitionSpec =
  spec_EntryTask :: string
  spec_Tasks :: "WorkflowTaskSpec list"

record WorkflowDefinition =
  def_ID :: string
  def_Name :: string
  def_Description :: string
  def_Version :: int
  def_Status :: string
  def_DefinitionJSON :: string
  def_CreatedAt :: go_time
  def_UpdatedAt :: go_time

section \<open>Executions, tasks, attempts\<close>

record WorkflowExecution =
  exec_ID :: string
  exec_WorkflowDefinitionID :: string
  exec_Status :: string
  exec_InputJSON :: string
  exec_OutputJSON :: string
  exec_ErrorText :: string
  exec_CreatedAt :: go_time
  exec_UpdatedAt :: go_time
  exec_StartedAt :: "go_time option"
  exec_CompletedAt :: "go_time option"

record TaskInstance =
  task_ID :: string
  task_WorkflowExecutionID :: string
  task_TaskName :: string
  task_HandlerKey :: string
  task_Status :: string
  task_InputJSON :: string
  task_OutputJSON :: string
  task_NextRunAt :: "go_time option"
  task_LastErrorText :: string
  task_AttemptsTotal :: int
  task_IdempotencyKey :: string
  task_DispatchedAt :: "go_time option"
  task_CompletedAt :: "go_time option"
  task_CreatedAt :: go_time
  task_UpdatedAt :: go_time

record TaskAttempt =
  att_ID :: string
  att_TaskInstanceID :: string
  att_AttemptNumber :: int
  att_Status :: string
  att_StartedAt :: go_time
  att_FinishedAt :: "go_time option"
  att_ErrorText :: string
  att_OutputJSON :: string
  att_CreatedAt :: go_time

record OutboxEvent =
  evt_ID :: string
  evt_AggregateType :: string
  evt_AggregateID :: string
  evt_EventType :: string
  evt_PayloadJSON :: string
  evt_AvailableAt :: go_time
  evt_DispatchedAt :: "go_time option"
  evt_AttemptCount :: int
  evt_LastErrorText :: string
  evt_CreatedAt :: go_time

record DispatchTaskPayload =
  pay_TaskID :: string
  pay_ExecutionID :: string
  pay_HandlerKey :: string

record ExecutionStartResult =
  start_Execution :: WorkflowExecution
  start_Task :: TaskInstance

record TaskSnapshot =
  snap_Task :: TaskInstance
  snap_Attempts :: "TaskAttempt list"

record ExecutionSnapshot =
  snap_Execution :: WorkflowExecution
  snap_Tasks :: "TaskSnapshot list"

section \<open>JSON of the definition\<close>

definition zero_task_spec :: WorkflowTaskSpec where
  "zero_task_spec = \<lparr>spec_Name = [], spec_HandlerKey = [], spec_MaxAttempts = 0,
     spec_BackoffSeconds = 0, spec_NextTask = []\<rparr>"

definition set_task_spec_field :: "string \<Rightarrow> json \<Rightarrow> WorkflowTaskSpec \<Rightarrow> WorkflowTaskSpec option" where
  "set_task_spec_field f j t =
     (if f = ''name'' then map_option (\<lambda>s. t\<lparr>spec_Name := s\<rparr>) (unmarshal_string j (spec_Name t))
      else if f = ''handler_key'' then
        map_option (\<lambda>s. t\<lparr>spec_HandlerKey := s\<rparr>) (unmarshal_string j (spec_HandlerKey t))
      else if f = ''max_attempts'' then
        map_option (\<lambda>n. t\<lparr>spec_MaxAttempts := n\<rparr>) (unmarshal_int j (spec_MaxAttempts t))
      else if f = ''backoff_seconds'' then
        map_option (\<lambda>n. t\<lparr>spec_BackoffSeconds := n\<rparr>) (unmarshal_int j (spec_BackoffSeconds t))
      else map_option (\<lambda>s. t\<lparr>spec_NextTask := s\<rparr>) (unmarshal_string j (spec_NextTask t)))"

definition unmarshal_task_spec :: "json \<Rightarrow> WorkflowTaskSpec \<Rightarrow> WorkflowTaskSpec option" where
  "unmarshal_task_spec =
     unmarshal_struct [''name'', ''handler_key'', ''max_attempts'', ''backoff_seconds'', ''next_task'']
       set_task_spec_field"

text \<open>
  An array into a slice: element \<open>i\<close> is decoded over what the slice's backing array already
  holds at \<open>i\<close> (which only a repeated key of the same object can make different from zero).
\<close>

fun unmarshal_elems :: "json list \<Rightarrow> WorkflowTaskSpec list \<Rightarrow> WorkflowTaskSpec list option" where
  "unmarshal_elems [] backing = Some []"
| "unmarshal_elems (j # js) backing =
     (case unmarshal_task_spec j (case backing of [] \<Rightarrow> zero_task_spec | b # _ \<Rightarrow> b) of
        None \<Rightarrow> None
      | Some t \<Rightarrow> map_option (Cons t) (unmarshal_elems js (tl backing)))"

text \<open>The struct being decoded, with the backing array of its slice.\<close>

record spec_decoding =
  sd_EntryTask :: string
  sd_Tasks :: "WorkflowTaskSpec list"
  sd_Backing :: "WorkflowTaskSpec list"

definition set_spec_field :: "string \<Rightarrow> json \<Rightarrow> spec_decoding \<Rightarrow> spec_decoding option" where
  "set_spec_field f j d =
     (if f = ''entry_task'' then
        map_option (\<lambda>s. d\<lparr>sd_EntryTask := s\<rparr>) (unmarshal_string j (sd_EntryTask d))
      else
        (case j of
           JNull \<Rightarrow> Some (d\<lparr>sd_Tasks := [], sd_Backing := []\<rparr>)
         | JArr [] \<Rightarrow> Some (d\<lparr>sd_Tasks := [], sd_Backing := []\<rparr>)
         | JArr js \<Rightarrow>
             map_option
               (\<lambda>ts. d\<lparr>sd_Tasks := ts, sd_Backing := ts @ drop (length ts) (sd_Backing d)\<rparr>)
               (unmarshal_elems js (sd_Backing d))
         | _ \<Rightarrow> None))"

definition unmarshal_spec :: "json \<Rightarrow> WorkflowDefinitionSpec option" where
  "unmarshal_spec j =
     map_option (\<lambda>d. \<lparr>spec_EntryTask = sd_EntryTask d, spec_Tasks = sd_Tasks d\<rparr>)
       (unmarshal_struct [''entry_task'', ''tasks''] set_spec_field j
          \<lparr>sd_EntryTask = [], sd_Tasks = [], sd_Backing = []\<rparr>)"

section \<open>JSON of the dispatch payload\<close>

definition payload_members :: "DispatchTaskPayload \<Rightarrow> (string \<times> string) list" where
  "payload_members p =
     [(''task_id'', pay_TaskID p), (''execution_id'', pay_ExecutionID p),
      (''handler_key'', pay_HandlerKey p)]"

definition marshal_payload :: "DispatchTaskPayload \<Rightarrow> go_error + string" where
  "marshal_payload p = json_marshal (string_obj (payload_members p))"

definition set_payload_field :: "string \<Rightarrow> json \<Rightarrow> DispatchTaskPayload \<Rightarrow> DispatchTaskPayload option"
where
  "set_payload_field f j p =
     (if f = ''task_id'' then
        map_option (\<lambda>s. p\<lparr>pay_TaskID := s\<rparr>) (unmarshal_string j (pay_TaskID p))
      else if f = ''execution_id'' then
        map_option (\<lambda>s. p\<lparr>pay_ExecutionID := s\<rparr>) (unmarshal_string j (pay_ExecutionID p))
      else map_option (\<lambda>s. p\<lparr>pay_HandlerKey := s\<rparr>) (unmarshal_string j (pay_HandlerKey p)))"

definition unmarshal_payload :: "json \<Rightarrow> DispatchTaskPayload option" where
  "unmarshal_payload j =
     unmarshal_struct [''task_id'', ''execution_id'', ''handler_key''] set_payload_field j
       \<lparr>pay_TaskID = [], pay_ExecutionID = [], pay_HandlerKey = []\<rparr>"

lemma unmarshal_payload_obj [simp]:
  "unmarshal_payload (string_obj (payload_members p)) = Some p"
  by (simp add: unmarshal_payload_def unmarshal_struct_def string_obj_def payload_members_def
      match_field_def set_payload_field_def unmarshal_string_def)

lemma payload_roundtrip:
  assumes "utf8_valid (pay_TaskID p)" "utf8_valid (pay_ExecutionID p)" "utf8_valid (pay_HandlerKey p)"
    and "marshal_payload p = Inr raw"
  shows "json_unmarshal unmarshal_payload raw = Inr p"
proof -
  have names: "utf8_valid ''task_id''" "utf8_valid ''execution_id''" "utf8_valid ''handler_key''"
    by (rule utf8_valid_ascii, simp add: ascii_def byte_def)+
  then have "members_valid (payload_members p)"
    using assms(1-3) by (simp add: members_valid_def payload_members_def)
  from json_decode_print_strings [OF this] assms(4) show ?thesis
    by (simp add: json_unmarshal_def marshal_payload_def json_marshal_def)
qed

end
