(* ===== verification/Queue.thy ===== *)
theory Queue
  imports Domain
begin

text \<open>
  \<^verbatim>\<open>internal/queue/redis_streams.go\<close>: encoding and decoding of task messages, the consume loop, and
  when a message is acknowledged.

  Redis and its client are not part of the repository: the record \<open>redis\<close> holds what its calls
  return and do to the world \<open>'w\<close> (which may hold the database the message handler works on), and
  \<open>rd_ctx_err\<close> whether the context of the consumer is cancelled.
\<close>

section \<open>Messages\<close>

record TaskMessage =
  msg_TaskID :: string
  msg_ExecutionID :: string
  msg_HandlerKey :: string

text \<open>The struct tags are those of \<^verbatim>\<open>domain.DispatchTaskPayload\<close>.\<close>

definition message_payload :: "TaskMessage \<Rightarrow> DispatchTaskPayload" where
  "message_payload m = \<lparr>pay_TaskID = msg_TaskID m, pay_ExecutionID = msg_ExecutionID m,
     pay_HandlerKey = msg_HandlerKey m\<rparr>"

definition payload_message :: "DispatchTaskPayload \<Rightarrow> TaskMessage" where
  "payload_message p = \<lparr>msg_TaskID = pay_TaskID p, msg_ExecutionID = pay_ExecutionID p,
     msg_HandlerKey = pay_HandlerKey p\<rparr>"

definition marshal_message :: "TaskMessage \<Rightarrow> go_error + string" where
  "marshal_message m = marshal_payload (message_payload m)"

definition unmarshal_message :: "json \<Rightarrow> TaskMessage option" where
  "unmarshal_message j = map_option payload_message (unmarshal_payload j)"

text \<open>A value of a stream entry: a string, or another type with its \<^verbatim>\<open>fmt.Sprint\<close> text.\<close>

datatype xvalue = XString string | XOther string

record xmessage =
  xm_ID :: string
  xm_Values :: "string \<rightharpoonup> xvalue"

definition decodeTaskMessage :: "xmessage \<Rightarrow> go_error + TaskMessage" where
  "decodeTaskMessage message =
     (case xm_Values message ''payload'' of
        None \<Rightarrow> Inl (ErrorString (''stream message '' @ xm_ID message @ '' missing payload''))
      | Some payloadValue \<Rightarrow>
          let payloadText = (case payloadValue of XString s \<Rightarrow> s | XOther s \<Rightarrow> s) in
          (case json_unmarshal unmarshal_message payloadText of
             Inl e \<Rightarrow> Inl (Wrap (''decode stream message '' @ xm_ID message @ '': '') e)
           | Inr task \<Rightarrow> Inr task))"

section \<open>The client\<close>

record ConsumeOptions =
  opt_Consumer :: string
  opt_ReclaimMinIdle :: go_duration
  opt_ReclaimCount :: int
  opt_ReadCount :: int
  opt_Block :: go_duration

record 'w redis =
  rd_xgroup_create :: "'w \<Rightarrow> go_error option \<times> 'w"
  rd_xadd :: "string \<Rightarrow> 'w \<Rightarrow> go_error option \<times> 'w"
  rd_xautoclaim :: "string \<Rightarrow> go_duration \<Rightarrow> int \<Rightarrow> 'w \<Rightarrow> (go_error option \<times> xmessage list) \<times> 'w"
  rd_xreadgroup :: "string \<Rightarrow> int \<Rightarrow> go_duration \<Rightarrow> 'w \<Rightarrow> (go_error + xmessage list list) \<times> 'w"
  rd_xack :: "string \<Rightarrow> 'w \<Rightarrow> go_error option \<times> 'w"
  rd_ctx_err :: "'w \<Rightarrow> go_error option"
  rd_error_text :: "go_error \<Rightarrow> string"

fun contains :: "string \<Rightarrow> string \<Rightarrow> bool" where
  "contains [] sub = (sub = [])"
| "contains (c # s) sub = (take (length sub) (c # s) = sub \<or> contains s sub)"

definition EnsureGroup :: "'w redis \<Rightarrow> 'w \<Rightarrow> go_error option \<times> 'w" where
  "EnsureGroup r w =
     (case rd_xgroup_create r w of
        (Some e, w') \<Rightarrow>
          if \<not> contains (error_text (rd_error_text r) e) ''BUSYGROUP'' then (Some e, w') else (None, w')
      | (None, w') \<Rightarrow> (None, w'))"

definition DispatchTask :: "'w redis \<Rightarrow> TaskMessage \<Rightarrow> 'w \<Rightarrow> go_error option \<times> 'w" where
  "DispatchTask r message w =
     (case marshal_message message of
        Inl e \<Rightarrow> (Some e, w)
      | Inr payload \<Rightarrow> rd_xadd r payload w)"

definition normalizeConsumeOptions :: "ConsumeOptions \<Rightarrow> ConsumeOptions" where
  "normalizeConsumeOptions o0 =
     (let o1 = (if opt_ReclaimMinIdle o0 \<le> 0 then o0\<lparr>opt_ReclaimMinIdle := 30 * Second\<rparr> else o0);
          o2 = (if opt_ReclaimCount o1 \<le> 0 then o1\<lparr>opt_ReclaimCount := 10\<rparr> else o1);
          o3 = (if opt_ReadCount o2 \<le> 0 then o2\<lparr>opt_ReadCount := 1\<rparr> else o2)
      in if opt_Block o3 \<le> 0 then o3\<lparr>opt_Block := 5 * Second\<rparr> else o3)"

definition claimPending :: "'w redis \<Rightarrow> ConsumeOptions \<Rightarrow> 'w \<Rightarrow> (go_error + xmessage list) \<times> 'w" where
  "claimPending r opts w =
     (case rd_xautoclaim r (opt_Consumer opts) (opt_ReclaimMinIdle opts) (opt_ReclaimCount opts) w of
        ((Some e, messages), w') \<Rightarrow> if \<not> error_is e RedisNil then (Inl e, w') else (Inr messages, w')
      | ((None, messages), w') \<Rightarrow> (Inr messages, w'))"

section \<open>Consuming\<close>

type_synonym 'w message_handler = "TaskMessage \<Rightarrow> 'w \<Rightarrow> go_error option \<times> 'w"

fun processMessages ::
  "'w redis \<Rightarrow> 'w message_handler \<Rightarrow> xmessage list \<Rightarrow> 'w \<Rightarrow> go_error option \<times> 'w"
where
  "processMessages r handle [] w = (None, w)"
| "processMessages r handle (message # messages) w =
     (case decodeTaskMessage message of
        Inl e \<Rightarrow> (Some e, w)
      | Inr task \<Rightarrow>
          (case handle task w of
             (Some e, w1) \<Rightarrow> processMessages r handle messages w1
           | (None, w1) \<Rightarrow>
               (case rd_xack r (xm_ID message) w1 of
                  (Some e, w2) \<Rightarrow> (Some e, w2)
                | (None, w2) \<Rightarrow> processMessages r handle messages w2)))"

text \<open>\<^verbatim>\<open>for _, stream := range streams { .. }\<close>\<close>

fun process_streams ::
  "'w redis \<Rightarrow> 'w message_handler \<Rightarrow> xmessage list list \<Rightarrow> 'w \<Rightarrow> go_error option \<times> 'w"
where
  "process_streams r handle [] w = (None, w)"
| "process_streams r handle (messages # rest) w =
     (case processMessages r handle messages w of
        (Some e, w') \<Rightarrow> (Some e, w')
      | (None, w') \<Rightarrow> process_streams r handle rest w')"

text \<open>One turn of the loop: \<open>Some e\<close> when \<^verbatim>\<open>Consume\<close> returns \<open>e\<close>, \<open>None\<close> when it goes on.\<close>

definition consume_turn ::
  "'w redis \<Rightarrow> 'w message_handler \<Rightarrow> ConsumeOptions \<Rightarrow> 'w \<Rightarrow> go_error option \<times> 'w"
where
  "consume_turn r handle opts w =
     (case rd_ctx_err r w of
        Some e \<Rightarrow> (Some e, w)
      | None \<Rightarrow>
          (case claimPending r opts w of
             (Inl e, w1) \<Rightarrow> (Some e, w1)
           | (Inr reclaimed, w1) \<Rightarrow>
               if length reclaimed > 0 then processMessages r handle reclaimed w1
               else
                 (case rd_xreadgroup r (opt_Consumer opts) (opt_ReadCount opts) (opt_Block opts) w1 of
                    (Inl e, w2) \<Rightarrow> if error_is e RedisNil then (None, w2) else (Some e, w2)
                  | (Inr streams, w2) \<Rightarrow> process_streams r handle streams w2)))"

partial_function (option) consume_loop ::
  "'w redis \<Rightarrow> 'w message_handler \<Rightarrow> ConsumeOptions \<Rightarrow> 'w \<Rightarrow> (go_error \<times> 'w) option"
where
  "consume_loop r handle opts w =
     (case consume_turn r handle opts w of
        (Some e, w') \<Rightarrow> Some (e, w')
      | (None, w') \<Rightarrow> consume_loop r handle opts w')"

text \<open>\<^verbatim>\<open>Consume\<close> returns only errors; \<open>None\<close> is a run that never returns.\<close>

definition Consume ::
  "'w redis \<Rightarrow> 'w message_handler \<Rightarrow> ConsumeOptions \<Rightarrow> 'w \<Rightarrow> (go_error \<times> 'w) option"
where
  "Consume r handle opts w =
     (let opts = normalizeConsumeOptions opts in
      case EnsureGroup r w of
        (Some e, w') \<Rightarrow> Some (e, w')
      | (None, w') \<Rightarrow> consume_loop r handle opts w')"

section \<open>Facts\<close>

lemma payload_message_inverse [simp]: "payload_message (message_payload m) = m"
  by (simp add: payload_message_def message_payload_def)

lemma message_roundtrip:
  assumes "utf8_valid (msg_TaskID m)" "utf8_valid (msg_ExecutionID m)" "utf8_valid (msg_HandlerKey m)"
    and "marshal_message m = Inr text" and "xm_Values x ''payload'' = Some (XString text)"
  shows "decodeTaskMessage x = Inr m"
proof -
  have "json_unmarshal unmarshal_payload text = Inr (message_payload m)"
    using assms(1-4) by (intro payload_roundtrip) (simp_all add: message_payload_def marshal_message_def)
  then have "json_unmarshal unmarshal_message text = Inr m"
    by (auto simp: json_unmarshal_def unmarshal_message_def split: option.splits)
  with assms(5) show ?thesis by (simp add: decodeTaskMessage_def)
qed

end
