(* ===== verification/Postgres.thy ===== *)
theory Postgres
  imports Domain
begin

text \<open>
  The database as the store sees it: the tables of \<^verbatim>\<open>migrations/*.sql\<close> as lists of rows, the
  SQL statements of \<^verbatim>\<open>internal/db\<close> as functions on them, and \<^verbatim>\<open>pgx\<close> transactions as a
  state-and-error computation.

  PostgreSQL and pgx are not part of the repository.  What they decide is a parameter, the record
  \<open>pgenv\<close> of one store call: the transaction timestamp \<^verbatim>\<open>NOW()\<close>, the values of
  \<^verbatim>\<open>gen_random_uuid()\<close>, the text form of the types \<^verbatim>\<open>uuid\<close>, \<^verbatim>\<open>jsonb\<close>,
  \<^verbatim>\<open>text\<close> and \<^verbatim>\<open>timestamptz\<close>, the order in which a table scan meets its rows, which rows
  other transactions hold locked, whether round trip \<open>n\<close> of the call fails, and how the commit
  ends.  A commit whose reply is lost may have been applied (\<open>CommitLost\<close>).

  Constraint checks (primary keys, \<^verbatim>\<open>UNIQUE\<close>, foreign keys) are part of the statements, so
  \<open>schema_ok\<close> is preserved by every statement whatever the parameters are.
\<close>

section \<open>Tables\<close>

record definition_row =
  wd_id :: string
  wd_name :: string
  wd_description :: string
  wd_version :: int
  wd_status :: string
  wd_definition_json :: string
  wd_created_at :: go_time
  wd_updated_at :: go_time

record execution_row =
  we_id :: string
  we_workflow_definition_id :: string
  we_status :: string
  we_input_json :: string
  we_output_json :: "string option"
  we_error_text :: "string option"
  we_created_at :: go_time
  we_updated_at :: go_time
  we_started_at :: "go_time option"
  we_completed_at :: "go_time option"

record task_row =
  ti_id :: string
  ti_workflow_execution_id :: string
  ti_task_name :: string
  ti_handler_key :: string
  ti_status :: string
  ti_input_json :: string
  ti_output_json :: "string option"
  ti_next_run_at :: "go_time option"
  ti_last_error_text :: "string option"
  ti_attempts_total :: int
  ti_idempotency_key :: string
  ti_dispatched_at :: "go_time option"
  ti_completed_at :: "go_time option"
  ti_created_at :: go_time
  ti_updated_at :: go_time

record attempt_row =
  ta_id :: string
  ta_task_instance_id :: string
  ta_attempt_number :: int
  ta_status :: string
  ta_started_at :: go_time
  ta_finished_at :: "go_time option"
  ta_error_text :: "string option"
  ta_output_json :: "string option"
  ta_created_at :: go_time

record outbox_row =
  ob_id :: string
  ob_aggregate_type :: string
  ob_aggregate_id :: string
  ob_event_type :: string
  ob_payload_json :: string
  ob_available_at :: go_time
  ob_dispatched_at :: "go_time option"
  ob_attempt_count :: int
  ob_last_error_text :: "string option"
  ob_created_at :: go_time

record idempotency_row =
  ir_handler_key :: string
  ir_idempotency_key :: string
  ir_status :: string
  ir_response_json :: "string option"
  ir_owner_task_instance_id :: "string option"
  ir_created_at :: go_time
  ir_updated_at :: go_time

record pg =
  workflow_definitions :: "definition_row list"
  workflow_executions :: "execution_row list"
  task_instances :: "task_row list"
  task_attempts :: "attempt_row list"
  outbox_events :: "outbox_row list"
  idempotency_records :: "idempotency_row list"

definition empty_pg :: pg where
  "empty_pg = \<lparr>workflow_definitions = [], workflow_executions = [], task_instances = [],
     task_attempts = [], outbox_events = [], idempotency_records = []\<rparr>"

definition ir_key :: "idempotency_row \<Rightarrow> string \<times> string" where
  "ir_key r = (ir_handler_key r, ir_idempotency_key r)"

section \<open>The parameters of a store call\<close>

datatype commit_outcome = CommitOk | CommitRolledBack go_error | CommitLost go_error

record pgenv =
  pg_now :: go_time
  pg_gen_random_uuid :: "nat \<Rightarrow> string"
  pg_uuid_in :: "string \<Rightarrow> string option"
  pg_text_ok :: "string \<Rightarrow> bool"
  pg_jsonb_in :: "string \<Rightarrow> string option"
  pg_timestamptz_in :: "go_time \<Rightarrow> go_time"
  pg_scan_tasks :: "task_row list \<Rightarrow> task_row list"
  pg_scan_attempts :: "attempt_row list \<Rightarrow> attempt_row list"
  pg_scan_outbox :: "outbox_row list \<Rightarrow> outbox_row list"
  pg_locked :: "string \<Rightarrow> bool"
  pg_fault :: "nat \<Rightarrow> go_error option"
  pg_commit :: "nat \<Rightarrow> commit_outcome"

text \<open>
  Documented behaviour of the server that some properties rely on: the output of the \<^verbatim>\<open>uuid\<close>
  type is its own canonical input, and a scan meets every row of the table exactly once.
\<close>

definition uuid_canonical :: "pgenv \<Rightarrow> bool" where
  "uuid_canonical env \<longleftrightarrow>
     (\<forall>n. pg_uuid_in env (pg_gen_random_uuid env n) = Some (pg_gen_random_uuid env n)) \<and>
     (\<forall>s u. pg_uuid_in env s = Some u \<longrightarrow> pg_uuid_in env u = Some u)"

definition scans_ok :: "pgenv \<Rightarrow> bool" where
  "scans_ok env \<longleftrightarrow>
     (\<forall>rs. mset (pg_scan_tasks env rs) = mset rs) \<and>
     (\<forall>rs. mset (pg_scan_attempts env rs) = mset rs) \<and>
     (\<forall>rs. mset (pg_scan_outbox env rs) = mset rs)"

text \<open>No round trip of the call fails and its commit is acknowledged.\<close>

definition calm :: "pgenv \<Rightarrow> bool" where
  "calm env \<longleftrightarrow> (\<forall>n. pg_fault env n = None) \<and> (\<forall>n. pg_commit env n = CommitOk)"

text \<open>A commit that is reported as failed was not applied.\<close>

definition no_lost_commit :: "pgenv \<Rightarrow> bool" where
  "no_lost_commit env \<longleftrightarrow> (\<forall>n e. pg_commit env n \<noteq> CommitLost e)"

section \<open>Transactions\<close>

record tx =
  tx_db :: pg
  tx_rt :: nat

type_synonym 'a tx_op = "pgenv \<Rightarrow> tx \<Rightarrow> go_error + ('a \<times> tx)"
type_synonym 'a sql = "pgenv \<Rightarrow> nat \<Rightarrow> pg \<Rightarrow> go_error + ('a \<times> pg)"
type_synonym 'a store_result = "(go_error + 'a) \<times> pg"

definition tx_return :: "'a \<Rightarrow> 'a tx_op" where
  "tx_return x = (\<lambda>env s. Inr (x, s))"

definition tx_fail :: "go_error \<Rightarrow> 'a tx_op" where
  "tx_fail e = (\<lambda>env s. Inl e)"

definition tx_bind :: "'a tx_op \<Rightarrow> ('a \<Rightarrow> 'b tx_op) \<Rightarrow> 'b tx_op" where
  "tx_bind m k = (\<lambda>env s. case m env s of Inl e \<Rightarrow> Inl e | Inr (x, s') \<Rightarrow> k x env s')"

text \<open>A result computed outside the database, such as \<^verbatim>\<open>json.Marshal\<close>.\<close>

definition tx_lift :: "go_error + 'a \<Rightarrow> 'a tx_op" where
  "tx_lift r = (\<lambda>env s. case r of Inl e \<Rightarrow> Inl e | Inr x \<Rightarrow> Inr (x, s))"

text \<open>One round trip: it fails, or the statement runs on the transaction's state.\<close>

definition statement :: "'a sql \<Rightarrow> 'a tx_op" where
  "statement f = (\<lambda>env s.
     case pg_fault env (tx_rt s) of
       Some e \<Rightarrow> Inl e
     | None \<Rightarrow>
         (case f env (tx_rt s) (tx_db s) of
            Inl e \<Rightarrow> Inl e
          | Inr (x, db') \<Rightarrow> Inr (x, \<lparr>tx_db = db', tx_rt = Suc (tx_rt s)\<rparr>)))"

definition commit :: "'a \<Rightarrow> pgenv \<Rightarrow> nat \<Rightarrow> pg \<Rightarrow> pg \<Rightarrow> 'a store_result" where
  "commit x env n old new =
     (case pg_commit env n of
        CommitOk \<Rightarrow> (Inr x, new)
      | CommitRolledBack e \<Rightarrow> (Inl e, old)
      | CommitLost e \<Rightarrow> (Inl e, new))"

text \<open>\<^verbatim>\<open>pool.BeginTx\<close> (round trip 0), the body, \<^verbatim>\<open>tx.Commit\<close>; every error return rolls back.\<close>

definition run_tx :: "'a tx_op \<Rightarrow> pgenv \<Rightarrow> pg \<Rightarrow> 'a store_result" where
  "run_tx m env db =
     (case pg_fault env 0 of
        Some e \<Rightarrow> (Inl e, db)
      | None \<Rightarrow>
          (case m env \<lparr>tx_db = db, tx_rt = 1\<rparr> of
             Inl e \<Rightarrow> (Inl e, db)
           | Inr (x, s) \<Rightarrow> commit x env (tx_rt s) db (tx_db s)))"

text \<open>
  A statement on the pool commits by itself.  \<open>pool_exec n f\<close> is round trip \<open>n\<close> of its
  store call.
\<close>

definition pool_exec :: "nat \<Rightarrow> 'a sql \<Rightarrow> pgenv \<Rightarrow> pg \<Rightarrow> 'a store_result" where
  "pool_exec n f env db =
     (case pg_fault env n of
        Some e \<Rightarrow> (Inl e, db)
      | None \<Rightarrow>
          (case f env n db of
             Inl e \<Rightarrow> (Inl e, db)
           | Inr (x, db') \<Rightarrow> commit x env n db db'))"

text \<open>A read on the pool.\<close>

definition pool_query :: "nat \<Rightarrow> (pgenv \<Rightarrow> pg \<Rightarrow> go_error + 'a) \<Rightarrow> pgenv \<Rightarrow> pg \<Rightarrow> go_error + 'a" where
  "pool_query n f env db = (case pg_fault env n of Some e \<Rightarrow> Inl e | None \<Rightarrow> f env db)"

subsection \<open>Reasoning about transactions\<close>

lemma tx_return_simp [tx_simps]: "tx_return x env s = Inr (x, s)"
  by (simp add: tx_return_def)

lemma tx_fail_simp [tx_simps]: "tx_fail e env s = Inl e"
  by (simp add: tx_fail_def)

lemma tx_lift_Inr [tx_simps]: "tx_lift (Inr x) env s = Inr (x, s)"
  by (simp add: tx_lift_def)

lemma tx_bind_Inr [tx_simps]:
  "tx_bind m k env s = Inr (y, t) \<longleftrightarrow> (\<exists>x s'. m env s = Inr (x, s') \<and> k x env s' = Inr (y, t))"
  by (auto simp: tx_bind_def split: sum.splits)

lemma statement_Inr [tx_simps]:
  "statement f env s = Inr (x, t) \<longleftrightarrow>
     pg_fault env (tx_rt s) = None \<and>
     (\<exists>db'. f env (tx_rt s) (tx_db s) = Inr (x, db') \<and> t = \<lparr>tx_db = db', tx_rt = Suc (tx_rt s)\<rparr>)"
  by (auto simp: statement_def split: option.splits sum.splits)

lemma commit_Inr [tx_simps]:
  "commit x env n old new = (Inr y, db') \<longleftrightarrow> pg_commit env n = CommitOk \<and> y = x \<and> db' = new"
  by (auto simp: commit_def split: commit_outcome.splits)

lemma run_tx_Inr:
  "run_tx m env db = (Inr x, db') \<longleftrightarrow>
     pg_fault env 0 = None \<and>
     (\<exists>s. m env \<lparr>tx_db = db, tx_rt = 1\<rparr> = Inr (x, s) \<and> pg_commit env (tx_rt s) = CommitOk \<and>
          db' = tx_db s)"
  by (auto simp: run_tx_def commit_Inr split: option.splits sum.splits)

lemma pool_exec_Inr:
  "pool_exec n f env db = (Inr x, db') \<longleftrightarrow>
     pg_fault env n = None \<and> f env n db = Inr (x, db') \<and> pg_commit env n = CommitOk"
  by (auto simp: pool_exec_def commit_Inr split: option.splits sum.splits)

text \<open>
  The contract of a store call: an error leaves the database as it was unless the reply to the
  commit was lost, and then the whole transaction was applied.
\<close>

locale atomic_call =
  fixes call :: "pgenv \<Rightarrow> pg \<Rightarrow> 'a store_result"
    and effect :: "pgenv \<Rightarrow> pg \<Rightarrow> 'a \<Rightarrow> pg \<Rightarrow> bool"
  assumes success: "call env db = (Inr x, db') \<Longrightarrow> effect env db x db'"
    and failure: "call env db = (Inl e, db') \<Longrightarrow> db' = db \<or> (\<exists>n. pg_commit env n = CommitLost e) \<and> (\<exists>x. effect env db x db')"
begin

lemma all_or_nothing: "db' = snd (call env db) \<Longrightarrow> db' = db \<or> (\<exists>x. effect env db x db')"
  using success [of env db _ db'] failure [of env db _ db']
  by (cases "call env db"; cases "fst (call env db)") auto

lemma rollback:
  "no_lost_commit env \<Longrightarrow> call env db = (Inl e, db') \<Longrightarrow> db' = db"
  using failure unfolding no_lost_commit_def by blast

text \<open>What holds before a call and after its effect holds after the call, failed ones included.\<close>

lemma invariant_call:
  assumes "\<And>x db'. effect env db x db' \<Longrightarrow> I db'" and "I db"
  shows "I (snd (call env db))"
  using all_or_nothing [OF refl, of env db] assms by metis

end

definition tx_effect :: "'a tx_op \<Rightarrow> pgenv \<Rightarrow> pg \<Rightarrow> 'a \<Rightarrow> pg \<Rightarrow> bool" where
  "tx_effect m env db x db' \<longleftrightarrow>
     (\<exists>s. m env \<lparr>tx_db = db, tx_rt = 1\<rparr> = Inr (x, s) \<and> db' = tx_db s)"

definition exec_effect :: "nat \<Rightarrow> 'a sql \<Rightarrow> pgenv \<Rightarrow> pg \<Rightarrow> 'a \<Rightarrow> pg \<Rightarrow> bool" where
  "exec_effect n f env db x db' \<longleftrightarrow> f env n db = Inr (x, db')"

lemma run_tx_failure:
  "run_tx m env db = (Inl e, db') \<Longrightarrow>
   db' = db \<or> (\<exists>n. pg_commit env n = CommitLost e) \<and> (\<exists>x. tx_effect m env db x db')"
  by (fastforce simp: run_tx_def commit_def tx_effect_def
      split: option.splits sum.splits commit_outcome.splits)

interpretation txn: atomic_call "run_tx m" "tx_effect m" for m
  by unfold_locales (fastforce simp: run_tx_Inr tx_effect_def, rule run_tx_failure)

interpretation autocommit: atomic_call "pool_exec n f" "exec_effect n f" for n f
  by unfold_locales
     (auto simp: pool_exec_Inr exec_effect_def pool_exec_def commit_def
      split: option.splits sum.splits commit_outcome.splits)

text \<open>
  Hoare triples for the bodies of transactions: \<open>m\<close> keeps \<open>I\<close> in every environment that
  satisfies \<open>E\<close>.
\<close>

definition tx_keeps :: "(pgenv \<Rightarrow> bool) \<Rightarrow> (pg \<Rightarrow> bool) \<Rightarrow> 'a tx_op \<Rightarrow> bool" where
  "tx_keeps E I m \<longleftrightarrow>
     (\<forall>env s x t. E env \<longrightarrow> I (tx_db s) \<longrightarrow> m env s = Inr (x, t) \<longrightarrow> I (tx_db t))"

lemma tx_keepsI [intro]:
  "(\<And>env s x t. E env \<Longrightarrow> I (tx_db s) \<Longrightarrow> m env s = Inr (x, t) \<Longrightarrow> I (tx_db t)) \<Longrightarrow> tx_keeps E I m"
  by (auto simp: tx_keeps_def)

lemma tx_keepsD:
  "tx_keeps E I m \<Longrightarrow> E env \<Longrightarrow> I (tx_db s) \<Longrightarrow> m env s = Inr (x, t) \<Longrightarrow> I (tx_db t)"
  by (auto simp: tx_keeps_def)

lemma tx_keeps_return: "tx_keeps E I (tx_return x)"
  by (auto simp: tx_simps)

lemma tx_keeps_fail: "tx_keeps E I (tx_fail e)"
  by (auto simp: tx_simps)

lemma tx_keeps_lift: "tx_keeps E I (tx_lift r)"
  by (auto simp: tx_lift_def split: sum.splits)

lemma tx_keeps_bind: "tx_keeps E I m \<Longrightarrow> (\<And>x. tx_keeps E I (k x)) \<Longrightarrow> tx_keeps E I (tx_bind m k)"
  unfolding tx_keeps_def tx_bind_Inr by metis

lemma tx_keeps_statement:
  "(\<And>env n db x db'. E env \<Longrightarrow> I db \<Longrightarrow> f env n db = Inr (x, db') \<Longrightarrow> I db') \<Longrightarrow>
   tx_keeps E I (statement f)"
  unfolding tx_keeps_def statement_Inr by (metis tx.select_convs(1))

lemma tx_keeps_if: "tx_keeps E I a \<Longrightarrow> tx_keeps E I b \<Longrightarrow> tx_keeps E I (if c then a else b)"
  by simp

lemmas tx_keeps_rules =
  tx_keeps_return tx_keeps_fail tx_keeps_lift tx_keeps_bind tx_keeps_if

lemma run_tx_keeps: "tx_keeps E I m \<Longrightarrow> E env \<Longrightarrow> I db \<Longrightarrow> I (snd (run_tx m env db))"
  by (rule txn.invariant_call) (force simp: tx_effect_def tx_keeps_def)+

lemma pool_exec_keeps:
  "(\<And>x db'. f env n db = Inr (x, db') \<Longrightarrow> I db') \<Longrightarrow> I db \<Longrightarrow> I (snd (pool_exec n f env db))"
  by (rule autocommit.invariant_call) (auto simp: exec_effect_def)

end
