(* ===== verification/Sql.thy ===== *)
theory Sql
  imports Postgres
begin

text \<open>
  The SQL statements embedded in \<^verbatim>\<open>internal/db/store.go\<close>, one definition per statement, with
  the checks PostgreSQL makes on their parameters and on the constraints of the schema, and the
  invariants of the tables that every statement keeps.
\<close>

section \<open>Parameters\<close>

text \<open>
  SQLSTATE codes: 23505 unique violation, 23503 foreign key violation, 22021 text that is not
  valid in the server encoding, 22P02 invalid JSON, 2201W negative limit.
\<close>

definition unique_violation :: go_error where "unique_violation = PgError ''23505''"
definition foreign_key_violation :: go_error where "foreign_key_violation = PgError ''23503''"
definition invalid_text :: go_error where "invalid_text = PgError ''22021''"
definition invalid_json :: go_error where "invalid_json = PgError ''22P02''"
definition negative_limit :: go_error where "negative_limit = PgError ''2201W''"
definition invalid_uuid :: go_error where "invalid_uuid = DriverError ''invalid UUID''"
definition int4_overflow :: go_error where "int4_overflow = DriverError ''int4 overflow''"

definition with_uuid :: "pgenv \<Rightarrow> string \<Rightarrow> (string \<Rightarrow> go_error + 'a) \<Rightarrow> go_error + 'a" where
  "with_uuid env s k = (case pg_uuid_in env s of None \<Rightarrow> Inl invalid_uuid | Some u \<Rightarrow> k u)"

definition with_text :: "pgenv \<Rightarrow> string list \<Rightarrow> (go_error + 'a) \<Rightarrow> go_error + 'a" where
  "with_text env ts k = (if list_all (pg_text_ok env) ts then k else Inl invalid_text)"

definition with_jsonb :: "pgenv \<Rightarrow> string \<Rightarrow> (string \<Rightarrow> go_error + 'a) \<Rightarrow> go_error + 'a" where
  "with_jsonb env raw k = (case pg_jsonb_in env raw of None \<Rightarrow> Inl invalid_json | Some j \<Rightarrow> k j)"

lemma with_uuid_Inr [sql_simps]:
  "with_uuid env s k = Inr x \<longleftrightarrow> (\<exists>u. pg_uuid_in env s = Some u \<and> k u = Inr x)"
  by (simp add: with_uuid_def split: option.split)

lemma with_text_Inr [sql_simps]:
  "with_text env ts k = Inr x \<longleftrightarrow> list_all (pg_text_ok env) ts \<and> k = Inr x"
  by (simp add: with_text_def)

lemma with_jsonb_Inr [sql_simps]:
  "with_jsonb env raw k = Inr x \<longleftrightarrow> (\<exists>j. pg_jsonb_in env raw = Some j \<and> k j = Inr x)"
  by (simp add: with_jsonb_def split: option.split)

text \<open>A check that must hold, else the error.\<close>

definition check :: "bool \<Rightarrow> go_error \<Rightarrow> (go_error + 'a) \<Rightarrow> go_error + 'a" where
  "check b e k = (if b then k else Inl e)"

lemma check_Inr [sql_simps]: "check b e k = Inr x \<longleftrightarrow> b \<and> k = Inr x"
  by (simp add: check_def)

definition int4_max :: int where "int4_max = 2147483647"

section \<open>Inserts\<close>

definition sql_insert_definition ::
  "string \<Rightarrow> string \<Rightarrow> string \<Rightarrow> string \<Rightarrow> definition_row sql"
where
  "sql_insert_definition name description raw status = (\<lambda>env n db.
     with_text env [name, description] (with_jsonb env raw (\<lambda>j.
       let r = \<lparr>wd_id = pg_gen_random_uuid env n, wd_name = name, wd_description = description,
                wd_version = 1, wd_status = status, wd_definition_json = j,
                wd_created_at = pg_now env, wd_updated_at = pg_now env\<rparr> in
       check (wd_id r \<notin> wd_id ` set (workflow_definitions db) \<and>
              name \<notin> wd_name ` set (workflow_definitions db)) unique_violation
         (Inr (r, db\<lparr>workflow_definitions := workflow_definitions db @ [r]\<rparr>)))))"

definition sql_insert_execution :: "string \<Rightarrow> string \<Rightarrow> string \<Rightarrow> execution_row sql" where
  "sql_insert_execution defID status input = (\<lambda>env n db.
     with_uuid env defID (\<lambda>d. with_jsonb env input (\<lambda>j.
       let r = \<lparr>we_id = pg_gen_random_uuid env n, we_workflow_definition_id = d, we_status = status,
                we_input_json = j, we_output_json = None, we_error_text = None,
                we_created_at = pg_now env, we_updated_at = pg_now env,
                we_started_at = Some (pg_now env), we_completed_at = None\<rparr> in
       check (we_id r \<notin> we_id ` set (workflow_executions db)) unique_violation
         (check (d \<in> wd_id ` set (workflow_definitions db)) foreign_key_violation
           (Inr (r, db\<lparr>workflow_executions := workflow_executions db @ [r]\<rparr>))))))"

definition sql_insert_task ::
  "string \<Rightarrow> string \<Rightarrow> string \<Rightarrow> string \<Rightarrow> string \<Rightarrow> string \<Rightarrow> task_row sql"
where
  "sql_insert_task execID name hkey status input ikey = (\<lambda>env n db.
     with_uuid env execID (\<lambda>e. with_text env [name, hkey, ikey] (with_jsonb env input (\<lambda>j.
       let r = \<lparr>ti_id = pg_gen_random_uuid env n, ti_workflow_execution_id = e, ti_task_name = name,
                ti_handler_key = hkey, ti_status = status, ti_input_json = j,
                ti_output_json = None, ti_next_run_at = None, ti_last_error_text = None,
                ti_attempts_total = 0, ti_idempotency_key = ikey, ti_dispatched_at = None,
                ti_completed_at = None, ti_created_at = pg_now env, ti_updated_at = pg_now env\<rparr> in
       check (ti_id r \<notin> ti_id ` set (task_instances db) \<and>
              ikey \<notin> ti_idempotency_key ` set (task_instances db)) unique_violation
         (check (e \<in> we_id ` set (workflow_executions db)) foreign_key_violation
           (Inr (r, db\<lparr>task_instances := task_instances db @ [r]\<rparr>)))))))"

definition sql_insert_attempt :: "string \<Rightarrow> int \<Rightarrow> string \<Rightarrow> attempt_row sql" where
  "sql_insert_attempt taskID number status = (\<lambda>env n db.
     with_uuid env taskID (\<lambda>t.
       let r = \<lparr>ta_id = pg_gen_random_uuid env n, ta_task_instance_id = t, ta_attempt_number = number,
                ta_status = status, ta_started_at = pg_now env, ta_finished_at = None,
                ta_error_text = None, ta_output_json = None, ta_created_at = pg_now env\<rparr> in
       check (number \<le> int4_max) int4_overflow
         (check (ta_id r \<notin> ta_id ` set (task_attempts db)) unique_violation
           (check (t \<in> ti_id ` set (task_instances db)) foreign_key_violation
             (Inr (r, db\<lparr>task_attempts := task_attempts db @ [r]\<rparr>))))))"

text \<open>\<^verbatim>\<open>outbox_events.aggregate_id\<close> has no foreign key.\<close>

definition sql_insert_outbox :: "string \<Rightarrow> string \<Rightarrow> string \<Rightarrow> string \<Rightarrow> unit sql" where
  "sql_insert_outbox aggType aggID evType payload = (\<lambda>env n db.
     with_uuid env aggID (\<lambda>a. with_jsonb env payload (\<lambda>j.
       let r = \<lparr>ob_id = pg_gen_random_uuid env n, ob_aggregate_type = aggType, ob_aggregate_id = a,
                ob_event_type = evType, ob_payload_json = j, ob_available_at = pg_now env,
                ob_dispatched_at = None, ob_attempt_count = 0, ob_last_error_text = None,
                ob_created_at = pg_now env\<rparr> in
       check (ob_id r \<notin> ob_id ` set (outbox_events db)) unique_violation
         (Inr ((), db\<lparr>outbox_events := outbox_events db @ [r]\<rparr>)))))"

section \<open>Reads\<close>

text \<open>\<^verbatim>\<open>QueryRow(..).Scan\<close> on no row is \<^verbatim>\<open>pgx.ErrNoRows\<close>.\<close>

definition one_row :: "'r option \<Rightarrow> go_error + 'r" where
  "one_row r = (case r of None \<Rightarrow> Inl ErrNoRows | Some x \<Rightarrow> Inr x)"

lemma one_row_Inr [sql_simps]: "one_row r = Inr x \<longleftrightarrow> r = Some x"
  by (simp add: one_row_def split: option.split)

definition sql_select_definition :: "string \<Rightarrow> pgenv \<Rightarrow> pg \<Rightarrow> go_error + definition_row" where
  "sql_select_definition ident env db =
     with_uuid env ident (\<lambda>u. one_row (select_by wd_id u (workflow_definitions db)))"

definition sql_select_execution :: "string \<Rightarrow> pgenv \<Rightarrow> pg \<Rightarrow> go_error + execution_row" where
  "sql_select_execution ident env db =
     with_uuid env ident (\<lambda>u. one_row (select_by we_id u (workflow_executions db)))"

definition sql_select_task :: "string \<Rightarrow> pgenv \<Rightarrow> pg \<Rightarrow> go_error + task_row" where
  "sql_select_task ident env db =
     with_uuid env ident (\<lambda>u. one_row (select_by ti_id u (task_instances db)))"

text \<open>A read as a statement of a transaction (\<^verbatim>\<open>FOR UPDATE\<close> adds a lock, not a change).\<close>

definition sql_read :: "(pgenv \<Rightarrow> pg \<Rightarrow> go_error + 'a) \<Rightarrow> 'a sql" where
  "sql_read f = (\<lambda>env n db. map_sum id (\<lambda>x. (x, db)) (f env db))"

lemma sql_read_Inr [sql_simps]:
  "sql_read f env n db = Inr (x, db') \<longleftrightarrow> f env db = Inr x \<and> db' = db"
  by (cases "f env db") (auto simp: sql_read_def)

section \<open>Updates\<close>

definition upd_task :: "string \<Rightarrow> (task_row \<Rightarrow> task_row) \<Rightarrow> pg \<Rightarrow> pg" where
  "upd_task u f db = db\<lparr>task_instances := update_by ti_id u f (task_instances db)\<rparr>"

definition upd_execution :: "string \<Rightarrow> (execution_row \<Rightarrow> execution_row) \<Rightarrow> pg \<Rightarrow> pg" where
  "upd_execution u f db = db\<lparr>workflow_executions := update_by we_id u f (workflow_executions db)\<rparr>"

definition upd_attempt :: "string \<Rightarrow> (attempt_row \<Rightarrow> attempt_row) \<Rightarrow> pg \<Rightarrow> pg" where
  "upd_attempt u f db = db\<lparr>task_attempts := update_by ta_id u f (task_attempts db)\<rparr>"

definition upd_outbox :: "string \<Rightarrow> (outbox_row \<Rightarrow> outbox_row) \<Rightarrow> pg \<Rightarrow> pg" where
  "upd_outbox u f db = db\<lparr>outbox_events := update_by ob_id u f (outbox_events db)\<rparr>"

text \<open>\<^verbatim>\<open>UPDATE task_instances .. RETURNING ..\<close>\<close>

definition returning_task :: "string \<Rightarrow> (task_row \<Rightarrow> task_row) \<Rightarrow> pg \<Rightarrow> go_error + (task_row \<times> pg)" where
  "returning_task u f db =
     (let db' = upd_task u f db in
      map_sum id (\<lambda>r. (r, db')) (one_row (select_by ti_id u (task_instances db'))))"

definition set_attempt_succeeded :: "go_time \<Rightarrow> string \<Rightarrow> attempt_row \<Rightarrow> attempt_row" where
  "set_attempt_succeeded t j r = r\<lparr>ta_status := TaskAttemptStatusSucceeded,
     ta_finished_at := Some t, ta_output_json := Some j\<rparr>"

definition set_attempt_failed :: "go_time \<Rightarrow> string \<Rightarrow> attempt_row \<Rightarrow> attempt_row" where
  "set_attempt_failed t e r = r\<lparr>ta_status := TaskAttemptStatusFailed,
     ta_finished_at := Some t, ta_error_text := Some e\<rparr>"

definition set_task_running :: "go_time \<Rightarrow> int \<Rightarrow> task_row \<Rightarrow> task_row" where
  "set_task_running t n r = r\<lparr>ti_status := TaskStatusRunning, ti_attempts_total := n,
     ti_next_run_at := None, ti_updated_at := t\<rparr>"

definition set_task_succeeded :: "go_time \<Rightarrow> string \<Rightarrow> task_row \<Rightarrow> task_row" where
  "set_task_succeeded t j r = r\<lparr>ti_status := TaskStatusSucceeded, ti_output_json := Some j,
     ti_completed_at := Some t, ti_updated_at := t\<rparr>"

definition set_task_retry :: "go_time \<Rightarrow> string \<Rightarrow> go_time \<Rightarrow> task_row \<Rightarrow> task_row" where
  "set_task_retry t e at r = r\<lparr>ti_status := TaskStatusPending, ti_last_error_text := Some e,
     ti_next_run_at := Some at, ti_updated_at := t\<rparr>"

definition set_task_dead_lettered :: "go_time \<Rightarrow> string \<Rightarrow> task_row \<Rightarrow> task_row" where
  "set_task_dead_lettered t e r = r\<lparr>ti_status := TaskStatusDeadLettered,
     ti_last_error_text := Some e, ti_next_run_at := None, ti_completed_at := Some t,
     ti_updated_at := t\<rparr>"

definition set_task_replayed :: "go_time \<Rightarrow> task_row \<Rightarrow> task_row" where
  "set_task_replayed t r = r\<lparr>ti_status := TaskStatusPending, ti_output_json := None,
     ti_next_run_at := None, ti_last_error_text := None, ti_completed_at := None,
     ti_updated_at := t\<rparr>"

definition clear_next_run_at :: "go_time \<Rightarrow> task_row \<Rightarrow> task_row" where
  "clear_next_run_at t r = r\<lparr>ti_next_run_at := None, ti_updated_at := t\<rparr>"

definition set_execution_succeeded :: "go_time \<Rightarrow> string \<Rightarrow> execution_row \<Rightarrow> execution_row" where
  "set_execution_succeeded t j r = r\<lparr>we_status := ExecutionStatusSucceeded,
     we_output_json := Some j, we_completed_at := Some t, we_updated_at := t\<rparr>"

definition set_execution_failed :: "go_time \<Rightarrow> string \<Rightarrow> execution_row \<Rightarrow> execution_row" where
  "set_execution_failed t e r = r\<lparr>we_status := ExecutionStatusFailed, we_error_text := Some e,
     we_completed_at := Some t, we_updated_at := t\<rparr>"

definition set_execution_running :: "go_time \<Rightarrow> execution_row \<Rightarrow> execution_row" where
  "set_execution_running t r = r\<lparr>we_status := ExecutionStatusRunning, we_error_text := None,
     we_completed_at := None, we_updated_at := t\<rparr>"

lemmas set_attempt_defs = set_attempt_succeeded_def set_attempt_failed_def
lemmas set_task_defs = set_task_running_def set_task_succeeded_def set_task_retry_def
  set_task_dead_lettered_def set_task_replayed_def clear_next_run_at_def
lemmas set_execution_defs = set_execution_succeeded_def set_execution_failed_def
  set_execution_running_def
lemmas upd_defs = upd_task_def upd_execution_def upd_attempt_def upd_outbox_def

definition sql_update_attempt_succeeded :: "string \<Rightarrow> string \<Rightarrow> unit sql" where
  "sql_update_attempt_succeeded attemptID payload = (\<lambda>env n db.
     with_uuid env attemptID (\<lambda>u. with_jsonb env payload (\<lambda>j.
       Inr ((), upd_attempt u (set_attempt_succeeded (pg_now env) j) db))))"

definition sql_update_attempt_failed :: "string \<Rightarrow> string \<Rightarrow> unit sql" where
  "sql_update_attempt_failed attemptID errText = (\<lambda>env n db.
     with_uuid env attemptID (\<lambda>u. with_text env [errText]
       (Inr ((), upd_attempt u (set_attempt_failed (pg_now env) errText) db))))"

definition sql_update_task_running :: "string \<Rightarrow> int \<Rightarrow> task_row sql" where
  "sql_update_task_running taskID number = (\<lambda>env n db.
     with_uuid env taskID (\<lambda>u. check (number \<le> int4_max) int4_overflow
       (returning_task u (set_task_running (pg_now env) number) db)))"

definition sql_update_task_succeeded :: "string \<Rightarrow> string \<Rightarrow> unit sql" where
  "sql_update_task_succeeded taskID payload = (\<lambda>env n db.
     with_uuid env taskID (\<lambda>u. with_jsonb env payload (\<lambda>j.
       Inr ((), upd_task u (set_task_succeeded (pg_now env) j) db))))"

definition sql_update_task_retry :: "string \<Rightarrow> string \<Rightarrow> go_time \<Rightarrow> unit sql" where
  "sql_update_task_retry taskID errText nextRunAt = (\<lambda>env n db.
     with_uuid env taskID (\<lambda>u. with_text env [errText]
       (Inr ((), upd_task u
          (set_task_retry (pg_now env) errText (pg_timestamptz_in env nextRunAt)) db))))"

definition sql_update_task_dead_lettered :: "string \<Rightarrow> string \<Rightarrow> unit sql" where
  "sql_update_task_dead_lettered taskID errText = (\<lambda>env n db.
     with_uuid env taskID (\<lambda>u. with_text env [errText]
       (Inr ((), upd_task u (set_task_dead_lettered (pg_now env) errText) db))))"

definition sql_update_task_replayed :: "string \<Rightarrow> task_row sql" where
  "sql_update_task_replayed taskID = (\<lambda>env n db.
     with_uuid env taskID (\<lambda>u. returning_task u (set_task_replayed (pg_now env)) db))"

definition sql_clear_next_run_at :: "string \<Rightarrow> unit sql" where
  "sql_clear_next_run_at taskID = (\<lambda>env n db.
     with_uuid env taskID (\<lambda>u. Inr ((), upd_task u (clear_next_run_at (pg_now env)) db)))"

definition sql_update_execution_succeeded :: "string \<Rightarrow> string \<Rightarrow> unit sql" where
  "sql_update_execution_succeeded execID payload = (\<lambda>env n db.
     with_uuid env execID (\<lambda>u. with_jsonb env payload (\<lambda>j.
       Inr ((), upd_execution u (set_execution_succeeded (pg_now env) j) db))))"

definition sql_update_execution_failed :: "string \<Rightarrow> string \<Rightarrow> unit sql" where
  "sql_update_execution_failed execID errText = (\<lambda>env n db.
     with_uuid env execID (\<lambda>u. with_text env [errText]
       (Inr ((), upd_execution u (set_execution_failed (pg_now env) errText) db))))"

definition sql_update_execution_running :: "string \<Rightarrow> unit sql" where
  "sql_update_execution_running execID = (\<lambda>env n db.
     with_uuid env execID (\<lambda>u. Inr ((), upd_execution u (set_execution_running (pg_now env)) db)))"

text \<open>\<^verbatim>\<open>attempt_count + 1\<close> is computed in the type \<^verbatim>\<open>integer\<close> (22003 when out of range).\<close>

definition integer_overflow :: go_error where "integer_overflow = PgError ''22003''"

definition outbox_count_ok :: "string \<Rightarrow> pg \<Rightarrow> bool" where
  "outbox_count_ok u db =
     list_all (\<lambda>r. ob_id r = u \<longrightarrow> ob_attempt_count r < int4_max) (outbox_events db)"

definition set_outbox_dispatched :: "go_time \<Rightarrow> outbox_row \<Rightarrow> outbox_row" where
  "set_outbox_dispatched t r = r\<lparr>ob_dispatched_at := Some t, ob_attempt_count := ob_attempt_count r + 1\<rparr>"

definition set_outbox_failure :: "string \<Rightarrow> outbox_row \<Rightarrow> outbox_row" where
  "set_outbox_failure e r = r\<lparr>ob_attempt_count := ob_attempt_count r + 1, ob_last_error_text := Some e\<rparr>"

lemmas set_outbox_defs = set_outbox_dispatched_def set_outbox_failure_def

definition sql_mark_outbox_dispatched :: "string \<Rightarrow> unit sql" where
  "sql_mark_outbox_dispatched ident = (\<lambda>env n db.
     with_uuid env ident (\<lambda>u. check (outbox_count_ok u db) integer_overflow
       (Inr ((), upd_outbox u (set_outbox_dispatched (pg_now env)) db))))"

definition sql_record_outbox_failure :: "string \<Rightarrow> string \<Rightarrow> unit sql" where
  "sql_record_outbox_failure ident errText = (\<lambda>env n db.
     with_uuid env ident (\<lambda>u. with_text env [errText]
       (check (outbox_count_ok u db) integer_overflow
         (Inr ((), upd_outbox u (set_outbox_failure errText) db)))))"

end
