(* ===== verification/Store.thy ===== *)
theory Store
  imports Sql
begin

text \<open>
  \<^verbatim>\<open>internal/db/store.go\<close>: the operations of \<^verbatim>\<open>db.Store\<close>.  Each takes its Go arguments, the
  parameters of the call (\<^typ>\<open>pgenv\<close>) and the database, and returns the Go results (\<open>Inl\<close>
  the error) with the database afterwards; a read returns only its result.
\<close>

section \<open>Helpers\<close>

definition makeTaskIdempotencyKey :: "string \<Rightarrow> string \<Rightarrow> string" where
  "makeTaskIdempotencyKey executionID taskName = executionID @ '':'' @ taskName"

definition normalizeJSON :: "string \<Rightarrow> string" where
  "normalizeJSON raw = (if length raw = 0 then ''{}'' else raw)"

definition truncate :: "string \<Rightarrow> nat \<Rightarrow> string" where
  "truncate input limit = (if length input \<le> limit then input else take limit input)"

definition stringValue :: "string option \<Rightarrow> string" where
  "stringValue v = (case v of None \<Rightarrow> [] | Some s \<Rightarrow> s)"

definition scanWorkflowDefinition :: "definition_row \<Rightarrow> WorkflowDefinition" where
  "scanWorkflowDefinition r =
     \<lparr>def_ID = wd_id r, def_Name = wd_name r, def_Description = wd_description r,
      def_Version = wd_version r, def_Status = wd_status r,
      def_DefinitionJSON = wd_definition_json r, def_CreatedAt = wd_created_at r,
      def_UpdatedAt = wd_updated_at r\<rparr>"

definition scanWorkflowExecution :: "execution_row \<Rightarrow> WorkflowExecution" where
  "scanWorkflowExecution r =
     \<lparr>exec_ID = we_id r, exec_WorkflowDefinitionID = we_workflow_definition_id r,
      exec_Status = we_status r, exec_InputJSON = we_input_json r,
      exec_OutputJSON = stringValue (we_output_json r), exec_ErrorText = stringValue (we_error_text r),
      exec_CreatedAt = we_created_at r, exec_UpdatedAt = we_updated_at r,
      exec_StartedAt = we_started_at r, exec_CompletedAt = we_completed_at r\<rparr>"

definition scanTaskInstance :: "task_row \<Rightarrow> TaskInstance" where
  "scanTaskInstance r =
     \<lparr>task_ID = ti_id r, task_WorkflowExecutionID = ti_workflow_execution_id r,
      task_TaskName = ti_task_name r, task_HandlerKey = ti_handler_key r, task_Status = ti_status r,
      task_InputJSON = ti_input_json r, task_OutputJSON = stringValue (ti_output_json r),
      task_NextRunAt = ti_next_run_at r, task_LastErrorText = stringValue (ti_last_error_text r),
      task_AttemptsTotal = ti_attempts_total r, task_IdempotencyKey = ti_idempotency_key r,
      task_DispatchedAt = ti_dispatched_at r, task_CompletedAt = ti_completed_at r,
      task_CreatedAt = ti_created_at r, task_UpdatedAt = ti_updated_at r\<rparr>"

definition scanTaskAttempt :: "attempt_row \<Rightarrow> TaskAttempt" where
  "scanTaskAttempt r =
     \<lparr>att_ID = ta_id r, att_TaskInstanceID = ta_task_instance_id r,
      att_AttemptNumber = ta_attempt_number r, att_Status = ta_status r,
      att_StartedAt = ta_started_at r, att_FinishedAt = ta_finished_at r,
      att_ErrorText = stringValue (ta_error_text r), att_OutputJSON = stringValue (ta_output_json r),
      att_CreatedAt = ta_created_at r\<rparr>"

definition scanOutboxEvent :: "outbox_row \<Rightarrow> OutboxEvent" where
  "scanOutboxEvent r =
     \<lparr>evt_ID = ob_id r, evt_AggregateType = ob_aggregate_type r, evt_AggregateID = ob_aggregate_id r,
      evt_EventType = ob_event_type r, evt_PayloadJSON = ob_payload_json r,
      evt_AvailableAt = ob_available_at r, evt_DispatchedAt = ob_dispatched_at r,
      evt_AttemptCount = ob_attempt_count r, evt_LastErrorText = stringValue (ob_last_error_text r),
      evt_CreatedAt = ob_created_at r\<rparr>"

lemmas scan_defs = scanWorkflowDefinition_def scanWorkflowExecution_def scanTaskInstance_def
  scanTaskAttempt_def scanOutboxEvent_def stringValue_def

text \<open>The zero \<^verbatim>\<open>domain.TaskAttempt{}\<close> that is returned beside a finished task.\<close>

definition zero_attempt :: TaskAttempt where
  "zero_attempt = \<lparr>att_ID = [], att_TaskInstanceID = [], att_AttemptNumber = 0, att_Status = [],
     att_StartedAt = 0, att_FinishedAt = None, att_ErrorText = [], att_OutputJSON = [],
     att_CreatedAt = 0\<rparr>"

definition errTaskNotReplayable :: go_error where
  "errTaskNotReplayable = ErrorString ''task is not dead-lettered''"

definition IsNotFound :: "go_error \<Rightarrow> bool" where
  "IsNotFound e = error_is e ErrNoRows"

fun IsUniqueViolation :: "go_error \<Rightarrow> bool" where
  "IsUniqueViolation (PgError code) = (code = ''23505'')"
| "IsUniqueViolation (Wrap p e) = IsUniqueViolation e"
| "IsUniqueViolation e = False"

definition IsTaskNotReplayable :: "go_error \<Rightarrow> bool" where
  "IsTaskNotReplayable e = error_is e errTaskNotReplayable"

section \<open>Definitions, reads\<close>

definition CreateWorkflowDefinition ::
  "string \<Rightarrow> string \<Rightarrow> string \<Rightarrow> pgenv \<Rightarrow> pg \<Rightarrow> WorkflowDefinition store_result"
where
  "CreateWorkflowDefinition name description raw env db =
     apfst (map_sum id scanWorkflowDefinition)
       (pool_exec 0
          (sql_insert_definition name description (normalizeJSON raw) WorkflowDefinitionStatusActive)
          env db)"

definition GetWorkflowDefinition :: "string \<Rightarrow> pgenv \<Rightarrow> pg \<Rightarrow> go_error + WorkflowDefinition" where
  "GetWorkflowDefinition ident env db =
     map_sum id scanWorkflowDefinition (pool_query 0 (sql_select_definition ident) env db)"

definition GetWorkflowExecution :: "string \<Rightarrow> pgenv \<Rightarrow> pg \<Rightarrow> go_error + WorkflowExecution" where
  "GetWorkflowExecution ident env db =
     map_sum id scanWorkflowExecution (pool_query 0 (sql_select_execution ident) env db)"

definition GetTaskInstance :: "string \<Rightarrow> pgenv \<Rightarrow> pg \<Rightarrow> go_error + TaskInstance" where
  "GetTaskInstance ident env db =
     map_sum id scanTaskInstance (pool_query 0 (sql_select_task ident) env db)"

section \<open>Creating an execution\<close>

definition dispatch_payload :: "string \<Rightarrow> string \<Rightarrow> string \<Rightarrow> go_error + string" where
  "dispatch_payload taskID executionID handlerKey =
     marshal_payload \<lparr>pay_TaskID = taskID, pay_ExecutionID = executionID, pay_HandlerKey = handlerKey\<rparr>"

definition insert_dispatch :: "string \<Rightarrow> string \<Rightarrow> unit tx_op" where
  "insert_dispatch taskID payload =
     statement (sql_insert_outbox ''task_instance'' taskID ''task.dispatch'' payload)"

definition create_execution_tx ::
  "string \<Rightarrow> string \<Rightarrow> string \<Rightarrow> string \<Rightarrow> ExecutionStartResult tx_op"
where
  "create_execution_tx workflowDefinitionID input taskName handlerKey =
     tx_bind (statement (sql_insert_execution workflowDefinitionID ExecutionStatusRunning
                (normalizeJSON input))) (\<lambda>er.
     let execution = scanWorkflowExecution er in
     tx_bind (statement (sql_insert_task (exec_ID execution) taskName handlerKey TaskStatusPending
                (normalizeJSON input) (makeTaskIdempotencyKey (exec_ID execution) taskName))) (\<lambda>tr.
     let task = scanTaskInstance tr in
     tx_bind (tx_lift (dispatch_payload (task_ID task) (exec_ID execution) (task_HandlerKey task)))
       (\<lambda>payload.
     tx_bind (insert_dispatch (task_ID task) payload) (\<lambda>_.
     tx_return \<lparr>start_Execution = execution, start_Task = task\<rparr>))))"

definition CreateExecutionAndTask ::
  "string \<Rightarrow> string \<Rightarrow> string \<Rightarrow> string \<Rightarrow> pgenv \<Rightarrow> pg \<Rightarrow> ExecutionStartResult store_result"
where
  "CreateExecutionAndTask workflowDefinitionID input taskName handlerKey =
     run_tx (create_execution_tx workflowDefinitionID input taskName handlerKey)"

section \<open>Snapshots and dead letters\<close>

text \<open>
  The snapshot reads the execution, its tasks and their attempts in three queries outside a
  transaction, so each may see a different state of the database.
\<close>

definition tasks_of_execution :: "string \<Rightarrow> pgenv \<Rightarrow> pg \<Rightarrow> go_error + TaskInstance list" where
  "tasks_of_execution executionID env db =
     with_uuid env executionID (\<lambda>u.
       Inr (map scanTaskInstance
         (sort_key ti_created_at
           (filter (\<lambda>t. ti_workflow_execution_id t = u) (pg_scan_tasks env (task_instances db))))))"

definition attempts_of_execution :: "string \<Rightarrow> pgenv \<Rightarrow> pg \<Rightarrow> go_error + TaskAttempt list" where
  "attempts_of_execution executionID env db =
     with_uuid env executionID (\<lambda>u.
       Inr (map scanTaskAttempt
         (sort_key ta_task_instance_id (sort_key ta_attempt_number
           [a. a \<leftarrow> pg_scan_attempts env (task_attempts db), t \<leftarrow> task_instances db,
               ti_id t = ta_task_instance_id a \<and> ti_workflow_execution_id t = u]))))"

text \<open>\<^verbatim>\<open>attemptsByTask\<close>: a Go map from task id to the attempts seen so far; absent is nil.\<close>

definition group_attempts :: "TaskAttempt list \<Rightarrow> string \<Rightarrow> TaskAttempt list" where
  "group_attempts attempts =
     foldl (\<lambda>m a. m(att_TaskInstanceID a := m (att_TaskInstanceID a) @ [a])) (\<lambda>_. []) attempts"

definition GetExecutionSnapshot ::
  "string \<Rightarrow> pgenv \<Rightarrow> pg \<Rightarrow> pg \<Rightarrow> pg \<Rightarrow> go_error + ExecutionSnapshot"
where
  "GetExecutionSnapshot executionID env db1 db2 db3 =
     (case pool_query 0 (sql_select_execution executionID) env db1 of
        Inl e \<Rightarrow> Inl e
      | Inr er \<Rightarrow>
          (case pool_query 1 (tasks_of_execution executionID) env db2 of
             Inl e \<Rightarrow> Inl e
           | Inr tasks \<Rightarrow>
               (case pool_query 2 (attempts_of_execution executionID) env db3 of
                  Inl e \<Rightarrow> Inl e
                | Inr attempts \<Rightarrow>
                    let attemptsByTask = group_attempts attempts in
                    Inr \<lparr>snap_Execution = scanWorkflowExecution er,
                         snap_Tasks = map (\<lambda>task. \<lparr>snap_Task = task,
                                         snap_Attempts = attemptsByTask (task_ID task)\<rparr>) tasks\<rparr>)))"

definition ListDeadLetteredTasks :: "int \<Rightarrow> pgenv \<Rightarrow> pg \<Rightarrow> go_error + TaskInstance list" where
  "ListDeadLetteredTasks limit = pool_query 0 (\<lambda>env db.
     check (0 \<le> limit) negative_limit
       (Inr (map scanTaskInstance
         (order_limit (\<lambda>t. - ti_updated_at t) limit
           (filter (\<lambda>t. ti_status t = TaskStatusDeadLettered)
             (pg_scan_tasks env (task_instances db)))))))"

definition replay_tx :: "string \<Rightarrow> TaskInstance tx_op" where
  "replay_tx taskID =
     tx_bind (statement (sql_read (sql_select_task taskID))) (\<lambda>r.
     let task = scanTaskInstance r in
     if task_Status task \<noteq> TaskStatusDeadLettered then tx_fail errTaskNotReplayable
     else
       tx_bind (statement (sql_update_task_replayed (task_ID task))) (\<lambda>r'.
       let updatedTask = scanTaskInstance r' in
       tx_bind (statement (sql_update_execution_running (task_WorkflowExecutionID task))) (\<lambda>_.
       tx_bind (tx_lift (dispatch_payload (task_ID updatedTask) (task_WorkflowExecutionID updatedTask)
                  (task_HandlerKey updatedTask))) (\<lambda>payload.
       tx_bind (insert_dispatch (task_ID updatedTask) payload) (\<lambda>_.
       tx_return updatedTask)))))"

definition ReplayDeadLetteredTask :: "string \<Rightarrow> pgenv \<Rightarrow> pg \<Rightarrow> TaskInstance store_result" where
  "ReplayDeadLetteredTask taskID = run_tx (replay_tx taskID)"

section \<open>Attempts\<close>

definition start_attempt_tx :: "string \<Rightarrow> (TaskInstance \<times> TaskAttempt \<times> bool) tx_op" where
  "start_attempt_tx taskID =
     tx_bind (statement (sql_read (sql_select_task taskID))) (\<lambda>r.
     let task = scanTaskInstance r in
     if task_Status task = TaskStatusSucceeded \<or> task_Status task = TaskStatusDeadLettered
     then tx_return (task, zero_attempt, True)
     else
       let attemptNumber = task_AttemptsTotal task + 1 in
       tx_bind (statement (sql_insert_attempt (task_ID task) attemptNumber TaskAttemptStatusRunning))
         (\<lambda>ar.
       tx_bind (statement (sql_update_task_running (task_ID task) attemptNumber)) (\<lambda>r'.
       tx_return (scanTaskInstance r', scanTaskAttempt ar, False))))"

definition StartTaskAttempt ::
  "string \<Rightarrow> pgenv \<Rightarrow> pg \<Rightarrow> (TaskInstance \<times> TaskAttempt \<times> bool) store_result"
where
  "StartTaskAttempt taskID = run_tx (start_attempt_tx taskID)"

text \<open>\<^verbatim>\<open>SELECT workflow_execution_id FROM task_instances WHERE id = $1 FOR UPDATE\<close>\<close>

definition select_execution_id :: "string \<Rightarrow> string tx_op" where
  "select_execution_id taskID =
     statement (sql_read (\<lambda>env db. map_sum id ti_workflow_execution_id (sql_select_task taskID env db)))"

definition complete_attempt_tx :: "string \<Rightarrow> string \<Rightarrow> string \<Rightarrow> unit tx_op" where
  "complete_attempt_tx taskID attemptID output =
     tx_bind (select_execution_id taskID) (\<lambda>executionID.
     let payload = normalizeJSON output in
     tx_bind (statement (sql_update_attempt_succeeded attemptID payload)) (\<lambda>_.
     tx_bind (statement (sql_update_task_succeeded taskID payload)) (\<lambda>_.
     statement (sql_update_execution_succeeded executionID payload))))"

definition CompleteTaskAttempt :: "string \<Rightarrow> string \<Rightarrow> string \<Rightarrow> pgenv \<Rightarrow> pg \<Rightarrow> unit store_result" where
  "CompleteTaskAttempt taskID attemptID output = run_tx (complete_attempt_tx taskID attemptID output)"

definition complete_and_enqueue_tx ::
  "string \<Rightarrow> string \<Rightarrow> string \<Rightarrow> string \<Rightarrow> string \<Rightarrow> unit tx_op"
where
  "complete_and_enqueue_tx taskID attemptID nextTaskName nextHandlerKey output =
     tx_bind (select_execution_id taskID) (\<lambda>executionID.
     let payload = normalizeJSON output in
     tx_bind (statement (sql_update_attempt_succeeded attemptID payload)) (\<lambda>_.
     tx_bind (statement (sql_update_task_succeeded taskID payload)) (\<lambda>_.
     tx_bind (statement (sql_insert_task executionID nextTaskName nextHandlerKey TaskStatusPending
                payload (makeTaskIdempotencyKey executionID nextTaskName))) (\<lambda>nr.
     let nextTaskID = ti_id nr in
     tx_bind (tx_lift (dispatch_payload nextTaskID executionID nextHandlerKey)) (\<lambda>dispatchPayload.
     insert_dispatch nextTaskID dispatchPayload)))))"

definition CompleteTaskAttemptAndEnqueueNextTask ::
  "string \<Rightarrow> string \<Rightarrow> string \<Rightarrow> string \<Rightarrow> string \<Rightarrow> pgenv \<Rightarrow> pg \<Rightarrow> unit store_result"
where
  "CompleteTaskAttemptAndEnqueueNextTask taskID attemptID nextTaskName nextHandlerKey output =
     run_tx (complete_and_enqueue_tx taskID attemptID nextTaskName nextHandlerKey output)"

section \<open>Retries\<close>

text \<open>
  \<^verbatim>\<open>SELECT .. ORDER BY next_run_at LIMIT $2 FOR UPDATE SKIP LOCKED\<close>: due pending tasks whose row
  no other transaction holds.
\<close>

definition due_retry :: "pgenv \<Rightarrow> task_row \<Rightarrow> bool" where
  "due_retry env t \<longleftrightarrow>
     ti_status t = TaskStatusPending \<and>
     (case ti_next_run_at t of None \<Rightarrow> False | Some at \<Rightarrow> at \<le> pg_now env)"

definition next_run_key :: "task_row \<Rightarrow> go_time" where
  "next_run_key t = (case ti_next_run_at t of None \<Rightarrow> 0 | Some at \<Rightarrow> at)"

definition select_due_retries :: "int \<Rightarrow> pgenv \<Rightarrow> pg \<Rightarrow> go_error + task_row list" where
  "select_due_retries limit env db =
     check (0 \<le> limit) negative_limit
       (Inr (order_limit next_run_key limit
         (filter (\<lambda>t. due_retry env t \<and> \<not> pg_locked env (ti_id t))
           (pg_scan_tasks env (task_instances db)))))"

fun enqueue_retries_tx :: "task_row list \<Rightarrow> unit tx_op" where
  "enqueue_retries_tx [] = tx_return ()"
| "enqueue_retries_tx (item # items) =
     tx_bind (tx_lift (dispatch_payload (ti_id item) (ti_workflow_execution_id item)
                (ti_handler_key item))) (\<lambda>payload.
     tx_bind (insert_dispatch (ti_id item) payload) (\<lambda>_.
     tx_bind (statement (sql_clear_next_run_at (ti_id item))) (\<lambda>_.
     enqueue_retries_tx items)))"

text \<open>The count returned beside an error is not used by any caller and is left out.\<close>

definition enqueue_due_tx :: "int \<Rightarrow> int tx_op" where
  "enqueue_due_tx limit =
     tx_bind (statement (sql_read (select_due_retries limit))) (\<lambda>dueTasks.
     tx_bind (enqueue_retries_tx dueTasks) (\<lambda>_.
     tx_return (int (length dueTasks))))"

definition EnqueueDueTaskRetries :: "int \<Rightarrow> pgenv \<Rightarrow> pg \<Rightarrow> int store_result" where
  "EnqueueDueTaskRetries limit = run_tx (enqueue_due_tx limit)"

definition schedule_retry_tx :: "string \<Rightarrow> string \<Rightarrow> string \<Rightarrow> go_time \<Rightarrow> unit tx_op" where
  "schedule_retry_tx taskID attemptID errorText nextRunAt =
     tx_bind (statement (sql_update_attempt_failed attemptID (truncate errorText 1000))) (\<lambda>_.
     statement (sql_update_task_retry taskID (truncate errorText 1000) nextRunAt))"

definition ScheduleTaskRetry ::
  "string \<Rightarrow> string \<Rightarrow> string \<Rightarrow> go_time \<Rightarrow> pgenv \<Rightarrow> pg \<Rightarrow> unit store_result"
where
  "ScheduleTaskRetry taskID attemptID errorText nextRunAt =
     run_tx (schedule_retry_tx taskID attemptID errorText nextRunAt)"

definition fail_attempt_tx :: "string \<Rightarrow> string \<Rightarrow> string \<Rightarrow> unit tx_op" where
  "fail_attempt_tx taskID attemptID errorText =
     tx_bind (select_execution_id taskID) (\<lambda>executionID.
     tx_bind (statement (sql_update_attempt_failed attemptID (truncate errorText 1000))) (\<lambda>_.
     tx_bind (statement (sql_update_task_dead_lettered taskID (truncate errorText 1000))) (\<lambda>_.
     statement (sql_update_execution_failed executionID (truncate errorText 1000)))))"

definition FailTaskAttempt :: "string \<Rightarrow> string \<Rightarrow> string \<Rightarrow> pgenv \<Rightarrow> pg \<Rightarrow> unit store_result" where
  "FailTaskAttempt taskID attemptID errorText = run_tx (fail_attempt_tx taskID attemptID errorText)"

section \<open>The outbox\<close>

definition pending_event :: "pgenv \<Rightarrow> outbox_row \<Rightarrow> bool" where
  "pending_event env r \<longleftrightarrow> ob_dispatched_at r = None \<and> ob_available_at r \<le> pg_now env"

definition ListPendingOutbox :: "int \<Rightarrow> pgenv \<Rightarrow> pg \<Rightarrow> go_error + OutboxEvent list" where
  "ListPendingOutbox limit = pool_query 0 (\<lambda>env db.
     check (0 \<le> limit) negative_limit
       (Inr (map scanOutboxEvent
         (order_limit ob_created_at limit
           (filter (pending_event env) (pg_scan_outbox env (outbox_events db)))))))"

definition MarkOutboxDispatched :: "string \<Rightarrow> pgenv \<Rightarrow> pg \<Rightarrow> unit store_result" where
  "MarkOutboxDispatched ident = pool_exec 0 (sql_mark_outbox_dispatched ident)"

text \<open>\<open>errText\<close> is \<^verbatim>\<open>dispatchErr.Error()\<close>.\<close>

definition RecordOutboxFailure :: "string \<Rightarrow> string \<Rightarrow> pgenv \<Rightarrow> pg \<Rightarrow> unit store_result" where
  "RecordOutboxFailure ident errText =
     pool_exec 0 (sql_record_outbox_failure ident (truncate errText 1000))"

end
