(* ===== verification/Idempotency.thy ===== *)
theory Idempotency
  imports Store
begin

text \<open>
  \<^verbatim>\<open>internal/db/idempotency.go\<close>: the claim a handler takes on an idempotency key before it
  works, the response it stores, and the release of a claim.  The contract the handlers rely on
  (\<^verbatim>\<open>handlers.idempotencyStore\<close>) is the locale \<open>idempotency_contract\<close>, stated over an abstract
  map from keys to claims and interpreted on the three operations of the store.
\<close>

section \<open>Statements\<close>

definition sql_insert_idempotency :: "string \<Rightarrow> string \<Rightarrow> string \<Rightarrow> string \<Rightarrow> int sql" where
  "sql_insert_idempotency hkey ikey owner status = (\<lambda>env n db.
     with_uuid env owner (\<lambda>u. with_text env [hkey, ikey]
       (if (hkey, ikey) \<in> ir_key ` set (idempotency_records db) then Inr (0, db)
        else check (u \<in> ti_id ` set (task_instances db)) foreign_key_violation
          (Inr (1, db\<lparr>idempotency_records := idempotency_records db @
             [\<lparr>ir_handler_key = hkey, ir_idempotency_key = ikey, ir_status = status,
               ir_response_json = None, ir_owner_task_instance_id = Some u,
               ir_created_at = pg_now env, ir_updated_at = pg_now env\<rparr>]\<rparr>)))))"

definition sql_select_idempotency :: "string \<Rightarrow> string \<Rightarrow> pgenv \<Rightarrow> pg \<Rightarrow> go_error + idempotency_row" where
  "sql_select_idempotency hkey ikey env db =
     with_text env [hkey, ikey] (one_row (select_by ir_key (hkey, ikey) (idempotency_records db)))"

definition set_idempotency_completed ::
  "go_time \<Rightarrow> string \<Rightarrow> string \<Rightarrow> idempotency_row \<Rightarrow> idempotency_row"
where
  "set_idempotency_completed t owner j r =
     (if ir_owner_task_instance_id r = Some owner
      then r\<lparr>ir_status := IdempotencyStatusCompleted, ir_response_json := Some j, ir_updated_at := t\<rparr>
      else r)"

text \<open>The rows that \<^verbatim>\<open>WHERE handler_key = .. AND idempotency_key = .. AND owner = ..\<close> selects.\<close>

definition owned_by :: "string \<times> string \<Rightarrow> string \<Rightarrow> idempotency_row \<Rightarrow> bool" where
  "owned_by k owner r \<longleftrightarrow> ir_key r = k \<and> ir_owner_task_instance_id r = Some owner"

definition sql_update_idempotency_completed ::
  "string \<Rightarrow> string \<Rightarrow> string \<Rightarrow> string \<Rightarrow> int sql"
where
  "sql_update_idempotency_completed hkey ikey owner response = (\<lambda>env n db.
     with_uuid env owner (\<lambda>u. with_text env [hkey, ikey] (with_jsonb env response (\<lambda>j.
       Inr (int (length (filter (owned_by (hkey, ikey) u) (idempotency_records db))),
            db\<lparr>idempotency_records :=
                 update_by ir_key (hkey, ikey) (set_idempotency_completed (pg_now env) u j)
                   (idempotency_records db)\<rparr>)))))"

definition sql_delete_idempotency :: "string \<Rightarrow> string \<Rightarrow> string \<Rightarrow> string \<Rightarrow> unit sql" where
  "sql_delete_idempotency hkey ikey status owner = (\<lambda>env n db.
     with_uuid env owner (\<lambda>u. with_text env [hkey, ikey]
       (Inr ((), db\<lparr>idempotency_records :=
          filter (\<lambda>r. \<not> (owned_by (hkey, ikey) u r \<and> ir_status r = status))
            (idempotency_records db)\<rparr>))))"

section \<open>Operations\<close>

definition errIdempotencyKeyInProgress :: go_error where
  "errIdempotencyKeyInProgress = ErrorString ''idempotency key is already in progress''"

definition IsIdempotencyKeyInProgress :: "go_error \<Rightarrow> bool" where
  "IsIdempotencyKeyInProgress e = error_is e errIdempotencyKeyInProgress"

text \<open>
  Two statements on the pool.  \<open>env\<close> is the environment of the insert, \<open>env'\<close> of the select,
  and \<open>other\<close> what other sessions commit in between.
\<close>

definition BeginIdempotentTask ::
  "string \<Rightarrow> string \<Rightarrow> string \<Rightarrow> pgenv \<Rightarrow> (pg \<Rightarrow> pg) \<Rightarrow> pgenv \<Rightarrow> pg \<Rightarrow> (string \<times> bool) store_result"
where
  "BeginIdempotentTask handlerKey idempotencyKey ownerTaskID env other env' db =
     (case pool_exec 0 (sql_insert_idempotency handlerKey idempotencyKey ownerTaskID
              IdempotencyStatusInProgress) env db of
        (Inl e, db1) \<Rightarrow> (Inl e, db1)
      | (Inr affected, db1) \<Rightarrow>
          if affected = 1 then (Inr ([], False), db1)
          else
            let db2 = other db1 in
            (case pool_query 0 (sql_select_idempotency handlerKey idempotencyKey) env' db2 of
               Inl e \<Rightarrow> (Inl e, db2)
             | Inr r \<Rightarrow>
                 if ir_status r = IdempotencyStatusCompleted
                 then (Inr (stringValue (ir_response_json r), True), db2)
                 else if ir_owner_task_instance_id r = Some ownerTaskID
                 then (Inr ([], False), db2)
                 else (Inl errIdempotencyKeyInProgress, db2)))"

definition CompleteIdempotentTask ::
  "string \<Rightarrow> string \<Rightarrow> string \<Rightarrow> string \<Rightarrow> pgenv \<Rightarrow> pg \<Rightarrow> unit store_result"
where
  "CompleteIdempotentTask handlerKey idempotencyKey ownerTaskID response env db =
     (case pool_exec 0 (sql_update_idempotency_completed handlerKey idempotencyKey ownerTaskID
              (normalizeJSON response)) env db of
        (Inl e, db1) \<Rightarrow> (Inl e, db1)
      | (Inr affected, db1) \<Rightarrow> if affected = 0 then (Inl ErrNoRows, db1) else (Inr (), db1))"

definition ReleaseIdempotentTask ::
  "string \<Rightarrow> string \<Rightarrow> string \<Rightarrow> pgenv \<Rightarrow> pg \<Rightarrow> unit store_result"
where
  "ReleaseIdempotentTask handlerKey idempotencyKey ownerTaskID =
     pool_exec 0 (sql_delete_idempotency handlerKey idempotencyKey IdempotencyStatusInProgress
       ownerTaskID)"

section \<open>The contract of the handlers\<close>

datatype claim = InProgress "string option" | Completed string

definition claim_of :: "idempotency_row \<Rightarrow> claim" where
  "claim_of r =
     (if ir_status r = IdempotencyStatusCompleted then Completed (stringValue (ir_response_json r))
      else InProgress (ir_owner_task_instance_id r))"

definition claims :: "pg \<Rightarrow> string \<times> string \<Rightarrow> claim option" where
  "claims db k = map_option claim_of (select_by ir_key k (idempotency_records db))"

text \<open>
  \<open>may_claim\<close> says when the operations are defined for an owner: its text is the canonical form
  of a uuid, the key is storable text, and the task exists.  \<open>stored\<close> is the stored form of a
  response.
\<close>

locale idempotency_contract =
  fixes begin_op :: "'k \<Rightarrow> string \<Rightarrow> 's \<Rightarrow> (go_error + (string \<times> bool)) \<times> 's"
    and complete_op :: "'k \<Rightarrow> string \<Rightarrow> string \<Rightarrow> 's \<Rightarrow> (go_error + unit) \<times> 's"
    and release_op :: "'k \<Rightarrow> string \<Rightarrow> 's \<Rightarrow> (go_error + unit) \<times> 's"
    and record_of :: "'s \<Rightarrow> 'k \<Rightarrow> claim option"
    and wf :: "'s \<Rightarrow> bool"
    and may_claim :: "'s \<Rightarrow> 'k \<Rightarrow> string \<Rightarrow> bool"
    and stored :: "string \<Rightarrow> string option"
  assumes begin_fresh:
      "wf s \<Longrightarrow> may_claim s k w \<Longrightarrow> record_of s k = None \<Longrightarrow>
       \<exists>s'. begin_op k w s = (Inr ([], False), s') \<and> wf s' \<and> may_claim s' k w \<and>
            record_of s' = (record_of s)(k \<mapsto> InProgress (Some w))"
    and begin_claimed:
      "wf s \<Longrightarrow> may_claim s k w \<Longrightarrow> record_of s k = Some c \<Longrightarrow>
       begin_op k w s =
         (case c of Completed resp \<Rightarrow> Inr (resp, True)
          | InProgress v \<Rightarrow> if v = Some w then Inr ([], False) else Inl errIdempotencyKeyInProgress, s)"
    and complete_owner:
      "wf s \<Longrightarrow> may_claim s k w \<Longrightarrow> record_of s k = Some (InProgress (Some w)) \<Longrightarrow>
       stored resp = Some j \<Longrightarrow>
       \<exists>s'. complete_op k w resp s = (Inr (), s') \<and> wf s' \<and> may_claim s' k w \<and>
            record_of s' = (record_of s)(k \<mapsto> Completed j)"
    and complete_foreign:
      "wf s \<Longrightarrow> may_claim s k w \<Longrightarrow> stored resp = Some j \<Longrightarrow>
       (record_of s k = None \<or> (\<exists>v. record_of s k = Some (InProgress v) \<and> v \<noteq> Some w)) \<Longrightarrow>
       complete_op k w resp s = (Inl ErrNoRows, s)"
    and complete_rejected:
      "wf s \<Longrightarrow> may_claim s k w \<Longrightarrow> stored resp = None \<Longrightarrow> \<exists>e. complete_op k w resp s = (Inl e, s)"
    and release_owner:
      "wf s \<Longrightarrow> may_claim s k w \<Longrightarrow>
       \<exists>s'. release_op k w s = (Inr (), s') \<and> wf s' \<and> may_claim s' k w \<and>
            record_of s' =
              (if record_of s k = Some (InProgress (Some w)) then (record_of s)(k := None)
               else record_of s)"
begin

text \<open>Once a response is stored every later claim, whoever asks, is answered with it.\<close>

lemma replay_after_complete:
  assumes "wf s" "may_claim s k w" "record_of s k = Some (InProgress (Some w))"
    and "stored resp = Some j" and "complete_op k w resp s = (r, s')" and "may_claim s' k v"
  shows "begin_op k v s' = (Inr (j, True), s')"
  using complete_owner [OF assms(1-4)] assms(5,6) begin_claimed [of s' k v] by fastforce

text \<open>A claim is exclusive: until it is released no other owner passes \<open>begin_op\<close>.\<close>

lemma exclusive_claim:
  assumes "wf s" "may_claim s k w" "record_of s k = None"
    and "begin_op k w s = (r, s')" and "may_claim s' k v" "v \<noteq> w"
  shows "begin_op k v s' = (Inl errIdempotencyKeyInProgress, s')"
  using begin_fresh [OF assms(1-3)] assms(4-6) begin_claimed [of s' k v] by fastforce

text \<open>The owner itself resumes its claim, so a retried attempt works again.\<close>

lemma resume_claim:
  assumes "wf s" "may_claim s k w" "record_of s k = None" "begin_op k w s = (r, s')"
  shows "begin_op k w s' = (Inr ([], False), s')"
  using begin_fresh [OF assms(1-3)] assms(4) begin_claimed [of s' k w] by fastforce

lemma release_after_begin:
  assumes "wf s" "may_claim s k w" "record_of s k = None"
    and "begin_op k w s = (r, s')" "release_op k w s' = (r', s'')"
  shows "record_of s'' = record_of s"
  using begin_fresh [OF assms(1-3)] assms(3-5) release_owner [of s' k w] by fastforce

lemma release_keeps_response:
  assumes "wf s" "may_claim s k w" "record_of s k = Some (Completed j)"
    and "release_op k w s = (r, s')"
  shows "record_of s' k = Some (Completed j)"
  using release_owner [OF assms(1,2)] assms(3,4) by fastforce

end

section \<open>The store implements the contract\<close>

text \<open>The same environment with every round trip and commit succeeding.\<close>

definition calmed :: "pgenv \<Rightarrow> pgenv" where
  "calmed env = env\<lparr>pg_fault := (\<lambda>_. None), pg_commit := (\<lambda>_. CommitOk)\<rparr>"

lemma calm_calmed [simp]: "calm (calmed env)"
  by (simp add: calm_def calmed_def)

lemma calmed_calm: "calm env \<Longrightarrow> calmed env = env"
  by (cases env) (auto simp: calm_def calmed_def)

lemma calmed_fields [simp]:
  "pg_now (calmed env) = pg_now env" "pg_jsonb_in (calmed env) = pg_jsonb_in env"
  "pg_uuid_in (calmed env) = pg_uuid_in env" "pg_text_ok (calmed env) = pg_text_ok env"
  by (simp_all add: calmed_def)

lemma pool_exec_calm:
  "calm env \<Longrightarrow> pool_exec n f env db =
     (case f env n db of Inl e \<Rightarrow> (Inl e, db) | Inr (x, db') \<Rightarrow> (Inr x, db'))"
  by (auto simp: pool_exec_def commit_def calm_def split: sum.split)

lemma pool_query_calm: "calm env \<Longrightarrow> pool_query n f env db = f env db"
  by (simp add: pool_query_def calm_def)

lemmas calm_calls = pool_exec_calm pool_query_calm

definition record_status_ok :: "idempotency_row \<Rightarrow> bool" where
  "record_status_ok r \<longleftrightarrow>
     ir_status r = IdempotencyStatusInProgress \<or> ir_status r = IdempotencyStatusCompleted"

definition records_wf :: "pg \<Rightarrow> bool" where
  "records_wf db \<longleftrightarrow> distinct (map ir_key (idempotency_records db)) \<and>
     list_all record_status_ok (idempotency_records db)"

definition claimable :: "pgenv \<Rightarrow> pgenv \<Rightarrow> pg \<Rightarrow> string \<times> string \<Rightarrow> string \<Rightarrow> bool" where
  "claimable env env' db k w \<longleftrightarrow>
     pg_uuid_in env w = Some w \<and> list_all (pg_text_ok env) [fst k, snd k] \<and>
     list_all (pg_text_ok env') [fst k, snd k] \<and> w \<in> ti_id ` set (task_instances db)"

lemma ir_key_completed [simp]: "ir_key (set_idempotency_completed t w j r) = ir_key r"
  by (simp add: ir_key_def set_idempotency_completed_def)

lemma claims_None: "claims db k = None \<longleftrightarrow> k \<notin> ir_key ` set (idempotency_records db)"
  by (simp add: claims_def select_by_None)

lemma claims_Some:
  "claims db k = Some c \<longleftrightarrow>
     (\<exists>r. select_by ir_key k (idempotency_records db) = Some r \<and> c = claim_of r)"
  by (auto simp: claims_def)

lemma claims_mem:
  "select_by ir_key k (idempotency_records db) = Some r \<Longrightarrow> k \<in> ir_key ` set (idempotency_records db)"
  by (force dest: select_by_SomeD)

lemma select_by_filter_other:
  "(\<And>r. key r = k \<Longrightarrow> P r) \<Longrightarrow> select_by key k (filter P rows) = select_by key k rows"
  by (induction rows) auto

lemma select_by_filter_unique:
  assumes "distinct (map key rows)" "select_by key k rows = Some r"
  shows "select_by key k (filter P rows) = (if P r then Some r else None)"
  using assms
  by (induction rows) (auto simp: image_iff select_by_None dest: select_by_SomeD split: if_splits)

lemma claims_append:
  assumes "ir_key r \<notin> ir_key ` set (idempotency_records s)"
  shows "claims (s\<lparr>idempotency_records := idempotency_records s @ [r]\<rparr>) =
         (claims s)(ir_key r \<mapsto> claim_of r)"
proof (rule ext)
  fix k'
  show "claims (s\<lparr>idempotency_records := idempotency_records s @ [r]\<rparr>) k' =
        ((claims s)(ir_key r \<mapsto> claim_of r)) k'"
    using assms select_by_None [of ir_key "ir_key r" "idempotency_records s"]
    by (cases "k' = ir_key r") (simp_all add: claims_def split: option.split)
qed

lemma begin_fresh_model:
  assumes "records_wf s" "claimable (calmed env) env' s k w" "claims s k = None"
  shows "\<exists>s'. BeginIdempotentTask (fst k) (snd k) w (calmed env) id env' s = (Inr ([], False), s') \<and>
           records_wf s' \<and> claimable (calmed env) env' s' k w \<and>
           claims s' = (claims s)(k \<mapsto> InProgress (Some w))"
proof -
  let ?r = "\<lparr>ir_handler_key = fst k, ir_idempotency_key = snd k,
    ir_status = IdempotencyStatusInProgress, ir_response_json = None,
    ir_owner_task_instance_id = Some w, ir_created_at = pg_now env, ir_updated_at = pg_now env\<rparr>"
  let ?s = "s\<lparr>idempotency_records := idempotency_records s @ [?r]\<rparr>"
  have r: "ir_key ?r = k" "claim_of ?r = InProgress (Some w)"
    by (simp_all add: ir_key_def claim_of_def)
  have fresh: "k \<notin> ir_key ` set (idempotency_records s)"
    using assms(3) by (simp add: claims_None)
  have "BeginIdempotentTask (fst k) (snd k) w (calmed env) id env' s = (Inr ([], False), ?s)"
    using assms(2) fresh by (simp add: BeginIdempotentTask_def calm_calls sql_insert_idempotency_def
        with_uuid_def with_text_def check_def claimable_def)
  moreover have "records_wf ?s" "claimable (calmed env) env' ?s k w"
    using assms(1,2) fresh r(1) by (simp_all add: records_wf_def claimable_def record_status_ok_def)
  moreover have "claims ?s = (claims s)(k \<mapsto> InProgress (Some w))"
    using claims_append [of ?r s] fresh by (simp add: r)
  ultimately show ?thesis by blast
qed

lemma begin_claimed_model:
  assumes "records_wf s" "claimable (calmed env) (calmed env') s k w" "claims s k = Some c"
  shows "BeginIdempotentTask (fst k) (snd k) w (calmed env) id (calmed env') s =
         (case c of Completed resp \<Rightarrow> Inr (resp, True)
          | InProgress v \<Rightarrow> if v = Some w then Inr ([], False) else Inl errIdempotencyKeyInProgress, s)"
  using assms
  by (cases k) (auto simp: BeginIdempotentTask_def calm_calls sql_insert_idempotency_def with_uuid_def
      with_text_def claimable_def claims_Some claim_of_def sql_select_idempotency_def one_row_def
      dest: claims_mem)

lemma complete_effect:
  assumes "claimable (calmed env) env' s k w" "pg_jsonb_in (calmed env) (normalizeJSON resp) = Some j"
  shows "CompleteIdempotentTask (fst k) (snd k) w resp (calmed env) s =
     (if filter (owned_by k w) (idempotency_records s) = [] then Inl ErrNoRows else Inr (),
      s\<lparr>idempotency_records :=
          update_by ir_key k (set_idempotency_completed (pg_now env) w j) (idempotency_records s)\<rparr>)"
  using assms
  by (auto simp: CompleteIdempotentTask_def calm_calls sql_update_idempotency_completed_def
      with_uuid_def with_text_def with_jsonb_def claimable_def)

lemma complete_owner_model:
  assumes "records_wf s" "claimable (calmed env) env' s k w" "claims s k = Some (InProgress (Some w))"
    and "pg_jsonb_in (calmed env) (normalizeJSON resp) = Some j"
  shows "\<exists>s'. CompleteIdempotentTask (fst k) (snd k) w resp (calmed env) s = (Inr (), s') \<and>
           records_wf s' \<and> claimable (calmed env) env' s' k w \<and>
           claims s' = (claims s)(k \<mapsto> Completed j)"
proof -
  obtain r where r: "select_by ir_key k (idempotency_records s) = Some r"
      "ir_owner_task_instance_id r = Some w"
    using assms(3) by (auto simp: claims_Some claim_of_def split: if_splits)
  then have owned: "filter (owned_by k w) (idempotency_records s) \<noteq> []"
    by (auto simp: filter_empty_conv owned_by_def dest!: select_by_SomeD)
  let ?s = "s\<lparr>idempotency_records :=
     update_by ir_key k (set_idempotency_completed (pg_now env) w j) (idempotency_records s)\<rparr>"
  have "claims ?s = (claims s)(k \<mapsto> Completed j)"
  proof (rule ext)
    fix k'
    show "claims ?s k' = ((claims s)(k \<mapsto> Completed j)) k'"
    proof (cases "k' = k")
      case True
      then show ?thesis using r
        by (simp add: claims_def select_update_by_same)
           (simp add: set_idempotency_completed_def claim_of_def stringValue_def)
    next
      case False
      then show ?thesis by (simp add: claims_def select_update_by_other)
    qed
  qed
  moreover have "list_all record_status_ok (idempotency_records ?s)"
    using assms(1) by (auto simp: records_wf_def record_status_ok_def set_idempotency_completed_def
        intro!: list_all_update_by)
  then have "records_wf ?s" "claimable (calmed env) env' ?s k w"
    using assms(1,2) by (simp_all add: records_wf_def claimable_def map_update_by)
  ultimately show ?thesis using owned by (simp add: complete_effect [OF assms(2,4)])
qed

lemma update_by_foreign:
  assumes "\<And>r. r \<in> set rows \<Longrightarrow> key r = k \<Longrightarrow> f r = r"
  shows "update_by key k f rows = rows"
  using assms by (induction rows) auto

lemma complete_foreign_model:
  assumes "records_wf s" "claimable (calmed env) env' s k w"
    and "pg_jsonb_in (calmed env) (normalizeJSON resp) = Some j"
    and "claims s k = None \<or> (\<exists>v. claims s k = Some (InProgress v) \<and> v \<noteq> Some w)"
  shows "CompleteIdempotentTask (fst k) (snd k) w resp (calmed env) s = (Inl ErrNoRows, s)"
proof -
  have other: "ir_owner_task_instance_id r \<noteq> Some w"
    if "r \<in> set (idempotency_records s)" "ir_key r = k" for r
    using assms(1,4) select_by_distinct [of ir_key "idempotency_records s" r] that
    by (auto simp: records_wf_def claims_def claim_of_def split: if_splits)
  then have "filter (owned_by k w) (idempotency_records s) = []"
    by (auto simp: filter_empty_conv owned_by_def)
  moreover have "update_by ir_key k (set_idempotency_completed (pg_now env) w j)
      (idempotency_records s) = idempotency_records s"
    by (rule update_by_foreign) (simp add: set_idempotency_completed_def other)
  ultimately show ?thesis by (simp add: complete_effect [OF assms(2,3)])
qed

lemma release_owner_model:
  assumes "records_wf s" "claimable (calmed env) env' s k w"
  shows "\<exists>s'. ReleaseIdempotentTask (fst k) (snd k) w (calmed env) s = (Inr (), s') \<and>
           records_wf s' \<and> claimable (calmed env) env' s' k w \<and>
           claims s' = (if claims s k = Some (InProgress (Some w)) then (claims s)(k := None)
                        else claims s)"
proof -
  let ?P = "\<lambda>r. \<not> (owned_by k w r \<and> ir_status r = IdempotencyStatusInProgress)"
  let ?s = "s\<lparr>idempotency_records := filter ?P (idempotency_records s)\<rparr>"
  have run: "ReleaseIdempotentTask (fst k) (snd k) w (calmed env) s = (Inr (), ?s)"
    using assms(2) by (cases k) (simp add: ReleaseIdempotentTask_def calm_calls
        sql_delete_idempotency_def with_uuid_def with_text_def claimable_def)
  have same: "claims ?s k' = claims s k'" if "k' \<noteq> k" for k'
    using that by (simp add: claims_def select_by_filter_other owned_by_def)
  have "claims ?s k =
      (if claims s k = Some (InProgress (Some w)) then None else claims s k)"
  proof (cases "select_by ir_key k (idempotency_records s)")
    case None
    then have "select_by ir_key k (filter ?P (idempotency_records s)) = None"
      unfolding select_by_None by auto
    with None show ?thesis by (simp add: claims_def)
  next
    case (Some r)
    with assms(1) select_by_filter_unique [of ir_key "idempotency_records s" k r ?P]
    show ?thesis
      by (auto simp: claims_def records_wf_def claim_of_def owned_by_def list_all_iff
          record_status_ok_def dest!: select_by_SomeD split: if_splits)
  qed
  then have "claims ?s = (if claims s k = Some (InProgress (Some w)) then (claims s)(k := None)
      else claims s)" (is "?c = ?d")
  proof (intro ext)
    show "?c k' = ?d k'" if "claims ?s k =
        (if claims s k = Some (InProgress (Some w)) then None else claims s k)" for k'
      using that same [of k'] by (cases "k' = k") auto
  qed
  moreover have "records_wf ?s" "claimable (calmed env) env' ?s k w"
    using assms by (auto simp: records_wf_def claimable_def distinct_map_filter list_all_iff)
  ultimately show ?thesis using run by blast
qed

lemma complete_rejected_model:
  assumes "claimable (calmed env) env' s k w" "pg_jsonb_in (calmed env) (normalizeJSON resp) = None"
  shows "\<exists>e. CompleteIdempotentTask (fst k) (snd k) w resp (calmed env) s = (Inl e, s)"
  using assms by (simp add: CompleteIdempotentTask_def calm_calls
      sql_update_idempotency_completed_def with_uuid_def with_text_def with_jsonb_def claimable_def)

interpretation idem: idempotency_contract
  "\<lambda>k w. BeginIdempotentTask (fst k) (snd k) w (calmed env) id (calmed env')"
  "\<lambda>k w resp. CompleteIdempotentTask (fst k) (snd k) w resp (calmed env)"
  "\<lambda>k w. ReleaseIdempotentTask (fst k) (snd k) w (calmed env)"
  claims records_wf "claimable (calmed env) (calmed env')"
  "\<lambda>resp. pg_jsonb_in (calmed env) (normalizeJSON resp)"
  for env env'
  by unfold_locales
     (rule begin_fresh_model begin_claimed_model complete_owner_model complete_foreign_model
        complete_rejected_model release_owner_model; assumption)+

end
