(* ===== verification/StoreInv.thy ===== *)
theory StoreInv
  imports Idempotency
begin

text \<open>
  The invariants of the tables, and that every operation of the store keeps them, whatever the
  environment does (failed round trips, rolled back commits, lost replies, any interleaving of
  whole transactions).

  \<^item> \<open>schema_ok\<close>: the primary keys, \<^verbatim>\<open>UNIQUE\<close> indexes and foreign keys of
    \<^verbatim>\<open>migrations/*.sql\<close>.
  \<^item> \<open>lifecycle_ok\<close>: what each status says about the other columns of its row.
  \<^item> \<open>numbering_ok\<close>: the attempts of a task are numbered 1, 2, .. without gap or repetition, and
    \<^verbatim>\<open>attempts_total\<close> is their number.
  \<^item> \<open>outbox_ok\<close>: every outbox row is a dispatch of an existing task.
\<close>

section \<open>The invariants\<close>

definition schema_ok :: "pg \<Rightarrow> bool" where
  "schema_ok db \<longleftrightarrow>
     distinct (map wd_id (workflow_definitions db)) \<and>
     distinct (map wd_name (workflow_definitions db)) \<and>
     distinct (map we_id (workflow_executions db)) \<and>
     set (map we_workflow_definition_id (workflow_executions db)) \<subseteq>
       set (map wd_id (workflow_definitions db)) \<and>
     distinct (map ti_id (task_instances db)) \<and>
     distinct (map ti_idempotency_key (task_instances db)) \<and>
     set (map ti_workflow_execution_id (task_instances db)) \<subseteq>
       set (map we_id (workflow_executions db)) \<and>
     distinct (map ta_id (task_attempts db)) \<and>
     set (map ta_task_instance_id (task_attempts db)) \<subseteq> set (map ti_id (task_instances db)) \<and>
     distinct (map ob_id (outbox_events db)) \<and>
     distinct (map ir_key (idempotency_records db)) \<and>
     set (map ir_owner_task_instance_id (idempotency_records db)) \<subseteq>
       Some ` set (map ti_id (task_instances db))"

definition execution_row_ok :: "execution_row \<Rightarrow> bool" where
  "execution_row_ok r \<longleftrightarrow>
     we_status r \<in> set execution_statuses \<and> we_started_at r \<noteq> None \<and>
     (we_status r = ExecutionStatusRunning \<longleftrightarrow> we_completed_at r = None) \<and>
     (we_status r = ExecutionStatusSucceeded \<longrightarrow> we_output_json r \<noteq> None) \<and>
     (we_status r = ExecutionStatusFailed \<longrightarrow> we_error_text r \<noteq> None)"

definition task_row_ok :: "task_row \<Rightarrow> bool" where
  "task_row_ok r \<longleftrightarrow>
     ti_status r \<in> set task_statuses \<and> 0 \<le> ti_attempts_total r \<and> ti_attempts_total r \<le> int4_max \<and>
     (ti_status r = TaskStatusRunning \<longrightarrow> ti_next_run_at r = None) \<and>
     (ti_status r = TaskStatusSucceeded \<longrightarrow> ti_output_json r \<noteq> None \<and> ti_completed_at r \<noteq> None) \<and>
     (ti_status r = TaskStatusDeadLettered \<longrightarrow>
        ti_last_error_text r \<noteq> None \<and> ti_completed_at r \<noteq> None \<and> ti_next_run_at r = None)"

definition attempt_row_ok :: "attempt_row \<Rightarrow> bool" where
  "attempt_row_ok r \<longleftrightarrow>
     ta_status r \<in> set attempt_statuses \<and>
     (ta_status r = TaskAttemptStatusRunning \<longleftrightarrow> ta_finished_at r = None) \<and>
     (ta_status r = TaskAttemptStatusSucceeded \<longrightarrow> ta_output_json r \<noteq> None) \<and>
     (ta_status r = TaskAttemptStatusFailed \<longrightarrow> ta_error_text r \<noteq> None)"

definition idempotency_row_ok :: "idempotency_row \<Rightarrow> bool" where
  "idempotency_row_ok r \<longleftrightarrow>
     record_status_ok r \<and>
     (ir_status r = IdempotencyStatusCompleted \<longleftrightarrow> ir_response_json r \<noteq> None)"

definition lifecycle_ok :: "pg \<Rightarrow> bool" where
  "lifecycle_ok db \<longleftrightarrow>
     list_all execution_row_ok (workflow_executions db) \<and>
     list_all task_row_ok (task_instances db) \<and>
     list_all attempt_row_ok (task_attempts db) \<and>
     list_all idempotency_row_ok (idempotency_records db)"

definition attempts_of :: "pg \<Rightarrow> string \<Rightarrow> attempt_row list" where
  "attempts_of db u = filter (\<lambda>a. ta_task_instance_id a = u) (task_attempts db)"

definition numbering_ok :: "pg \<Rightarrow> bool" where
  "numbering_ok db \<longleftrightarrow>
     list_all (\<lambda>t. map ta_attempt_number (attempts_of db (ti_id t)) = [1..ti_attempts_total t])
       (task_instances db)"

definition outbox_row_ok :: "pg \<Rightarrow> outbox_row \<Rightarrow> bool" where
  "outbox_row_ok db r \<longleftrightarrow>
     ob_aggregate_type r = ''task_instance'' \<and> ob_event_type r = ''task.dispatch'' \<and>
     ob_aggregate_id r \<in> ti_id ` set (task_instances db) \<and> 0 \<le> ob_attempt_count r"

definition outbox_ok :: "pg \<Rightarrow> bool" where
  "outbox_ok db = list_all (outbox_row_ok db) (outbox_events db)"

lemmas row_ok_defs = execution_row_ok_def task_row_ok_def attempt_row_ok_def idempotency_row_ok_def
  status_sets

section \<open>Every statement keeps the schema and the lifecycle\<close>

lemmas insert_defs = sql_insert_definition_def sql_insert_execution_def sql_insert_task_def
  sql_insert_attempt_def sql_insert_outbox_def sql_insert_idempotency_def

lemmas row_update_defs = sql_update_attempt_succeeded_def sql_update_attempt_failed_def
  sql_update_task_succeeded_def sql_update_task_retry_def sql_update_task_dead_lettered_def
  sql_clear_next_run_at_def sql_update_execution_succeeded_def sql_update_execution_failed_def
  sql_update_execution_running_def sql_mark_outbox_dispatched_def sql_record_outbox_failure_def

lemmas returning_defs = sql_update_task_running_def sql_update_task_replayed_def returning_task_def

lemma returning_Inr [sql_simps]:
  "returning_task u f db = Inr (r, db') \<longleftrightarrow>
     db' = upd_task u f db \<and> select_by ti_id u (task_instances db') = Some r"
  by (auto simp: returning_task_def Let_def one_row_def split: option.splits)

text \<open>The columns the keys are made of are not assigned by any update.\<close>

lemma key_columns [simp]:
  "ta_id (set_attempt_succeeded t j a) = ta_id a" "ta_id (set_attempt_failed t x a) = ta_id a"
  "ta_task_instance_id (set_attempt_succeeded t j a) = ta_task_instance_id a"
  "ta_task_instance_id (set_attempt_failed t x a) = ta_task_instance_id a"
  "ta_attempt_number (set_attempt_succeeded t j a) = ta_attempt_number a"
  "ta_attempt_number (set_attempt_failed t x a) = ta_attempt_number a"
  "we_id (set_execution_succeeded t j e) = we_id e" "we_id (set_execution_failed t x e) = we_id e"
  "we_id (set_execution_running t e) = we_id e"
  "we_workflow_definition_id (set_execution_succeeded t j e) = we_workflow_definition_id e"
  "we_workflow_definition_id (set_execution_failed t x e) = we_workflow_definition_id e"
  "we_workflow_definition_id (set_execution_running t e) = we_workflow_definition_id e"
  "ob_id (set_outbox_dispatched t r) = ob_id r" "ob_id (set_outbox_failure x r) = ob_id r"
  by (simp_all add: set_attempt_defs set_execution_defs set_outbox_defs)

definition same_task_keys :: "(task_row \<Rightarrow> task_row) \<Rightarrow> bool" where
  "same_task_keys f \<longleftrightarrow>
     (\<forall>r. ti_id (f r) = ti_id r \<and> ti_idempotency_key (f r) = ti_idempotency_key r \<and>
          ti_workflow_execution_id (f r) = ti_workflow_execution_id r \<and>
          ti_task_name (f r) = ti_task_name r \<and> ti_handler_key (f r) = ti_handler_key r)"

lemma same_task_keys_set [simp]:
  "same_task_keys (set_task_running t n)" "same_task_keys (set_task_succeeded t j)"
  "same_task_keys (set_task_retry t e at)" "same_task_keys (set_task_dead_lettered t e)"
  "same_task_keys (set_task_replayed t)" "same_task_keys (clear_next_run_at t)"
  by (simp_all add: same_task_keys_def set_task_defs)

lemma same_task_keysD:
  "same_task_keys f \<Longrightarrow> ti_id (f r) = ti_id r"
  "same_task_keys f \<Longrightarrow> ti_idempotency_key (f r) = ti_idempotency_key r"
  "same_task_keys f \<Longrightarrow> ti_workflow_execution_id (f r) = ti_workflow_execution_id r"
  "same_task_keys f \<Longrightarrow> ti_task_name (f r) = ti_task_name r"
  "same_task_keys f \<Longrightarrow> ti_handler_key (f r) = ti_handler_key r"
  by (simp_all add: same_task_keys_def)

lemma schema_upd_task:
  assumes "same_task_keys f"
  shows "schema_ok (upd_task u f db) = schema_ok db"
proof -
  have "map ti_id (update_by ti_id u f rows) = map ti_id rows"
    and "map ti_idempotency_key (update_by ti_id u f rows) = map ti_idempotency_key rows"
    and "map ti_workflow_execution_id (update_by ti_id u f rows) = map ti_workflow_execution_id rows"
    for rows using assms by (simp_all add: map_update_by same_task_keysD)
  then show ?thesis by (simp add: schema_ok_def upd_task_def del: set_map)
qed

lemma schema_upd_execution:
  assumes "\<And>r. we_id (f r) = we_id r"
    and "\<And>r. we_workflow_definition_id (f r) = we_workflow_definition_id r"
  shows "schema_ok (upd_execution u f db) = schema_ok db"
  using map_update_by [of we_id u we_id f] map_update_by [of we_id u we_workflow_definition_id f] assms
  by (simp add: schema_ok_def upd_execution_def del: set_map)

lemma schema_upd_attempt:
  assumes "\<And>r. ta_id (f r) = ta_id r" and "\<And>r. ta_task_instance_id (f r) = ta_task_instance_id r"
  shows "schema_ok (upd_attempt u f db) = schema_ok db"
  using map_update_by [of ta_id u ta_id f] map_update_by [of ta_id u ta_task_instance_id f] assms
  by (simp add: schema_ok_def upd_attempt_def del: set_map)

lemma schema_upd_outbox:
  assumes "\<And>r. ob_id (f r) = ob_id r"
  shows "schema_ok (upd_outbox u f db) = schema_ok db"
  using map_update_by [of ob_id u ob_id f] assms
  by (simp add: schema_ok_def upd_outbox_def del: set_map)

lemmas schema_upd = schema_upd_task schema_upd_execution schema_upd_attempt schema_upd_outbox

lemma schema_read: "schema_ok db \<Longrightarrow> sql_read f env n db = Inr (x, db') \<Longrightarrow> schema_ok db'"
  by (simp add: sql_simps)

lemma schema_append_definition:
  "schema_ok db \<Longrightarrow> wd_id r \<notin> wd_id ` set (workflow_definitions db) \<Longrightarrow>
   wd_name r \<notin> wd_name ` set (workflow_definitions db) \<Longrightarrow>
   schema_ok (db\<lparr>workflow_definitions := workflow_definitions db @ [r]\<rparr>)"
  by (simp add: schema_ok_def subset_insertI2)

lemma schema_append_execution:
  "schema_ok db \<Longrightarrow> we_id r \<notin> we_id ` set (workflow_executions db) \<Longrightarrow>
   we_workflow_definition_id r \<in> wd_id ` set (workflow_definitions db) \<Longrightarrow>
   schema_ok (db\<lparr>workflow_executions := workflow_executions db @ [r]\<rparr>)"
  by (simp add: schema_ok_def subset_insertI2)

lemma schema_append_task:
  "schema_ok db \<Longrightarrow> ti_id r \<notin> ti_id ` set (task_instances db) \<Longrightarrow>
   ti_idempotency_key r \<notin> ti_idempotency_key ` set (task_instances db) \<Longrightarrow>
   ti_workflow_execution_id r \<in> we_id ` set (workflow_executions db) \<Longrightarrow>
   schema_ok (db\<lparr>task_instances := task_instances db @ [r]\<rparr>)"
  by (simp add: schema_ok_def subset_insertI2)

lemma schema_append_attempt:
  "schema_ok db \<Longrightarrow> ta_id r \<notin> ta_id ` set (task_attempts db) \<Longrightarrow>
   ta_task_instance_id r \<in> ti_id ` set (task_instances db) \<Longrightarrow>
   schema_ok (db\<lparr>task_attempts := task_attempts db @ [r]\<rparr>)"
  by (simp add: schema_ok_def)

lemma schema_append_outbox:
  "schema_ok db \<Longrightarrow> ob_id r \<notin> ob_id ` set (outbox_events db) \<Longrightarrow>
   schema_ok (db\<lparr>outbox_events := outbox_events db @ [r]\<rparr>)"
  by (simp add: schema_ok_def)

lemma schema_append_record:
  "schema_ok db \<Longrightarrow> ir_key r \<notin> ir_key ` set (idempotency_records db) \<Longrightarrow>
   ir_owner_task_instance_id r \<in> Some ` ti_id ` set (task_instances db) \<Longrightarrow>
   schema_ok (db\<lparr>idempotency_records := idempotency_records db @ [r]\<rparr>)"
  by (simp add: schema_ok_def)

lemmas schema_append = schema_append_definition schema_append_execution schema_append_task
  schema_append_attempt schema_append_outbox schema_append_record

lemma schema_insert:
  assumes "schema_ok db"
  shows "sql_insert_definition a b c d env n db = Inr (x1, db') \<Longrightarrow> schema_ok db'"
    and "sql_insert_execution a b c env n db = Inr (x2, db') \<Longrightarrow> schema_ok db'"
    and "sql_insert_task a b c d e f env n db = Inr (x3, db') \<Longrightarrow> schema_ok db'"
    and "sql_insert_attempt a i c env n db = Inr (x4, db') \<Longrightarrow> schema_ok db'"
    and "sql_insert_outbox a b c d env n db = Inr (x5, db') \<Longrightarrow> schema_ok db'"
  using assms by (auto simp: insert_defs sql_simps Let_def intro!: schema_append)

lemma schema_insert_record:
  assumes "schema_ok db" "sql_insert_idempotency a b c d env n db = Inr (x, db')"
  shows "schema_ok db'"
  using assms by (auto simp: insert_defs sql_simps ir_key_def intro!: schema_append split: if_splits)

lemma schema_update:
  assumes "schema_ok db"
  shows "sql_update_attempt_succeeded a b env n db = Inr (x, db') \<Longrightarrow> schema_ok db'"
    and "sql_update_attempt_failed a b env n db = Inr (x, db') \<Longrightarrow> schema_ok db'"
    and "sql_update_task_succeeded a b env n db = Inr (x, db') \<Longrightarrow> schema_ok db'"
    and "sql_update_task_retry a b at env n db = Inr (x, db') \<Longrightarrow> schema_ok db'"
    and "sql_update_task_dead_lettered a b env n db = Inr (x, db') \<Longrightarrow> schema_ok db'"
    and "sql_clear_next_run_at a env n db = Inr (x, db') \<Longrightarrow> schema_ok db'"
    and "sql_update_execution_succeeded a b env n db = Inr (x, db') \<Longrightarrow> schema_ok db'"
    and "sql_update_execution_failed a b env n db = Inr (x, db') \<Longrightarrow> schema_ok db'"
    and "sql_update_execution_running a env n db = Inr (x, db') \<Longrightarrow> schema_ok db'"
    and "sql_mark_outbox_dispatched a env n db = Inr (x, db') \<Longrightarrow> schema_ok db'"
    and "sql_record_outbox_failure a b env n db = Inr (x, db') \<Longrightarrow> schema_ok db'"
    and "sql_update_task_running a i env n db = Inr (r, db') \<Longrightarrow> schema_ok db'"
    and "sql_update_task_replayed a env n db = Inr (r, db') \<Longrightarrow> schema_ok db'"
  using assms
  by (auto simp: row_update_defs sql_update_task_running_def sql_update_task_replayed_def sql_simps
      schema_upd)

lemma schema_filter_records:
  "schema_ok db \<Longrightarrow> schema_ok (db\<lparr>idempotency_records := filter P (idempotency_records db)\<rparr>)"
  by (simp add: schema_ok_def distinct_map_filter) blast

lemma schema_record_update:
  assumes "schema_ok db"
  shows "sql_update_idempotency_completed a b c d env n db = Inr (x1, db') \<Longrightarrow> schema_ok db'"
    and "sql_delete_idempotency a b c d env n db = Inr (x2, db') \<Longrightarrow> schema_ok db'"
proof -
  have owner: "ir_owner_task_instance_id (set_idempotency_completed t w j r) =
      ir_owner_task_instance_id r" for t w j r by (simp add: set_idempotency_completed_def)
  assume "sql_update_idempotency_completed a b c d env n db = Inr (x1, db')"
  then show "schema_ok db'" using assms map_update_by [of ir_key "(a, b)" ir_key]
      map_update_by [of ir_key "(a, b)" ir_owner_task_instance_id]
    by (auto simp: sql_update_idempotency_completed_def sql_simps schema_ok_def owner simp del: set_map)
next
  assume "sql_delete_idempotency a b c d env n db = Inr (x2, db')"
  then show "schema_ok db'" using assms
    by (auto simp: sql_delete_idempotency_def sql_simps schema_filter_records)
qed

lemma lifecycle_upd_task:
  "lifecycle_ok db \<Longrightarrow> (\<And>r. r \<in> set (task_instances db) \<Longrightarrow> task_row_ok r \<Longrightarrow> task_row_ok (f r)) \<Longrightarrow>
   lifecycle_ok (upd_task u f db)"
  by (simp add: lifecycle_ok_def upd_task_def list_all_update_by)

lemma lifecycle_upd_execution:
  "lifecycle_ok db \<Longrightarrow> (\<And>r. execution_row_ok r \<Longrightarrow> execution_row_ok (f r)) \<Longrightarrow>
   lifecycle_ok (upd_execution u f db)"
  by (simp add: lifecycle_ok_def upd_execution_def list_all_update_by)

lemma lifecycle_upd_attempt:
  "lifecycle_ok db \<Longrightarrow> (\<And>r. attempt_row_ok r \<Longrightarrow> attempt_row_ok (f r)) \<Longrightarrow>
   lifecycle_ok (upd_attempt u f db)"
  by (simp add: lifecycle_ok_def upd_attempt_def list_all_update_by)

lemma lifecycle_upd_outbox: "lifecycle_ok (upd_outbox u f db) = lifecycle_ok db"
  by (simp add: lifecycle_ok_def upd_outbox_def)

lemmas lifecycle_upd = lifecycle_upd_task lifecycle_upd_execution lifecycle_upd_attempt

lemma row_ok_setters:
  "execution_row_ok e \<Longrightarrow> execution_row_ok (set_execution_succeeded t x e)"
  "execution_row_ok e \<Longrightarrow> execution_row_ok (set_execution_failed t x e)"
  "execution_row_ok e \<Longrightarrow> execution_row_ok (set_execution_running t e)"
  "attempt_row_ok a \<Longrightarrow> attempt_row_ok (set_attempt_succeeded t x a)"
  "attempt_row_ok a \<Longrightarrow> attempt_row_ok (set_attempt_failed t x a)"
  "task_row_ok r \<Longrightarrow> 0 \<le> n \<Longrightarrow> n \<le> int4_max \<Longrightarrow> task_row_ok (set_task_running t n r)"
  "task_row_ok r \<Longrightarrow> task_row_ok (set_task_succeeded t x r)"
  "task_row_ok r \<Longrightarrow> task_row_ok (set_task_retry t x at r)"
  "task_row_ok r \<Longrightarrow> task_row_ok (set_task_dead_lettered t x r)"
  "task_row_ok r \<Longrightarrow> task_row_ok (set_task_replayed t r)"
  "task_row_ok r \<Longrightarrow> task_row_ok (clear_next_run_at t r)"
  by (simp_all add: row_ok_defs set_execution_defs set_attempt_defs set_task_defs)

lemma lifecycle_insert:
  assumes "lifecycle_ok db"
  shows "sql_insert_definition a b c d env n db = Inr (x1, db') \<Longrightarrow> lifecycle_ok db'"
    and "sql_insert_execution a ExecutionStatusRunning c env n db = Inr (x2, db') \<Longrightarrow> lifecycle_ok db'"
    and "sql_insert_task a b c TaskStatusPending e f env n db = Inr (x3, db') \<Longrightarrow> lifecycle_ok db'"
    and "sql_insert_attempt a i TaskAttemptStatusRunning env n db = Inr (x4, db') \<Longrightarrow> lifecycle_ok db'"
    and "sql_insert_outbox a b c d env n db = Inr (x5, db') \<Longrightarrow> lifecycle_ok db'"
  using assms
  by (auto simp: insert_defs sql_simps Let_def lifecycle_ok_def row_ok_defs int4_max_def)

lemma lifecycle_record:
  assumes "lifecycle_ok db"
  shows "sql_insert_idempotency a b c IdempotencyStatusInProgress env n db = Inr (x1, db') \<Longrightarrow>
           lifecycle_ok db'"
    and "sql_update_idempotency_completed a b c d env n db = Inr (x1, db') \<Longrightarrow> lifecycle_ok db'"
    and "sql_delete_idempotency a b c d env n db = Inr (x2, db') \<Longrightarrow> lifecycle_ok db'"
  using assms
  by (auto simp: sql_insert_idempotency_def sql_update_idempotency_completed_def
      sql_delete_idempotency_def sql_simps lifecycle_ok_def idempotency_row_ok_def
      record_status_ok_def set_idempotency_completed_def list_all_iff set_update_by split: if_splits)

lemma lifecycle_update:
  assumes "lifecycle_ok db"
  shows "sql_update_attempt_succeeded a b env n db = Inr (x, db') \<Longrightarrow> lifecycle_ok db'"
    and "sql_update_attempt_failed a b env n db = Inr (x, db') \<Longrightarrow> lifecycle_ok db'"
    and "sql_update_task_succeeded a b env n db = Inr (x, db') \<Longrightarrow> lifecycle_ok db'"
    and "sql_update_task_retry a b at env n db = Inr (x, db') \<Longrightarrow> lifecycle_ok db'"
    and "sql_update_task_dead_lettered a b env n db = Inr (x, db') \<Longrightarrow> lifecycle_ok db'"
    and "sql_clear_next_run_at a env n db = Inr (x, db') \<Longrightarrow> lifecycle_ok db'"
    and "sql_update_execution_succeeded a b env n db = Inr (x, db') \<Longrightarrow> lifecycle_ok db'"
    and "sql_update_execution_failed a b env n db = Inr (x, db') \<Longrightarrow> lifecycle_ok db'"
    and "sql_update_execution_running a env n db = Inr (x, db') \<Longrightarrow> lifecycle_ok db'"
    and "sql_mark_outbox_dispatched a env n db = Inr (x, db') \<Longrightarrow> lifecycle_ok db'"
    and "sql_record_outbox_failure a b env n db = Inr (x, db') \<Longrightarrow> lifecycle_ok db'"
    and "0 \<le> i \<Longrightarrow> sql_update_task_running a i env n db = Inr (r, db') \<Longrightarrow> lifecycle_ok db'"
    and "sql_update_task_replayed a env n db = Inr (r, db') \<Longrightarrow> lifecycle_ok db'"
  using assms
  by (auto simp: row_update_defs sql_update_task_running_def sql_update_task_replayed_def sql_simps
      lifecycle_upd_outbox intro!: lifecycle_upd row_ok_setters)

section \<open>Calls of the store\<close>

text \<open>A call that may change the database, and what it leaves behind.\<close>

datatype store_call =
    CallCreateWorkflowDefinition string string string
  | CallCreateExecutionAndTask string string string string
  | CallReplayDeadLetteredTask string
  | CallStartTaskAttempt string
  | CallCompleteTaskAttempt string string string
  | CallCompleteTaskAttemptAndEnqueueNextTask string string string string string
  | CallEnqueueDueTaskRetries int
  | CallScheduleTaskRetry string string string go_time
  | CallFailTaskAttempt string string string
  | CallMarkOutboxDispatched string
  | CallRecordOutboxFailure string string
  | CallBeginIdempotentTask string string string
  | CallCompleteIdempotentTask string string string string
  | CallReleaseIdempotentTask string string string

fun perform :: "store_call \<Rightarrow> pgenv \<Rightarrow> pg \<Rightarrow> pg" where
  "perform (CallCreateWorkflowDefinition a b c) env db = snd (CreateWorkflowDefinition a b c env db)"
| "perform (CallCreateExecutionAndTask a b c d) env db = snd (CreateExecutionAndTask a b c d env db)"
| "perform (CallReplayDeadLetteredTask a) env db = snd (ReplayDeadLetteredTask a env db)"
| "perform (CallStartTaskAttempt a) env db = snd (StartTaskAttempt a env db)"
| "perform (CallCompleteTaskAttempt a b c) env db = snd (CompleteTaskAttempt a b c env db)"
| "perform (CallCompleteTaskAttemptAndEnqueueNextTask a b c d e) env db =
     snd (CompleteTaskAttemptAndEnqueueNextTask a b c d e env db)"
| "perform (CallEnqueueDueTaskRetries n) env db = snd (EnqueueDueTaskRetries n env db)"
| "perform (CallScheduleTaskRetry a b c t) env db = snd (ScheduleTaskRetry a b c t env db)"
| "perform (CallFailTaskAttempt a b c) env db = snd (FailTaskAttempt a b c env db)"
| "perform (CallMarkOutboxDispatched a) env db = snd (MarkOutboxDispatched a env db)"
| "perform (CallRecordOutboxFailure a b) env db = snd (RecordOutboxFailure a b env db)"
| "perform (CallBeginIdempotentTask a b c) env db = snd (BeginIdempotentTask a b c env id env db)"
| "perform (CallCompleteIdempotentTask a b c d) env db = snd (CompleteIdempotentTask a b c d env db)"
| "perform (CallReleaseIdempotentTask a b c) env db = snd (ReleaseIdempotentTask a b c env db)"

text \<open>The states some sequence of calls reaches from the freshly migrated database.\<close>

inductive reachable :: "(pgenv \<Rightarrow> bool) \<Rightarrow> pg \<Rightarrow> bool" for E where
  initial: "reachable E empty_pg"
| call: "reachable E db \<Longrightarrow> E env \<Longrightarrow> reachable E (perform c env db)"

lemma reachable_mono: "reachable E db \<Longrightarrow> (\<And>env. E env \<Longrightarrow> F env) \<Longrightarrow> reachable F db"
  by (induction rule: reachable.induct) (auto intro: reachable.intros)

text \<open>
  A property that each transaction and each single statement keeps is an invariant of the store.
\<close>

locale operation_invariant =
  fixes E :: "pgenv \<Rightarrow> bool" and I :: "pg \<Rightarrow> bool"
  assumes definition_kept: "E env \<Longrightarrow> I db \<Longrightarrow>
      sql_insert_definition a b c WorkflowDefinitionStatusActive env n db = Inr (x, db') \<Longrightarrow> I db'"
    and create_kept: "tx_keeps E I (create_execution_tx a b c d)"
    and replay_kept: "tx_keeps E I (replay_tx a)"
    and start_kept: "tx_keeps E I (start_attempt_tx a)"
    and complete_kept: "tx_keeps E I (complete_attempt_tx a b c)"
    and complete_next_kept: "tx_keeps E I (complete_and_enqueue_tx a b c d e)"
    and due_kept: "tx_keeps E I (enqueue_due_tx i)"
    and retry_kept: "tx_keeps E I (schedule_retry_tx a b c t)"
    and fail_kept: "tx_keeps E I (fail_attempt_tx a b c)"
    and mark_kept: "E env \<Longrightarrow> I db \<Longrightarrow> sql_mark_outbox_dispatched a env n db = Inr (y, db') \<Longrightarrow> I db'"
    and failure_kept: "E env \<Longrightarrow> I db \<Longrightarrow> sql_record_outbox_failure a b env n db = Inr (y, db') \<Longrightarrow> I db'"
    and claim_kept: "E env \<Longrightarrow> I db \<Longrightarrow>
      sql_insert_idempotency a b c IdempotencyStatusInProgress env n db = Inr (z, db') \<Longrightarrow> I db'"
    and respond_kept: "E env \<Longrightarrow> I db \<Longrightarrow>
      sql_update_idempotency_completed a b c d env n db = Inr (z, db') \<Longrightarrow> I db'"
    and release_kept: "E env \<Longrightarrow> I db \<Longrightarrow>
      sql_delete_idempotency a b IdempotencyStatusInProgress c env n db = Inr (y, db') \<Longrightarrow> I db'"
begin

lemmas transactions_keep = create_kept [THEN run_tx_keeps] replay_kept [THEN run_tx_keeps]
  start_kept [THEN run_tx_keeps] complete_kept [THEN run_tx_keeps]
  complete_next_kept [THEN run_tx_keeps] due_kept [THEN run_tx_keeps]
  retry_kept [THEN run_tx_keeps] fail_kept [THEN run_tx_keeps]

lemma statements_keep:
  assumes "E env" "I db"
  shows "I (snd (pool_exec n (sql_insert_definition a b c WorkflowDefinitionStatusActive) env db))"
    and "I (snd (pool_exec n (sql_mark_outbox_dispatched a) env db))"
    and "I (snd (pool_exec n (sql_record_outbox_failure a b) env db))"
    and "I (snd (pool_exec n (sql_insert_idempotency a b c IdempotencyStatusInProgress) env db))"
    and "I (snd (pool_exec n (sql_update_idempotency_completed a b c d) env db))"
    and "I (snd (pool_exec n (sql_delete_idempotency a b IdempotencyStatusInProgress c) env db))"
  using assms
  by - (rule pool_exec_keeps [where I = I],
      rule definition_kept mark_kept failure_kept claim_kept respond_kept release_kept;
      assumption)+

lemma snd_Begin:
  "snd (BeginIdempotentTask a b c env id env' db) =
   snd (pool_exec 0 (sql_insert_idempotency a b c IdempotencyStatusInProgress) env db)"
  by (simp add: BeginIdempotentTask_def Let_def split: prod.split sum.split)

lemma snd_Complete:
  "snd (CompleteIdempotentTask a b c d env db) =
   snd (pool_exec 0 (sql_update_idempotency_completed a b c (normalizeJSON d)) env db)"
  by (simp add: CompleteIdempotentTask_def split: prod.split sum.split)

lemma perform_keeps: "E env \<Longrightarrow> I db \<Longrightarrow> I (perform c env db)"
  by (cases c) (simp_all add: transactions_keep statements_keep snd_Begin snd_Complete
    CreateWorkflowDefinition_def CreateExecutionAndTask_def ReplayDeadLetteredTask_def
    StartTaskAttempt_def CompleteTaskAttempt_def CompleteTaskAttemptAndEnqueueNextTask_def
    EnqueueDueTaskRetries_def ScheduleTaskRetry_def FailTaskAttempt_def MarkOutboxDispatched_def
    RecordOutboxFailure_def ReleaseIdempotentTask_def)

lemma reachable_invariant: "reachable E db \<Longrightarrow> I empty_pg \<Longrightarrow> I db"
  by (induction rule: reachable.induct) (auto intro: perform_keeps)

end

text \<open>
  A property that every single statement keeps is kept by every transaction.  Starting an attempt
  is left as a transaction, since the number it writes comes from the row it read.
\<close>

locale statement_invariant =
  fixes E :: "pgenv \<Rightarrow> bool" and I :: "pg \<Rightarrow> bool"
  assumes insert_definition: "E env \<Longrightarrow> I db \<Longrightarrow>
      sql_insert_definition a b c WorkflowDefinitionStatusActive env n db = Inr (x1, db') \<Longrightarrow> I db'"
    and insert_execution: "E env \<Longrightarrow> I db \<Longrightarrow>
      sql_insert_execution a ExecutionStatusRunning b env n db = Inr (x2, db') \<Longrightarrow> I db'"
    and insert_task: "E env \<Longrightarrow> I db \<Longrightarrow>
      sql_insert_task a b c TaskStatusPending d e env n db = Inr (r, db') \<Longrightarrow> I db'"
    and insert_outbox: "E env \<Longrightarrow> I db \<Longrightarrow> sql_insert_outbox a b c d env n db = Inr (y, db') \<Longrightarrow> I db'"
    and attempt_succeeded: "E env \<Longrightarrow> I db \<Longrightarrow>
      sql_update_attempt_succeeded a b env n db = Inr (y, db') \<Longrightarrow> I db'"
    and attempt_failed: "E env \<Longrightarrow> I db \<Longrightarrow>
      sql_update_attempt_failed a b env n db = Inr (y, db') \<Longrightarrow> I db'"
    and task_succeeded: "E env \<Longrightarrow> I db \<Longrightarrow>
      sql_update_task_succeeded a b env n db = Inr (y, db') \<Longrightarrow> I db'"
    and task_retry: "E env \<Longrightarrow> I db \<Longrightarrow> sql_update_task_retry a b t env n db = Inr (y, db') \<Longrightarrow> I db'"
    and task_dead_lettered: "E env \<Longrightarrow> I db \<Longrightarrow>
      sql_update_task_dead_lettered a b env n db = Inr (y, db') \<Longrightarrow> I db'"
    and task_replayed: "E env \<Longrightarrow> I db \<Longrightarrow> sql_update_task_replayed a env n db = Inr (r, db') \<Longrightarrow> I db'"
    and task_due: "E env \<Longrightarrow> I db \<Longrightarrow> sql_clear_next_run_at a env n db = Inr (y, db') \<Longrightarrow> I db'"
    and execution_succeeded: "E env \<Longrightarrow> I db \<Longrightarrow>
      sql_update_execution_succeeded a b env n db = Inr (y, db') \<Longrightarrow> I db'"
    and execution_failed: "E env \<Longrightarrow> I db \<Longrightarrow>
      sql_update_execution_failed a b env n db = Inr (y, db') \<Longrightarrow> I db'"
    and execution_running: "E env \<Longrightarrow> I db \<Longrightarrow>
      sql_update_execution_running a env n db = Inr (y, db') \<Longrightarrow> I db'"
    and start_transaction: "tx_keeps E I (start_attempt_tx a)"
    and outbox_mark: "E env \<Longrightarrow> I db \<Longrightarrow> sql_mark_outbox_dispatched a env n db = Inr (y, db') \<Longrightarrow> I db'"
    and outbox_failure: "E env \<Longrightarrow> I db \<Longrightarrow>
      sql_record_outbox_failure a b env n db = Inr (y, db') \<Longrightarrow> I db'"
    and record_claim: "E env \<Longrightarrow> I db \<Longrightarrow>
      sql_insert_idempotency a b c IdempotencyStatusInProgress env n db = Inr (z, db') \<Longrightarrow> I db'"
    and record_respond: "E env \<Longrightarrow> I db \<Longrightarrow>
      sql_update_idempotency_completed a b c d env n db = Inr (z, db') \<Longrightarrow> I db'"
    and record_release: "E env \<Longrightarrow> I db \<Longrightarrow>
      sql_delete_idempotency a b IdempotencyStatusInProgress c env n db = Inr (y, db') \<Longrightarrow> I db'"
begin

lemma read_keeps: "E env \<Longrightarrow> I db \<Longrightarrow> sql_read f env n db = Inr (x, db') \<Longrightarrow> I db'"
  by (simp add: sql_simps)

lemma each_statement:
  "tx_keeps E I (statement (sql_read f))"
  "tx_keeps E I (statement (sql_insert_execution a ExecutionStatusRunning b))"
  "tx_keeps E I (statement (sql_insert_task a b c TaskStatusPending d e))"
  "tx_keeps E I (statement (sql_insert_outbox a b c d))"
  "tx_keeps E I (statement (sql_update_attempt_succeeded a b))"
  "tx_keeps E I (statement (sql_update_attempt_failed a b))"
  "tx_keeps E I (statement (sql_update_task_succeeded a b))"
  "tx_keeps E I (statement (sql_update_task_retry a b t))"
  "tx_keeps E I (statement (sql_update_task_dead_lettered a b))"
  "tx_keeps E I (statement (sql_update_task_replayed a))"
  "tx_keeps E I (statement (sql_clear_next_run_at a))"
  "tx_keeps E I (statement (sql_update_execution_succeeded a b))"
  "tx_keeps E I (statement (sql_update_execution_failed a b))"
  "tx_keeps E I (statement (sql_update_execution_running a))"
  by (rule tx_keeps_statement, erule (2) read_keeps insert_execution insert_task insert_outbox
      attempt_succeeded attempt_failed task_succeeded task_retry task_dead_lettered task_replayed
      task_due execution_succeeded execution_failed execution_running)+

lemma enqueue_retries_keep: "tx_keeps E I (enqueue_retries_tx items)"
  by (induction items) (simp_all only: enqueue_retries_tx.simps insert_dispatch_def,
     (intro tx_keeps_rules each_statement, assumption?)+)

lemma each_transaction:
  "tx_keeps E I (create_execution_tx a b c d)" "tx_keeps E I (replay_tx a)"
  "tx_keeps E I (complete_attempt_tx a b c)" "tx_keeps E I (complete_and_enqueue_tx a b c d e)"
  "tx_keeps E I (enqueue_due_tx i)" "tx_keeps E I (schedule_retry_tx a b c t)"
  "tx_keeps E I (fail_attempt_tx a b c)"
  unfolding create_execution_tx_def replay_tx_def complete_attempt_tx_def
    complete_and_enqueue_tx_def enqueue_due_tx_def schedule_retry_tx_def fail_attempt_tx_def
    select_execution_id_def insert_dispatch_def Let_def
  by (intro tx_keeps_rules each_statement enqueue_retries_keep)+

end

sublocale statement_invariant \<subseteq> operation_invariant E I
  by unfold_locales
     (rule each_transaction start_transaction
      | erule (2) insert_definition outbox_mark outbox_failure record_claim record_respond
          record_release)+

lemma start_schema: "tx_keeps E schema_ok (start_attempt_tx a)"
  unfolding start_attempt_tx_def Let_def
  by (intro tx_keeps_rules tx_keeps_statement)
     (erule schema_read schema_insert(4) schema_update(12), assumption)+

interpretation schema: statement_invariant "\<lambda>_. True" schema_ok
  by unfold_locales
     (rule start_schema
      | erule schema_insert schema_update schema_insert_record schema_record_update, assumption)+

definition new_attempt :: "pgenv \<Rightarrow> nat \<Rightarrow> string \<Rightarrow> int \<Rightarrow> attempt_row" where
  "new_attempt env n u i = \<lparr>ta_id = pg_gen_random_uuid env n, ta_task_instance_id = u,
     ta_attempt_number = i, ta_status = TaskAttemptStatusRunning, ta_started_at = pg_now env,
     ta_finished_at = None, ta_error_text = None, ta_output_json = None, ta_created_at = pg_now env\<rparr>"

lemma insert_attempt_Inr:
  "sql_insert_attempt a i TaskAttemptStatusRunning env n db = Inr (r, db') \<longleftrightarrow>
     (\<exists>u. pg_uuid_in env a = Some u \<and> i \<le> int4_max \<and> r = new_attempt env n u i \<and>
          ta_id r \<notin> ta_id ` set (task_attempts db) \<and> u \<in> ti_id ` set (task_instances db) \<and>
          db' = db\<lparr>task_attempts := task_attempts db @ [r]\<rparr>)"
  by (auto simp: sql_insert_attempt_def sql_simps Let_def new_attempt_def)

text \<open>What a successful start of an attempt saw and did.\<close>

lemma start_attempt_effect:
  assumes "start_attempt_tx taskID env s = Inr (x, t)"
  obtains (finished) u r where
      "pg_uuid_in env taskID = Some u" "select_by ti_id u (task_instances (tx_db s)) = Some r"
      "ti_status r = TaskStatusSucceeded \<or> ti_status r = TaskStatusDeadLettered"
      "x = (scanTaskInstance r, zero_attempt, True)" "tx_db t = tx_db s"
  | (started) u r v i where
      "pg_uuid_in env taskID = Some u" "select_by ti_id u (task_instances (tx_db s)) = Some r"
      "ti_status r \<noteq> TaskStatusSucceeded" "ti_status r \<noteq> TaskStatusDeadLettered"
      "pg_uuid_in env u = Some v" "v \<in> ti_id ` set (task_instances (tx_db s))"
      "i = ti_attempts_total r + 1" "i \<le> int4_max"
      "ta_id (new_attempt env (Suc (tx_rt s)) v i) \<notin> ta_id ` set (task_attempts (tx_db s))"
      "tx_db t = upd_task v (set_task_running (pg_now env) i)
         ((tx_db s)\<lparr>task_attempts := task_attempts (tx_db s) @ [new_attempt env (Suc (tx_rt s)) v i]\<rparr>)"
      "\<exists>r'. select_by ti_id v (task_instances (tx_db t)) = Some r' \<and>
         x = (scanTaskInstance r', scanTaskAttempt (new_attempt env (Suc (tx_rt s)) v i), False)"
proof -
  obtain u r where r: "pg_uuid_in env taskID = Some u"
      "select_by ti_id u (task_instances (tx_db s)) = Some r"
    using assms by (auto simp: start_attempt_tx_def tx_simps sql_simps sql_select_task_def)
  from r(2) have u: "ti_id r = u" by (rule select_by_key)
  show thesis
  proof (cases "ti_status r = TaskStatusSucceeded \<or> ti_status r = TaskStatusDeadLettered")
    case True
    then show thesis using assms r
      by (intro finished [OF r])
         (auto simp: start_attempt_tx_def tx_simps sql_simps sql_select_task_def Let_def scanTaskInstance_def)
  next
    case False
    let ?i = "ti_attempts_total r + 1" and ?n = "Suc (tx_rt s)"
    obtain v r' where v: "pg_uuid_in env u = Some v" "v \<in> ti_id ` set (task_instances (tx_db s))"
        "?i \<le> int4_max" "ta_id (new_attempt env ?n v ?i) \<notin> ta_id ` set (task_attempts (tx_db s))"
      and t: "tx_db t = upd_task v (set_task_running (pg_now env) ?i)
         ((tx_db s)\<lparr>task_attempts := task_attempts (tx_db s) @ [new_attempt env ?n v ?i]\<rparr>)"
        "select_by ti_id v (task_instances (tx_db t)) = Some r'"
        "x = (scanTaskInstance r', scanTaskAttempt (new_attempt env ?n v ?i), False)"
      using assms r u False
      by (clarsimp simp: start_attempt_tx_def tx_simps sql_simps sql_select_task_def Let_def
          insert_attempt_Inr sql_update_task_running_def scanTaskInstance_def)
    from t(2,3) have "\<exists>r'. select_by ti_id v (task_instances (tx_db t)) = Some r' \<and>
        x = (scanTaskInstance r', scanTaskAttempt (new_attempt env ?n v ?i), False)" by blast
    with False v t(1) show thesis by (intro started [OF r]) auto
  qed
qed

lemma start_lifecycle: "tx_keeps E lifecycle_ok (start_attempt_tx a)"
proof
  fix env s x t
  assume ok: "lifecycle_ok (tx_db s)" and "start_attempt_tx a env s = Inr (x, t)"
  from this(2) show "lifecycle_ok (tx_db t)"
  proof (cases rule: start_attempt_effect)
    case finished
    then show ?thesis using ok by simp
  next
    case (started u r v i)
    let ?db = "(tx_db s)\<lparr>task_attempts := task_attempts (tx_db s) @
      [new_attempt env (Suc (tx_rt s)) v i]\<rparr>"
    have "lifecycle_ok ?db"
      using ok by (simp add: lifecycle_ok_def row_ok_defs new_attempt_def)
    moreover have "0 \<le> i"
      using ok started(2,7) by (auto simp: lifecycle_ok_def list_all_iff task_row_ok_def dest!: select_by_mem)
    ultimately show ?thesis using started(8,10)
      by (auto intro!: lifecycle_upd_task row_ok_setters)
  qed
qed

interpretation lifecycle: statement_invariant "\<lambda>_. True" lifecycle_ok
  by unfold_locales
     (rule start_lifecycle
      | erule lifecycle_insert lifecycle_update lifecycle_record, assumption)+

section \<open>Effects of the transactions\<close>

text \<open>The rows the inserts write.\<close>

definition new_execution :: "pgenv \<Rightarrow> nat \<Rightarrow> string \<Rightarrow> string \<Rightarrow> execution_row" where
  "new_execution env n d j = \<lparr>we_id = pg_gen_random_uuid env n, we_workflow_definition_id = d,
     we_status = ExecutionStatusRunning, we_input_json = j, we_output_json = None,
     we_error_text = None, we_created_at = pg_now env, we_updated_at = pg_now env,
     we_started_at = Some (pg_now env), we_completed_at = None\<rparr>"

definition new_task :: "pgenv \<Rightarrow> nat \<Rightarrow> string \<Rightarrow> string \<Rightarrow> string \<Rightarrow> string \<Rightarrow> task_row" where
  "new_task env n e name hkey j = \<lparr>ti_id = pg_gen_random_uuid env n, ti_workflow_execution_id = e,
     ti_task_name = name, ti_handler_key = hkey, ti_status = TaskStatusPending, ti_input_json = j,
     ti_output_json = None, ti_next_run_at = None, ti_last_error_text = None,
     ti_attempts_total = 0, ti_idempotency_key = makeTaskIdempotencyKey e name,
     ti_dispatched_at = None, ti_completed_at = None, ti_created_at = pg_now env,
     ti_updated_at = pg_now env\<rparr>"

definition new_dispatch :: "pgenv \<Rightarrow> nat \<Rightarrow> string \<Rightarrow> string \<Rightarrow> outbox_row" where
  "new_dispatch env n u j = \<lparr>ob_id = pg_gen_random_uuid env n,
     ob_aggregate_type = ''task_instance'', ob_aggregate_id = u, ob_event_type = ''task.dispatch'',
     ob_payload_json = j, ob_available_at = pg_now env, ob_dispatched_at = None,
     ob_attempt_count = 0, ob_last_error_text = None, ob_created_at = pg_now env\<rparr>"

definition payload_text :: "string \<Rightarrow> string \<Rightarrow> string \<Rightarrow> string" where
  "payload_text t e h =
     json_print (string_obj (payload_members \<lparr>pay_TaskID = t, pay_ExecutionID = e, pay_HandlerKey = h\<rparr>))"

lemma dispatch_payload_eq [simp]: "dispatch_payload t e h = Inr (payload_text t e h)"
  by (simp add: dispatch_payload_def marshal_payload_def json_marshal_def payload_text_def)

lemma insert_execution_Inr:
  "sql_insert_execution a ExecutionStatusRunning b env n db = Inr (r, db') \<longleftrightarrow>
     (\<exists>d j. pg_uuid_in env a = Some d \<and> pg_jsonb_in env b = Some j \<and> r = new_execution env n d j \<and>
        we_id r \<notin> we_id ` set (workflow_executions db) \<and> d \<in> wd_id ` set (workflow_definitions db) \<and>
        db' = db\<lparr>workflow_executions := workflow_executions db @ [r]\<rparr>)"
  by (auto simp: sql_insert_execution_def sql_simps Let_def new_execution_def)

definition has_execution :: "pg \<Rightarrow> string \<Rightarrow> bool" where
  "has_execution db e \<longleftrightarrow> e \<in> we_id ` set (workflow_executions db)"

lemma insert_task_Inr:
  assumes "pg_uuid_in env e = Some e"
  shows "sql_insert_task e name hkey TaskStatusPending b (makeTaskIdempotencyKey e name) env n db =
       Inr (r, db') \<longleftrightarrow>
     (\<exists>j. pg_jsonb_in env b = Some j \<and> r = new_task env n e name hkey j \<and>
        list_all (pg_text_ok env) [name, hkey, makeTaskIdempotencyKey e name] \<and>
        ti_id r \<notin> ti_id ` set (task_instances db) \<and>
        ti_idempotency_key r \<notin> ti_idempotency_key ` set (task_instances db) \<and>
        has_execution db e \<and>
        db' = db\<lparr>task_instances := task_instances db @ [r]\<rparr>)"
  using assms by (auto simp: sql_insert_task_def sql_simps Let_def new_task_def has_execution_def)

lemma insert_dispatch_Inr:
  assumes "pg_uuid_in env u = Some u"
  shows "insert_dispatch u payload env s = Inr (x, t) \<longleftrightarrow>
     pg_fault env (tx_rt s) = None \<and> (\<exists>j. pg_jsonb_in env payload = Some j \<and>
       ob_id (new_dispatch env (tx_rt s) u j) \<notin> ob_id ` set (outbox_events (tx_db s)) \<and>
       t = \<lparr>tx_db = (tx_db s)\<lparr>outbox_events := outbox_events (tx_db s) @ [new_dispatch env (tx_rt s) u j]\<rparr>,
            tx_rt = Suc (tx_rt s)\<rparr>)"
  using assms
  by (auto simp: insert_dispatch_def sql_insert_outbox_def tx_simps sql_simps Let_def new_dispatch_def)

lemmas new_row_ids = new_execution_def new_task_def new_dispatch_def new_attempt_def

lemma uuid_canonical_gen:
  "uuid_canonical env \<Longrightarrow> pg_uuid_in env (pg_gen_random_uuid env n) = Some (pg_gen_random_uuid env n)"
  by (simp add: uuid_canonical_def)

lemma uuid_canonical_in:
  "uuid_canonical env \<Longrightarrow> pg_uuid_in env s = Some u \<Longrightarrow> pg_uuid_in env u = Some u"
  by (auto simp: uuid_canonical_def)

lemma create_execution_effect:
  assumes "uuid_canonical env" and "create_execution_tx d input name hkey env s = Inr (x, t)"
  obtains du j pj er tr ob where
    "pg_uuid_in env d = Some du" "du \<in> wd_id ` set (workflow_definitions (tx_db s))"
    "pg_jsonb_in env (normalizeJSON input) = Some j"
    "er = new_execution env (tx_rt s) du j" "we_id er \<notin> we_id ` set (workflow_executions (tx_db s))"
    "tr = new_task env (Suc (tx_rt s)) (we_id er) name hkey j"
    "ti_id tr \<notin> ti_id ` set (task_instances (tx_db s))"
    "ti_idempotency_key tr \<notin> ti_idempotency_key ` set (task_instances (tx_db s))"
    "list_all (pg_text_ok env) [name, hkey, ti_idempotency_key tr]"
    "pg_jsonb_in env (payload_text (ti_id tr) (we_id er) hkey) = Some pj"
    "ob = new_dispatch env (Suc (Suc (tx_rt s))) (ti_id tr) pj"
    "ob_id ob \<notin> ob_id ` set (outbox_events (tx_db s))"
    "tx_db t = (tx_db s)\<lparr>workflow_executions := workflow_executions (tx_db s) @ [er],
       task_instances := task_instances (tx_db s) @ [tr],
       outbox_events := outbox_events (tx_db s) @ [ob]\<rparr>"
    "x = \<lparr>start_Execution = scanWorkflowExecution er, start_Task = scanTaskInstance tr\<rparr>"
proof -
  have scans: "exec_ID (scanWorkflowExecution (new_execution env n du j)) = pg_gen_random_uuid env n"
    "task_ID (scanTaskInstance (new_task env n e name hkey j)) = pg_gen_random_uuid env n"
    "task_HandlerKey (scanTaskInstance (new_task env n e name hkey j)) = hkey"
    "we_id (new_execution env n du j) = pg_gen_random_uuid env n"
    "ti_id (new_task env n e name hkey j) = pg_gen_random_uuid env n" for n du j e
    by (simp_all add: scanWorkflowExecution_def scanTaskInstance_def new_row_ids)
  note canon = uuid_canonical_gen [OF assms(1)]
  from assms(2) show thesis
    by (clarsimp simp: create_execution_tx_def Let_def tx_simps insert_execution_Inr scans
        insert_task_Inr [OF canon] insert_dispatch_Inr [OF canon])
       (rule that; (rule refl | assumption | simp add: scans new_task_def))
qed

text \<open>
  A server whose uuid type is the one function \<open>U\<close> in all calls and whose scans meet every row;
  stored uuids are in the canonical form of \<open>U\<close>.
\<close>

definition server :: "(string \<Rightarrow> string option) \<Rightarrow> pgenv \<Rightarrow> bool" where
  "server U env \<longleftrightarrow> pg_uuid_in env = U \<and> uuid_canonical env \<and> scans_ok env"

definition ids_canonical :: "(string \<Rightarrow> string option) \<Rightarrow> pg \<Rightarrow> bool" where
  "ids_canonical U db \<longleftrightarrow>
     list_all (\<lambda>r. U (ti_id r) = Some (ti_id r) \<and>
        U (ti_workflow_execution_id r) = Some (ti_workflow_execution_id r)) (task_instances db)"

lemma ids_canonicalD:
  assumes "ids_canonical U db" "select_by ti_id u (task_instances db) = Some r"
  shows "U u = Some u" "U (ti_workflow_execution_id r) = Some (ti_workflow_execution_id r)"
  using assms by (auto simp: ids_canonical_def list_all_iff dest!: select_by_SomeD)

lemma select_upd_task:
  "same_task_keys f \<Longrightarrow>
   select_by ti_id u (task_instances (upd_task u f db)) = map_option f (select_by ti_id u (task_instances db))"
  by (simp add: upd_task_def select_update_by_same same_task_keysD)

lemma select_execution_id_Inr:
  "select_execution_id taskID env s = Inr (e, t) \<longleftrightarrow>
     pg_fault env (tx_rt s) = None \<and> t = s\<lparr>tx_rt := Suc (tx_rt s)\<rparr> \<and>
     (\<exists>u r. pg_uuid_in env taskID = Some u \<and>
            select_by ti_id u (task_instances (tx_db s)) = Some r \<and> e = ti_workflow_execution_id r)"
  by (cases s; cases "sql_select_task taskID env (tx_db s)")
     (auto simp: select_execution_id_def tx_simps sql_simps sql_select_task_def with_uuid_def
      one_row_def split: option.splits)

lemma replay_effect:
  assumes "uuid_canonical env" "ids_canonical (pg_uuid_in env) (tx_db s)"
    and "replay_tx taskID env s = Inr (x, t)"
  obtains u r r' pj ob where
    "pg_uuid_in env taskID = Some u" "select_by ti_id u (task_instances (tx_db s)) = Some r"
    "ti_status r = TaskStatusDeadLettered" "r' = set_task_replayed (pg_now env) r"
    "pg_jsonb_in env (payload_text u (ti_workflow_execution_id r) (ti_handler_key r)) = Some pj"
    "ob = new_dispatch env (Suc (Suc (Suc (tx_rt s)))) u pj"
    "ob_id ob \<notin> ob_id ` set (outbox_events (tx_db s))"
    "tx_db t = (upd_execution (ti_workflow_execution_id r) (set_execution_running (pg_now env))
       (upd_task u (set_task_replayed (pg_now env)) (tx_db s)))
       \<lparr>outbox_events := outbox_events (tx_db s) @ [ob]\<rparr>"
    "x = scanTaskInstance r'"
proof -
  obtain u r where r: "pg_uuid_in env taskID = Some u"
      "select_by ti_id u (task_instances (tx_db s)) = Some r"
    using assms(3) by (auto simp: replay_tx_def tx_simps sql_simps sql_select_task_def)
  note ids = ids_canonicalD [OF assms(2) r(2)]
  have u: "ti_id r = u" using r(2) by (rule select_by_key)
  have scans: "task_ID (scanTaskInstance r) = u" "task_Status (scanTaskInstance r) = ti_status r"
    "task_WorkflowExecutionID (scanTaskInstance r) = ti_workflow_execution_id r"
    "task_ID (scanTaskInstance (set_task_replayed a r)) = u"
    "task_WorkflowExecutionID (scanTaskInstance (set_task_replayed a r)) = ti_workflow_execution_id r"
    "task_HandlerKey (scanTaskInstance (set_task_replayed a r)) = ti_handler_key r" for a
    by (simp_all add: scanTaskInstance_def set_task_defs u)
  from assms(3) show thesis
    by (clarsimp simp: replay_tx_def tx_simps sql_simps sql_select_task_def r Let_def scans ids
        sql_update_task_replayed_def sql_update_execution_running_def select_upd_task
        insert_dispatch_Inr [OF ids(1)] split: if_splits)
       (rule that; (rule refl r | assumption | simp add: upd_defs))
qed

lemma complete_effect_tx:
  assumes "ids_canonical (pg_uuid_in env) (tx_db s)"
    and "complete_attempt_tx taskID attemptID output env s = Inr (x, t)"
  obtains u r a j where
    "pg_uuid_in env taskID = Some u" "select_by ti_id u (task_instances (tx_db s)) = Some r"
    "pg_uuid_in env attemptID = Some a" "pg_jsonb_in env (normalizeJSON output) = Some j"
    "tx_db t = upd_execution (ti_workflow_execution_id r) (set_execution_succeeded (pg_now env) j)
       (upd_task u (set_task_succeeded (pg_now env) j)
       (upd_attempt a (set_attempt_succeeded (pg_now env) j) (tx_db s)))"
  using assms(2) ids_canonicalD [OF assms(1)]
  by (clarsimp simp: complete_attempt_tx_def tx_simps sql_simps select_execution_id_Inr Let_def
      row_update_defs)

lemma has_execution_upd [simp]:
  "has_execution (db\<lparr>task_instances := ts\<rparr>) e = has_execution db e"
  "has_execution (db\<lparr>task_attempts := as\<rparr>) e = has_execution db e"
  by (simp_all add: has_execution_def)

lemma complete_next_effect:
  assumes "uuid_canonical env" "ids_canonical (pg_uuid_in env) (tx_db s)"
    and "complete_and_enqueue_tx taskID attemptID name hkey output env s = Inr (x, t)"
  obtains u r a j tr pj ob where
    "pg_uuid_in env taskID = Some u" "select_by ti_id u (task_instances (tx_db s)) = Some r"
    "pg_uuid_in env attemptID = Some a" "pg_jsonb_in env (normalizeJSON output) = Some j"
    "tr = new_task env (Suc (Suc (Suc (tx_rt s)))) (ti_workflow_execution_id r) name hkey j"
    "ti_id tr \<notin> ti_id ` set (task_instances (tx_db s))"
    "ti_idempotency_key tr \<notin> ti_idempotency_key ` set (task_instances (tx_db s))"
    "has_execution (tx_db s) (ti_workflow_execution_id tr)"
    "list_all (pg_text_ok env) [name, hkey, ti_idempotency_key tr]"
    "pg_jsonb_in env (payload_text (ti_id tr) (ti_workflow_execution_id r) hkey) = Some pj"
    "ob = new_dispatch env (Suc (Suc (Suc (Suc (tx_rt s))))) (ti_id tr) pj"
    "ob_id ob \<notin> ob_id ` set (outbox_events (tx_db s))"
    "tx_db t = (upd_task u (set_task_succeeded (pg_now env) j)
        (upd_attempt a (set_attempt_succeeded (pg_now env) j) (tx_db s)))
        \<lparr>task_instances := task_instances (upd_task u (set_task_succeeded (pg_now env) j) (tx_db s)) @ [tr],
         outbox_events := outbox_events (tx_db s) @ [ob]\<rparr>"
proof -
  have keys: "ti_id ` set (update_by ti_id u (set_task_succeeded a j) rows) = ti_id ` set rows"
    "ti_idempotency_key ` set (update_by ti_id u (set_task_succeeded a j) rows) =
       ti_idempotency_key ` set rows" for u a j rows
    using map_update_by [of ti_id u ti_id "set_task_succeeded a j" rows]
      map_update_by [of ti_id u ti_idempotency_key "set_task_succeeded a j" rows]
    by (simp_all add: set_task_defs flip: set_map)
  have new: "ti_id (new_task env n e name hkey j) = pg_gen_random_uuid env n"
     "ti_workflow_execution_id (new_task env n e name hkey j) = e"
     "ti_idempotency_key (new_task env n e name hkey j) = makeTaskIdempotencyKey e name" for n e j
    by (simp_all add: new_task_def)
  obtain u r where r: "pg_uuid_in env taskID = Some u"
      "select_by ti_id u (task_instances (tx_db s)) = Some r"
    using assms(3) by (auto simp: complete_and_enqueue_tx_def tx_simps select_execution_id_Inr)
  note ids = ids_canonicalD [OF assms(2) r(2)]
  let ?tr = "new_task env (Suc (Suc (Suc (tx_rt s)))) (ti_workflow_execution_id r) name hkey"
  let ?ob = "new_dispatch env (Suc (Suc (Suc (Suc (tx_rt s)))))
     (pg_gen_random_uuid env (Suc (Suc (Suc (tx_rt s)))))"
  obtain a j pj where "pg_uuid_in env attemptID = Some a"
    "pg_jsonb_in env (normalizeJSON output) = Some j"
    "ti_id (?tr j) \<notin> ti_id ` set (task_instances (tx_db s))"
    "ti_idempotency_key (?tr j) \<notin> ti_idempotency_key ` set (task_instances (tx_db s))"
    "has_execution (tx_db s) (ti_workflow_execution_id (?tr j))"
    "list_all (pg_text_ok env) [name, hkey, ti_idempotency_key (?tr j)]"
    "pg_jsonb_in env (payload_text (ti_id (?tr j)) (ti_workflow_execution_id r) hkey) = Some pj"
    "ob_id (?ob pj) \<notin> ob_id ` set (outbox_events (tx_db s))"
    "tx_db t = (upd_task u (set_task_succeeded (pg_now env) j)
        (upd_attempt a (set_attempt_succeeded (pg_now env) j) (tx_db s)))
        \<lparr>task_instances := task_instances (upd_task u (set_task_succeeded (pg_now env) j) (tx_db s)) @ [?tr j],
         outbox_events := outbox_events (tx_db s) @ [?ob pj]\<rparr>"
    using assms(3)
    by (clarsimp simp: complete_and_enqueue_tx_def tx_simps sql_simps select_execution_id_Inr Let_def r
        ids sql_update_attempt_succeeded_def sql_update_task_succeeded_def
        insert_task_Inr [OF ids(2)] insert_dispatch_Inr [OF uuid_canonical_gen [OF assms(1)]]
        upd_defs keys new)
  then show thesis by (intro that [OF r, of a j "?tr j" pj "?ob pj"]) (simp_all add: new)
qed

lemma schedule_retry_effect:
  assumes "schedule_retry_tx taskID attemptID errText at env s = Inr (x, t)"
  obtains u a where
    "pg_uuid_in env taskID = Some u" "pg_uuid_in env attemptID = Some a"
    "tx_db t = upd_task u (set_task_retry (pg_now env) (truncate errText 1000) (pg_timestamptz_in env at))
       (upd_attempt a (set_attempt_failed (pg_now env) (truncate errText 1000)) (tx_db s))"
  using assms by (clarsimp simp: schedule_retry_tx_def tx_simps sql_simps row_update_defs)

lemma fail_effect:
  assumes "ids_canonical (pg_uuid_in env) (tx_db s)"
    and "fail_attempt_tx taskID attemptID errText env s = Inr (x, t)"
  obtains u r a where
    "pg_uuid_in env taskID = Some u" "select_by ti_id u (task_instances (tx_db s)) = Some r"
    "pg_uuid_in env attemptID = Some a"
    "tx_db t = upd_execution (ti_workflow_execution_id r)
         (set_execution_failed (pg_now env) (truncate errText 1000))
       (upd_task u (set_task_dead_lettered (pg_now env) (truncate errText 1000))
       (upd_attempt a (set_attempt_failed (pg_now env) (truncate errText 1000)) (tx_db s)))"
  using assms(2) ids_canonicalD [OF assms(1)]
  by (clarsimp simp: fail_attempt_tx_def tx_simps sql_simps select_execution_id_Inr Let_def
      row_update_defs)

text \<open>Enqueuing the due retries: one dispatch per task, in order, and the tasks wait no longer.\<close>

definition dispatch_of :: "pgenv \<Rightarrow> task_row \<Rightarrow> outbox_row \<Rightarrow> bool" where
  "dispatch_of env r ob \<longleftrightarrow>
     (\<exists>n j. ob = new_dispatch env n (ti_id r) j \<and>
            pg_jsonb_in env (payload_text (ti_id r) (ti_workflow_execution_id r) (ti_handler_key r)) = Some j)"

definition clear_all :: "go_time \<Rightarrow> string set \<Rightarrow> task_row list \<Rightarrow> task_row list" where
  "clear_all now us rows = map (\<lambda>r. if ti_id r \<in> us then clear_next_run_at now r else r) rows"

lemma clear_all_insert:
  "clear_all now us (update_by ti_id u (clear_next_run_at now) rows) = clear_all now (insert u us) rows"
  by (simp add: clear_all_def update_by_def clear_next_run_at_def)

lemma clear_all_empty [simp]: "clear_all now {} rows = rows"
  by (simp add: clear_all_def)

lemma enqueue_retries_effect:
  assumes "list_all (\<lambda>r. pg_uuid_in env (ti_id r) = Some (ti_id r)) items"
    and "enqueue_retries_tx items env s = Inr (x, t)"
  shows "\<exists>obs. list_all2 (dispatch_of env) items obs \<and> distinct (map ob_id obs) \<and>
      ob_id ` set obs \<inter> ob_id ` set (outbox_events (tx_db s)) = {} \<and>
      tx_db t = (tx_db s)\<lparr>task_instances := clear_all (pg_now env) (ti_id ` set items) (task_instances (tx_db s)),
                          outbox_events := outbox_events (tx_db s) @ obs\<rparr>"
  using assms
proof (induction items arbitrary: s)
  case Nil
  then show ?case by (simp add: tx_simps)
next
  case (Cons r items)
  then have canon: "pg_uuid_in env (ti_id r) = Some (ti_id r)" by simp
  let ?n = "tx_rt s"
  obtain j where j: "pg_jsonb_in env (payload_text (ti_id r) (ti_workflow_execution_id r) (ti_handler_key r)) = Some j"
     "ob_id (new_dispatch env ?n (ti_id r) j) \<notin> ob_id ` set (outbox_events (tx_db s))"
     "enqueue_retries_tx items env
        \<lparr>tx_db = (tx_db s)\<lparr>outbox_events := outbox_events (tx_db s) @ [new_dispatch env ?n (ti_id r) j],
           task_instances := update_by ti_id (ti_id r) (clear_next_run_at (pg_now env)) (task_instances (tx_db s))\<rparr>,
         tx_rt = Suc (Suc ?n)\<rparr> = Inr (x, t)"
    using Cons.prems(2) by (auto simp: tx_simps insert_dispatch_Inr [OF canon] sql_clear_next_run_at_def
        sql_simps canon upd_task_def)
  from Cons.IH [OF _ j(3)] Cons.prems(1) obtain obs where
    obs: "list_all2 (dispatch_of env) items obs" "distinct (map ob_id obs)"
      "ob_id ` set obs \<inter> insert (ob_id (new_dispatch env ?n (ti_id r) j)) (ob_id ` set (outbox_events (tx_db s))) = {}"
      "tx_db t = (tx_db s)\<lparr>task_instances := clear_all (pg_now env) (insert (ti_id r) (ti_id ` set items)) (task_instances (tx_db s)),
                          outbox_events := (outbox_events (tx_db s) @ [new_dispatch env ?n (ti_id r) j]) @ obs\<rparr>"
    by (auto simp: clear_all_insert)
  moreover have "dispatch_of env r (new_dispatch env ?n (ti_id r) j)"
    using j(1) by (auto simp: dispatch_of_def)
  ultimately show ?case using j(2)
    by (intro exI [of _ "new_dispatch env ?n (ti_id r) j # obs"]) auto
qed

lemma enqueue_due_effect:
  assumes "scans_ok env" "ids_canonical (pg_uuid_in env) (tx_db s)"
    and "enqueue_due_tx limit env s = Inr (x, t)"
  obtains items obs where
    "select_due_retries limit env (tx_db s) = Inr items" "x = int (length items)"
    "list_all2 (dispatch_of env) items obs" "distinct (map ob_id obs)"
    "ob_id ` set obs \<inter> ob_id ` set (outbox_events (tx_db s)) = {}"
    "tx_db t = (tx_db s)\<lparr>task_instances := clear_all (pg_now env) (ti_id ` set items) (task_instances (tx_db s)),
                         outbox_events := outbox_events (tx_db s) @ obs\<rparr>"
proof -
  obtain items where sel: "select_due_retries limit env (tx_db s) = Inr items"
      and run: "enqueue_retries_tx items env \<lparr>tx_db = tx_db s, tx_rt = Suc (tx_rt s)\<rparr> = Inr ((), t)"
      and x: "x = int (length items)"
    using assms(3) by (clarsimp simp: enqueue_due_tx_def tx_simps sql_simps)
  have items: "items = order_limit next_run_key limit
      (filter (\<lambda>t. due_retry env t \<and> \<not> pg_locked env (ti_id t))
        (pg_scan_tasks env (task_instances (tx_db s))))"
    using sel by (simp add: select_due_retries_def sql_simps)
  have "set items \<subseteq> set (pg_scan_tasks env (task_instances (tx_db s)))"
    unfolding items by (rule subset_trans [OF set_order_limit filter_is_subset])
  also have "\<dots> = set (task_instances (tx_db s))"
    using assms(1) by (metis scans_ok_def set_mset_mset)
  finally have "list_all (\<lambda>r. pg_uuid_in env (ti_id r) = Some (ti_id r)) items"
    using assms(2) by (auto simp: ids_canonical_def list_all_iff)
  from enqueue_retries_effect [OF this run] show thesis
    using that [OF sel x] by auto
qed

end
