(* ===== verification/StoreReach.thy ===== *)
theory StoreReach
  imports StoreInv
begin

text \<open>
  The invariants that hold only for whole transactions (the numbering of attempts, the outbox),
  and the conclusion: in every state that calls of the store reach, \<open>store_ok\<close> holds.
\<close>

section \<open>Consequences of the schema\<close>

lemma schema_attempt_task:
  "schema_ok db \<Longrightarrow> a \<in> set (task_attempts db) \<Longrightarrow> ta_task_instance_id a \<in> ti_id ` set (task_instances db)"
  by (simp add: schema_ok_def) blast

lemma schema_task_unique:
  assumes "schema_ok db" "select_by ti_id u (task_instances db) = Some r"
    and "q \<in> set (task_instances db)" "ti_id q = u"
  shows "q = r"
proof -
  have "distinct (map ti_id (task_instances db))" using assms(1) by (simp add: schema_ok_def)
  from select_by_distinct [OF this assms(3)] assms(2,4) show ?thesis by simp
qed

section \<open>Stored uuids\<close>

lemma ids_upd_task: "same_task_keys f \<Longrightarrow> ids_canonical U db \<Longrightarrow> ids_canonical U (upd_task u f db)"
  by (auto simp: ids_canonical_def upd_task_def same_task_keysD intro!: list_all_update_by)

lemma ids_upd_other [simp]:
  "ids_canonical U (upd_execution u f db) = ids_canonical U db"
  "ids_canonical U (upd_attempt u g db) = ids_canonical U db"
  "ids_canonical U (upd_outbox u h db) = ids_canonical U db"
  by (simp_all add: ids_canonical_def upd_defs)

lemma ids_insert:
  assumes "ids_canonical U db"
  shows "sql_insert_definition a b c d env n db = Inr (x1, db') \<Longrightarrow> ids_canonical U db'"
    and "sql_insert_execution a b c env n db = Inr (x2, db') \<Longrightarrow> ids_canonical U db'"
    and "sql_insert_attempt a i c env n db = Inr (x4, db') \<Longrightarrow> ids_canonical U db'"
    and "sql_insert_outbox a b c d env n db = Inr (x5, db') \<Longrightarrow> ids_canonical U db'"
    and "sql_insert_idempotency a b c d env n db = Inr (x6, db') \<Longrightarrow> ids_canonical U db'"
    and "sql_update_idempotency_completed a b c d env n db = Inr (x6, db') \<Longrightarrow> ids_canonical U db'"
    and "sql_delete_idempotency a b c d env n db = Inr (x5, db') \<Longrightarrow> ids_canonical U db'"
  using assms
  by (auto simp: ids_canonical_def insert_defs sql_update_idempotency_completed_def
      sql_delete_idempotency_def sql_simps Let_def split: if_splits)

lemma ids_insert_task:
  "server U env \<Longrightarrow> ids_canonical U db \<Longrightarrow> sql_insert_task a b c d e f env n db = Inr (x, db') \<Longrightarrow>
   ids_canonical U db'"
  by (auto simp: server_def ids_canonical_def sql_insert_task_def sql_simps Let_def
      uuid_canonical_gen uuid_canonical_in)

lemma ids_update:
  assumes "ids_canonical U db"
  shows "sql_update_attempt_succeeded a b env n db = Inr (x, db') \<Longrightarrow> ids_canonical U db'"
    and "sql_update_attempt_failed a b env n db = Inr (x, db') \<Longrightarrow> ids_canonical U db'"
    and "sql_update_task_succeeded a b env n db = Inr (x, db') \<Longrightarrow> ids_canonical U db'"
    and "sql_update_task_retry a b at env n db = Inr (x, db') \<Longrightarrow> ids_canonical U db'"
    and "sql_update_task_dead_lettered a b env n db = Inr (x, db') \<Longrightarrow> ids_canonical U db'"
    and "sql_clear_next_run_at a env n db = Inr (x, db') \<Longrightarrow> ids_canonical U db'"
    and "sql_update_execution_succeeded a b env n db = Inr (x, db') \<Longrightarrow> ids_canonical U db'"
    and "sql_update_execution_failed a b env n db = Inr (x, db') \<Longrightarrow> ids_canonical U db'"
    and "sql_update_execution_running a env n db = Inr (x, db') \<Longrightarrow> ids_canonical U db'"
    and "sql_mark_outbox_dispatched a env n db = Inr (x, db') \<Longrightarrow> ids_canonical U db'"
    and "sql_record_outbox_failure a b env n db = Inr (x, db') \<Longrightarrow> ids_canonical U db'"
    and "sql_update_task_running a i env n db = Inr (r, db') \<Longrightarrow> ids_canonical U db'"
    and "sql_update_task_replayed a env n db = Inr (r, db') \<Longrightarrow> ids_canonical U db'"
  using assms
  by (auto simp: row_update_defs sql_update_task_running_def sql_update_task_replayed_def sql_simps
      ids_upd_task)

lemma ids_read: "ids_canonical U db \<Longrightarrow> sql_read f env n db = Inr (x, db') \<Longrightarrow> ids_canonical U db'"
  by (simp add: sql_simps)

lemma start_ids: "tx_keeps E (ids_canonical U) (start_attempt_tx a)"
  unfolding start_attempt_tx_def Let_def
  by (intro tx_keeps_rules tx_keeps_statement)
     (erule ids_read ids_insert(3) ids_update(12), assumption)+

interpretation ids: statement_invariant "server U" "ids_canonical U" for U
  by unfold_locales
     (rule start_ids | erule (2) ids_insert_task | erule ids_insert ids_update, assumption)+

section \<open>The numbering of attempts\<close>

lemma numbering_upd_task:
  assumes "numbering_ok db" "same_task_keys f"
    and "\<And>r. ti_attempts_total (f r) = ti_attempts_total r"
  shows "numbering_ok (upd_task u f db)"
  using assms
  by (auto simp: numbering_ok_def upd_task_def attempts_of_def same_task_keysD
      intro!: list_all_update_by)

lemma numbering_upd_attempt:
  assumes "\<And>r. ta_task_instance_id (f r) = ta_task_instance_id r"
    and "\<And>r. ta_attempt_number (f r) = ta_attempt_number r"
  shows "numbering_ok (upd_attempt u f db) = numbering_ok db"
proof -
  have "map ta_attempt_number (filter (\<lambda>a. ta_task_instance_id a = v) (update_by ta_id u f rows)) =
        map ta_attempt_number (filter (\<lambda>a. ta_task_instance_id a = v) rows)" for v rows
    using assms by (induction rows) auto
  then show ?thesis by (simp add: numbering_ok_def attempts_of_def upd_attempt_def)
qed

lemma numbering_upd_other [simp]:
  "numbering_ok (upd_execution u f db) = numbering_ok db"
  "numbering_ok (upd_outbox u h db) = numbering_ok db"
  "numbering_ok (db\<lparr>workflow_definitions := ds\<rparr>) = numbering_ok db"
  "numbering_ok (db\<lparr>workflow_executions := es\<rparr>) = numbering_ok db"
  "numbering_ok (db\<lparr>outbox_events := obs\<rparr>) = numbering_ok db"
  "numbering_ok (db\<lparr>idempotency_records := rs\<rparr>) = numbering_ok db"
  by (simp_all add: numbering_ok_def attempts_of_def upd_defs)

lemma numbering_append_task:
  assumes "schema_ok db" "numbering_ok db" "ti_id r \<notin> ti_id ` set (task_instances db)"
    and "ti_attempts_total r = 0"
  shows "numbering_ok (db\<lparr>task_instances := task_instances db @ [r]\<rparr>)"
proof -
  have "filter (\<lambda>a. ta_task_instance_id a = ti_id r) (task_attempts db) = []"
    using schema_attempt_task [OF assms(1)] assms(3) unfolding filter_empty_conv by metis
  then show ?thesis using assms(2,4) by (simp add: numbering_ok_def attempts_of_def)
qed

lemma attempts_of_upd_task: "attempts_of (upd_task u f db) = attempts_of db"
  by (simp add: attempts_of_def upd_task_def fun_eq_iff)

text \<open>A new attempt is the next number of its task and of no other.\<close>

lemma numbering_start:
  assumes "schema_ok db" "numbering_ok db" "lifecycle_ok db"
    and "select_by ti_id u (task_instances db) = Some r" "i = ti_attempts_total r + 1"
    and "ta_task_instance_id a = u" "ta_attempt_number a = i"
  shows "numbering_ok (upd_task u (set_task_running t i)
           (db\<lparr>task_attempts := task_attempts db @ [a]\<rparr>))"
proof -
  have r: "r \<in> set (task_instances db)" "ti_id r = u"
    using assms(4) select_by_SomeD by metis+
  note unique = schema_task_unique [OF assms(1,4)]
  have upto: "[1..ti_attempts_total r] @ [i] = [1..i]"
    using assms(3,5) r(1) upto_rec2 [of 1 i] by (auto simp: lifecycle_ok_def list_all_iff task_row_ok_def)
  have "map ta_attempt_number (attempts_of db (ti_id q)) = [1..ti_attempts_total q]"
    if "q \<in> set (task_instances db)" for q
    using assms(2) that by (simp add: numbering_ok_def list_all_iff)
  note old = this
  let ?db = "db\<lparr>task_attempts := task_attempts db @ [a]\<rparr>"
  have new: "attempts_of ?db v = (if v = u then attempts_of db u @ [a] else attempts_of db v)" for v
    using assms(6) by (simp add: attempts_of_def)
  have "map ta_attempt_number (attempts_of ?db (ti_id (set_task_running t i q))) =
      [1..ti_attempts_total (set_task_running t i q)]"
    if q: "q \<in> set (task_instances db)" "ti_id q = u" for q
    using old [OF q(1)] unique [OF q] q(2) upto assms(7) by (simp add: new set_task_running_def)
  moreover have "map ta_attempt_number (attempts_of ?db (ti_id q)) = [1..ti_attempts_total q]"
    if q: "q \<in> set (task_instances db)" "ti_id q \<noteq> u" for q
    using old [OF q(1)] q(2) by (simp add: new)
  ultimately show ?thesis
    unfolding numbering_ok_def attempts_of_upd_task
    by (auto simp: upd_task_def set_update_by list_all_iff)
qed

definition numbered_ok :: "(string \<Rightarrow> string option) \<Rightarrow> pg \<Rightarrow> bool" where
  "numbered_ok U db \<longleftrightarrow> schema_ok db \<and> lifecycle_ok db \<and> ids_canonical U db \<and> numbering_ok db"

lemma start_numbering:
  "tx_keeps (server U) (numbered_ok U) (start_attempt_tx a)"
proof
  fix env s x t
  assume E: "server U env" and I: "numbered_ok U (tx_db s)"
    and run: "start_attempt_tx a env s = Inr (x, t)"
  have "schema_ok (tx_db t)" "lifecycle_ok (tx_db t)" "ids_canonical U (tx_db t)"
    using I tx_keepsD [OF start_schema [of "server U"] E _ run]
      tx_keepsD [OF start_lifecycle [of "server U"] E _ run]
      tx_keepsD [OF start_ids [of "server U"] E _ run] by (simp_all add: numbered_ok_def)
  moreover from run have "numbering_ok (tx_db t)"
  proof (cases rule: start_attempt_effect)
    case finished
    then show ?thesis using I by (simp add: numbered_ok_def)
  next
    case (started u r v i)
    have "v = u" using started(1,5) E uuid_canonical_in [of env a u] by (simp add: server_def)
    then show ?thesis using I started(2,7,10)
      by (simp add: numbering_start new_attempt_def numbered_ok_def)
  qed
  ultimately show "numbered_ok U (tx_db t)" by (simp add: numbered_ok_def)
qed

lemma numbering_insert:
  assumes "numbering_ok db"
  shows "sql_insert_definition a b c d env n db = Inr (x1, db') \<Longrightarrow> numbering_ok db'"
    and "sql_insert_execution a b c env n db = Inr (x2, db') \<Longrightarrow> numbering_ok db'"
    and "sql_insert_outbox a b c d env n db = Inr (x5, db') \<Longrightarrow> numbering_ok db'"
    and "sql_insert_idempotency a b c d env n db = Inr (x6, db') \<Longrightarrow> numbering_ok db'"
    and "sql_update_idempotency_completed a b c d env n db = Inr (x6, db') \<Longrightarrow> numbering_ok db'"
    and "sql_delete_idempotency a b c d env n db = Inr (x5, db') \<Longrightarrow> numbering_ok db'"
    and "schema_ok db \<Longrightarrow> sql_insert_task a b c d e f env n db = Inr (x3, db') \<Longrightarrow> numbering_ok db'"
  using assms
  by (auto simp: insert_defs sql_update_idempotency_completed_def
      sql_delete_idempotency_def sql_simps Let_def intro!: numbering_append_task split: if_splits)

lemma numbering_update:
  assumes "numbering_ok db"
  shows "sql_update_attempt_succeeded a b env n db = Inr (x, db') \<Longrightarrow> numbering_ok db'"
    and "sql_update_attempt_failed a b env n db = Inr (x, db') \<Longrightarrow> numbering_ok db'"
    and "sql_update_task_succeeded a b env n db = Inr (x, db') \<Longrightarrow> numbering_ok db'"
    and "sql_update_task_retry a b at env n db = Inr (x, db') \<Longrightarrow> numbering_ok db'"
    and "sql_update_task_dead_lettered a b env n db = Inr (x, db') \<Longrightarrow> numbering_ok db'"
    and "sql_clear_next_run_at a env n db = Inr (x, db') \<Longrightarrow> numbering_ok db'"
    and "sql_update_execution_succeeded a b env n db = Inr (x, db') \<Longrightarrow> numbering_ok db'"
    and "sql_update_execution_failed a b env n db = Inr (x, db') \<Longrightarrow> numbering_ok db'"
    and "sql_update_execution_running a env n db = Inr (x, db') \<Longrightarrow> numbering_ok db'"
    and "sql_mark_outbox_dispatched a env n db = Inr (x, db') \<Longrightarrow> numbering_ok db'"
    and "sql_record_outbox_failure a b env n db = Inr (x, db') \<Longrightarrow> numbering_ok db'"
    and "sql_update_task_replayed a env n db = Inr (r, db') \<Longrightarrow> numbering_ok db'"
  using assms
  by (auto simp: row_update_defs sql_update_task_replayed_def sql_simps numbering_upd_attempt
      set_task_defs intro!: numbering_upd_task [where f = "set_task_succeeded s j" for s j]
        numbering_upd_task [where f = "set_task_retry s j k" for s j k]
        numbering_upd_task [where f = "set_task_dead_lettered s j" for s j]
        numbering_upd_task [where f = "clear_next_run_at s" for s]
        numbering_upd_task [where f = "set_task_replayed s" for s])

interpretation numbered: statement_invariant "server U" "numbered_ok U" for U
  unfolding numbered_ok_def
  by unfold_locales
     (rule start_numbering [unfolded numbered_ok_def]
      | elim conjE, intro conjI,
        (erule schema_insert schema_update schema_insert_record schema_record_update, assumption),
        (erule lifecycle_insert lifecycle_update lifecycle_record, assumption),
        (erule (2) ids_insert_task | erule ids_insert ids_update, assumption),
        (erule numbering_insert numbering_update, assumption+))+

section \<open>The outbox\<close>

lemma select_due_subset:
  assumes "scans_ok env" "select_due_retries limit env db = Inr items"
  shows "set items \<subseteq> set (task_instances db)"
proof -
  have "items = order_limit next_run_key limit
      (filter (\<lambda>t. due_retry env t \<and> \<not> pg_locked env (ti_id t)) (pg_scan_tasks env (task_instances db)))"
    using assms(2) by (simp add: select_due_retries_def sql_simps)
  then have "set items \<subseteq> set (pg_scan_tasks env (task_instances db))"
    using subset_trans [OF set_order_limit filter_is_subset] by metis
  also have "\<dots> = set (task_instances db)"
    using assms(1) by (metis scans_ok_def set_mset_mset)
  finally show ?thesis .
qed

text \<open>
  \<open>outbox_ok\<close> survives when no task disappears and every row is old or a dispatch of a task.
\<close>

definition tasks_grow :: "pg \<Rightarrow> pg \<Rightarrow> bool" where
  "tasks_grow db db' \<longleftrightarrow> ti_id ` set (task_instances db) \<subseteq> ti_id ` set (task_instances db')"

definition is_dispatch :: "outbox_row \<Rightarrow> bool" where
  "is_dispatch r \<longleftrightarrow> ob_aggregate_type r = ''task_instance'' \<and> ob_event_type r = ''task.dispatch'' \<and>
     0 \<le> ob_attempt_count r"

lemma is_dispatch_new [simp]:
  "is_dispatch (new_dispatch env n u j)" "ob_aggregate_id (new_dispatch env n u j) = u"
  by (simp_all add: is_dispatch_def new_dispatch_def)

lemma outbox_grow:
  assumes "outbox_ok db" "tasks_grow db db'"
    and "\<And>r. r \<in> set (outbox_events db') \<Longrightarrow> r \<notin> set (outbox_events db) \<Longrightarrow>
           is_dispatch r \<and> ob_aggregate_id r \<in> ti_id ` set (task_instances db')"
  shows "outbox_ok db'"
  using assms unfolding outbox_ok_def list_all_iff outbox_row_ok_def tasks_grow_def is_dispatch_def
  by blast

lemma upd_ids [simp]:
  "ti_id ` set (task_instances (upd_execution u f db)) = ti_id ` set (task_instances db)"
  "ti_id ` set (task_instances (upd_attempt u g db)) = ti_id ` set (task_instances db)"
  "ti_id ` set (task_instances (upd_outbox u h db)) = ti_id ` set (task_instances db)"
  by (simp_all add: upd_defs)

lemma upd_task_ids:
  assumes "same_task_keys f"
  shows "ti_id ` set (task_instances (upd_task u f db)) = ti_id ` set (task_instances db)"
  using map_update_by [of ti_id u ti_id f "task_instances db"] assms
  by (simp add: upd_task_def same_task_keysD flip: set_map)

lemma upd_outbox_rows [simp]:
  "outbox_events (upd_execution u f db) = outbox_events db"
  "outbox_events (upd_attempt u g db) = outbox_events db"
  "outbox_events (upd_task u k db) = outbox_events db"
  by (simp_all add: upd_defs)

lemma outbox_upd_outbox:
  assumes "outbox_ok db"
    and "\<And>r. ob_aggregate_type (f r) = ob_aggregate_type r \<and> ob_event_type (f r) = ob_event_type r \<and>
             ob_aggregate_id (f r) = ob_aggregate_id r \<and> ob_attempt_count (f r) = ob_attempt_count r + 1"
  shows "outbox_ok (upd_outbox u f db)"
proof -
  have "outbox_row_ok (upd_outbox u f db) = outbox_row_ok db"
    by (simp add: outbox_row_ok_def fun_eq_iff)
  with assms show ?thesis
    by (auto simp: outbox_ok_def upd_outbox_def outbox_row_ok_def intro!: list_all_update_by)
qed

lemma clear_all_ids: "ti_id ` set (clear_all now us rows) = ti_id ` set rows"
proof -
  have "map ti_id (clear_all now us rows) = map ti_id rows"
    by (simp add: clear_all_def clear_next_run_at_def)
  then show ?thesis by (metis set_map)
qed

definition store_ok :: "(string \<Rightarrow> string option) \<Rightarrow> pg \<Rightarrow> bool" where
  "store_ok U db \<longleftrightarrow> numbered_ok U db \<and> outbox_ok db"

lemma tx_keeps_store:
  assumes "tx_keeps (server U) (numbered_ok U) m"
    and "\<And>env s x t. server U env \<Longrightarrow> numbered_ok U (tx_db s) \<Longrightarrow> m env s = Inr (x, t) \<Longrightarrow>
           outbox_ok (tx_db s) \<Longrightarrow> outbox_ok (tx_db t)"
  shows "tx_keeps (server U) (store_ok U) m"
  using assms unfolding tx_keeps_def store_ok_def by blast

lemma outbox_create:
  assumes "server U env" "create_execution_tx a b c d env s = Inr (x, t)" "outbox_ok (tx_db s)"
  shows "outbox_ok (tx_db t)"
proof -
  have "uuid_canonical env" using assms(1) by (simp add: server_def)
  from this assms(2) show ?thesis
    by (cases rule: create_execution_effect)
       (rule outbox_grow [OF assms(3)], auto simp: tasks_grow_def)
qed

lemma outbox_replay:
  assumes "server U env" "ids_canonical U (tx_db s)" "replay_tx a env s = Inr (x, t)" "outbox_ok (tx_db s)"
  shows "outbox_ok (tx_db t)"
proof -
  have "uuid_canonical env" "ids_canonical (pg_uuid_in env) (tx_db s)"
    using assms(1,2) by (simp_all add: server_def)
  from this assms(3) show ?thesis
  proof (cases rule: replay_effect)
    case (1 u r r' pj ob)
    have "u \<in> ti_id ` set (task_instances (tx_db s))"
      using 1(2) by (metis imageI select_by_SomeD)
    then show ?thesis
      by (intro outbox_grow [OF assms(4)]) (auto simp: tasks_grow_def upd_task_ids 1)
  qed
qed

lemma outbox_complete_next:
  assumes "server U env" "ids_canonical U (tx_db s)"
    and "complete_and_enqueue_tx a b c d e env s = Inr (x, t)" "outbox_ok (tx_db s)"
  shows "outbox_ok (tx_db t)"
proof -
  have "uuid_canonical env" "ids_canonical (pg_uuid_in env) (tx_db s)"
    using assms(1,2) by (simp_all add: server_def)
  from this assms(3) show ?thesis
    by (cases rule: complete_next_effect)
       (rule outbox_grow [OF assms(4)], auto simp: tasks_grow_def upd_task_ids)
qed

lemma outbox_due:
  assumes "server U env" "ids_canonical U (tx_db s)"
    and "enqueue_due_tx i env s = Inr (x, t)" "outbox_ok (tx_db s)"
  shows "outbox_ok (tx_db t)"
proof -
  have scans: "scans_ok env" and "ids_canonical (pg_uuid_in env) (tx_db s)"
    using assms(1,2) by (simp_all add: server_def)
  from this assms(3) show ?thesis
  proof (cases rule: enqueue_due_effect)
    case (1 items obs)
    have "is_dispatch r \<and> ob_aggregate_id r \<in> ti_id ` set items" if "r \<in> set obs" for r
      using 1(3) that by (induction rule: list_all2_induct) (auto simp: dispatch_of_def)
    moreover have "set items \<subseteq> set (task_instances (tx_db s))"
      using select_due_subset [OF scans 1(1)] .
    ultimately show ?thesis
      by (intro outbox_grow [OF assms(4)]) (auto simp: tasks_grow_def 1 clear_all_ids)
  qed
qed

lemma outbox_same_rows:
  assumes "outbox_ok (tx_db s)" "outbox_events (tx_db t) = outbox_events (tx_db s)"
    and "ti_id ` set (task_instances (tx_db s)) \<subseteq> ti_id ` set (task_instances (tx_db t))"
  shows "outbox_ok (tx_db t)"
  by (rule outbox_grow [OF assms(1)]) (use assms(2,3) in \<open>auto simp: tasks_grow_def\<close>)

lemma outbox_start:
  assumes "start_attempt_tx a env s = Inr (x, t)" "outbox_ok (tx_db s)"
  shows "outbox_ok (tx_db t)"
  using assms(1)
proof (cases rule: start_attempt_effect)
  case finished
  then show ?thesis using assms(2) by simp
next
  case (started u r v i)
  show ?thesis by (rule outbox_same_rows [OF assms(2)]; simp add: started(10) upd_task_ids)
qed

lemma outbox_attempt_end:
  assumes "server U env" "ids_canonical U (tx_db s)" "outbox_ok (tx_db s)"
  shows "complete_attempt_tx a b c env s = Inr (x, t) \<Longrightarrow> outbox_ok (tx_db t)"
    and "fail_attempt_tx a b c env s = Inr (x, t) \<Longrightarrow> outbox_ok (tx_db t)"
    and "schedule_retry_tx a b c at env s = Inr (x, t) \<Longrightarrow> outbox_ok (tx_db t)"
proof -
  have ids: "ids_canonical (pg_uuid_in env) (tx_db s)" using assms(1,2) by (simp add: server_def)
  show "complete_attempt_tx a b c env s = Inr (x, t) \<Longrightarrow> outbox_ok (tx_db t)"
    by (erule complete_effect_tx [OF ids])
       (rule outbox_same_rows [OF assms(3)]; simp add: upd_task_ids)
  show "fail_attempt_tx a b c env s = Inr (x, t) \<Longrightarrow> outbox_ok (tx_db t)"
    by (erule fail_effect [OF ids])
       (rule outbox_same_rows [OF assms(3)]; simp add: upd_task_ids)
  show "schedule_retry_tx a b c at env s = Inr (x, t) \<Longrightarrow> outbox_ok (tx_db t)"
    by (erule schedule_retry_effect)
       (rule outbox_same_rows [OF assms(3)]; simp add: upd_task_ids)
qed

lemma outbox_single:
  assumes "outbox_ok db"
  shows "sql_insert_definition a b c d env n db = Inr (x1, db') \<Longrightarrow> outbox_ok db'"
    and "sql_insert_idempotency a b c d env n db = Inr (x6, db') \<Longrightarrow> outbox_ok db'"
    and "sql_update_idempotency_completed a b c d env n db = Inr (x6, db') \<Longrightarrow> outbox_ok db'"
    and "sql_delete_idempotency a b c d env n db = Inr (x5, db') \<Longrightarrow> outbox_ok db'"
    and "sql_mark_outbox_dispatched a env n db = Inr (x5, db') \<Longrightarrow> outbox_ok db'"
    and "sql_record_outbox_failure a b env n db = Inr (x5, db') \<Longrightarrow> outbox_ok db'"
  using assms
  by (auto simp: sql_insert_definition_def sql_insert_idempotency_def
      sql_update_idempotency_completed_def sql_delete_idempotency_def
      sql_mark_outbox_dispatched_def sql_record_outbox_failure_def sql_simps Let_def
      set_outbox_defs outbox_ok_def outbox_row_ok_def [abs_def] split: if_splits
      intro!: outbox_upd_outbox [unfolded outbox_ok_def outbox_row_ok_def [abs_def]])

interpretation store_inv: operation_invariant "server U" "store_ok U" for U
proof unfold_locales
  fix a b c d e :: string and i :: int and at :: go_time
  show "tx_keeps (server U) (store_ok U) (create_execution_tx a b c d)"
    by (rule tx_keeps_store [OF numbered.create_kept]) (erule outbox_create; assumption)
  show "tx_keeps (server U) (store_ok U) (replay_tx a)"
    by (rule tx_keeps_store [OF numbered.replay_kept])
       (erule outbox_replay; (assumption | simp add: numbered_ok_def))
  show "tx_keeps (server U) (store_ok U) (start_attempt_tx a)"
    by (rule tx_keeps_store [OF numbered.start_kept]) (erule outbox_start; assumption)
  show "tx_keeps (server U) (store_ok U) (complete_attempt_tx a b c)"
    by (rule tx_keeps_store [OF numbered.complete_kept])
       (erule outbox_attempt_end; (assumption | simp add: numbered_ok_def))
  show "tx_keeps (server U) (store_ok U) (complete_and_enqueue_tx a b c d e)"
    by (rule tx_keeps_store [OF numbered.complete_next_kept])
       (erule outbox_complete_next; (assumption | simp add: numbered_ok_def))
  show "tx_keeps (server U) (store_ok U) (enqueue_due_tx i)"
    by (rule tx_keeps_store [OF numbered.due_kept])
       (erule outbox_due; (assumption | simp add: numbered_ok_def))
  show "tx_keeps (server U) (store_ok U) (schedule_retry_tx a b c at)"
    by (rule tx_keeps_store [OF numbered.retry_kept])
       (erule outbox_attempt_end; (assumption | simp add: numbered_ok_def))
  show "tx_keeps (server U) (store_ok U) (fail_attempt_tx a b c)"
    by (rule tx_keeps_store [OF numbered.fail_kept])
       (erule outbox_attempt_end; (assumption | simp add: numbered_ok_def))
qed (unfold store_ok_def, (elim conjE, intro conjI,
     (erule (2) numbered.definition_kept numbered.mark_kept numbered.failure_kept
        numbered.claim_kept numbered.respond_kept numbered.release_kept),
     (erule outbox_single, assumption))+)

lemma store_ok_empty: "store_ok U empty_pg"
  by (simp add: store_ok_def numbered_ok_def schema_ok_def lifecycle_ok_def ids_canonical_def
      numbering_ok_def outbox_ok_def empty_pg_def)

lemma reachable_store_ok: "reachable (server U) db \<Longrightarrow> store_ok U db"
  by (rule store_inv.reachable_invariant [OF _ store_ok_empty])

end
