(* ===== verification/Service.thy ===== *)
theory Service
  imports StoreReach
begin

text \<open>
  \<^verbatim>\<open>internal/orchestrator/service.go\<close>: parsing and validation of workflow definitions, the
  lookups on a parsed definition, and the service calls the HTTP API makes.  Logging is left out.

  \<open>wf_spec\<close> says declaratively which definitions are accepted; \<open>parse_validate_iff\<close> shows that
  \<^verbatim>\<open>ParseAndValidateWorkflowDefinition\<close> accepts exactly those.
\<close>

section \<open>Lookups\<close>

fun find_spec :: "string \<Rightarrow> WorkflowTaskSpec list \<Rightarrow> WorkflowTaskSpec option" where
  "find_spec name [] = None"
| "find_spec name (task # tasks) =
     (if TrimSpace (spec_Name task) = name then Some task else find_spec name tasks)"

definition err_entry_task :: go_error where
  "err_entry_task =
     ErrorString ''entry_task must be one of the tasks defined in the workflow definition''"

definition FindEntryTask :: "WorkflowDefinitionSpec \<Rightarrow> go_error + WorkflowTaskSpec" where
  "FindEntryTask spec =
     (case find_spec (TrimSpace (spec_EntryTask spec)) (spec_Tasks spec) of
        Some task \<Rightarrow> Inr task
      | None \<Rightarrow> Inl err_entry_task)"

definition FindTaskSpecByName :: "WorkflowDefinitionSpec \<Rightarrow> string \<Rightarrow> go_error + WorkflowTaskSpec" where
  "FindTaskSpecByName spec taskName =
     (case find_spec (TrimSpace taskName) (spec_Tasks spec) of
        Some task \<Rightarrow> Inr task
      | None \<Rightarrow> Inl (ErrorString (''task not found in workflow definition: '' @ taskName)))"

text \<open>The pair \<^verbatim>\<open>(next, true)\<close> is \<open>Some next\<close>; \<^verbatim>\<open>false\<close> is \<open>None\<close>.\<close>

definition FindNextTaskSpec ::
  "WorkflowDefinitionSpec \<Rightarrow> string \<Rightarrow> go_error + WorkflowTaskSpec option"
where
  "FindNextTaskSpec spec currentTaskName =
     (case FindTaskSpecByName spec currentTaskName of
        Inl e \<Rightarrow> Inl (Wrap ''failed to find current task: '' e)
      | Inr taskSpec \<Rightarrow>
          if TrimSpace (spec_NextTask taskSpec) = [] then Inr None
          else
            (case FindTaskSpecByName spec (spec_NextTask taskSpec) of
               Inl e \<Rightarrow> Inl (Wrap ''invalid next_task reference: '' e)
             | Inr nextTaskSpec \<Rightarrow> Inr (Some nextTaskSpec)))"

section \<open>Validation\<close>

text \<open>The loop over the tasks, with the flag \<^verbatim>\<open>entryTaskFound\<close>.\<close>

fun validate_tasks ::
  "WorkflowDefinitionSpec \<Rightarrow> WorkflowTaskSpec list \<Rightarrow> bool \<Rightarrow> go_error + bool"
where
  "validate_tasks spec [] entryTaskFound = Inr entryTaskFound"
| "validate_tasks spec (task # tasks) entryTaskFound =
     (if TrimSpace (spec_Name task) = [] then
        Inl (ErrorString ''workflow definition tasks must have a name'')
      else if TrimSpace (spec_HandlerKey task) = [] then
        Inl (ErrorString ''workflow definition tasks must have a handler_key'')
      else
        let found = entryTaskFound \<or> TrimSpace (spec_Name task) = TrimSpace (spec_EntryTask spec) in
        if spec_MaxAttempts task < 0 then
          Inl (ErrorString ''workflow definition tasks must have max_attempts of at least 0'')
        else if spec_BackoffSeconds task < 0 then
          Inl (ErrorString ''workflow definition tasks must have backoff_seconds of at least 0'')
        else if TrimSpace (spec_NextTask task) \<noteq> [] \<and>
                TrimSpace (spec_NextTask task) = TrimSpace (spec_Name task) then
          Inl (ErrorString ''workflow definition tasks cannot have next_task that points to itself'')
        else if TrimSpace (spec_NextTask task) \<noteq> [] then
          (case FindTaskSpecByName spec (spec_NextTask task) of
             Inl e \<Rightarrow> Inl (Wrap ''workflow definition tasks have invalid next_task: '' e)
           | Inr _ \<Rightarrow> validate_tasks spec tasks found)
        else validate_tasks spec tasks found)"

definition ParseAndValidateWorkflowDefinition :: "string \<Rightarrow> go_error + WorkflowDefinitionSpec" where
  "ParseAndValidateWorkflowDefinition raw =
     (case json_unmarshal unmarshal_spec raw of
        Inl e \<Rightarrow> Inl (Wrap ''unmarshal workflow definition: '' e)
      | Inr workflowSpec \<Rightarrow>
          if TrimSpace (spec_EntryTask workflowSpec) = [] then
            Inl (ErrorString ''workflow definition must have an entry_task'')
          else if length (spec_Tasks workflowSpec) = 0 then
            Inl (ErrorString ''workflow definition must have at least one task'')
          else
            (case validate_tasks workflowSpec (spec_Tasks workflowSpec) False of
               Inl e \<Rightarrow> Inl e
             | Inr entryTaskFound \<Rightarrow>
                 if \<not> entryTaskFound then Inl err_entry_task else Inr workflowSpec))"

section \<open>Service calls\<close>

record CreateWorkflowDefinitionRequest =
  req_Name :: string
  req_Description :: string
  req_Definition :: string

record TriggerExecutionRequest =
  req_WorkflowDefinitionID :: string
  req_Input :: string

text \<open>The definition used when the request has none, byte for byte.\<close>

definition default_definition :: string where
  "default_definition =
     ''{'' @ [CHR 0x0A] @ ''  '' @ [CHR 0x22] @ ''entry_task'' @ [CHR 0x22] @ '': '' @ [CHR 0x22] @
     ''sample-task'' @ [CHR 0x22] @ '','' @ [CHR 0x0A] @ ''  '' @ [CHR 0x22] @ ''tasks'' @ [CHR 0x22] @
     '': ['' @ [CHR 0x0A] @ ''    {'' @ [CHR 0x0A] @ ''      '' @ [CHR 0x22] @ ''name'' @ [CHR 0x22] @
     '': '' @ [CHR 0x22] @ ''sample-task'' @ [CHR 0x22] @ '','' @ [CHR 0x0A] @ ''      '' @ [CHR 0x22] @
     ''handler_key'' @ [CHR 0x22] @ '': '' @ [CHR 0x22] @ ''sample.echo'' @ [CHR 0x22] @ [CHR 0x0A] @
     ''    }'' @ [CHR 0x0A] @ ''  ]'' @ [CHR 0x0A, CHR 0x09] @ ''}''"

definition ServiceCreateWorkflowDefinition ::
  "CreateWorkflowDefinitionRequest \<Rightarrow> pgenv \<Rightarrow> pg \<Rightarrow> WorkflowDefinition store_result"
where
  "ServiceCreateWorkflowDefinition req env db =
     (let name = TrimSpace (req_Name req) in
      if name = [] then (Inl (ErrorString ''workflow name is required''), db)
      else
        let definition =
          (if length (req_Definition req) = 0 then default_definition else req_Definition req) in
        (case ParseAndValidateWorkflowDefinition definition of
           Inl e \<Rightarrow> (Inl e, db)
         | Inr _ \<Rightarrow>
             (case CreateWorkflowDefinition name (req_Description req) definition env db of
                (Inl e, db') \<Rightarrow>
                  (if IsUniqueViolation e then Inl (ErrorString ''workflow name already exists'')
                   else Inl (Wrap ''create workflow definition: '' e), db')
              | (Inr item, db') \<Rightarrow> (Inr item, db'))))"

text \<open>
  Two store calls.  \<open>env\<close> is the environment of the read, \<open>env'\<close> of the transaction, and
  \<open>other\<close> what other sessions commit in between.
\<close>

definition TriggerExecution ::
  "TriggerExecutionRequest \<Rightarrow> pgenv \<Rightarrow> (pg \<Rightarrow> pg) \<Rightarrow> pgenv \<Rightarrow> pg \<Rightarrow> ExecutionStartResult store_result"
where
  "TriggerExecution req env other env' db =
     (if TrimSpace (req_WorkflowDefinitionID req) = [] then
        (Inl (ErrorString ''workflow_definition_id is required''), db)
      else
        (case GetWorkflowDefinition (req_WorkflowDefinitionID req) env db of
           Inl e \<Rightarrow>
             (if IsNotFound e then Inl (Wrap ''workflow definition not found: '' e)
              else Inl (Wrap ''get workflow definition: '' e), db)
         | Inr workflowDefinition \<Rightarrow>
             (case ParseAndValidateWorkflowDefinition (def_DefinitionJSON workflowDefinition) of
                Inl e \<Rightarrow> (Inl e, db)
              | Inr workflowSpec \<Rightarrow>
                  (case FindEntryTask workflowSpec of
                     Inl e \<Rightarrow> (Inl e, db)
                   | Inr entryTask \<Rightarrow>
                       (case CreateExecutionAndTask (req_WorkflowDefinitionID req) (req_Input req)
                               (spec_Name entryTask) (spec_HandlerKey entryTask) env' (other db) of
                          (Inl e, db') \<Rightarrow> (Inl (Wrap ''create execution: '' e), db')
                        | (Inr result, db') \<Rightarrow> (Inr result, db'))))))"

definition ServiceGetExecutionSnapshot ::
  "string \<Rightarrow> pgenv \<Rightarrow> pg \<Rightarrow> pg \<Rightarrow> pg \<Rightarrow> go_error + ExecutionSnapshot"
where
  "ServiceGetExecutionSnapshot executionID = GetExecutionSnapshot executionID"

definition defaultDeadLetterTaskLimit :: int where "defaultDeadLetterTaskLimit = 100"
definition maxDeadLetterTaskLimit :: int where "maxDeadLetterTaskLimit = 500"

definition normalizeDeadLetterTaskLimit :: "int \<Rightarrow> int" where
  "normalizeDeadLetterTaskLimit limit =
     (if limit \<le> 0 then defaultDeadLetterTaskLimit
      else if limit > maxDeadLetterTaskLimit then maxDeadLetterTaskLimit
      else limit)"

definition GetDeadLetteredTasks :: "int \<Rightarrow> pgenv \<Rightarrow> pg \<Rightarrow> go_error + TaskInstance list" where
  "GetDeadLetteredTasks limit = ListDeadLetteredTasks (normalizeDeadLetterTaskLimit limit)"

definition ServiceReplayDeadLetteredTask :: "string \<Rightarrow> pgenv \<Rightarrow> pg \<Rightarrow> TaskInstance store_result" where
  "ServiceReplayDeadLetteredTask rawTaskID env db =
     (let taskID = TrimSpace rawTaskID in
      if taskID = [] then (Inl (ErrorString ''task id is required''), db)
      else
        (case ReplayDeadLetteredTask taskID env db of
           (Inl e, db') \<Rightarrow>
             (if IsNotFound e \<or> IsTaskNotReplayable e then Inl e
              else Inl (Wrap ''replay dead-lettered task: '' e), db')
         | (Inr task, db') \<Rightarrow> (Inr task, db')))"

section \<open>What validation accepts\<close>

definition task_names :: "WorkflowTaskSpec list \<Rightarrow> string list" where
  "task_names tasks = map (\<lambda>t. TrimSpace (spec_Name t)) tasks"

definition wf_task :: "WorkflowDefinitionSpec \<Rightarrow> WorkflowTaskSpec \<Rightarrow> bool" where
  "wf_task spec task \<longleftrightarrow>
     TrimSpace (spec_Name task) \<noteq> [] \<and> TrimSpace (spec_HandlerKey task) \<noteq> [] \<and>
     0 \<le> spec_MaxAttempts task \<and> 0 \<le> spec_BackoffSeconds task \<and>
     (TrimSpace (spec_NextTask task) \<noteq> [] \<longrightarrow>
        TrimSpace (spec_NextTask task) \<noteq> TrimSpace (spec_Name task) \<and>
        TrimSpace (spec_NextTask task) \<in> set (task_names (spec_Tasks spec)))"

definition wf_spec :: "WorkflowDefinitionSpec \<Rightarrow> bool" where
  "wf_spec spec \<longleftrightarrow>
     TrimSpace (spec_EntryTask spec) \<noteq> [] \<and>
     TrimSpace (spec_EntryTask spec) \<in> set (task_names (spec_Tasks spec)) \<and>
     list_all (wf_task spec) (spec_Tasks spec)"

lemma find_spec_None: "find_spec name tasks = None \<longleftrightarrow> name \<notin> set (task_names tasks)"
  by (induction tasks) (auto simp: task_names_def)

lemma find_spec_SomeD:
  "find_spec name tasks = Some task \<Longrightarrow> task \<in> set tasks \<and> TrimSpace (spec_Name task) = name"
  by (induction tasks) (auto split: if_splits)

lemma FindTaskSpecByName_Inr:
  "FindTaskSpecByName spec name = Inr task \<longleftrightarrow> find_spec (TrimSpace name) (spec_Tasks spec) = Some task"
  by (simp add: FindTaskSpecByName_def split: option.split)

lemma FindTaskSpecByName_Inl:
  "(\<exists>e. FindTaskSpecByName spec name = Inl e) \<longleftrightarrow>
   TrimSpace name \<notin> set (task_names (spec_Tasks spec))"
  using find_spec_None [of "TrimSpace name" "spec_Tasks spec"]
  by (auto simp: FindTaskSpecByName_def split: option.split)

lemma validate_tasks_Inr:
  "validate_tasks spec tasks found = Inr b \<longleftrightarrow>
     list_all (wf_task spec) tasks \<and>
     b = (found \<or> TrimSpace (spec_EntryTask spec) \<in> set (task_names tasks))"
proof (induction tasks arbitrary: found)
  case (Cons task tasks)
  have "(case FindTaskSpecByName spec n of Inl e \<Rightarrow> Inl (f e) | Inr _ \<Rightarrow> r) = Inr b \<longleftrightarrow>
        TrimSpace n \<in> set (task_names (spec_Tasks spec)) \<and> r = Inr b"
    for n :: string and f :: "go_error \<Rightarrow> go_error" and r
    using FindTaskSpecByName_Inl [of spec n] by (auto split: sum.split)
  then show ?case by (auto simp: Let_def wf_task_def Cons.IH task_names_def)
qed (auto simp: task_names_def)

lemma parse_validate_iff:
  "ParseAndValidateWorkflowDefinition raw = Inr spec \<longleftrightarrow>
     json_unmarshal unmarshal_spec raw = Inr spec \<and> wf_spec spec"
proof (cases "json_unmarshal unmarshal_spec raw")
  case (Inr parsed)
  have "spec_Tasks parsed = [] \<Longrightarrow> TrimSpace (spec_EntryTask parsed) \<notin> set (task_names (spec_Tasks parsed))"
    by (simp add: task_names_def)
  moreover have "validate_tasks parsed (spec_Tasks parsed) False = Inr True \<longleftrightarrow>
      list_all (wf_task parsed) (spec_Tasks parsed) \<and>
      TrimSpace (spec_EntryTask parsed) \<in> set (task_names (spec_Tasks parsed))"
    by (simp add: validate_tasks_Inr)
  ultimately show ?thesis using Inr
    by (cases "validate_tasks parsed (spec_Tasks parsed) False")
       (auto simp: ParseAndValidateWorkflowDefinition_def wf_spec_def)
qed (simp add: ParseAndValidateWorkflowDefinition_def)

lemma wf_spec_entry:
  assumes "wf_spec spec"
  shows "\<exists>task. FindEntryTask spec = Inr task \<and> task \<in> set (spec_Tasks spec) \<and>
           TrimSpace (spec_Name task) = TrimSpace (spec_EntryTask spec)"
  using assms find_spec_None [of "TrimSpace (spec_EntryTask spec)" "spec_Tasks spec"]
    find_spec_SomeD [of "TrimSpace (spec_EntryTask spec)" "spec_Tasks spec"]
  by (auto simp: FindEntryTask_def wf_spec_def split: option.split)

lemma wf_spec_next:
  assumes "wf_spec spec" "FindTaskSpecByName spec name = Inr task"
  shows "FindNextTaskSpec spec name =
           Inr (if TrimSpace (spec_NextTask task) = [] then None
                else find_spec (TrimSpace (spec_NextTask task)) (spec_Tasks spec)) \<and>
         (TrimSpace (spec_NextTask task) \<noteq> [] \<longrightarrow>
            find_spec (TrimSpace (spec_NextTask task)) (spec_Tasks spec) \<noteq> None)"
proof -
  have "task \<in> set (spec_Tasks spec)"
    using assms(2) by (auto simp: FindTaskSpecByName_Inr dest: find_spec_SomeD)
  with assms(1) have "wf_task spec task" by (simp add: wf_spec_def list_all_iff)
  with assms(2) show ?thesis
    using find_spec_None [of "TrimSpace (spec_NextTask task)" "spec_Tasks spec"]
    by (auto simp: FindNextTaskSpec_def wf_task_def FindTaskSpecByName_def split: option.splits)
qed

end
