(* ===== verification/Handlers.thy ===== *)
theory Handlers
  imports Service
begin

text \<open>
  \<^verbatim>\<open>internal/handlers\<close>: the registry and the two handlers.  A handler is a function of the task,
  of what its surroundings do (\<open>session\<close>) and of the database.

  The environment of the \<open>n\<close>-th store call a piece of code makes, and what other sessions commit
  just before it, are \<open>ses_env s n\<close> and \<open>ses_other s n\<close>; so every interleaving of its calls with
  other workers is covered.  \<open>ses_rfc3339\<close> is \<^verbatim>\<open>time.Now().UTC().Format(time.RFC3339)\<close>, the text of
  the clock.  \<open>ses_float64\<close> is what \<^verbatim>\<open>encoding/json\<close> makes of a number literal that is decoded
  into \<^verbatim>\<open>float64\<close> and encoded again (\<open>None\<close> when it is out of range).
\<close>

record session =
  ses_env :: "nat \<Rightarrow> pgenv"
  ses_other :: "nat \<Rightarrow> pg \<Rightarrow> pg"
  ses_rfc3339 :: string
  ses_float64 :: "string \<Rightarrow> string option"

type_synonym handler = "TaskInstance \<Rightarrow> session \<Rightarrow> pg \<Rightarrow> string store_result"

section \<open>The registry\<close>

type_synonym registry = "string \<rightharpoonup> handler"

definition NewRegistry :: "(string \<times> handler) list \<Rightarrow> registry" where
  "NewRegistry items = foldl (\<lambda>handlersByKey item. handlersByKey(fst item \<mapsto> snd item)) Map.empty items"

definition registry_Get :: "registry \<Rightarrow> string \<Rightarrow> handler option" where
  "registry_Get r key = r key"

section \<open>Values of type any\<close>

text \<open>
  \<^verbatim>\<open>map[string]any\<close>: a repeated key keeps its last value, and encoding sorts the keys.
\<close>

fun put_member :: "string \<Rightarrow> json \<Rightarrow> (string \<times> json) list \<Rightarrow> (string \<times> json) list" where
  "put_member k j [] = [(k, j)]"
| "put_member k j ((k', j') # ms) =
     (if k = k' then (k, j) # ms
      else if k < k' then (k, j) # (k', j') # ms
      else (k', j') # put_member k j ms)"

definition go_map :: "(string \<times> json) list \<Rightarrow> (string \<times> json) list" where
  "go_map ms = foldl (\<lambda>m (k, j). put_member k j m) [] ms"

fun to_any :: "(string \<Rightarrow> string option) \<Rightarrow> json \<Rightarrow> json option" where
  "to_any fl JNull = Some JNull"
| "to_any fl (JBool b) = Some (JBool b)"
| "to_any fl (JNum n) = map_option JNum (fl n)"
| "to_any fl (JStr s) = Some (JStr s)"
| "to_any fl (JArr js) = map_option JArr (those (map (to_any fl) js))"
| "to_any fl (JObj ms) =
     map_option (\<lambda>ms'. JObj (go_map ms')) (those (map (\<lambda>(k, j). map_option (Pair k) (to_any fl j)) ms))"

text \<open>\<^verbatim>\<open>var input map[string]any; json.Unmarshal(raw, &input)\<close>; a nil map encodes as null.\<close>

definition unmarshal_any_map :: "(string \<Rightarrow> string option) \<Rightarrow> json \<Rightarrow> json option" where
  "unmarshal_any_map fl j =
     (case j of JNull \<Rightarrow> Some JNull | JObj _ \<Rightarrow> to_any fl j | _ \<Rightarrow> None)"

section \<open>The handlers\<close>

text \<open>
  The body the two handlers share: claim the key, decode the input, build the response, store it;
  on an error the claim is released and the release's own error ignored.
\<close>

definition handle_with ::
  "string \<Rightarrow> go_error \<Rightarrow> (TaskInstance \<Rightarrow> string \<Rightarrow> json \<Rightarrow> json) \<Rightarrow> bool \<Rightarrow> handler"
where
  "handle_with key noStore response hasStore task ses db =
     (let ikey = task_IdempotencyKey task; owner = task_ID task;
          release = (\<lambda>n db. snd (ReleaseIdempotentTask key ikey owner (ses_env ses n) (ses_other ses n db)))
      in
      if \<not> hasStore then (Inl noStore, db)
      else
        (case BeginIdempotentTask key ikey owner (ses_env ses 0) (ses_other ses 1) (ses_env ses 1)
                (ses_other ses 0 db) of
           (Inl e, db1) \<Rightarrow> (Inl e, db1)
         | (Inr (existingResponse, replayed), db1) \<Rightarrow>
             if replayed then (Inr existingResponse, db1)
             else
               (case (if length (task_InputJSON task) > 0
                      then json_unmarshal (unmarshal_any_map (ses_float64 ses)) (task_InputJSON task)
                      else Inr JNull) of
                  Inl e \<Rightarrow> (Inl e, release 2 db1)
                | Inr input \<Rightarrow>
                    (case json_marshal (response task (ses_rfc3339 ses) input) of
                       Inl e \<Rightarrow> (Inl e, release 2 db1)
                     | Inr text \<Rightarrow>
                         (case CompleteIdempotentTask key ikey owner text (ses_env ses 2)
                                 (ses_other ses 2 db1) of
                            (Inl e, db2) \<Rightarrow> (Inl e, release 3 db2)
                          | (Inr _, db2) \<Rightarrow> (Inr text, db2))))))"

definition SampleEchoHandler_Key :: string where
  "SampleEchoHandler_Key = ''sample.echo''"

definition sample_response :: "TaskInstance \<Rightarrow> string \<Rightarrow> json \<Rightarrow> json" where
  "sample_response task now input =
     JObj (go_map [(''handler'', JStr SampleEchoHandler_Key), (''task_id'', JStr (task_ID task)),
       (''processed_at'', JStr now), (''echo'', input)])"

definition SampleEchoHandler_Handle :: "bool \<Rightarrow> handler" where
  "SampleEchoHandler_Handle =
     handle_with SampleEchoHandler_Key (ErrorString ''sample handler idempotency store is required'')
       sample_response"

definition NotificationSendHandler_Key :: string where
  "NotificationSendHandler_Key = ''notifications.send''"

definition notification_response :: "TaskInstance \<Rightarrow> string \<Rightarrow> json \<Rightarrow> json" where
  "notification_response task now input =
     JObj (go_map [(''handler'', JStr NotificationSendHandler_Key), (''task_id'', JStr (task_ID task)),
       (''notification_id'', JStr (task_IdempotencyKey task)), (''sent_at'', JStr now),
       (''payload'', input)])"

definition NotificationSendHandler_Handle :: "bool \<Rightarrow> handler" where
  "NotificationSendHandler_Handle =
     handle_with NotificationSendHandler_Key
       (ErrorString ''notification handler idempotency store is required'') notification_response"

text \<open>The registry \<^verbatim>\<open>apps/worker/main.go\<close> builds.\<close>

definition worker_registry :: registry where
  "worker_registry =
     NewRegistry [(SampleEchoHandler_Key, SampleEchoHandler_Handle True),
       (NotificationSendHandler_Key, NotificationSendHandler_Handle True)]"

section \<open>Facts\<close>

lemma NewRegistry_map_of: "NewRegistry items = map_of (rev items)"
proof -
  have "foldl (\<lambda>m item. m(fst item \<mapsto> snd item)) m items = m ++ map_of (rev items)" for m
    by (induction items arbitrary: m) (auto simp: map_add_def fun_eq_iff split: option.splits)
  then show ?thesis by (simp add: NewRegistry_def)
qed

lemma put_member_keys: "set (map fst (put_member k j ms)) = insert k (set (map fst ms))"
  by (induction k j ms rule: put_member.induct) auto

lemma put_member_sorted:
  "sorted_wrt (<) (map fst ms) \<Longrightarrow> sorted_wrt (<) (map fst (put_member k j ms))"
proof (induction k j ms rule: put_member.induct)
  case (2 k j k' j' ms)
  show ?case
  proof (cases "k = k' \<or> k < k'")
    case True
    then show ?thesis using 2(2) by (force simp: less_le)
  next
    case False
    then show ?thesis using 2 put_member_keys [of k j ms] by auto
  qed
qed simp

lemma put_member_map_of: "map_of (put_member k j ms) = (map_of ms)(k \<mapsto> j)"
  by (induction k j ms rule: put_member.induct) (auto simp: fun_eq_iff)

end
