(* ===== verification/Outbox.thy ===== *)
theory Outbox
  imports Queue Handlers
begin

text \<open>
  \<^verbatim>\<open>internal/outbox/publisher.go\<close>: the publisher turns due retries into outbox rows and outbox rows
  into stream messages.  Its state is the database together with the state \<open>'r\<close> of Redis.  The
  counters of \<^verbatim>\<open>internal/telemetry\<close> it increments are the list of \<open>metric\<close>s it emits.
\<close>

datatype metric =
    RetriesEnqueued int
  | DispatchEvents string
  | TasksProcessed string string
  | RetriesScheduled string
  | DeadLetteredTasks string string
  | TaskProcessingDuration string string

section \<open>Publishing\<close>

record publisher =
  pub_pollInterval :: go_duration

definition NewPublisher :: "go_duration \<Rightarrow> publisher" where
  "NewPublisher pollInterval =
     \<lparr>pub_pollInterval = (if pollInterval \<le> 0 then 2 * Second else pollInterval)\<rparr>"

text \<open>The loop over the events; event \<open>i\<close> makes the store call \<open>n + i\<close> of the session.\<close>

fun publish_events ::
  "'r redis \<Rightarrow> session \<Rightarrow> nat \<Rightarrow> OutboxEvent list \<Rightarrow> pg \<times> 'r \<Rightarrow>
   (go_error option \<times> metric list) \<times> pg \<times> 'r"
where
  "publish_events rd ses n [] (db, r) = ((None, []), db, r)"
| "publish_events rd ses n (event # events) (db, r) =
     (let env = ses_env ses n; lib = error_text (rd_error_text rd) in
      case json_unmarshal unmarshal_payload (evt_PayloadJSON event) of
        Inl e \<Rightarrow>
          publish_events rd ses (Suc n) events
            (snd (RecordOutboxFailure (evt_ID event) (lib e) env (ses_other ses n db)), r)
      | Inr payload \<Rightarrow>
          (case DispatchTask rd \<lparr>msg_TaskID = pay_TaskID payload,
                   msg_ExecutionID = pay_ExecutionID payload, msg_HandlerKey = pay_HandlerKey payload\<rparr> r of
             (Some e, r') \<Rightarrow>
               apfst (apsnd (Cons (DispatchEvents ''failed'')))
                 (publish_events rd ses (Suc n) events
                   (snd (RecordOutboxFailure (evt_ID event) (lib e) env (ses_other ses n db)), r'))
           | (None, r') \<Rightarrow>
               (case MarkOutboxDispatched (evt_ID event) env (ses_other ses n db) of
                  (Inl e, db') \<Rightarrow> ((Some e, [DispatchEvents ''persist_error'']), db', r')
                | (Inr _, db') \<Rightarrow>
                    apfst (apsnd (Cons (DispatchEvents ''published'')))
                      (publish_events rd ses (Suc n) events (db', r')))))"

definition publishOnce ::
  "'r redis \<Rightarrow> session \<Rightarrow> pg \<times> 'r \<Rightarrow> (go_error option \<times> metric list) \<times> pg \<times> 'r"
where
  "publishOnce rd ses st =
     (case st of (db, r) \<Rightarrow>
        (case EnqueueDueTaskRetries 20 (ses_env ses 0) (ses_other ses 0 db) of
           (Inl e, db1) \<Rightarrow> ((Some e, []), db1, r)
         | (Inr retryCount, db1) \<Rightarrow>
             let counted = (if retryCount > 0 then [RetriesEnqueued retryCount] else []);
                 db2 = ses_other ses 1 db1 in
             (case ListPendingOutbox 20 (ses_env ses 1) db2 of
                Inl e \<Rightarrow> ((Some e, counted), db2, r)
              | Inr events \<Rightarrow>
                  apfst (apsnd (append counted)) (publish_events rd ses 2 events (db2, r)))))"

text \<open>
  \<^verbatim>\<open>Run\<close>: one batch per tick, errors logged and forgotten, until the context is done.  The list
  holds the session of each batch before that.
\<close>

fun publisher_Run :: "'r redis \<Rightarrow> session list \<Rightarrow> pg \<times> 'r \<Rightarrow> pg \<times> 'r" where
  "publisher_Run rd [] st = st"
| "publisher_Run rd (ses # sessions) st = publisher_Run rd sessions (snd (publishOnce rd ses st))"

end
