(* ===== verification/Worker.thy ===== *)
theory Worker
  imports Outbox
begin

text \<open>
  \<^verbatim>\<open>internal/orchestrator/worker.go\<close>: what the worker does with one dispatched message.  The store
  calls are those of theory \<open>Store\<close>; the message handler's registry is an argument, so the
  properties hold for every set of handlers.  \<open>worker_run\<close> holds what is outside: the sessions of
  the worker's own store calls and of the handler's, the clock, the texts of library errors and
  the table \<^verbatim>\<open>unicode.IsPrint\<close> for non-ASCII runes.
\<close>

section \<open>The verb q of fmt\<close>

fun rune_code :: "string \<Rightarrow> nat" where
  "rune_code [a] = byte a"
| "rune_code [a, b] = (byte a - 192) * 64 + (byte b - 128)"
| "rune_code [a, b, c] = (byte a - 224) * 4096 + (byte b - 128) * 64 + (byte c - 128)"
| "rune_code [a, b, c, d] =
     (byte a - 240) * 262144 + (byte b - 128) * 4096 + (byte c - 128) * 64 + (byte d - 128)"
| "rune_code _ = 0"

fun hex_digits :: "nat \<Rightarrow> nat \<Rightarrow> string" where
  "hex_digits 0 v = []"
| "hex_digits (Suc n) v = hex_digits n (v div 16) @ [hex_digit (v mod 16)]"

definition backslash :: char where "backslash = CHR 0x5C"

text \<open>\<^verbatim>\<open>strconv.Quote\<close>; \<open>isPrint\<close> is asked for runes above ASCII only.\<close>

definition quote_rune :: "(string \<Rightarrow> bool) \<Rightarrow> string \<Rightarrow> string" where
  "quote_rune isPrint ch =
     (if \<not> valid_chunk ch then [backslash, CHR ''x''] @ hex_digits 2 (rune_code ch)
      else
        let c = rune_code ch in
        if c = 34 \<or> c = 92 then backslash # ch
        else if (if c < 128 then 32 \<le> c \<and> c < 127 else isPrint ch) then ch
        else if c = 7 then [backslash, CHR ''a'']
        else if c = 8 then [backslash, CHR ''b'']
        else if c = 12 then [backslash, CHR ''f'']
        else if c = 10 then [backslash, CHR ''n'']
        else if c = 13 then [backslash, CHR ''r'']
        else if c = 9 then [backslash, CHR ''t'']
        else if c = 11 then [backslash, CHR ''v'']
        else if c < 32 \<or> c = 127 then [backslash, CHR ''x''] @ hex_digits 2 c
        else if c < 65536 then [backslash, CHR ''u''] @ hex_digits 4 c
        else [backslash, CHR ''U''] @ hex_digits 8 c)"

definition go_quote :: "(string \<Rightarrow> bool) \<Rightarrow> string \<Rightarrow> string" where
  "go_quote isPrint s = [CHR 0x22] @ concat (map (quote_rune isPrint) (chunks s)) @ [CHR 0x22]"

section \<open>Loading the specification\<close>

record worker_run =
  wr_store :: session
  wr_handler :: session
  wr_now :: go_time
  wr_error_text :: "go_error \<Rightarrow> string"
  wr_is_print :: "string \<Rightarrow> bool"

text \<open>Store call \<open>n\<close> of the worker: other sessions commit first, then the call runs.\<close>

definition at_call :: "worker_run \<Rightarrow> nat \<Rightarrow> pg \<Rightarrow> pg" where
  "at_call run n db = ses_other (wr_store run) n db"

definition env_at :: "worker_run \<Rightarrow> nat \<Rightarrow> pgenv" where
  "env_at run n = ses_env (wr_store run) n"

definition GetWorkflowSpecAndTaskSpecByTaskID ::
  "string \<Rightarrow> worker_run \<Rightarrow> pg \<Rightarrow> (WorkflowDefinitionSpec \<times> WorkflowTaskSpec) store_result"
where
  "GetWorkflowSpecAndTaskSpecByTaskID taskID run db =
     (let db0 = at_call run 0 db in
      case GetTaskInstance taskID (env_at run 0) db0 of
        Inl e \<Rightarrow> (Inl (Wrap ''error fetching task from store: '' e), db0)
      | Inr task \<Rightarrow>
          let db1 = at_call run 1 db0 in
          (case GetWorkflowExecution (task_WorkflowExecutionID task) (env_at run 1) db1 of
             Inl e \<Rightarrow> (Inl (Wrap ''error fetching execution from store: '' e), db1)
           | Inr execution \<Rightarrow>
               let db2 = at_call run 2 db1 in
               (case GetWorkflowDefinition (exec_WorkflowDefinitionID execution) (env_at run 2) db2 of
                  Inl e \<Rightarrow> (Inl (Wrap ''error fetching workflow definition from store: '' e), db2)
                | Inr workflowDef \<Rightarrow>
                    (case ParseAndValidateWorkflowDefinition (def_DefinitionJSON workflowDef) of
                       Inl e \<Rightarrow> (Inl (Wrap ''error parsing workflow definition JSON: '' e), db2)
                     | Inr workflowSpec \<Rightarrow>
                         (case FindTaskSpecByName workflowSpec (task_TaskName task) of
                            Inl e \<Rightarrow> (Inl (Wrap ''error finding task spec by name: '' e), db2)
                          | Inr taskSpec \<Rightarrow> (Inr (workflowSpec, taskSpec), db2))))))"

section \<open>Handling a message\<close>

text \<open>The result of handling: the error returned (\<open>None\<close> is nil) and the counters incremented.\<close>

type_synonym handled = "(go_error option \<times> metric list) \<times> pg"

definition finish :: "string \<Rightarrow> string \<Rightarrow> metric list \<Rightarrow> go_error option \<Rightarrow> pg \<Rightarrow> handled" where
  "finish key outcome extra err db =
     ((err, TasksProcessed key outcome # extra @ [TaskProcessingDuration key outcome]), db)"

text \<open>
  The retry time, \<^verbatim>\<open>time.Now().UTC().Add(time.Duration(BackoffSeconds) * time.Second)\<close>: the product
  is a 64-bit number of nanoseconds and wraps around.
\<close>

definition next_run_at :: "go_time \<Rightarrow> int \<Rightarrow> go_time" where
  "next_run_at now backoffSeconds = now + mul64 backoffSeconds Second"

text \<open>Lines 101--114: no handler is registered.\<close>

definition persist_missing_handler ::
  "string \<Rightarrow> TaskInstance \<Rightarrow> TaskAttempt \<Rightarrow> worker_run \<Rightarrow> pg \<Rightarrow> handled"
where
  "persist_missing_handler key task attempt run db =
     (let text = ''no handler registered for '' @ go_quote (wr_is_print run) (task_HandlerKey task) in
      case FailTaskAttempt (task_ID task) (att_ID attempt) text (env_at run 4) (at_call run 4 db) of
        (Inl e, db') \<Rightarrow>
          finish key ''persist_error'' [] (Some (Wrap ''persist missing-handler failure: '' e)) db'
      | (Inr _, db') \<Rightarrow>
          finish key ''missing_handler'' [DeadLetteredTasks key ''missing_handler''] None db')"

text \<open>Lines 117--142: the handler returned an error.\<close>

definition persist_handler_error ::
  "string \<Rightarrow> WorkflowTaskSpec \<Rightarrow> TaskInstance \<Rightarrow> TaskAttempt \<Rightarrow> go_error \<Rightarrow> worker_run \<Rightarrow> pg \<Rightarrow> handled"
where
  "persist_handler_error key taskSpec task attempt err run db =
     (let text = error_text (wr_error_text run) err in
      if spec_MaxAttempts taskSpec > att_AttemptNumber attempt then
        (case ScheduleTaskRetry (task_ID task) (att_ID attempt) text
                (next_run_at (wr_now run) (spec_BackoffSeconds taskSpec)) (env_at run 4)
                (at_call run 4 db) of
           (Inl e, db') \<Rightarrow>
             finish key ''persist_error'' [] (Some (Wrap ''schedule task retry: '' e)) db'
         | (Inr _, db') \<Rightarrow> finish key ''scheduled_retry'' [RetriesScheduled key] None db')
      else
        (case FailTaskAttempt (task_ID task) (att_ID attempt) text (env_at run 4) (at_call run 4 db) of
           (Inl e, db') \<Rightarrow>
             finish key ''persist_error'' [] (Some (Wrap ''persist terminal task failure: '' e)) db'
         | (Inr _, db') \<Rightarrow>
             finish key ''failed'' [DeadLetteredTasks key ''exhausted_attempts''] None db'))"

text \<open>Lines 144--169: the handler returned an output.\<close>

definition persist_output ::
  "string \<Rightarrow> WorkflowDefinitionSpec \<Rightarrow> TaskInstance \<Rightarrow> TaskAttempt \<Rightarrow> string \<Rightarrow> worker_run \<Rightarrow> pg \<Rightarrow> handled"
where
  "persist_output key workflowSpec task attempt output run db =
     (case FindNextTaskSpec workflowSpec (task_TaskName task) of
        Inl e \<Rightarrow>
          finish key ''task_spec_error'' []
            (Some (Wrap (''error resolving next task for '' @ task_TaskName task @ '': '') e)) db
      | Inr (Some nextTaskSpec) \<Rightarrow>
          (case CompleteTaskAttemptAndEnqueueNextTask (task_ID task) (att_ID attempt)
                  (spec_Name nextTaskSpec) (spec_HandlerKey nextTaskSpec) output (env_at run 4)
                  (at_call run 4 db) of
             (Inl e, db') \<Rightarrow>
               finish key ''persist_error'' []
                 (Some (Wrap ''error completing task attempt and enqueuing next task: '' e)) db'
           | (Inr _, db') \<Rightarrow> finish key ''advanced'' [] None db')
      | Inr None \<Rightarrow>
          (case CompleteTaskAttempt (task_ID task) (att_ID attempt) output (env_at run 4)
                  (at_call run 4 db) of
             (Inl e, db') \<Rightarrow> finish key ''persist_error'' [] (Some e) db'
           | (Inr _, db') \<Rightarrow> finish key ''succeeded'' [] None db'))"

definition run_handler ::
  "registry \<Rightarrow> string \<Rightarrow> WorkflowDefinitionSpec \<Rightarrow> WorkflowTaskSpec \<Rightarrow> TaskInstance \<Rightarrow> TaskAttempt \<Rightarrow>
   worker_run \<Rightarrow> pg \<Rightarrow> handled"
where
  "run_handler reg key workflowSpec taskSpec task attempt run db =
     (case registry_Get reg (task_HandlerKey task) of
        None \<Rightarrow> persist_missing_handler key task attempt run db
      | Some handler \<Rightarrow>
          (case handler task (wr_handler run) db of
             (Inl err, db') \<Rightarrow> persist_handler_error key taskSpec task attempt err run db'
           | (Inr output, db') \<Rightarrow> persist_output key workflowSpec task attempt output run db'))"

definition HandleDispatchedTask :: "registry \<Rightarrow> TaskMessage \<Rightarrow> worker_run \<Rightarrow> pg \<Rightarrow> handled" where
  "HandleDispatchedTask reg message run db =
     (let key = msg_HandlerKey message in
      case GetWorkflowSpecAndTaskSpecByTaskID (msg_TaskID message) run db of
        (Inl e, db1) \<Rightarrow>
          finish key ''task_spec_error'' []
            (Some (Wrap (''error getting task spec for task ID '' @ msg_TaskID message @ '': '') e)) db1
      | (Inr (workflowSpec, spec0), db1) \<Rightarrow>
          let taskSpec = (if spec_MaxAttempts spec0 = 0 then spec0\<lparr>spec_MaxAttempts := 1\<rparr> else spec0) in
          (case StartTaskAttempt (msg_TaskID message) (env_at run 3) (at_call run 3 db1) of
             (Inl e, db2) \<Rightarrow> finish key ''db_error'' [] (Some e) db2
           | (Inr (task, attempt, alreadyCompleted), db2) \<Rightarrow>
               if alreadyCompleted then finish key ''duplicate'' [] None db2
               else run_handler reg key workflowSpec taskSpec task attempt run db2))"

end
