(* ===== verification/Process.thy ===== *)
theory Process
  imports Worker
begin

text \<open>
  The consumer of the worker process (\<^verbatim>\<open>apps/worker/main.go\<close>): \<^verbatim>\<open>streams.Consume\<close> with the worker's
  \<^verbatim>\<open>HandleDispatchedTask\<close> as message handler.  Its world is the database, the state \<open>'r\<close> of Redis, the
  number of messages handled so far (message \<open>n\<close> is handled in the surroundings \<open>runs n\<close>) and two
  records of what was observed: the messages Redis delivered, and the acknowledged message ids, each
  with the database as the last store call of its handling left it.  Other sessions commit between
  that call and the \<^verbatim>\<open>XACK\<close>, too: the function \<open>gap n\<close> for message \<open>n\<close>.
\<close>

record 'r world =
  wo_db :: pg
  wo_redis :: 'r
  wo_handled :: nat
  wo_delivered :: "xmessage list"
  wo_acked :: "(string \<times> pg) list"

text \<open>An arbitrary Redis client in this world; its calls do not touch the database.\<close>

definition on_redis :: "('r \<Rightarrow> 'x \<times> 'r) \<Rightarrow> 'r world \<Rightarrow> 'x \<times> 'r world" where
  "on_redis f w = (case f (wo_redis w) of (x, r) \<Rightarrow> (x, w\<lparr>wo_redis := r\<rparr>))"

definition delivered :: "xmessage list \<Rightarrow> 'r world \<Rightarrow> 'r world" where
  "delivered xs w = w\<lparr>wo_delivered := wo_delivered w @ xs\<rparr>"

definition acked :: "(nat \<Rightarrow> pg \<Rightarrow> pg) \<Rightarrow> string \<Rightarrow> 'r world \<Rightarrow> 'r world" where
  "acked gap ident w = w\<lparr>wo_acked := wo_acked w @ [(ident, wo_db w)], wo_db := gap (wo_handled w) (wo_db w)\<rparr>"

definition observed :: "'r redis \<Rightarrow> (nat \<Rightarrow> pg \<Rightarrow> pg) \<Rightarrow> 'r world redis" where
  "observed rd gap =
     \<lparr>rd_xgroup_create = on_redis (rd_xgroup_create rd),
      rd_xadd = (\<lambda>payload. on_redis (rd_xadd rd payload)),
      rd_xautoclaim = (\<lambda>c d n w.
        case on_redis (rd_xautoclaim rd c d n) w of ((e, xs), w') \<Rightarrow> ((e, xs), delivered xs w')),
      rd_xreadgroup = (\<lambda>c n d w.
        case on_redis (rd_xreadgroup rd c n d) w of
          (Inl e, w') \<Rightarrow> (Inl e, w')
        | (Inr streams, w') \<Rightarrow> (Inr streams, delivered (concat streams) w')),
      rd_xack = (\<lambda>ident w. on_redis (rd_xack rd ident) (acked gap ident w)),
      rd_ctx_err = (\<lambda>w. rd_ctx_err rd (wo_redis w)),
      rd_error_text = rd_error_text rd\<rparr>"

definition worker_handle :: "registry \<Rightarrow> (nat \<Rightarrow> worker_run) \<Rightarrow> 'r world message_handler" where
  "worker_handle reg runs message w =
     (case HandleDispatchedTask reg message (runs (wo_handled w)) (wo_db w) of
        ((err, metrics), db) \<Rightarrow> (err, w\<lparr>wo_db := db, wo_handled := Suc (wo_handled w)\<rparr>))"

text \<open>The options that are not set are zero values; \<^verbatim>\<open>normalizeConsumeOptions\<close> replaces them.\<close>

definition worker_options :: "string \<Rightarrow> go_duration \<Rightarrow> int \<Rightarrow> ConsumeOptions" where
  "worker_options consumer reclaimMinIdle reclaimCount =
     \<lparr>opt_Consumer = consumer, opt_ReclaimMinIdle = reclaimMinIdle, opt_ReclaimCount = reclaimCount,
      opt_ReadCount = 0, opt_Block = 0\<rparr>"

definition worker_consume ::
  "'r redis \<Rightarrow> (nat \<Rightarrow> pg \<Rightarrow> pg) \<Rightarrow> registry \<Rightarrow> (nat \<Rightarrow> worker_run) \<Rightarrow> ConsumeOptions \<Rightarrow> 'r world \<Rightarrow>
   (go_error \<times> 'r world) option"
where
  "worker_consume rd gap reg runs opts = Consume (observed rd gap) (worker_handle reg runs) opts"

end
