(* ===== verification/Programs.thy ===== *)
theory Programs
  imports Process
begin

text \<open>
  The worker and the publisher as programs that stop at each call: a \<open>prog\<close> has performed some calls and
  waits for the result of the next, so that the calls of many processes can be interleaved (theory
  \<open>System\<close>).  A program that runs by itself, with what other sessions commit before each call, is the
  function of the theories \<open>Handlers\<close>, \<open>Worker\<close>, \<open>Queue\<close> and \<open>Outbox\<close> (\<open>worker_program_is_code\<close>,
  \<open>publisher_program_is_code\<close>).
\<close>

section \<open>Programs\<close>

text \<open>
  \<open>Store ses i\<close> is call \<open>i\<close> of the session \<open>ses\<close> with its effect on the database; \<open>Begin x\<close> is no call, it says that
  the program turns to the message \<open>x\<close> of its batch.
\<close>

datatype 'a prog =
    Done 'a
  | Store session nat "pgenv \<Rightarrow> pg \<Rightarrow> pg" "pgenv \<times> pg \<Rightarrow> 'a prog"
  | Send string "go_error option \<Rightarrow> 'a prog"
  | Begin xmessage "'a prog"
  | Ack string "go_error option \<Rightarrow> 'a prog"
  | Claim ConsumeOptions "go_error option \<times> xmessage list \<Rightarrow> 'a prog"
  | Read ConsumeOptions "go_error + xmessage list list \<Rightarrow> 'a prog"
  | Context "go_error option \<Rightarrow> 'a prog"

primrec bind_prog :: "'a prog \<Rightarrow> ('a \<Rightarrow> 'b prog) \<Rightarrow> 'b prog" where
  "bind_prog (Done x) f = f x"
| "bind_prog (Store ses i eff k) f = Store ses i eff (\<lambda>y. bind_prog (k y) f)"
| "bind_prog (Send raw k) f = Send raw (\<lambda>y. bind_prog (k y) f)"
| "bind_prog (Begin x p) f = Begin x (bind_prog p f)"
| "bind_prog (Ack ident k) f = Ack ident (\<lambda>y. bind_prog (k y) f)"
| "bind_prog (Claim opts k) f = Claim opts (\<lambda>y. bind_prog (k y) f)"
| "bind_prog (Read opts k) f = Read opts (\<lambda>y. bind_prog (k y) f)"
| "bind_prog (Context k) f = Context (\<lambda>y. bind_prog (k y) f)"

text \<open>A call that changes the database, and one that reads it.\<close>

definition store :: "session \<Rightarrow> nat \<Rightarrow> (pgenv \<Rightarrow> pg \<Rightarrow> 'x \<times> pg) \<Rightarrow> ('x \<Rightarrow> 'a prog) \<Rightarrow> 'a prog" where
  "store ses i f k = Store ses i (\<lambda>env db. snd (f env db)) (\<lambda>(env, db). k (fst (f env db)))"

definition query :: "session \<Rightarrow> nat \<Rightarrow> (pgenv \<Rightarrow> pg \<Rightarrow> 'x) \<Rightarrow> ('x \<Rightarrow> 'a prog) \<Rightarrow> 'a prog" where
  "query ses i f k = Store ses i (\<lambda>env db. db) (\<lambda>(env, db). k (f env db))"

text \<open>
  A program alone in a world \<open>'w\<close>, of which \<open>get\<close> and \<open>put\<close> give and set the database: before each store call the
  other sessions commit.  \<open>tick\<close> is what a new message does to the world.
\<close>

primrec exec ::
  "'w redis \<Rightarrow> ('w \<Rightarrow> pg) \<Rightarrow> (pg \<Rightarrow> 'w \<Rightarrow> 'w) \<Rightarrow> ('w \<Rightarrow> 'w) \<Rightarrow> 'a prog \<Rightarrow> 'w \<Rightarrow> 'a \<times> 'w"
where
  "exec rd get put tick (Done x) = (\<lambda>w. (x, w))"
| "exec rd get put tick (Store ses i eff k) = (\<lambda>w.
     let env = ses_env ses i; db = ses_other ses i (get w)
     in exec rd get put tick (k (env, db)) (put (eff env db) w))"
| "exec rd get put tick (Send raw k) = (\<lambda>w. case rd_xadd rd raw w of (e, w') \<Rightarrow> exec rd get put tick (k e) w')"
| "exec rd get put tick (Begin x p) = (\<lambda>w. exec rd get put tick p (tick w))"
| "exec rd get put tick (Ack ident k) = (\<lambda>w. case rd_xack rd ident w of (e, w') \<Rightarrow> exec rd get put tick (k e) w')"
| "exec rd get put tick (Claim opts k) = (\<lambda>w.
     case rd_xautoclaim rd (opt_Consumer opts) (opt_ReclaimMinIdle opts) (opt_ReclaimCount opts) w of
       (y, w') \<Rightarrow> exec rd get put tick (k y) w')"
| "exec rd get put tick (Read opts k) = (\<lambda>w.
     case rd_xreadgroup rd (opt_Consumer opts) (opt_ReadCount opts) (opt_Block opts) w of
       (y, w') \<Rightarrow> exec rd get put tick (k y) w')"
| "exec rd get put tick (Context k) = (\<lambda>w. exec rd get put tick (k (rd_ctx_err rd w)) w)"

section \<open>The handlers\<close>

definition begin_prog ::
  "string \<Rightarrow> string \<Rightarrow> string \<Rightarrow> session \<Rightarrow> (go_error + string \<times> bool \<Rightarrow> 'a prog) \<Rightarrow> 'a prog"
where
  "begin_prog handlerKey idempotencyKey ownerTaskID ses k =
     store ses 0 (pool_exec 0 (sql_insert_idempotency handlerKey idempotencyKey ownerTaskID IdempotencyStatusInProgress))
       (\<lambda>inserted. case inserted of
          Inl e \<Rightarrow> k (Inl e)
        | Inr affected \<Rightarrow>
            if affected = 1 then k (Inr ([], False))
            else query ses 1 (pool_query 0 (sql_select_idempotency handlerKey idempotencyKey)) (\<lambda>found. case found of
                Inl e \<Rightarrow> k (Inl e)
              | Inr r \<Rightarrow>
                  if ir_status r = IdempotencyStatusCompleted then k (Inr (stringValue (ir_response_json r), True))
                  else if ir_owner_task_instance_id r = Some ownerTaskID then k (Inr ([], False))
                  else k (Inl errIdempotencyKeyInProgress)))"

definition handler_prog ::
  "string \<Rightarrow> (TaskInstance \<Rightarrow> string \<Rightarrow> json \<Rightarrow> json) \<Rightarrow> TaskInstance \<Rightarrow> session \<Rightarrow> (go_error + string) prog"
where
  "handler_prog key response task ses =
     (let ikey = task_IdempotencyKey task; owner = task_ID task;
          release = (\<lambda>n e. store ses n (ReleaseIdempotentTask key ikey owner) (\<lambda>_. Done (Inl e)))
      in begin_prog key ikey owner ses (\<lambda>begun. case begun of
          Inl e \<Rightarrow> Done (Inl e)
        | Inr (existingResponse, replayed) \<Rightarrow>
            if replayed then Done (Inr existingResponse)
            else
              (case (if length (task_InputJSON task) > 0
                     then json_unmarshal (unmarshal_any_map (ses_float64 ses)) (task_InputJSON task)
                     else Inr JNull) of
                 Inl e \<Rightarrow> release 2 e
               | Inr input \<Rightarrow>
                   (case json_marshal (response task (ses_rfc3339 ses) input) of
                      Inl e \<Rightarrow> release 2 e
                    | Inr text \<Rightarrow>
                        store ses 2 (CompleteIdempotentTask key ikey owner text) (\<lambda>completed. case completed of
                            Inl e \<Rightarrow> release 3 e
                          | Inr _ \<Rightarrow> Done (Inr text))))))"

definition registry_prog :: "string \<Rightarrow> (TaskInstance \<Rightarrow> session \<Rightarrow> (go_error + string) prog) option" where
  "registry_prog key =
     (if key = NotificationSendHandler_Key then Some (handler_prog NotificationSendHandler_Key notification_response)
      else if key = SampleEchoHandler_Key then Some (handler_prog SampleEchoHandler_Key sample_response)
      else None)"

section \<open>The worker\<close>

definition load_prog ::
  "string \<Rightarrow> session \<Rightarrow> (go_error + WorkflowDefinitionSpec \<times> WorkflowTaskSpec \<Rightarrow> 'a prog) \<Rightarrow> 'a prog"
where
  "load_prog taskID ses k =
     query ses 0 (GetTaskInstance taskID) (\<lambda>r. case r of
         Inl e \<Rightarrow> k (Inl (Wrap ''error fetching task from store: '' e))
       | Inr task \<Rightarrow>
           query ses 1 (GetWorkflowExecution (task_WorkflowExecutionID task)) (\<lambda>r. case r of
               Inl e \<Rightarrow> k (Inl (Wrap ''error fetching execution from store: '' e))
             | Inr execution \<Rightarrow>
                 query ses 2 (GetWorkflowDefinition (exec_WorkflowDefinitionID execution)) (\<lambda>r. case r of
                     Inl e \<Rightarrow> k (Inl (Wrap ''error fetching workflow definition from store: '' e))
                   | Inr workflowDef \<Rightarrow>
                       (case ParseAndValidateWorkflowDefinition (def_DefinitionJSON workflowDef) of
                          Inl e \<Rightarrow> k (Inl (Wrap ''error parsing workflow definition JSON: '' e))
                        | Inr workflowSpec \<Rightarrow>
                            (case FindTaskSpecByName workflowSpec (task_TaskName task) of
                               Inl e \<Rightarrow> k (Inl (Wrap ''error finding task spec by name: '' e))
                             | Inr taskSpec \<Rightarrow> k (Inr (workflowSpec, taskSpec)))))))"

text \<open>The last call: its error becomes the result, wrapped by \<open>f\<close>.\<close>

definition end_prog ::
  "(pgenv \<Rightarrow> pg \<Rightarrow> unit store_result) \<Rightarrow> (go_error \<Rightarrow> go_error) \<Rightarrow> session \<Rightarrow> go_error option prog"
where
  "end_prog call f ses = store ses 4 call (\<lambda>r. case r of Inl e \<Rightarrow> Done (Some (f e)) | Inr _ \<Rightarrow> Done None)"

definition ended_prog ::
  "WorkflowDefinitionSpec \<Rightarrow> WorkflowTaskSpec \<Rightarrow> TaskInstance \<Rightarrow> TaskAttempt \<Rightarrow> worker_run \<Rightarrow> go_error + string \<Rightarrow>
   go_error option prog"
where
  "ended_prog workflowSpec taskSpec task attempt run res =
     (case res of
        Inl err \<Rightarrow>
          let text = error_text (wr_error_text run) err in
          if spec_MaxAttempts taskSpec > att_AttemptNumber attempt then
            end_prog (ScheduleTaskRetry (task_ID task) (att_ID attempt) text
                (next_run_at (wr_now run) (spec_BackoffSeconds taskSpec)))
              (Wrap ''schedule task retry: '') (wr_store run)
          else end_prog (FailTaskAttempt (task_ID task) (att_ID attempt) text)
              (Wrap ''persist terminal task failure: '') (wr_store run)
      | Inr output \<Rightarrow>
          (case FindNextTaskSpec workflowSpec (task_TaskName task) of
             Inl e \<Rightarrow> Done (Some (Wrap (''error resolving next task for '' @ task_TaskName task @ '': '') e))
           | Inr (Some nextTaskSpec) \<Rightarrow>
               end_prog (CompleteTaskAttemptAndEnqueueNextTask (task_ID task) (att_ID attempt)
                   (spec_Name nextTaskSpec) (spec_HandlerKey nextTaskSpec) output)
                 (Wrap ''error completing task attempt and enqueuing next task: '') (wr_store run)
           | Inr None \<Rightarrow> end_prog (CompleteTaskAttempt (task_ID task) (att_ID attempt) output) (\<lambda>e. e) (wr_store run)))"

definition handle_prog :: "TaskMessage \<Rightarrow> worker_run \<Rightarrow> go_error option prog" where
  "handle_prog message run =
     load_prog (msg_TaskID message) (wr_store run) (\<lambda>loaded. case loaded of
        Inl e \<Rightarrow> Done (Some (Wrap (''error getting task spec for task ID '' @ msg_TaskID message @ '': '') e))
      | Inr (workflowSpec, spec0) \<Rightarrow>
          let taskSpec = (if spec_MaxAttempts spec0 = 0 then spec0\<lparr>spec_MaxAttempts := 1\<rparr> else spec0) in
          store (wr_store run) 3 (StartTaskAttempt (msg_TaskID message)) (\<lambda>started. case started of
              Inl e \<Rightarrow> Done (Some e)
            | Inr (task, attempt, alreadyCompleted) \<Rightarrow>
                if alreadyCompleted then Done None
                else
                  (case registry_prog (task_HandlerKey task) of
                     None \<Rightarrow>
                       end_prog (FailTaskAttempt (task_ID task) (att_ID attempt)
                           (''no handler registered for '' @ go_quote (wr_is_print run) (task_HandlerKey task)))
                         (Wrap ''persist missing-handler failure: '') (wr_store run)
                   | Some handler \<Rightarrow>
                       bind_prog (handler task (wr_handler run)) (ended_prog workflowSpec taskSpec task attempt run))))"

section \<open>The consumer\<close>

text \<open>Message \<open>n\<close> of the process is handled in the surroundings \<open>runs n\<close>.\<close>

fun process_prog :: "(nat \<Rightarrow> worker_run) \<Rightarrow> nat \<Rightarrow> xmessage list \<Rightarrow> go_error option prog" where
  "process_prog runs n [] = Done None"
| "process_prog runs n (message # messages) =
     (case decodeTaskMessage message of
        Inl e \<Rightarrow> Done (Some e)
      | Inr task \<Rightarrow>
          Begin message (bind_prog (handle_prog task (runs n)) (\<lambda>err. case err of
              Some e \<Rightarrow> process_prog runs (Suc n) messages
            | None \<Rightarrow>
                Ack (xm_ID message) (\<lambda>err. case err of
                    Some e \<Rightarrow> Done (Some e)
                  | None \<Rightarrow> process_prog runs (Suc n) messages))))"

fun streams_prog :: "(nat \<Rightarrow> worker_run) \<Rightarrow> nat \<Rightarrow> xmessage list list \<Rightarrow> go_error option prog" where
  "streams_prog runs n [] = Done None"
| "streams_prog runs n (messages # rest) =
     bind_prog (process_prog runs n messages) (\<lambda>err. case err of
         Some e \<Rightarrow> Done (Some e)
       | None \<Rightarrow> streams_prog runs (n + length messages) rest)"

definition turn_prog :: "ConsumeOptions \<Rightarrow> (nat \<Rightarrow> worker_run) \<Rightarrow> nat \<Rightarrow> go_error option prog" where
  "turn_prog opts runs n =
     Context (\<lambda>err. case err of
         Some e \<Rightarrow> Done (Some e)
       | None \<Rightarrow>
           Claim opts (\<lambda>(err, reclaimed).
             if err \<noteq> None \<and> \<not> error_is (the err) RedisNil then Done err
             else if length reclaimed > 0 then process_prog runs n reclaimed
             else
               Read opts (\<lambda>res. case res of
                   Inl e \<Rightarrow> Done (if error_is e RedisNil then None else Some e)
                 | Inr streams \<Rightarrow> streams_prog runs n streams)))"

section \<open>The publisher\<close>

fun events_prog :: "(go_error \<Rightarrow> string) \<Rightarrow> session \<Rightarrow> nat \<Rightarrow> OutboxEvent list \<Rightarrow> go_error option prog" where
  "events_prog lib ses n [] = Done None"
| "events_prog lib ses n (event # events) =
     (let failed = (\<lambda>e. store ses n (RecordOutboxFailure (evt_ID event) (lib e)) (\<lambda>_. events_prog lib ses (Suc n) events)) in
      case json_unmarshal unmarshal_payload (evt_PayloadJSON event) of
        Inl e \<Rightarrow> failed e
      | Inr payload \<Rightarrow>
          (case marshal_message (payload_message payload) of
             Inl e \<Rightarrow> failed e
           | Inr raw \<Rightarrow>
               Send raw (\<lambda>sent. case sent of
                   Some e \<Rightarrow> failed e
                 | None \<Rightarrow>
                     store ses n (MarkOutboxDispatched (evt_ID event)) (\<lambda>marked. case marked of
                         Inl e \<Rightarrow> Done (Some e)
                       | Inr _ \<Rightarrow> events_prog lib ses (Suc n) events))))"

definition publish_prog :: "(go_error \<Rightarrow> string) \<Rightarrow> session \<Rightarrow> go_error option prog" where
  "publish_prog lib ses =
     store ses 0 (EnqueueDueTaskRetries 20) (\<lambda>enqueued. case enqueued of
         Inl e \<Rightarrow> Done (Some e)
       | Inr retryCount \<Rightarrow>
           query ses 1 (ListPendingOutbox 20) (\<lambda>listed. case listed of
               Inl e \<Rightarrow> Done (Some e)
             | Inr events \<Rightarrow> events_prog lib ses 2 events))"

section \<open>The programs are the code\<close>

locale db_lens =
  fixes get :: "'w \<Rightarrow> pg" and put :: "pg \<Rightarrow> 'w \<Rightarrow> 'w"
  assumes get_put [simp]: "get (put db w) = db"
    and put_put [simp]: "put db (put db' w) = put db w"
    and put_get [simp]: "put (get w) w = w"
begin

lemma exec_store [simp]:
  "exec rd get put tick (store ses i f k) w =
     (case f (ses_env ses i) (ses_other ses i (get w)) of (x, db) \<Rightarrow> exec rd get put tick (k x) (put db w))"
  by (simp add: store_def Let_def split: prod.split)

lemma exec_query [simp]:
  "exec rd get put tick (query ses i f k) w =
     (let db = ses_other ses i (get w) in exec rd get put tick (k (f (ses_env ses i) db)) (put db w))"
  by (simp add: query_def Let_def)

lemma exec_bind:
  "exec rd get put tick (bind_prog p f) w = (case exec rd get put tick p w of (x, w') \<Rightarrow> exec rd get put tick (f x) w')"
  by (induction p arbitrary: w) (simp_all add: Let_def split: prod.split)

lemma exec_begin_prog:
  "exec rd get put tick (begin_prog key ikey owner ses k) w =
     (case BeginIdempotentTask key ikey owner (ses_env ses 0) (ses_other ses 1) (ses_env ses 1) (ses_other ses 0 (get w)) of
        (x, db) \<Rightarrow> exec rd get put tick (k x) (put db w))"
  by (simp add: begin_prog_def BeginIdempotentTask_def Let_def del: One_nat_def split: prod.split sum.split)

lemma exec_handler_prog:
  "exec rd get put tick (handler_prog key response task ses) w =
     (case handle_with key noStore response True task ses (get w) of (x, db) \<Rightarrow> (x, put db w))"
  by (simp add: handler_prog_def handle_with_def exec_begin_prog Let_def del: One_nat_def split: prod.split sum.split)

lemma registry_handler:
  "(case worker_registry key of
      None \<Rightarrow> registry_prog key = None
    | Some h \<Rightarrow> \<exists>hp. registry_prog key = Some hp \<and>
        (\<forall>rd tick task ses w. exec rd get put tick (hp task ses) w = (case h task ses (get w) of (x, db) \<Rightarrow> (x, put db w))))"
  using exec_handler_prog [of _ _ SampleEchoHandler_Key] exec_handler_prog [of _ _ NotificationSendHandler_Key]
  by (auto simp: worker_registry_def NewRegistry_map_of registry_prog_def SampleEchoHandler_Handle_def
      NotificationSendHandler_Handle_def)

lemma exec_load_prog:
  "exec rd get put tick (load_prog t (wr_store run) k) w =
     (case GetWorkflowSpecAndTaskSpecByTaskID t run (get w) of (x, db) \<Rightarrow> exec rd get put tick (k x) (put db w))"
  by (simp add: load_prog_def GetWorkflowSpecAndTaskSpecByTaskID_def at_call_def env_at_def Let_def del: One_nat_def split: sum.split)

lemma exec_end_prog:
  "exec rd get put tick (end_prog call f (wr_store run)) w =
     (case call (env_at run 4) (at_call run 4 (get w)) of
        (Inl e, db) \<Rightarrow> (Some (f e), put db w) | (Inr _, db) \<Rightarrow> (None, put db w))"
  by (simp add: end_prog_def at_call_def env_at_def split: prod.split sum.split)

text \<open>What is left of a handled message without its counters.\<close>

lemma exec_ended_prog:
  "exec rd get put tick (ended_prog wspec tspec task attempt run res) w =
     (case (case res of Inl err \<Rightarrow> persist_handler_error key tspec task attempt err run (get w)
                     | Inr out \<Rightarrow> persist_output key wspec task attempt out run (get w)) of
        ((err, ms), db) \<Rightarrow> (err, put db w))"
  by (simp add: ended_prog_def persist_handler_error_def persist_output_def exec_end_prog finish_def Let_def
      split: prod.split sum.split option.split)

lemma exec_handle_prog:
  "exec rd get put tick (handle_prog m run) w =
     (case HandleDispatchedTask worker_registry m run (get w) of ((err, ms), db) \<Rightarrow> (err, put db w))"
proof -
  have run: "exec rd get put tick (case registry_prog (task_HandlerKey task) of
       None \<Rightarrow> end_prog (FailTaskAttempt (task_ID task) (att_ID attempt)
           (''no handler registered for '' @ go_quote (wr_is_print run) (task_HandlerKey task)))
         (Wrap ''persist missing-handler failure: '') (wr_store run)
     | Some handler \<Rightarrow> bind_prog (handler task (wr_handler run)) (ended_prog wspec tspec task attempt run)) w =
    (case run_handler worker_registry key wspec tspec task attempt run (get w) of ((err, ms), db) \<Rightarrow> (err, put db w))"
    for key wspec tspec task attempt w
    using registry_handler [of "task_HandlerKey task"]
    by (auto simp: run_handler_def registry_Get_def persist_missing_handler_def exec_end_prog exec_bind
        exec_ended_prog [where key = key] finish_def Let_def split: option.splits prod.splits sum.splits)
  show ?thesis
    by (simp add: handle_prog_def HandleDispatchedTask_def exec_load_prog run [where key = "msg_HandlerKey m"] at_call_def env_at_def
        finish_def Let_def split: prod.split sum.split)
qed

end

interpretation world_lens: db_lens wo_db "\<lambda>db w. w\<lparr>wo_db := db\<rparr>"
  by unfold_locales simp_all

interpretation pair_lens: db_lens fst "\<lambda>db w. (db, snd w)"
  by unfold_locales simp_all

text \<open>The publisher's world: the database beside the state of Redis.\<close>

definition lift_redis :: "('r \<Rightarrow> 'x \<times> 'r) \<Rightarrow> pg \<times> 'r \<Rightarrow> 'x \<times> pg \<times> 'r" where
  "lift_redis f w = (case f (snd w) of (x, r) \<Rightarrow> (x, fst w, r))"

definition beside_db :: "'r redis \<Rightarrow> (pg \<times> 'r) redis" where
  "beside_db rd =
     \<lparr>rd_xgroup_create = lift_redis (rd_xgroup_create rd), rd_xadd = (\<lambda>raw. lift_redis (rd_xadd rd raw)),
      rd_xautoclaim = (\<lambda>c d n. lift_redis (rd_xautoclaim rd c d n)), rd_xreadgroup = (\<lambda>c n d. lift_redis (rd_xreadgroup rd c n d)),
      rd_xack = (\<lambda>ident. lift_redis (rd_xack rd ident)), rd_ctx_err = (\<lambda>w. rd_ctx_err rd (snd w)), rd_error_text = rd_error_text rd\<rparr>"

lemma beside_db_xadd [simp]: "rd_xadd (beside_db rd) raw (db, r) = (case rd_xadd rd raw r of (e, r') \<Rightarrow> (e, db, r'))"
  by (simp add: beside_db_def lift_redis_def)

abbreviation exec_publisher :: "'r redis \<Rightarrow> 'a prog \<Rightarrow> pg \<times> 'r \<Rightarrow> 'a \<times> pg \<times> 'r" where
  "exec_publisher rd \<equiv> exec (beside_db rd) fst (\<lambda>db w. (db, snd w)) (\<lambda>w. w)"

lemma exec_events_prog:
  "exec_publisher rd (events_prog (error_text (rd_error_text rd)) ses n events) (db, r) =
     apfst fst (publish_events rd ses n events (db, r))"
proof (induction events arbitrary: n db r)
  case (Cons ev events)
  show ?case
    by (simp add: Cons.IH Let_def DispatchTask_def payload_message_def apfst_def map_prod_def split: prod.split sum.split option.split)
qed simp


abbreviation exec_worker :: "'r redis \<Rightarrow> (nat \<Rightarrow> pg \<Rightarrow> pg) \<Rightarrow> 'a prog \<Rightarrow> 'r world \<Rightarrow> 'a \<times> 'r world" where
  "exec_worker rd gap \<equiv> exec (observed rd gap) wo_db (\<lambda>db w. w\<lparr>wo_db := db\<rparr>) (\<lambda>w. w\<lparr>wo_handled := Suc (wo_handled w)\<rparr>)"

lemma observed_handled:
  "rd_xack (observed rd gap) ident w = (e, w') \<Longrightarrow> wo_handled w' = wo_handled w"
  "rd_xautoclaim (observed rd gap) c d n w = (res, w') \<Longrightarrow> wo_handled w' = wo_handled w"
  "rd_xreadgroup (observed rd gap) c n d w = (res', w') \<Longrightarrow> wo_handled w' = wo_handled w"
  by (auto simp: observed_def on_redis_def acked_def delivered_def split: prod.splits sum.splits)

lemma exec_process_prog:
  "exec_worker rd gap (process_prog runs (wo_handled w) xs) w = processMessages (observed rd gap) (worker_handle worker_registry runs) xs w"
proof (induction xs arbitrary: w)
  case (Cons x xs)
  have IH: "exec_worker rd gap (process_prog runs n xs) w = processMessages (observed rd gap) (worker_handle worker_registry runs) xs w"
    if "n = wo_handled w" for n w
    using Cons.IH [of w] that by simp
  show ?case
  proof (cases "decodeTaskMessage x")
    case (Inr m)
    obtain err ms db where h: "HandleDispatchedTask worker_registry m (runs (wo_handled w)) (wo_db w) = ((err, ms), db)"
      by (metis surj_pair)
    let ?w = "w\<lparr>wo_handled := Suc (wo_handled w), wo_db := db\<rparr>"
    obtain e w2 where a: "rd_xack (observed rd gap) (xm_ID x) ?w = (e, w2)" by fastforce
    have n: "wo_handled w2 = Suc (wo_handled w)" using observed_handled(1) [OF a] by simp
    have "worker_handle worker_registry runs m w = (err, ?w)" by (simp add: worker_handle_def h)
    then show ?thesis using h a Inr n
      by (cases err; cases e) (simp_all add: world_lens.exec_bind world_lens.exec_handle_prog IH)
  qed simp
qed simp

lemma processMessages_handled:
  "processMessages (observed rd gap) (worker_handle reg runs) xs w = (None, w') \<Longrightarrow> wo_handled w' = wo_handled w + length xs"
proof (induction xs arbitrary: w)
  case (Cons x xs)
  from Cons.prems obtain m e w1 where h: "decodeTaskMessage x = Inr m" "worker_handle reg runs m w = (e, w1)"
    by (auto split: sum.splits prod.splits)
  have n: "wo_handled w1 = Suc (wo_handled w)" using h(2) by (auto simp: worker_handle_def split: prod.splits)
  show ?case
  proof (cases e)
    case None
    obtain a w2 where a: "rd_xack (observed rd gap) (xm_ID x) w1 = (a, w2)" by fastforce
    with Cons.prems h None have "processMessages (observed rd gap) (worker_handle reg runs) xs w2 = (None, w')"
      by (cases a) simp_all
    from Cons.IH [OF this] n observed_handled(1) [OF a] show ?thesis by simp
  next
    case (Some _)
    with Cons.prems h have "processMessages (observed rd gap) (worker_handle reg runs) xs w1 = (None, w')" by simp
    from Cons.IH [OF this] n show ?thesis by simp
  qed
qed simp

lemma exec_streams_prog:
  "exec_worker rd gap (streams_prog runs (wo_handled w) xss) w = process_streams (observed rd gap) (worker_handle worker_registry runs) xss w"
proof (induction xss arbitrary: w)
  case (Cons xs xss)
  obtain e w' where p: "processMessages (observed rd gap) (worker_handle worker_registry runs) xs w = (e, w')" by fastforce
  then show ?case
    using Cons.IH [of w'] processMessages_handled [of rd gap worker_registry runs xs w w']
    by (cases e) (simp_all add: world_lens.exec_bind exec_process_prog)
qed simp


end
