(* ===== verification/Demo.thy ===== *)
theory Demo
  imports StoreReach
begin

text \<open>
  A concrete server, on which the properties with hypotheses about the server are exercised: its
  uuids are all non-empty strings, \<open>gen_random_uuid\<close> counts, text may not hold the NUL character,
  \<open>jsonb\<close> keeps its input, scans are in table order, and no round trip fails.
\<close>

definition demo_uuid_in :: "string \<Rightarrow> string option" where
  "demo_uuid_in s = (if s = [] then None else Some s)"

definition demo_jsonb_in :: "string \<Rightarrow> string option" where
  "demo_jsonb_in s = (if s = [] then None else Some s)"

definition demo_env :: "string \<Rightarrow> go_time \<Rightarrow> pgenv" where
  "demo_env tag now =
     \<lparr>pg_now = now, pg_gen_random_uuid = (\<lambda>n. ''u'' @ tag @ replicate n (CHR ''.'')),
      pg_uuid_in = demo_uuid_in, pg_text_ok = (\<lambda>s. CHR 0x00 \<notin> set s), pg_jsonb_in = demo_jsonb_in,
      pg_timestamptz_in = id, pg_scan_tasks = id, pg_scan_attempts = id, pg_scan_outbox = id,
      pg_locked = (\<lambda>_. False), pg_fault = (\<lambda>_. None), pg_commit = (\<lambda>_. CommitOk)\<rparr>"

lemma demo_fields [simp]:
  "pg_now (demo_env tag now) = now"
  "pg_gen_random_uuid (demo_env tag now) n = CHR ''u'' # tag @ replicate n (CHR ''.'')"
  "pg_uuid_in (demo_env tag now) = demo_uuid_in"
  "pg_text_ok (demo_env tag now) s \<longleftrightarrow> CHR 0x00 \<notin> set s"
  "pg_jsonb_in (demo_env tag now) = demo_jsonb_in"
  "pg_timestamptz_in (demo_env tag now) at = at"
  "pg_scan_tasks (demo_env tag now) ts = ts" "pg_scan_attempts (demo_env tag now) as = as"
  "pg_scan_outbox (demo_env tag now) obs = obs" "\<not> pg_locked (demo_env tag now) u"
  "pg_fault (demo_env tag now) n = None" "pg_commit (demo_env tag now) n = CommitOk"
  by (simp_all add: demo_env_def)

lemma demo_server [simp]: "server demo_uuid_in (demo_env tag now)"
  by (simp add: server_def demo_uuid_in_def uuid_canonical_def scans_ok_def)

lemma demo_calm [simp]: "calm (demo_env tag now)"
  by (simp add: calm_def demo_env_def)

lemma demo_no_lost_commit [simp]: "no_lost_commit (demo_env tag now)"
  by (simp add: no_lost_commit_def demo_env_def)

text \<open>A workflow of two tasks, as the database stores it, with one execution just triggered.\<close>

definition demo_definition :: string where
  "demo_definition = json_print (JObj [(''entry_task'', JStr ''a''),
     (''tasks'', JArr [
        JObj [(''name'', JStr ''a''), (''handler_key'', JStr ''sample.echo''),
              (''max_attempts'', JNum ''2''), (''next_task'', JStr ''b'')],
        JObj [(''name'', JStr ''b''), (''handler_key'', JStr ''notifications.send'')]])])"

definition demo_db :: pg where
  "demo_db =
     perform (CallCreateExecutionAndTask ''ud'' [] ''a'' ''sample.echo'') (demo_env ''e'' 10)
       (perform (CallCreateWorkflowDefinition ''demo'' [] demo_definition) (demo_env ''d'' 5) empty_pg)"

definition demo_task :: task_row where
  "demo_task = \<lparr>ti_id = ''ue..'', ti_workflow_execution_id = ''ue.'', ti_task_name = ''a'',
     ti_handler_key = ''sample.echo'', ti_status = TaskStatusPending, ti_input_json = ''{}'',
     ti_output_json = None, ti_next_run_at = None, ti_last_error_text = None, ti_attempts_total = 0,
     ti_idempotency_key = ''ue.:a'', ti_dispatched_at = None, ti_completed_at = None,
     ti_created_at = 10, ti_updated_at = 10\<rparr>"

lemmas run_defs = run_tx_def tx_bind_def tx_return_def tx_lift_def tx_fail_def statement_def commit_def
  pool_exec_def pool_query_def with_uuid_def with_text_def with_jsonb_def check_def one_row_def
  sql_read_def insert_defs row_update_defs returning_defs sql_select_task_def
  sql_select_definition_def sql_select_execution_def select_execution_id_def insert_dispatch_def
  upd_defs

lemmas demo_defs = demo_uuid_in_def demo_jsonb_in_def

lemma payload_text_not_Nil [simp]: "payload_text a b c \<noteq> []"
  by (simp add: payload_text_def string_obj_def)

lemma demo_definition_not_Nil [simp]: "demo_definition \<noteq> []"
  by (simp add: demo_definition_def)

lemma demo_reachable: "reachable (server demo_uuid_in) demo_db"
  unfolding demo_db_def by (intro reachable.intros demo_server)

lemma demo_db_eq:
  "demo_db =
    \<lparr>workflow_definitions =
       [\<lparr>wd_id = ''ud'', wd_name = ''demo'', wd_description = [], wd_version = 1,
         wd_status = WorkflowDefinitionStatusActive, wd_definition_json = demo_definition,
         wd_created_at = 5, wd_updated_at = 5\<rparr>],
     workflow_executions =
       [\<lparr>we_id = ''ue.'', we_workflow_definition_id = ''ud'', we_status = ExecutionStatusRunning,
         we_input_json = ''{}'', we_output_json = None, we_error_text = None, we_created_at = 10,
         we_updated_at = 10, we_started_at = Some 10, we_completed_at = None\<rparr>],
     task_instances = [demo_task], task_attempts = [],
     outbox_events =
       [\<lparr>ob_id = ''ue...'', ob_aggregate_type = ''task_instance'', ob_aggregate_id = ''ue..'',
         ob_event_type = ''task.dispatch'',
         ob_payload_json = payload_text ''ue..'' ''ue.'' ''sample.echo'', ob_available_at = 10,
         ob_dispatched_at = None, ob_attempt_count = 0, ob_last_error_text = None, ob_created_at = 10\<rparr>],
     idempotency_records = []\<rparr>"
  by (simp add: demo_db_def empty_pg_def CreateWorkflowDefinition_def CreateExecutionAndTask_def
      create_execution_tx_def run_defs demo_defs Let_def normalizeJSON_def numeral_eq_Suc
      scanWorkflowExecution_def scanTaskInstance_def makeTaskIdempotencyKey_def demo_task_def)

lemma demo_select: "select_by ti_id ''ue..'' (task_instances demo_db) = Some demo_task"
  by (simp add: demo_db_eq demo_task_def)

lemma demo_select_none: "select_by ti_id ''nope'' (task_instances demo_db) = None"
  by (simp add: demo_db_eq demo_task_def)

lemma demo_task_fields [simp]:
  "ti_id demo_task = ''ue..''" "ti_status demo_task = TaskStatusPending"
  "ti_attempts_total demo_task = 0" "ti_workflow_execution_id demo_task = ''ue.''"
  "ti_idempotency_key demo_task = ''ue.:a''" "ti_next_run_at demo_task = None"
  by (simp_all add: demo_task_def)

text \<open>The same database with the first attempt of the task started.\<close>

definition demo_running :: pg where
  "demo_running = perform (CallStartTaskAttempt ''ue..'') (demo_env ''s'' 20) demo_db"

lemma demo_running_reachable: "reachable (server demo_uuid_in) demo_running"
  unfolding demo_running_def by (intro reachable.intros demo_server demo_reachable)

lemma demo_running_eq:
  "demo_running = demo_db
     \<lparr>task_instances := [set_task_running 20 1 demo_task],
      task_attempts := [\<lparr>ta_id = ''us..'', ta_task_instance_id = ''ue..'', ta_attempt_number = 1,
        ta_status = TaskAttemptStatusRunning, ta_started_at = 20, ta_finished_at = None,
        ta_error_text = None, ta_output_json = None, ta_created_at = 20\<rparr>]\<rparr>"
  by (simp add: demo_running_def StartTaskAttempt_def start_attempt_tx_def run_defs demo_defs
      int4_max_def Let_def scanTaskInstance_def demo_db_eq numeral_eq_Suc set_task_running_def)

lemma demo_running_select:
  "select_by ti_id ''ue..'' (task_instances demo_running) = Some (set_task_running 20 1 demo_task)"
  by (simp add: demo_running_eq set_task_running_def)

text \<open>The attempt failed: once with a retry at time 90, once for good.\<close>

definition demo_waiting :: pg where
  "demo_waiting =
     perform (CallScheduleTaskRetry ''ue..'' ''us..'' ''boom'' 90) (demo_env ''r'' 40) demo_running"

definition demo_dead :: pg where
  "demo_dead = perform (CallFailTaskAttempt ''ue..'' ''us..'' ''boom'') (demo_env ''x'' 40) demo_running"

lemma demo_waiting_reachable: "reachable (server demo_uuid_in) demo_waiting"
  unfolding demo_waiting_def by (intro reachable.intros demo_server demo_running_reachable)

lemma demo_dead_reachable: "reachable (server demo_uuid_in) demo_dead"
  unfolding demo_dead_def by (intro reachable.intros demo_server demo_running_reachable)

lemma demo_waiting_tasks:
  "task_instances demo_waiting = [set_task_retry 40 ''boom'' 90 (set_task_running 20 1 demo_task)]"
  by (simp add: demo_waiting_def ScheduleTaskRetry_def schedule_retry_tx_def run_defs demo_defs
      Let_def demo_running_eq truncate_def set_task_running_def)

lemma demo_dead_tasks:
  "task_instances demo_dead = [set_task_dead_lettered 40 ''boom'' (set_task_running 20 1 demo_task)]"
  by (simp add: demo_dead_def FailTaskAttempt_def fail_attempt_tx_def run_defs demo_defs
      Let_def demo_running_eq truncate_def set_task_running_def)

lemma demo_outbox_ids:
  "map ob_id (outbox_events demo_waiting) = [''ue...'']" "map ob_id (outbox_events demo_dead) = [''ue...'']"
  by (simp_all add: demo_waiting_def demo_dead_def FailTaskAttempt_def fail_attempt_tx_def
      ScheduleTaskRetry_def schedule_retry_tx_def run_defs demo_defs demo_db_eq
      Let_def demo_running_eq truncate_def set_task_running_def)

end
