(* ===== verification/StoreProps.thy ===== *)
theory StoreProps
  imports Demo
begin

text \<open>
  The properties of \<^verbatim>\<open>db.Store\<close>: the invariants of the reachable states, atomicity, and what each
  operation does to the rows it is about.
\<close>

section \<open>Invariants and atomicity\<close>

text \<open>
  C10.  In every database state that calls of the store reach from the migrated, empty database
  (with any failures, rolled back or lost commits), all constraints of the schema hold, every row
  is consistent with its status, the attempts of each task are numbered 1, 2, .. up to its
  \<^verbatim>\<open>attempts_total\<close>, and every outbox row dispatches an existing task.
\<close>

theorem store_invariant:
  assumes "reachable (server U) db"
  shows "schema_ok db \<and> lifecycle_ok db \<and> numbering_ok db \<and> outbox_ok db"
  using reachable_store_ok [OF assms] by (simp add: store_ok_def numbered_ok_def)

theorem store_invariant_witness:
  "reachable (server demo_uuid_in) demo_db \<and> task_instances demo_db = [demo_task] \<and>
   schema_ok demo_db \<and> lifecycle_ok demo_db \<and> numbering_ok demo_db \<and> outbox_ok demo_db"
  using store_invariant [OF demo_reachable] demo_reachable by (simp add: demo_db_eq)

definition rolls_back :: "(pgenv \<Rightarrow> pg \<Rightarrow> 'a store_result) \<Rightarrow> bool" where
  "rolls_back call \<longleftrightarrow>
     (\<forall>env db e db'. no_lost_commit env \<and> call env db = (Inl e, db') \<longrightarrow> db' = db)"

lemma rolls_back_run_tx: "rolls_back (run_tx m)"
  unfolding rolls_back_def using txn.rollback by blast

lemma rolls_back_pool_exec: "rolls_back (pool_exec n f)"
  unfolding rolls_back_def using autocommit.rollback by blast

lemma rolls_back_definition: "rolls_back (CreateWorkflowDefinition a b c)"
proof -
  have "pool_exec 0 f env db = (Inl e, db')"
    if "apfst (map_sum id g) (pool_exec 0 f env db) = (Inl e, db')"
    for f env db e db' and g :: "'b \<Rightarrow> 'c"
    using that by (cases "pool_exec 0 f env db"; cases "fst (pool_exec 0 f env db)") auto
  then show ?thesis
    using rolls_back_pool_exec unfolding rolls_back_def CreateWorkflowDefinition_def by blast
qed

section \<open>Creating an execution\<close>

lemma run_tx_InrE:
  assumes "run_tx m env db = (Inr x, db')"
  obtains s where "m env \<lparr>tx_db = db, tx_rt = 1\<rparr> = Inr (x, s)" "db' = tx_db s"
  using assms by (auto simp: run_tx_Inr)

lemma scans_sets:
  assumes "scans_ok env"
  shows "set (pg_scan_tasks env ts) = set ts" "set (pg_scan_attempts env as) = set as"
    "set (pg_scan_outbox env obs) = set obs"
  using assms by (metis mset_eq_setD scans_ok_def)+

lemma serverD:
  assumes "server U env"
  shows "uuid_canonical env" "pg_uuid_in env = U" "scans_ok env"
  using assms by (simp_all add: server_def)

text \<open>
  C17.  Triggering an execution writes, in one transaction, exactly one running execution, one
  pending entry task under the idempotency key \<^verbatim>\<open>execution:task\<close>, and one undispatched outbox row for
  that task, and returns the first two; nothing else in the database changes.
\<close>

theorem create_execution_writes:
  assumes "server U env" "CreateExecutionAndTask d input name hkey env db = (Inr res, db')"
  shows "\<exists>er tr ob.
     db' = db\<lparr>workflow_executions := workflow_executions db @ [er],
              task_instances := task_instances db @ [tr], outbox_events := outbox_events db @ [ob]\<rparr> \<and>
     we_status er = ExecutionStatusRunning \<and> U d = Some (we_workflow_definition_id er) \<and>
     ti_workflow_execution_id tr = we_id er \<and> ti_status tr = TaskStatusPending \<and>
     ti_task_name tr = name \<and> ti_handler_key tr = hkey \<and> ti_attempts_total tr = 0 \<and>
     ti_idempotency_key tr = we_id er @ '':'' @ name \<and> ti_input_json tr = we_input_json er \<and>
     ob_aggregate_id ob = ti_id tr \<and> pending_event env ob \<and>
     res = \<lparr>start_Execution = scanWorkflowExecution er, start_Task = scanTaskInstance tr\<rparr>"
proof -
  obtain s where s: "create_execution_tx d input name hkey env \<lparr>tx_db = db, tx_rt = 1\<rparr> = Inr (res, s)"
      and db': "db' = tx_db s"
    using assms(2) unfolding CreateExecutionAndTask_def by (rule run_tx_InrE)
  from serverD(1) [OF assms(1)] s show ?thesis
  proof (cases rule: create_execution_effect)
    case (1 du j pj er tr ob)
    show ?thesis
      by (intro exI [of _ er] exI [of _ tr] exI [of _ ob])
         (use 1(1,4,6,11,13,14) in \<open>simp add: db' serverD(2) [OF assms(1)] new_execution_def
           new_task_def new_dispatch_def makeTaskIdempotencyKey_def pending_event_def\<close>)
  qed
qed

theorem create_execution_writes_witness:
  "\<exists>res db' er tr ob.
     CreateExecutionAndTask ''ud'' [] ''a'' ''sample.echo'' (demo_env ''f'' 20) demo_db = (Inr res, db') \<and>
     db' = demo_db\<lparr>workflow_executions := workflow_executions demo_db @ [er],
              task_instances := task_instances demo_db @ [tr],
              outbox_events := outbox_events demo_db @ [ob]\<rparr> \<and>
     ti_idempotency_key tr = we_id er @ '':a'' \<and> ob_aggregate_id ob = ti_id tr"
proof -
  let ?r = "CreateExecutionAndTask ''ud'' [] ''a'' ''sample.echo'' (demo_env ''f'' 20) demo_db"
  have "isl (fst ?r) = False"
    by (simp add: demo_db_eq CreateExecutionAndTask_def create_execution_tx_def run_defs demo_defs
        Let_def normalizeJSON_def numeral_eq_Suc scanWorkflowExecution_def scanTaskInstance_def
        makeTaskIdempotencyKey_def demo_task_def)
  then obtain res db' where r: "?r = (Inr res, db')"
    by (cases ?r; cases "fst ?r") auto
  show ?thesis using create_execution_writes [OF demo_server r] r by auto
qed

section \<open>Attempts\<close>

lemma store_ok_parts:
  assumes "store_ok U db"
  shows "schema_ok db" "lifecycle_ok db" "ids_canonical U db" "numbering_ok db" "outbox_ok db"
  using assms by (simp_all add: store_ok_def numbered_ok_def)

lemma env_ids:
  assumes "server U env" "store_ok U db"
  shows "ids_canonical (pg_uuid_in env) (tx_db \<lparr>tx_db = db, tx_rt = n\<rparr>)"
  using store_ok_parts(3) [OF assms(2)] serverD(2) [OF assms(1)] by simp

text \<open>
  C16.  Starting an attempt of a finished task changes nothing and reports it as completed.
  Otherwise the new attempt gets the next number, is the only row added, and the task becomes
  running with that number as \<^verbatim>\<open>attempts_total\<close> and no pending retry time.
\<close>

theorem start_attempt_numbers:
  assumes "server U env" "reachable (server U) db"
    and "StartTaskAttempt t env db = (Inr (task, attempt, already), db')"
  shows "\<exists>u r. U t = Some u \<and> select_by ti_id u (task_instances db) = Some r \<and>
    (if ti_status r = TaskStatusSucceeded \<or> ti_status r = TaskStatusDeadLettered
     then already \<and> db' = db \<and> task = scanTaskInstance r
     else \<not> already \<and> (\<exists>a.
       db' = upd_task u (set_task_running (pg_now env) (ti_attempts_total r + 1))
               (db\<lparr>task_attempts := task_attempts db @ [a]\<rparr>) \<and>
       ta_task_instance_id a = u \<and> ta_status a = TaskAttemptStatusRunning \<and>
       ta_attempt_number a = ti_attempts_total r + 1 \<and>
       ta_attempt_number a = int (length (attempts_of db u)) + 1 \<and>
       attempt = scanTaskAttempt a \<and>
       task = scanTaskInstance (set_task_running (pg_now env) (ti_attempts_total r + 1) r)))"
proof -
  note ok = reachable_store_ok [OF assms(2)]
  obtain s where s: "start_attempt_tx t env \<lparr>tx_db = db, tx_rt = 1\<rparr> = Inr ((task, attempt, already), s)"
      and db': "db' = tx_db s"
    using assms(3) unfolding StartTaskAttempt_def by (rule run_tx_InrE)
  from s show ?thesis
  proof (cases rule: start_attempt_effect)
    case (finished u r)
    then show ?thesis using db' serverD(2) [OF assms(1)] by auto
  next
    case (started u r v i)
    have uv: "v = u" using started(1,5) uuid_canonical_in [OF serverD(1) [OF assms(1)]] by simp
    have r: "r \<in> set (task_instances db)" "ti_id r = u"
      using started(2) select_by_SomeD by fastforce+
    have total: "ti_attempts_total r = int (length (attempts_of db u))"
    proof -
      have "map ta_attempt_number (attempts_of db u) = [1..ti_attempts_total r]"
        using store_ok_parts(4) [OF ok] r by (auto simp: numbering_ok_def list_all_iff)
      then have "length (attempts_of db u) = length [1..ti_attempts_total r]" by (metis length_map)
      then show ?thesis using store_ok_parts(2) [OF ok] r(1)
        by (simp add: lifecycle_ok_def list_all_iff task_row_ok_def)
    qed
    show ?thesis
      using started uv db' total serverD(2) [OF assms(1)]
      by (intro exI [of _ u] exI [of _ r] conjI)
         (auto simp: select_upd_task upd_task_def select_update_by_same same_task_keysD new_attempt_def)
  qed
qed

theorem start_attempt_numbers_witness:
  "\<exists>task attempt db'.
     StartTaskAttempt ''ue..'' (demo_env ''s'' 20) demo_db = (Inr (task, attempt, False), db') \<and>
     att_AttemptNumber attempt = 1 \<and> task_Status task = TaskStatusRunning"
proof -
  let ?r = "StartTaskAttempt ''ue..'' (demo_env ''s'' 20) demo_db"
  have "isl (fst ?r) = False"
    by (simp add: demo_db_eq StartTaskAttempt_def start_attempt_tx_def run_defs demo_defs int4_max_def
        Let_def scanTaskInstance_def demo_task_def set_task_defs TaskStatusPending_def
        TaskStatusSucceeded_def TaskStatusDeadLettered_def)
  then obtain task attempt already db' where r: "?r = (Inr (task, attempt, already), db')"
    by (cases ?r; cases "fst ?r") auto
  show ?thesis using start_attempt_numbers [OF demo_server demo_reachable r] r
    by (auto simp: demo_uuid_in_def demo_select scanTaskAttempt_def scanTaskInstance_def set_task_defs)
qed

text \<open>
  C12.  Finishing an attempt of a task that has a successor records the output on the attempt and
  the task, and in the same transaction adds the successor as a pending task of the same
  execution, with the output as its input, and one undispatched outbox row for it.  The execution
  itself stays as it is.
\<close>

theorem completion_enqueues_next:
  assumes "server U env" "reachable (server U) db"
    and "CompleteTaskAttemptAndEnqueueNextTask t a name hkey out env db = (Inr x, db')"
  shows "\<exists>u r v j tr ob. U t = Some u \<and> select_by ti_id u (task_instances db) = Some r \<and>
     U a = Some v \<and> pg_jsonb_in env (normalizeJSON out) = Some j \<and>
     task_instances db' =
       update_by ti_id u (set_task_succeeded (pg_now env) j) (task_instances db) @ [tr] \<and>
     task_attempts db' = update_by ta_id v (set_attempt_succeeded (pg_now env) j) (task_attempts db) \<and>
     outbox_events db' = outbox_events db @ [ob] \<and>
     workflow_executions db' = workflow_executions db \<and>
     ti_workflow_execution_id tr = ti_workflow_execution_id r \<and> ti_task_name tr = name \<and>
     ti_handler_key tr = hkey \<and> ti_status tr = TaskStatusPending \<and> ti_input_json tr = j \<and>
     ti_idempotency_key tr = makeTaskIdempotencyKey (ti_workflow_execution_id r) name \<and>
     ob_aggregate_id ob = ti_id tr \<and> pending_event env ob"
proof -
  note ids = env_ids [OF assms(1) reachable_store_ok [OF assms(2)]]
  obtain s where s: "complete_and_enqueue_tx t a name hkey out env \<lparr>tx_db = db, tx_rt = 1\<rparr> = Inr (x, s)"
      and db': "db' = tx_db s"
    using assms(3) unfolding CompleteTaskAttemptAndEnqueueNextTask_def by (rule run_tx_InrE)
  from serverD(1) [OF assms(1)] ids s show ?thesis
  proof (cases rule: complete_next_effect)
    case (1 u r v j tr pj ob)
    show ?thesis
      by (intro exI [of _ u] exI [of _ r] exI [of _ v] exI [of _ j] exI [of _ tr] exI [of _ ob])
         (use 1(1-5,11,13) in \<open>simp add: db' serverD(2) [OF assms(1)] new_task_def new_dispatch_def
           pending_event_def upd_defs\<close>)
  qed
qed

theorem completion_enqueues_next_witness:
  "\<exists>db' tr. CompleteTaskAttemptAndEnqueueNextTask ''ue..'' ''us..'' ''b'' ''notifications.send''
       ''{}'' (demo_env ''n'' 30) demo_running = (Inr (), db') \<and>
     task_instances db' = [set_task_succeeded 30 ''{}'' (set_task_running 20 1 demo_task), tr] \<and>
     ti_idempotency_key tr = ''ue.:b''"
proof -
  let ?r = "CompleteTaskAttemptAndEnqueueNextTask ''ue..'' ''us..'' ''b'' ''notifications.send''
       ''{}'' (demo_env ''n'' 30) demo_running"
  have "isl (fst ?r) = False"
    by (simp add: demo_running_eq demo_db_eq CompleteTaskAttemptAndEnqueueNextTask_def
        complete_and_enqueue_tx_def run_defs demo_defs Let_def normalizeJSON_def set_task_defs
        numeral_eq_Suc makeTaskIdempotencyKey_def)
  then obtain db' where r: "?r = (Inr (), db')"
    by (cases ?r; cases "fst ?r") auto
  show ?thesis
    using completion_enqueues_next [OF demo_server demo_running_reachable r] r
    by (auto simp: demo_uuid_in_def demo_running_select demo_jsonb_in_def
        normalizeJSON_def demo_running_eq set_task_running_def makeTaskIdempotencyKey_def)
qed

lemma complete_next_conflict_tx:
  assumes "server U env" "store_ok U db" "U t = Some u"
    and "select_by ti_id u (task_instances db) = Some r"
    and "makeTaskIdempotencyKey (ti_workflow_execution_id r) name \<in>
           ti_idempotency_key ` set (task_instances db)"
  shows "\<nexists>x s. complete_and_enqueue_tx t a name hkey out env \<lparr>tx_db = db, tx_rt = 1\<rparr> = Inr (x, s)"
proof (intro notI, elim exE)
  fix x s assume s: "complete_and_enqueue_tx t a name hkey out env \<lparr>tx_db = db, tx_rt = 1\<rparr> = Inr (x, s)"
  from serverD(1) [OF assms(1)] env_ids [OF assms(1,2)] s show False
    by (cases rule: complete_next_effect)
       (use assms(3-5) in \<open>simp add: serverD(2) [OF assms(1)] new_task_def\<close>)
qed

lemma next_task_conflict:
  assumes "server U env" "reachable (server U) db" "U t = Some u"
    and "select_by ti_id u (task_instances db) = Some r"
    and "makeTaskIdempotencyKey (ti_workflow_execution_id r) name \<in>
           ti_idempotency_key ` set (task_instances db)"
  shows "\<exists>e. CompleteTaskAttemptAndEnqueueNextTask t a name hkey out env db = (Inl e, db) \<and>
    (calm env \<and> U a \<noteq> None \<and> pg_jsonb_in env (normalizeJSON out) \<noteq> None \<and>
     list_all (pg_text_ok env) [name, hkey, makeTaskIdempotencyKey (ti_workflow_execution_id r) name]
     \<longrightarrow> IsUniqueViolation e)"
proof -
  note ok = reachable_store_ok [OF assms(2)]
  note U = serverD(2) [OF assms(1)]
  let ?m = "complete_and_enqueue_tx t a name hkey out env \<lparr>tx_db = db, tx_rt = 1\<rparr>"
  obtain e where e: "?m = Inl e"
    using complete_next_conflict_tx [OF assms(1) ok assms(3-5), where a = a and hkey = hkey and
        out = out] by (cases ?m) auto
  have ids: "U u = Some u" "U (ti_workflow_execution_id r) = Some (ti_workflow_execution_id r)"
    using ids_canonicalD [OF store_ok_parts(3) [OF ok] assms(4)] .
  have "IsUniqueViolation e"
    if "calm env" "U a \<noteq> None" "pg_jsonb_in env (normalizeJSON out) \<noteq> None"
      "list_all (pg_text_ok env) [name, hkey, makeTaskIdempotencyKey (ti_workflow_execution_id r) name]"
  proof -
    have keys: "ti_idempotency_key ` set (update_by ti_id u (set_task_succeeded p j) rows) =
        ti_idempotency_key ` set rows" for p j rows
      using map_update_by [of ti_id u ti_idempotency_key "set_task_succeeded p j" rows]
      by (simp add: set_task_defs flip: set_map)
    from e that show ?thesis using assms(3-5) ids
      by (auto simp: complete_and_enqueue_tx_def select_execution_id_def tx_bind_def statement_def
          calm_def sql_read_def sql_select_task_def with_uuid_def one_row_def U Let_def
          sql_update_attempt_succeeded_def sql_update_task_succeeded_def with_jsonb_def
          sql_insert_task_def with_text_def check_def upd_defs keys unique_violation_def)
  qed
  moreover have "CompleteTaskAttemptAndEnqueueNextTask t a name hkey out env db =
      (Inl (case pg_fault env 0 of None \<Rightarrow> e | Some e' \<Rightarrow> e'), db)"
    using e by (simp add: CompleteTaskAttemptAndEnqueueNextTask_def run_tx_def split: option.split)
  ultimately show ?thesis by (auto simp: calm_def)
qed

text \<open>
  C20.  The other three ways an attempt ends, each in one transaction, with every column they set and no other
  row changed.  Completing: the attempt, the task and the execution become \<^verbatim>\<open>succeeded\<close> with the same output
  and the same time.  Scheduling a retry: the attempt becomes \<^verbatim>\<open>failed\<close>, the task \<^verbatim>\<open>pending\<close> again with the given
  next run time; the execution is left as it is.  Giving up: the attempt becomes \<^verbatim>\<open>failed\<close>, the task \<^verbatim>\<open>dead_lettered\<close>
  without a next run time, the execution \<^verbatim>\<open>failed\<close>, all with the same error text, cut at 1000 bytes.
\<close>

theorem attempt_end_writes:
  assumes "server U env" "reachable (server U) db" "U t = Some u" "U a = Some v"
    and "select_by ti_id u (task_instances db) = Some r"
  shows
    "(CompleteTaskAttempt t a out env db = (Inr xC, dbC) \<longrightarrow>
       (\<exists>j. pg_jsonb_in env (normalizeJSON out) = Some j \<and>
         dbC = db
           \<lparr>task_attempts := map (\<lambda>q. if ta_id q = v then q\<lparr>ta_status := TaskAttemptStatusSucceeded,
              ta_finished_at := Some (pg_now env), ta_output_json := Some j\<rparr> else q) (task_attempts db),
            task_instances := map (\<lambda>q. if ti_id q = u then q\<lparr>ti_status := TaskStatusSucceeded, ti_output_json := Some j,
              ti_completed_at := Some (pg_now env), ti_updated_at := pg_now env\<rparr> else q) (task_instances db),
            workflow_executions := map (\<lambda>q. if we_id q = ti_workflow_execution_id r
              then q\<lparr>we_status := ExecutionStatusSucceeded, we_output_json := Some j,
                we_completed_at := Some (pg_now env), we_updated_at := pg_now env\<rparr> else q) (workflow_executions db)\<rparr>)) \<and>
     (ScheduleTaskRetry t a err at env db = (Inr xR, dbR) \<longrightarrow>
       dbR = db
         \<lparr>task_attempts := map (\<lambda>q. if ta_id q = v then q\<lparr>ta_status := TaskAttemptStatusFailed,
            ta_finished_at := Some (pg_now env), ta_error_text := Some (truncate err 1000)\<rparr> else q) (task_attempts db),
          task_instances := map (\<lambda>q. if ti_id q = u then q\<lparr>ti_status := TaskStatusPending,
            ti_last_error_text := Some (truncate err 1000), ti_next_run_at := Some (pg_timestamptz_in env at),
            ti_updated_at := pg_now env\<rparr> else q) (task_instances db)\<rparr>) \<and>
     (FailTaskAttempt t a err env db = (Inr xF, dbF) \<longrightarrow>
       dbF = db
         \<lparr>task_attempts := map (\<lambda>q. if ta_id q = v then q\<lparr>ta_status := TaskAttemptStatusFailed,
            ta_finished_at := Some (pg_now env), ta_error_text := Some (truncate err 1000)\<rparr> else q) (task_attempts db),
          task_instances := map (\<lambda>q. if ti_id q = u then q\<lparr>ti_status := TaskStatusDeadLettered,
            ti_last_error_text := Some (truncate err 1000), ti_next_run_at := None, ti_completed_at := Some (pg_now env),
            ti_updated_at := pg_now env\<rparr> else q) (task_instances db),
          workflow_executions := map (\<lambda>q. if we_id q = ti_workflow_execution_id r
            then q\<lparr>we_status := ExecutionStatusFailed, we_error_text := Some (truncate err 1000),
              we_completed_at := Some (pg_now env), we_updated_at := pg_now env\<rparr> else q) (workflow_executions db)\<rparr>)"
proof -
  note ids = env_ids [OF assms(1) reachable_store_ok [OF assms(2)]]
  note U = serverD(2) [OF assms(1)]
  have "\<exists>j. pg_jsonb_in env (normalizeJSON out) = Some j \<and>
      dbC = upd_execution (ti_workflow_execution_id r) (set_execution_succeeded (pg_now env) j)
        (upd_task u (set_task_succeeded (pg_now env) j) (upd_attempt v (set_attempt_succeeded (pg_now env) j) db))"
    if "CompleteTaskAttempt t a out env db = (Inr xC, dbC)"
    using that unfolding CompleteTaskAttempt_def
    by (elim run_tx_InrE complete_effect_tx [OF ids]) (use assms(3-5) in \<open>simp add: U\<close>)
  moreover have "dbR = upd_task u (set_task_retry (pg_now env) (truncate err 1000) (pg_timestamptz_in env at))
      (upd_attempt v (set_attempt_failed (pg_now env) (truncate err 1000)) db)"
    if "ScheduleTaskRetry t a err at env db = (Inr xR, dbR)"
    using that unfolding ScheduleTaskRetry_def
    by (elim run_tx_InrE schedule_retry_effect) (use assms(3-5) in \<open>simp add: U\<close>)
  moreover have "dbF = upd_execution (ti_workflow_execution_id r) (set_execution_failed (pg_now env) (truncate err 1000))
      (upd_task u (set_task_dead_lettered (pg_now env) (truncate err 1000))
      (upd_attempt v (set_attempt_failed (pg_now env) (truncate err 1000)) db))"
    if "FailTaskAttempt t a err env db = (Inr xF, dbF)"
    using that unfolding FailTaskAttempt_def
    by (elim run_tx_InrE fail_effect [OF ids]) (use assms(3-5) in \<open>simp add: U\<close>)
  ultimately show ?thesis
    by (simp add: upd_defs update_by_def set_task_defs set_attempt_defs set_execution_defs cong: if_cong)
qed

theorem attempt_end_writes_witness:
  "\<exists>db1 db2 db3.
     CompleteTaskAttempt ''ue..'' ''us..'' ''{}'' (demo_env ''c'' 40) demo_running = (Inr (), db1) \<and>
     ScheduleTaskRetry ''ue..'' ''us..'' ''boom'' 90 (demo_env ''c'' 40) demo_running = (Inr (), db2) \<and>
     FailTaskAttempt ''ue..'' ''us..'' ''boom'' (demo_env ''c'' 40) demo_running = (Inr (), db3) \<and>
     task_instances db1 = [set_task_succeeded 40 ''{}'' (set_task_running 20 1 demo_task)] \<and>
     task_instances db2 = [set_task_retry 40 ''boom'' 90 (set_task_running 20 1 demo_task)] \<and>
     task_instances db3 = [set_task_dead_lettered 40 ''boom'' (set_task_running 20 1 demo_task)]"
proof -
  let ?e = "demo_env ''c'' 40"
  let ?r1 = "CompleteTaskAttempt ''ue..'' ''us..'' ''{}'' ?e demo_running"
  let ?r2 = "ScheduleTaskRetry ''ue..'' ''us..'' ''boom'' 90 ?e demo_running"
  let ?r3 = "FailTaskAttempt ''ue..'' ''us..'' ''boom'' ?e demo_running"
  have "\<not> isl (fst ?r1)" "\<not> isl (fst ?r2)" "\<not> isl (fst ?r3)"
    by (simp_all add: demo_running_eq demo_db_eq CompleteTaskAttempt_def ScheduleTaskRetry_def
        FailTaskAttempt_def complete_attempt_tx_def schedule_retry_tx_def fail_attempt_tx_def run_defs
        demo_defs Let_def normalizeJSON_def set_task_defs truncate_def)
  then obtain db1 db2 db3 where r: "?r1 = (Inr (), db1)" "?r2 = (Inr (), db2)" "?r3 = (Inr (), db3)"
    by (cases ?r1; cases "fst ?r1"; cases ?r2; cases "fst ?r2"; cases ?r3; cases "fst ?r3") auto
  have "demo_uuid_in ''ue..'' = Some ''ue..''" "demo_uuid_in ''us..'' = Some ''us..''"
    by (simp_all add: demo_uuid_in_def)
  note writes = attempt_end_writes [OF demo_server [of "''c''" 40] demo_running_reachable this
      demo_running_select]
  note demo = demo_jsonb_in_def normalizeJSON_def truncate_def demo_running_eq set_task_defs
  have "task_instances db1 = [set_task_succeeded 40 ''{}'' (set_task_running 20 1 demo_task)]"
    using writes [THEN conjunct1, THEN mp, OF r(1)] by (auto simp: demo)
  moreover have "task_instances db2 = [set_task_retry 40 ''boom'' 90 (set_task_running 20 1 demo_task)]"
    using writes [THEN conjunct2, THEN conjunct1, THEN mp, OF r(2)] by (simp add: demo)
  moreover have "task_instances db3 = [set_task_dead_lettered 40 ''boom'' (set_task_running 20 1 demo_task)]"
    using writes [THEN conjunct2, THEN conjunct2, THEN mp, OF r(3)] by (simp add: demo)
  ultimately show ?thesis using r by blast
qed

section \<open>Retries and replay\<close>

definition due_candidates :: "pgenv \<Rightarrow> pg \<Rightarrow> task_row list" where
  "due_candidates env db =
     filter (\<lambda>r. due_retry env r \<and> \<not> pg_locked env (ti_id r)) (pg_scan_tasks env (task_instances db))"

lemma not_due_cleared:
  "r \<in> set (clear_all now us rows) \<Longrightarrow> ti_id r \<in> us \<Longrightarrow> \<not> due_retry env r"
  by (auto simp: clear_all_def clear_next_run_at_def due_retry_def)

text \<open>
  C18.  \<^verbatim>\<open>EnqueueDueTaskRetries\<close> takes the pending tasks whose retry time has come and whose row is not
  locked, at most \<open>limit\<close> of them and the earliest first, adds one undispatched outbox row for each
  in that order, and clears their retry times.  So no later call enqueues the same retry again.
\<close>

theorem due_retries_enqueued_once:
  assumes "server U env" "reachable (server U) db"
    and "EnqueueDueTaskRetries limit env db = (Inr n, db')"
  shows "\<exists>items obs. items = order_limit next_run_key limit (due_candidates env db) \<and>
     n = int (length items) \<and> length items \<le> nat limit \<and>
     map ob_aggregate_id obs = map ti_id items \<and> list_all (pending_event env) obs \<and>
     outbox_events db' = outbox_events db @ obs \<and>
     task_instances db' = clear_all (pg_now env) (ti_id ` set items) (task_instances db) \<and>
     (\<forall>env2 r. server U env2 \<longrightarrow> r \<in> set (due_candidates env2 db') \<longrightarrow> ti_id r \<notin> ti_id ` set items)"
proof -
  note ids = env_ids [OF assms(1) reachable_store_ok [OF assms(2)]]
  obtain s where s: "enqueue_due_tx limit env \<lparr>tx_db = db, tx_rt = 1\<rparr> = Inr (n, s)" and db': "db' = tx_db s"
    using assms(3) unfolding EnqueueDueTaskRetries_def by (rule run_tx_InrE)
  from serverD(3) [OF assms(1)] ids s show ?thesis
  proof (cases rule: enqueue_due_effect)
    case (1 items obs)
    have items: "items = order_limit next_run_key limit (due_candidates env db)"
      using 1(1) by (simp add: select_due_retries_def sql_simps due_candidates_def)
    have obs: "map ob_aggregate_id obs = map ti_id items \<and> list_all (pending_event env) obs"
      using 1(3) by (induction rule: list_all2_induct)
        (auto simp: dispatch_of_def new_dispatch_def pending_event_def)
    have later: "ti_id r \<notin> ti_id ` set items"
      if "server U env2" "r \<in> set (due_candidates env2 db')" for env2 r
    proof -
      have "r \<in> set (task_instances db')" "due_retry env2 r"
        using that(2) serverD(3) [OF that(1)]
        by (auto simp: due_candidates_def scans_ok_def dest: mset_eq_setD)
      then show ?thesis using not_due_cleared [of r _ _ _ env2] by (auto simp: db' 1(6))
    qed
    show ?thesis
      by (intro exI [of _ items] exI [of _ obs])
         (use obs 1(2,6) items later length_order_limit in \<open>auto simp: db'\<close>)
  qed
qed

lemma result_cases:
  assumes "\<not> isl (fst r)"
  obtains x db' where "r = (Inr x, db')"
  using assms by (cases r; cases "fst r") auto

lemma demo_due:
  "due_candidates (demo_env ''q'' 100) demo_waiting =
     [set_task_retry 40 ''boom'' 90 (set_task_running 20 1 demo_task)]"
  by (simp add: due_candidates_def demo_waiting_tasks due_retry_def set_task_retry_def)

theorem due_retries_enqueued_once_witness:
  "\<exists>db' ob. EnqueueDueTaskRetries 20 (demo_env ''q'' 100) demo_waiting = (Inr 1, db') \<and>
     outbox_events db' = outbox_events demo_waiting @ [ob] \<and> ob_aggregate_id ob = ''ue..'' \<and>
     due_candidates (demo_env ''z'' 200) db' = []"
proof -
  let ?r = "EnqueueDueTaskRetries 20 (demo_env ''q'' 100) demo_waiting"
  have fresh: "''uq..'' \<notin> ob_id ` set (outbox_events demo_waiting)"
    using demo_outbox_ids by (simp flip: set_map)
  have sel: "select_due_retries 20 (demo_env ''q'' 100) demo_waiting =
      Inr [set_task_retry 40 ''boom'' 90 (set_task_running 20 1 demo_task)]"
    using demo_due by (simp add: select_due_retries_def check_def order_limit_def due_candidates_def)
  have "\<not> isl (fst ?r)"
    using fresh by (simp add: EnqueueDueTaskRetries_def enqueue_due_tx_def run_tx_def tx_bind_def
        statement_def sql_read_def sel tx_lift_def insert_dispatch_def sql_insert_outbox_def
        sql_clear_next_run_at_def demo_defs with_uuid_def with_jsonb_def check_def Let_def
        tx_return_def commit_def numeral_eq_Suc set_task_defs)
  then obtain n db' where r: "?r = (Inr n, db')" by (rule result_cases)
  note spec = due_retries_enqueued_once [OF demo_server demo_waiting_reachable r, unfolded demo_due]
  then have tasks: "map ti_id (task_instances db') = [''ue..'']" and n: "n = 1"
    by (auto simp: order_limit_def demo_waiting_tasks clear_all_def set_task_defs)
  obtain ob where ob: "outbox_events db' = outbox_events demo_waiting @ [ob]" "ob_aggregate_id ob = ''ue..''"
    using spec by (auto simp: order_limit_def set_task_defs)
  have "ti_id r \<notin> {''ue..''}" if "r \<in> set (due_candidates (demo_env ''z'' 200) db')" for r
    using spec that by (simp add: order_limit_def set_task_defs) (metis demo_server)
  moreover have "set (map ti_id (due_candidates (demo_env ''z'' 200) db')) \<subseteq> {''ue..''}"
    using tasks by (auto simp: due_candidates_def)
  ultimately have "due_candidates (demo_env ''z'' 200) db' = []"
    by (cases "due_candidates (demo_env ''z'' 200) db'") auto
  with r n ob show ?thesis by blast
qed

text \<open>
  C19.  Replaying a dead-lettered task, in one transaction: its row becomes \<^verbatim>\<open>pending\<close> with output, error text,
  next run time and completion time cleared, its number of attempts and its attempts kept; its execution
  becomes \<^verbatim>\<open>running\<close> with error text and completion time cleared; no other task or execution changes; and one
  undispatched outbox event of the task is added.  The call returns the new row.
\<close>

theorem replay_reopens:
  assumes "server U env" "reachable (server U) db" "ReplayDeadLetteredTask t env db = (Inr task, db')"
  shows "\<exists>u r ob. U t = Some u \<and> select_by ti_id u (task_instances db) = Some r \<and>
     ti_status r = TaskStatusDeadLettered \<and>
     task_instances db' = map (\<lambda>q. if ti_id q = u then q\<lparr>ti_status := TaskStatusPending, ti_output_json := None,
       ti_next_run_at := None, ti_last_error_text := None, ti_completed_at := None, ti_updated_at := pg_now env\<rparr>
       else q) (task_instances db) \<and>
     workflow_executions db' = map (\<lambda>q. if we_id q = ti_workflow_execution_id r then q\<lparr>we_status := ExecutionStatusRunning,
       we_error_text := None, we_completed_at := None, we_updated_at := pg_now env\<rparr> else q) (workflow_executions db) \<and>
     outbox_events db' = outbox_events db @ [ob] \<and> ob_aggregate_id ob = u \<and> ob_event_type ob = ''task.dispatch'' \<and>
     ob_dispatched_at ob = None \<and> ob_available_at ob = pg_now env \<and>
     task_attempts db' = task_attempts db \<and>
     task = scanTaskInstance (r\<lparr>ti_status := TaskStatusPending, ti_output_json := None,
       ti_next_run_at := None, ti_last_error_text := None, ti_completed_at := None, ti_updated_at := pg_now env\<rparr>)"
proof -
  note ids = env_ids [OF assms(1) reachable_store_ok [OF assms(2)]]
  note rows = upd_defs update_by_def set_task_defs set_execution_defs
  obtain s where s: "replay_tx t env \<lparr>tx_db = db, tx_rt = 1\<rparr> = Inr (task, s)" and db': "db' = tx_db s"
    using assms(3) unfolding ReplayDeadLetteredTask_def by (rule run_tx_InrE)
  from serverD(1) [OF assms(1)] ids s show ?thesis
  proof (cases rule: replay_effect)
    case (1 u r r' pj ob)
    show ?thesis
      by (intro exI [of _ u] exI [of _ r] exI [of _ ob])
         (use 1(1-4,6,8,9) in \<open>simp add: db' serverD(2) [OF assms(1)] new_dispatch_def rows\<close>)
  qed
qed

lemma demo_replayed:
  obtains task db' where "ReplayDeadLetteredTask ''ue..'' (demo_env ''p'' now) demo_dead = (Inr task, db')"
proof -
  let ?r = "ReplayDeadLetteredTask ''ue..'' (demo_env ''p'' now) demo_dead"
  have fresh: "''up....'' \<notin> ob_id ` set (outbox_events demo_dead)"
    using demo_outbox_ids by (simp flip: set_map)
  have "\<not> isl (fst ?r)"
    using fresh by (simp add: ReplayDeadLetteredTask_def replay_tx_def run_defs demo_defs Let_def
        demo_dead_tasks set_task_defs scanTaskInstance_def numeral_eq_Suc)
  then show thesis using that by (rule result_cases)
qed

theorem replay_reopens_witness:
  "\<exists>task db'. ReplayDeadLetteredTask ''ue..'' (demo_env ''p'' 60) demo_dead = (Inr task, db') \<and>
     task_Status task = TaskStatusPending \<and> task_AttemptsTotal task = 1 \<and>
     length (outbox_events db') = 2"
proof -
  obtain task db' where r: "ReplayDeadLetteredTask ''ue..'' (demo_env ''p'' 60) demo_dead = (Inr task, db')"
    by (rule demo_replayed)
  have "length (map ob_id (outbox_events demo_dead)) = 1" by (simp only: demo_outbox_ids) simp
  with replay_reopens [OF demo_server demo_dead_reachable r] r show ?thesis
    by (auto simp: demo_uuid_in_def demo_dead_tasks set_task_defs scanTaskInstance_def)
qed

text \<open>
  A replay of a task that is not dead-lettered is refused with the error the API answers with 400, and
  of an unknown task with the not-found error; both leave the database alone.
\<close>

lemma replay_refused:
  assumes "calm env" "pg_uuid_in env t = Some u"
  shows "(select_by ti_id u (task_instances db) = None \<longrightarrow>
           (\<exists>e. ReplayDeadLetteredTask t env db = (Inl e, db) \<and> IsNotFound e)) \<and>
         (\<forall>r. select_by ti_id u (task_instances db) = Some r \<and> ti_status r \<noteq> TaskStatusDeadLettered \<longrightarrow>
           (\<exists>e. ReplayDeadLetteredTask t env db = (Inl e, db) \<and> IsTaskNotReplayable e \<and> \<not> IsNotFound e))"
  using assms
  by (auto simp: ReplayDeadLetteredTask_def replay_tx_def run_tx_def tx_bind_def statement_def calm_def
      sql_read_def sql_select_task_def with_uuid_def one_row_def Let_def scanTaskInstance_def
      tx_fail_def IsNotFound_def IsTaskNotReplayable_def errTaskNotReplayable_def)

section \<open>Listings\<close>

text \<open>
  \<^verbatim>\<open>ListPendingOutbox\<close> returns at most \<open>limit\<close> events, all undispatched and available, oldest
  first, and leaves out no pending event that is strictly older than one it returns: the publisher
  works the outbox first in, first out.
\<close>

lemma pending_outbox_fifo:
  assumes "scans_ok env" "ListPendingOutbox limit env db = Inr events"
  shows "\<exists>rows. events = map scanOutboxEvent rows \<and> length rows \<le> nat limit \<and>
     set rows \<subseteq> {r \<in> set (outbox_events db). pending_event env r} \<and>
     sorted (map ob_created_at rows) \<and>
     (\<forall>r \<in> set (outbox_events db). pending_event env r \<and> r \<notin> set rows \<longrightarrow>
        (\<forall>q \<in> set rows. ob_created_at q \<le> ob_created_at r))"
proof -
  let ?P = "filter (pending_event env) (pg_scan_outbox env (outbox_events db))"
  let ?rows = "order_limit ob_created_at limit ?P"
  have P: "set ?P = {r \<in> set (outbox_events db). pending_event env r}"
    using assms(1) by (simp add: scans_sets)
  have "events = map scanOutboxEvent ?rows"
    using assms(2) by (auto simp: ListPendingOutbox_def pool_query_def check_def split: option.splits if_splits)
  moreover have "ob_created_at q \<le> ob_created_at r"
    if "r \<in> set (outbox_events db)" "pending_event env r" "r \<notin> set ?rows" "q \<in> set ?rows" for r q
    using order_limit_least [of r ?P ob_created_at limit q] that by (simp add: scans_sets [OF assms(1)])
  ultimately show ?thesis
    using set_order_limit [of ob_created_at limit ?P] length_order_limit [of ob_created_at limit ?P]
      sorted_order_limit [of ob_created_at limit ?P] P
    by (intro exI [of _ ?rows]) blast
qed

text \<open>
  \<^verbatim>\<open>ListDeadLetteredTasks\<close> returns dead-lettered tasks only, at most \<open>limit\<close> of them, the most
  recently updated first, and leaves out none that was updated later than one it returns.
\<close>

lemma dead_letters_newest_first:
  assumes "scans_ok env" "ListDeadLetteredTasks limit env db = Inr tasks"
  shows "\<exists>rows. tasks = map scanTaskInstance rows \<and> length rows \<le> nat limit \<and>
     set rows \<subseteq> {r \<in> set (task_instances db). ti_status r = TaskStatusDeadLettered} \<and>
     sorted_wrt (\<ge>) (map ti_updated_at rows) \<and>
     (\<forall>r \<in> set (task_instances db). ti_status r = TaskStatusDeadLettered \<and> r \<notin> set rows \<longrightarrow>
        (\<forall>q \<in> set rows. ti_updated_at r \<le> ti_updated_at q))"
proof -
  let ?P = "filter (\<lambda>r. ti_status r = TaskStatusDeadLettered) (pg_scan_tasks env (task_instances db))"
  let ?key = "\<lambda>r. - ti_updated_at r"
  let ?rows = "order_limit ?key limit ?P"
  have P: "set ?P = {r \<in> set (task_instances db). ti_status r = TaskStatusDeadLettered}"
    using assms(1) by (simp add: scans_sets)
  have "tasks = map scanTaskInstance ?rows"
    using assms(2) by (auto simp: ListDeadLetteredTasks_def pool_query_def check_def split: option.splits if_splits)
  moreover have "ti_updated_at r \<le> ti_updated_at q"
    if "r \<in> set (task_instances db)" "ti_status r = TaskStatusDeadLettered" "r \<notin> set ?rows"
      "q \<in> set ?rows" for r q
    using order_limit_least [of r ?P ?key limit q] that by (simp add: scans_sets [OF assms(1)])
  moreover have "sorted_wrt (\<ge>) (map ti_updated_at ?rows)"
    using sorted_order_limit [of ?key limit ?P] by (simp add: sorted_wrt_map)
  ultimately show ?thesis
    using set_order_limit [of ?key limit ?P] length_order_limit [of ?key limit ?P] P
    by (intro exI [of _ ?rows]) blast
qed

section \<open>Snapshots\<close>

lemma foldl_group:
  "foldl (\<lambda>m a. m(att_TaskInstanceID a := m (att_TaskInstanceID a) @ [a])) m xs =
   (\<lambda>u. m u @ filter (\<lambda>a. att_TaskInstanceID a = u) xs)"
  by (induction xs arbitrary: m) (auto simp: fun_eq_iff)

lemma group_attempts_filter: "group_attempts xs u = filter (\<lambda>a. att_TaskInstanceID a = u) xs"
  by (simp add: group_attempts_def foldl_group)

lemma sort_key_const: "\<forall>x \<in> set xs. key x = c \<Longrightarrow> sort_key key xs = xs"
proof (induction xs)
  case (Cons x xs)
  then show ?case by (cases xs) auto
qed simp

lemma filter_sort_by:
  assumes "\<And>x. P x \<Longrightarrow> key x = c"
  shows "filter P (sort_key key xs) = filter P xs"
proof -
  have "sort_key key (filter P xs) = filter P xs"
    by (rule sort_key_const [where c = c]) (simp add: assms)
  then show ?thesis by (simp add: filter_sort)
qed

lemma map_sort_by: "map key (sort_key key xs) = sort (map key xs)"
  by (rule properties_for_sort [symmetric]) simp_all

lemma join_unique:
  assumes "distinct (map key ts)" "r \<in> set ts" "P r" "key r = u"
  shows "concat (map (\<lambda>t. if key t = u \<and> P t then [x] else []) ts) = [x]"
  using assms
proof (induction ts)
  case (Cons t ts)
  have "concat (map (\<lambda>t. if key t = u \<and> P t then [x] else []) ts) = []" if "u \<notin> key ` set ts"
    using that by (induction ts) auto
  with Cons show ?case by (auto simp: image_iff)
qed simp

lemma join_filter:
  assumes "distinct (map ti_id ts)" "r \<in> set ts" "ti_workflow_execution_id r = e"
  shows "filter (\<lambda>a. ta_task_instance_id a = ti_id r)
      [a. a \<leftarrow> as, t \<leftarrow> ts, ti_id t = ta_task_instance_id a \<and> ti_workflow_execution_id t = e] =
    filter (\<lambda>a. ta_task_instance_id a = ti_id r) as"
proof (induction as)
  case (Cons a as)
  have "filter (\<lambda>a. ta_task_instance_id a = ti_id r)
      [a. t \<leftarrow> ts, ti_id t = ta_task_instance_id a \<and> ti_workflow_execution_id t = e] =
    (if ta_task_instance_id a = ti_id r then [a] else [])"
    using join_unique [OF assms(1,2), of "\<lambda>t. ti_workflow_execution_id t = e" "ti_id r" a] assms(3)
    by (auto simp: filter_concat comp_def filter_empty_conv)
  with Cons.IH show ?case by simp
qed simp

lemma snapshot_attempts:
  assumes "server U env" "store_ok U db" "r \<in> set (task_instances db)"
    and "U e = Some (ti_workflow_execution_id r)" "attempts_of_execution e env db = Inr attempts"
  shows "map att_AttemptNumber (group_attempts attempts (ti_id r)) = [1..ti_attempts_total r]"
proof -
  let ?as = "pg_scan_attempts env (task_attempts db)"
  let ?P = "\<lambda>a. ta_task_instance_id a = ti_id r"
  let ?L = "[a. a \<leftarrow> ?as, t \<leftarrow> task_instances db,
     ti_id t = ta_task_instance_id a \<and> ti_workflow_execution_id t = ti_workflow_execution_id r]"
  have att: "attempts = map scanTaskAttempt (sort_key ta_task_instance_id (sort_key ta_attempt_number ?L))"
    using assms(4,5) serverD(2) [OF assms(1)] by (simp add: attempts_of_execution_def with_uuid_def)
  have tasks: "distinct (map ti_id (task_instances db))"
    using store_ok_parts(1) [OF assms(2)] by (simp add: schema_ok_def)
  have "group_attempts attempts (ti_id r) =
      map scanTaskAttempt (filter ?P (sort_key ta_task_instance_id (sort_key ta_attempt_number ?L)))"
    by (simp add: group_attempts_filter att filter_map comp_def scanTaskAttempt_def)
  also have "\<dots> = map scanTaskAttempt (sort_key ta_attempt_number (filter ?P ?L))"
    using filter_sort_by [of ?P ta_task_instance_id "ti_id r" "sort_key ta_attempt_number ?L"]
    by (simp only: filter_sort)
  also have "\<dots> = map scanTaskAttempt (sort_key ta_attempt_number (filter ?P ?as))"
    using join_filter [OF tasks assms(3) refl, of ?as] by simp
  finally have "map att_AttemptNumber (group_attempts attempts (ti_id r)) =
      sort (map ta_attempt_number (filter ?P ?as))"
    by (simp add: comp_def scanTaskAttempt_def map_sort_by)
  also have "\<dots> = sort (map ta_attempt_number (attempts_of db (ti_id r)))"
  proof (rule properties_for_sort)
    have "mset ?as = mset (task_attempts db)"
      using serverD(3) [OF assms(1)] by (simp add: scans_ok_def)
    then have "mset (filter ?P ?as) = mset (attempts_of db (ti_id r))"
      by (simp add: attempts_of_def)
    then show "mset (sort (map ta_attempt_number (attempts_of db (ti_id r)))) =
        mset (map ta_attempt_number (filter ?P ?as))"
      by (metis mset_map mset_sort)
  qed simp
  also have "map ta_attempt_number (attempts_of db (ti_id r)) = [1..ti_attempts_total r]"
    using store_ok_parts(4) [OF assms(2)] assms(3) by (simp add: numbering_ok_def list_all_iff)
  finally show ?thesis by (simp add: sorted_sort_id)
qed

text \<open>
  The snapshot groups the attempts by task exactly: a task of the snapshot carries the
  attempts of that task and no others, in order of their numbers, and, read from one state of a
  reachable database, each task carries all its attempts, numbered 1, 2, ..
\<close>

lemma snapshot_complete:
  assumes "server U env" "reachable (server U) db" "U e = Some u"
    and "GetExecutionSnapshot e env db db db = Inr snap"
  shows "exec_ID (snap_Execution snap) = u \<and>
     snap_Task ` set (snap_Tasks snap) =
       scanTaskInstance ` {r \<in> set (task_instances db). ti_workflow_execution_id r = u} \<and>
     (\<forall>ts \<in> set (snap_Tasks snap).
        map att_AttemptNumber (snap_Attempts ts) = [1..task_AttemptsTotal (snap_Task ts)] \<and>
        (\<forall>a \<in> set (snap_Attempts ts). att_TaskInstanceID a = task_ID (snap_Task ts)))"
proof -
  note ok = reachable_store_ok [OF assms(2)]
  note U = serverD(2) [OF assms(1)]
  let ?tasks = "sort_key ti_created_at
     (filter (\<lambda>t. ti_workflow_execution_id t = u) (pg_scan_tasks env (task_instances db)))"
  obtain er attempts where er: "select_by we_id u (workflow_executions db) = Some er"
      and att: "attempts_of_execution e env db = Inr attempts"
      and snap: "snap = \<lparr>snap_Execution = scanWorkflowExecution er,
        snap_Tasks = map (\<lambda>task. \<lparr>snap_Task = task, snap_Attempts = group_attempts attempts (task_ID task)\<rparr>)
          (map scanTaskInstance ?tasks)\<rparr>"
    using assms(3,4)
    by (auto simp: GetExecutionSnapshot_def pool_query_def sql_select_execution_def with_uuid_def U
        one_row_def tasks_of_execution_def Let_def split: option.splits sum.splits)
  have set_tasks: "set ?tasks = {r \<in> set (task_instances db). ti_workflow_execution_id r = u}"
    using serverD(3) [OF assms(1)] by (simp add: scans_sets)
  have "map att_AttemptNumber (group_attempts attempts (ti_id r)) = [1..ti_attempts_total r]"
    if "r \<in> set ?tasks" for r
    using that assms(3) snapshot_attempts [OF assms(1) ok _ _ att, of r]
    by (simp add: scans_sets serverD(3) [OF assms(1)])
  then show ?thesis
    using select_by_key [OF er] set_tasks
    by (auto simp: snap scanTaskInstance_def scanWorkflowExecution_def group_attempts_filter image_image)
qed

section \<open>Error texts\<close>

lemma ascii_take: "ascii s \<Longrightarrow> ascii (take n s)"
  by (auto simp: ascii_def list_all_iff dest: in_set_takeD)

text \<open>
  \<^verbatim>\<open>truncate\<close> keeps a prefix of at most \<open>limit\<close> bytes, and keeps short and ASCII texts valid
  UTF-8.  It cuts at a byte, not at a character: there is a valid UTF-8 error text of which it
  leaves invalid UTF-8, which a server with encoding UTF8 refuses, so that neither a retry nor a
  failure with that text can be recorded.
\<close>

lemma truncate_prefix:
  "length (truncate s limit) \<le> limit \<and> (\<exists>rest. s = truncate s limit @ rest) \<and>
   (length s \<le> limit \<longrightarrow> truncate s limit = s) \<and> (ascii s \<longrightarrow> utf8_valid (truncate s limit))"
proof -
  have "\<exists>rest. s = take limit s @ rest" by (metis append_take_drop_id)
  then show ?thesis
    by (auto simp: truncate_def intro: utf8_valid_ascii ascii_take)
qed

text \<open>999 letters and one two-byte rune.\<close>

definition split_rune_text :: string where
  "split_rune_text = replicate 999 (CHR ''x'') @ [CHR 0xC3, CHR 0xA9]"

lemma chunks_replicate_ascii:
  "byte c < 128 \<Longrightarrow> chunks (replicate n c @ s) = replicate n [c] @ chunks s"
  by (induction n) auto

text \<open>
  C36.  Recording a failure whose (valid UTF-8) text is cut inside a rune fails on a server that
  only takes valid UTF-8, and the task stays as it was: neither retried nor dead-lettered.
\<close>

theorem split_rune_blocks_failure:
  assumes "calm env" "\<And>s. pg_text_ok env s \<Longrightarrow> utf8_valid s" "pg_uuid_in env a = Some v"
    and "pg_uuid_in env t = Some u" "u \<in> ti_id ` set (task_instances db)"
  shows "utf8_valid split_rune_text \<and>
     FailTaskAttempt t a split_rune_text env db = (Inl invalid_text, db) \<and>
     ScheduleTaskRetry t a split_rune_text at env db = (Inl invalid_text, db)"
proof -
  have b: "byte (CHR ''x'') < 128" "byte (CHR 0xC3) = 195" "byte (CHR 0xA9) = 169"
    by (simp_all add: byte_def)
  have ok: "utf8_valid split_rune_text"
    using b by (simp add: split_rune_text_def utf8_valid_def chunks_replicate_ascii valid_chunk_def
        rune_len_def byte_in_def list_all_iff)
  have cut: "truncate split_rune_text 1000 = replicate 999 (CHR ''x'') @ [CHR 0xC3]"
    by (simp add: truncate_def split_rune_text_def)
  have "\<not> utf8_valid (replicate 999 (CHR ''x'') @ [CHR 0xC3])"
    using b by (simp add: utf8_valid_def chunks_replicate_ascii valid_chunk_def rune_len_def
       )
  then have bad: "\<not> pg_text_ok env (truncate split_rune_text 1000)"
    using assms(2) [of "truncate split_rune_text 1000"] by (simp only: cut) blast
  obtain r where "select_by ti_id u (task_instances db) = Some r"
    using assms(5) by (metis not_Some_eq select_by_None)
  then show ?thesis using ok bad assms(1,3,4)
    by (simp add: FailTaskAttempt_def fail_attempt_tx_def ScheduleTaskRetry_def schedule_retry_tx_def
        run_tx_def tx_bind_def statement_def calm_def select_execution_id_def sql_read_def
        sql_select_task_def with_uuid_def one_row_def sql_update_attempt_failed_def with_text_def)
qed

definition utf8_env :: "string \<Rightarrow> go_time \<Rightarrow> pgenv" where
  "utf8_env tag now = (demo_env tag now)\<lparr>pg_text_ok := utf8_valid\<rparr>"

theorem split_rune_blocks_failure_witness:
  "FailTaskAttempt ''ue..'' ''us..'' split_rune_text (utf8_env ''x'' 50) demo_running =
     (Inl invalid_text, demo_running)"
proof -
  have "''ue..'' \<in> ti_id ` set (task_instances demo_running)"
    by (simp add: demo_running_eq set_task_running_def)
  then show ?thesis
    using split_rune_blocks_failure [of "utf8_env ''x'' 50" "''us..''" "''us..''" "''ue..''" "''ue..''"
        demo_running 0]
    by (simp add: utf8_env_def calm_def demo_uuid_in_def)
qed

end
