(* ===== verification/Dispatch.thy ===== *)
theory Dispatch
  imports StoreReach
begin

text \<open>
  What the calls of the store do to the two tables the dispatching of tasks rests on.  The relation
  \<open>progress\<close> says it once for all calls: outbox events are kept and only ever appended, a new event
  carries the payload of its task, and a task that is left without a retry time gets an event, is
  started, or had no retry time before.  The invariants of the engine follow from it.
\<close>

section \<open>Settled tasks, faithful servers\<close>

text \<open>A settled task needs no further delivery of its message.\<close>

definition settled :: "task_row \<Rightarrow> bool" where
  "settled r \<longleftrightarrow> ti_status r = TaskStatusSucceeded \<or> ti_status r = TaskStatusDeadLettered \<or>
     (ti_status r = TaskStatusPending \<and> ti_next_run_at r \<noteq> None)"

text \<open>
  A server whose text and uuid values are UTF-8 and whose \<open>jsonb\<close> keeps the value of a document:
  the stored form of a dispatch payload decodes as the payload itself.
\<close>

definition faithful :: "(string \<Rightarrow> string option) \<Rightarrow> pgenv \<Rightarrow> bool" where
  "faithful U env \<longleftrightarrow> server U env \<and> (\<forall>s. pg_text_ok env s \<longrightarrow> utf8_valid s) \<and>
     (\<forall>s u. U s = Some u \<longrightarrow> utf8_valid u) \<and>
     (\<forall>t e h j. pg_jsonb_in env (payload_text t e h) = Some j \<longrightarrow>
        json_unmarshal unmarshal_payload j = json_unmarshal unmarshal_payload (payload_text t e h))"

lemma faithfulD:
  assumes "faithful U env"
  shows "server U env" "pg_text_ok env s \<Longrightarrow> utf8_valid s" "U s = Some u \<Longrightarrow> utf8_valid u"
    "uuid_canonical env" "pg_uuid_in env = U" "scans_ok env"
  using assms by (auto simp: faithful_def server_def)

definition payload_ok :: "outbox_row \<Rightarrow> bool" where
  "payload_ok ob \<longleftrightarrow> (\<exists>p. json_unmarshal unmarshal_payload (ob_payload_json ob) = Inr p \<and>
     pay_TaskID p = ob_aggregate_id ob \<and> utf8_valid (pay_TaskID p) \<and> utf8_valid (pay_ExecutionID p) \<and>
     utf8_valid (pay_HandlerKey p))"

definition event_ok :: "(string \<Rightarrow> string option) \<Rightarrow> outbox_row \<Rightarrow> bool" where
  "event_ok U ob \<longleftrightarrow> U (ob_id ob) = Some (ob_id ob) \<and> U (ob_aggregate_id ob) = Some (ob_aggregate_id ob) \<and>
     payload_ok ob"

definition dispatch_ok :: "(string \<Rightarrow> string option) \<Rightarrow> pg \<Rightarrow> bool" where
  "dispatch_ok U db \<longleftrightarrow> (\<forall>ob \<in> set (outbox_events db). event_ok U ob) \<and>
     (\<forall>r \<in> set (task_instances db). utf8_valid (ti_handler_key r))"

lemma stored_payload:
  assumes "faithful U env" "U u = Some u" "U e = Some e" "utf8_valid h"
    and "pg_jsonb_in env (payload_text u e h) = Some j"
  shows "json_unmarshal unmarshal_payload j = Inr \<lparr>pay_TaskID = u, pay_ExecutionID = e, pay_HandlerKey = h\<rparr>"
proof -
  have "utf8_valid u" "utf8_valid e" using faithfulD(3) [OF assms(1)] assms(2,3) by blast+
  moreover have "json_unmarshal unmarshal_payload j = json_unmarshal unmarshal_payload (payload_text u e h)"
    using assms(1,5) by (simp add: faithful_def)
  ultimately show ?thesis
    using assms(4) payload_roundtrip [of "\<lparr>pay_TaskID = u, pay_ExecutionID = e, pay_HandlerKey = h\<rparr>" "payload_text u e h"]
    by (simp add: marshal_payload_def json_marshal_def payload_text_def)
qed

lemma new_dispatch_ok:
  assumes "faithful U env" "U u = Some u" "U e = Some e" "utf8_valid h"
    and "pg_jsonb_in env (payload_text u e h) = Some j"
  shows "event_ok U (new_dispatch env n u j)" "ob_dispatched_at (new_dispatch env n u j) = None"
    "ob_aggregate_id (new_dispatch env n u j) = u"
proof -
  have valid: "utf8_valid u" "utf8_valid e"
    using faithfulD(3) [OF assms(1)] assms(2,3) by blast+
  note stored_payload [OF assms]
  moreover have "U (pg_gen_random_uuid env n) = Some (pg_gen_random_uuid env n)"
    using uuid_canonical_gen [OF faithfulD(4) [OF assms(1)]] faithfulD(5) [OF assms(1)] by simp
  ultimately show "event_ok U (new_dispatch env n u j)"
    using assms(2,4) valid by (simp add: event_ok_def payload_ok_def new_dispatch_def)
qed (simp_all add: new_dispatch_def)

section \<open>The relation\<close>

definition same_event :: "outbox_row \<Rightarrow> outbox_row \<Rightarrow> bool" where
  "same_event ob ob' \<longleftrightarrow> ob_id ob' = ob_id ob \<and> ob_aggregate_id ob' = ob_aggregate_id ob \<and>
     ob_payload_json ob' = ob_payload_json ob"

text \<open>An event keeps its dispatch mark unless its id is in \<open>B\<close>.\<close>

definition event_kept :: "string set \<Rightarrow> outbox_row \<Rightarrow> outbox_row \<Rightarrow> bool" where
  "event_kept B ob ob' \<longleftrightarrow> same_event ob ob' \<and> (ob_id ob \<notin> B \<longrightarrow> ob_dispatched_at ob' = ob_dispatched_at ob)"

text \<open>A task in need of an event had none before either, gets one of \<open>new\<close>, or is in \<open>A\<close>.\<close>

definition task_from :: "string set \<Rightarrow> outbox_row list \<Rightarrow> pg \<Rightarrow> task_row \<Rightarrow> bool" where
  "task_from A new db r' \<longleftrightarrow> utf8_valid (ti_handler_key r') \<and>
     (settled r' \<or> (\<exists>r \<in> set (task_instances db). ti_id r = ti_id r' \<and> \<not> settled r) \<or>
      ti_id r' \<in> ob_aggregate_id ` set new \<or> ti_id r' \<in> A)"

definition new_event :: "(string \<Rightarrow> string option) \<Rightarrow> pg \<Rightarrow> outbox_row \<Rightarrow> bool" where
  "new_event U db ob \<longleftrightarrow> event_ok U ob \<and> ob_dispatched_at ob = None \<and> ob_id ob \<notin> ob_id ` set (outbox_events db)"

definition progress ::
  "(string \<Rightarrow> string option) \<Rightarrow> string set \<Rightarrow> string set \<Rightarrow> pg \<Rightarrow> pg \<Rightarrow> bool"
where
  "progress U A B db db' \<longleftrightarrow>
     (\<exists>kept new. outbox_events db' = kept @ new \<and> list_all2 (event_kept B) (outbox_events db) kept \<and>
        (\<forall>ob \<in> set new. new_event U db ob) \<and> (\<forall>r' \<in> set (task_instances db'). task_from A new db r'))"

lemma event_kept_refl [simp]: "event_kept B ob ob"
  by (simp add: event_kept_def same_event_def)

lemma events_kept_refl [simp]: "list_all2 (event_kept B) obs obs"
  by (simp add: list_all2_refl)

lemma task_from_old:
  "dispatch_ok U db \<Longrightarrow> r \<in> set (task_instances db) \<Longrightarrow> task_from A new db r"
  by (auto simp: dispatch_ok_def task_from_def)

lemma progress_refl: "dispatch_ok U db \<Longrightarrow> progress U A B db db"
  unfolding progress_def by (intro exI [of _ "outbox_events db"] exI [of _ "[]"]) (auto intro: task_from_old)

text \<open>No event is new and the tasks are the old ones or settled.\<close>

lemma progress_settle:
  assumes "dispatch_ok U db" "outbox_events db' = outbox_events db"
    and "\<And>r'. r' \<in> set (task_instances db') \<Longrightarrow>
      r' \<in> set (task_instances db) \<or> (\<exists>r \<in> set (task_instances db). r' = f r \<and> (settled (f r) \<or> ti_id r \<in> A))"
    and "same_task_keys f"
  shows "progress U A B db db'"
  unfolding progress_def
proof (intro exI conjI ballI)
  show "outbox_events db' = outbox_events db @ []" using assms(2) by simp
  fix r' assume "r' \<in> set (task_instances db')"
  from assms(3) [OF this] assms(1,4) show "task_from A [] db r'"
    by (auto simp: task_from_def dispatch_ok_def same_task_keysD)
qed simp_all

lemma upd_task_rows:
  "r' \<in> set (task_instances (upd_task u f db)) \<Longrightarrow>
   r' \<in> set (task_instances db) \<and> ti_id r' \<noteq> u \<or> (\<exists>r \<in> set (task_instances db). r' = f r \<and> ti_id r = u)"
  by (auto simp: upd_task_def set_update_by)

lemma upd_task_instances [simp]:
  "task_instances (upd_execution u f db) = task_instances db"
  "task_instances (upd_attempt u g db) = task_instances db"
  "task_instances (upd_outbox u h db) = task_instances db"
  by (simp_all add: upd_defs)

section \<open>Every call makes progress\<close>

text \<open>One new event \<open>ob\<close>, for a task that \<open>db'\<close> may leave in need of it.\<close>

lemma progress_event:
  assumes "dispatch_ok U db" "outbox_events db' = outbox_events db @ [ob]" "new_event U db ob"
    and "\<And>r'. r' \<in> set (task_instances db') \<Longrightarrow> utf8_valid (ti_handler_key r') \<and>
      (settled r' \<or> ti_id r' = ob_aggregate_id ob \<or> (\<exists>r \<in> set (task_instances db). r' = r))"
  shows "progress U A B db db'"
  unfolding progress_def
proof (intro exI conjI ballI)
  show "outbox_events db' = outbox_events db @ [ob]" by (rule assms(2))
  show "new_event U db ob'" if "ob' \<in> set [ob]" for ob' using that assms(3) by simp
  fix r' assume "r' \<in> set (task_instances db')"
  from assms(4) [OF this] show "task_from A [ob] db r'" by (auto simp: task_from_def)
qed simp

lemma dispatch_okD:
  assumes "dispatch_ok U db"
  shows "ob \<in> set (outbox_events db) \<Longrightarrow> event_ok U ob"
    and "r \<in> set (task_instances db) \<Longrightarrow> utf8_valid (ti_handler_key r)"
  using assms by (auto simp: dispatch_ok_def)

lemma upd_task_handler_keys:
  assumes "dispatch_ok U db" "same_task_keys f" "r' \<in> set (task_instances (upd_task u f db))"
  shows "utf8_valid (ti_handler_key r')"
  using upd_task_rows [OF assms(3)] assms(1,2) by (auto simp: dispatch_okD same_task_keysD)

lemma store_ok_ids: "store_ok U db \<Longrightarrow> ids_canonical U db"
  by (simp add: store_ok_def numbered_ok_def)

definition ready :: "(string \<Rightarrow> string option) \<Rightarrow> pgenv \<Rightarrow> pg \<Rightarrow> bool" where
  "ready U env db \<longleftrightarrow> faithful U env \<and> store_ok U db \<and> dispatch_ok U db"

lemma readyD:
  assumes "ready U env db"
  shows "faithful U env" "dispatch_ok U db" "store_ok U db" "ids_canonical (pg_uuid_in env) db"
    "uuid_canonical env" "scans_ok env" "pg_uuid_in env = U"
  using assms by (auto simp: ready_def store_ok_ids faithfulD)

lemma gen_canonical: "ready U env db \<Longrightarrow> U (pg_gen_random_uuid env n) = Some (pg_gen_random_uuid env n)"
  using uuid_canonical_gen [of env n] by (simp add: readyD)

lemma progress_create:
  assumes "ready U env (tx_db s)" "create_execution_tx d input name hkey env s = Inr (x, t)"
  shows "progress U A B (tx_db s) (tx_db t)"
  using readyD(5) [OF assms(1)] assms(2)
proof (cases rule: create_execution_effect)
  case (1 du j pj er tr ob)
  have ids: "U (ti_id tr) = Some (ti_id tr)" "U (we_id er) = Some (we_id er)"
    using gen_canonical [OF assms(1)] by (simp_all add: 1(4,6) new_task_def new_execution_def)
  have "utf8_valid hkey" using faithfulD(2) [OF readyD(1) [OF assms(1)], of hkey] 1(9) by simp
  note new = new_dispatch_ok [OF readyD(1) [OF assms(1)] ids this 1(10)]
  show ?thesis
    using new 1(11-13) readyD(2) [OF assms(1)] \<open>utf8_valid hkey\<close>
    by (intro progress_event [of U _ _ ob]) (auto simp: new_event_def dispatch_okD 1(6) new_task_def)
qed

lemma progress_replay:
  assumes "ready U env (tx_db s)" "replay_tx a env s = Inr (x, t)"
  shows "progress U A B (tx_db s) (tx_db t)"
  using readyD(5,4) [OF assms(1)] assms(2)
proof (cases rule: replay_effect)
  case (1 u r r' pj ob)
  have ids: "U u = Some u" "U (ti_workflow_execution_id r) = Some (ti_workflow_execution_id r)"
    using ids_canonicalD [OF readyD(4) [OF assms(1)] 1(2)] by (simp_all add: readyD [OF assms(1)])
  have "utf8_valid (ti_handler_key r)"
    using dispatch_okD(2) [OF readyD(2) [OF assms(1)] select_by_mem [OF 1(2)]] .
  note new = new_dispatch_ok [OF readyD(1) [OF assms(1)] ids this 1(5)]
  show ?thesis
    using new 1(6-8) readyD(2) [OF assms(1)]
    by (intro progress_event [of U _ _ ob])
       (auto simp: new_event_def same_task_keysD dest!: upd_task_rows
         intro: dispatch_okD upd_task_handler_keys [where f = "set_task_replayed (pg_now env)"])
qed

lemma progress_complete_next:
  assumes "ready U env (tx_db s)" "complete_and_enqueue_tx a b name hkey out env s = Inr (x, t)"
  shows "progress U A B (tx_db s) (tx_db t)"
  using readyD(5,4) [OF assms(1)] assms(2)
proof (cases rule: complete_next_effect)
  case (1 u r a j tr pj ob)
  have ids: "U (ti_id tr) = Some (ti_id tr)" "U (ti_workflow_execution_id r) = Some (ti_workflow_execution_id r)"
    using gen_canonical [OF assms(1)] ids_canonicalD [OF readyD(4) [OF assms(1)] 1(2)]
    by (simp_all add: 1(5) new_task_def readyD [OF assms(1)])
  have h: "utf8_valid hkey" using faithfulD(2) [OF readyD(1) [OF assms(1)], of hkey] 1(9) by simp
  note new = new_dispatch_ok [OF readyD(1) [OF assms(1)] ids this 1(10)]
  have "utf8_valid (ti_handler_key r') \<and> (settled r' \<or> ti_id r' = ob_aggregate_id ob \<or> r' \<in> set (task_instances (tx_db s)))"
    if "r' \<in> set (task_instances (tx_db t))" for r'
  proof (cases "r' = tr")
    case True
    then show ?thesis using h new(3) by (simp add: 1(5,11) new_task_def)
  next
    case False
    with that have "r' \<in> set (task_instances (upd_task u (set_task_succeeded (pg_now env) j) (tx_db s)))"
      by (simp add: 1(13))
    from upd_task_rows [OF this] upd_task_handler_keys [OF readyD(2) [OF assms(1)] _ this] show ?thesis
      by (auto simp: settled_def set_task_succeeded_def)
  qed
  then show ?thesis
    using new 1(11-13) by (intro progress_event [OF readyD(2) [OF assms(1)], of _ ob]) (auto simp: new_event_def)
qed

lemma progress_due:
  assumes "ready U env (tx_db s)" "enqueue_due_tx limit env s = Inr (x, t)"
  shows "progress U A B (tx_db s) (tx_db t)"
  using readyD(6,4) [OF assms(1)] assms(2)
proof (cases rule: enqueue_due_effect)
  case (1 items obs)
  have sub: "set items \<subseteq> set (task_instances (tx_db s))"
    using select_due_subset [OF readyD(6) [OF assms(1)] 1(1)] .
  have ids: "U (ti_id r) = Some (ti_id r) \<and> U (ti_workflow_execution_id r) = Some (ti_workflow_execution_id r)"
    if "r \<in> set (task_instances (tx_db s))" for r
    using store_ok_ids [OF readyD(3) [OF assms(1)]] that by (auto simp: ids_canonical_def list_all_iff)
  have new: "new_event U (tx_db s) ob" if "ob \<in> set obs" for ob
  proof -
    from 1(3) that obtain r where r: "r \<in> set items" "dispatch_of env r ob"
      by (metis in_set_conv_nth list_all2_conv_all_nth)
    then show ?thesis
      using new_dispatch_ok [OF readyD(1) [OF assms(1)]] ids dispatch_okD(2) [OF readyD(2) [OF assms(1)]] sub 1(5) that
      by (fastforce simp: dispatch_of_def new_event_def)
  qed
  have got: "ti_id r \<in> ob_aggregate_id ` set obs" if "r \<in> set items" for r
  proof -
    from 1(3) that obtain ob where "ob \<in> set obs" "dispatch_of env r ob"
      by (metis in_set_conv_nth list_all2_conv_all_nth)
    then show ?thesis by (force simp: dispatch_of_def new_dispatch_def)
  qed
  have src: "task_from A obs (tx_db s) r'" if "r' \<in> set (task_instances (tx_db t))" for r'
    using that got dispatch_okD(2) [OF readyD(2) [OF assms(1)]]
    by (auto simp: 1(6) clear_all_def clear_next_run_at_def task_from_def)
  show ?thesis unfolding progress_def
    using new src by (intro exI [of _ "outbox_events (tx_db s)"] exI [of _ obs]) (simp add: 1(6))
qed

lemma progress_start:
  assumes "ready U env (tx_db s)" "start_attempt_tx a env s = Inr (x, t)" "\<And>u. U a = Some u \<Longrightarrow> u \<in> A"
  shows "progress U A B (tx_db s) (tx_db t)"
  using assms(2)
proof (cases rule: start_attempt_effect)
  case finished
  then show ?thesis using progress_refl [OF readyD(2) [OF assms(1)]] by simp
next
  case (started u r v i)
  have "v = u" using uuid_canonical_in [OF readyD(5) [OF assms(1)] started(1)] started(5) by simp
  then have "v \<in> A" using assms(3) started(1) by (simp add: readyD(7) [OF assms(1)])
  then show ?thesis
    by (intro progress_settle [OF readyD(2) [OF assms(1)], where f = "set_task_running (pg_now env) i"])
       (auto simp: started(10) dest!: upd_task_rows)
qed

lemma progress_attempt_end:
  assumes "ready U env (tx_db s)"
  shows "complete_attempt_tx a b out env s = Inr (x, t) \<Longrightarrow> progress U A B (tx_db s) (tx_db t)"
    and "fail_attempt_tx a b err env s = Inr (x, t) \<Longrightarrow> progress U A B (tx_db s) (tx_db t)"
    and "schedule_retry_tx a b err at env s = Inr (x, t) \<Longrightarrow> progress U A B (tx_db s) (tx_db t)"
proof -
  note ids = readyD(4) [OF assms]
  have settle: "progress U A B (tx_db s) db'"
    if "task_instances db' = task_instances (upd_task u f (tx_db s))" "outbox_events db' = outbox_events (tx_db s)"
      "same_task_keys f" "\<And>r. settled (f r)" for db' u f
    by (rule progress_settle [OF readyD(2) [OF assms] that(2), where f = f])
       (use that in \<open>auto dest!: upd_task_rows\<close>)
  show "complete_attempt_tx a b out env s = Inr (x, t) \<Longrightarrow> progress U A B (tx_db s) (tx_db t)"
    by (erule complete_effect_tx [OF ids], rule settle [where f = "set_task_succeeded n j" for n j])
       (simp_all add: upd_defs settled_def set_task_defs same_task_keys_def)
  show "fail_attempt_tx a b err env s = Inr (x, t) \<Longrightarrow> progress U A B (tx_db s) (tx_db t)"
    by (erule fail_effect [OF ids], rule settle [where f = "set_task_dead_lettered n j" for n j])
       (simp_all add: upd_defs settled_def set_task_defs same_task_keys_def)
  show "schedule_retry_tx a b err at env s = Inr (x, t) \<Longrightarrow> progress U A B (tx_db s) (tx_db t)"
    by (erule schedule_retry_effect, rule settle [where f = "set_task_retry n j k" for n j k])
       (simp_all add: upd_defs settled_def set_task_defs same_task_keys_def)
qed

lemma progress_idle:
  assumes "dispatch_ok U db" "outbox_events db' = outbox_events db" "task_instances db' = task_instances db"
  shows "progress U A B db db'"
  by (rule progress_settle [OF assms(1,2), where f = "set_task_replayed 0"]) (simp_all add: assms(3))

lemma progress_upd_outbox:
  assumes "dispatch_ok U db" "\<And>ob. ob_id ob = u \<Longrightarrow> event_kept B ob (f ob)"
  shows "progress U A B db (upd_outbox u f db)"
  unfolding progress_def
  using assms by (intro exI [of _ "outbox_events (upd_outbox u f db)"] exI [of _ "[]"])
    (auto simp: upd_outbox_def update_by_def list_all2_conv_all_nth intro: task_from_old)

lemma progress_single:
  assumes "ready U env db"
  shows "sql_insert_definition a b c d env n db = Inr (x1, db') \<Longrightarrow> progress U A B db db'"
    and "sql_insert_idempotency a b c d env n db = Inr (x6, db') \<Longrightarrow> progress U A B db db'"
    and "sql_update_idempotency_completed a b c d env n db = Inr (x6, db') \<Longrightarrow> progress U A B db db'"
    and "sql_delete_idempotency a b c d env n db = Inr (x5, db') \<Longrightarrow> progress U A B db db'"
    and "sql_record_outbox_failure a b env n db = Inr (x5, db') \<Longrightarrow> progress U A B db db'"
    and "sql_mark_outbox_dispatched a env n db = Inr (x5, db') \<Longrightarrow> (\<And>u. U a = Some u \<Longrightarrow> u \<in> B) \<Longrightarrow>
      progress U A B db db'"
  using readyD(2,7) [OF assms]
  by (auto simp: sql_insert_definition_def sql_insert_idempotency_def
      sql_update_idempotency_completed_def sql_delete_idempotency_def
      sql_mark_outbox_dispatched_def sql_record_outbox_failure_def sql_simps Let_def
      set_outbox_defs event_kept_def same_event_def split: if_splits
      intro: progress_idle progress_refl intro!: progress_upd_outbox)

text \<open>The tasks a call may start and the events it may mark.\<close>

fun started_by :: "(string \<Rightarrow> string option) \<Rightarrow> store_call \<Rightarrow> string set" where
  "started_by U (CallStartTaskAttempt t) = {u. U t = Some u}"
| "started_by U _ = {}"

fun marked_by :: "(string \<Rightarrow> string option) \<Rightarrow> store_call \<Rightarrow> string set" where
  "marked_by U (CallMarkOutboxDispatched e) = {u. U e = Some u}"
| "marked_by U _ = {}"

lemma run_tx_progress:
  assumes "ready U env db"
    and "\<And>x t. m env \<lparr>tx_db = db, tx_rt = 1\<rparr> = Inr (x, t) \<Longrightarrow> progress U A B db (tx_db t)"
  shows "progress U A B db (snd (run_tx m env db))"
  by (rule txn.invariant_call)
     (use assms in \<open>auto simp: tx_effect_def intro: progress_refl readyD(2)\<close>)

lemma pool_exec_progress:
  assumes "ready U env db" "\<And>x db'. f env n db = Inr (x, db') \<Longrightarrow> progress U A B db db'"
  shows "progress U A B db (snd (pool_exec n f env db))"
  by (rule pool_exec_keeps) (use assms in \<open>auto intro: progress_refl readyD(2)\<close>)

lemma perform_progress:
  assumes "ready U env db"
  shows "progress U (started_by U c) (marked_by U c) db (perform c env db)"
proof -
  have s: "ready U env (tx_db \<lparr>tx_db = db, tx_rt = 1\<rparr>)" using assms by simp
  note tx = run_tx_progress [OF assms] and pe = pool_exec_progress [OF assms]
  show ?thesis
    by (cases c)
       (simp_all add: CreateWorkflowDefinition_def CreateExecutionAndTask_def ReplayDeadLetteredTask_def
        StartTaskAttempt_def CompleteTaskAttempt_def CompleteTaskAttemptAndEnqueueNextTask_def
        EnqueueDueTaskRetries_def ScheduleTaskRetry_def FailTaskAttempt_def MarkOutboxDispatched_def
        RecordOutboxFailure_def ReleaseIdempotentTask_def store_inv.snd_Begin store_inv.snd_Complete,
        (rule tx, drule progress_create [OF s] progress_replay [OF s] progress_start [OF s]
           progress_attempt_end [OF s] progress_complete_next [OF s] progress_due [OF s];
         simp
        | rule pe, erule progress_single [OF assms]; simp)+)
qed

section \<open>What progress keeps\<close>

lemma progress_rows:
  assumes "progress U A B db db'" "ob' \<in> set (outbox_events db')"
  obtains (kept) ob where "ob \<in> set (outbox_events db)" "event_kept B ob ob'"
  | (new) "new_event U db ob'"
  using assms unfolding progress_def by (fastforce simp: list_all2_conv_all_nth in_set_conv_nth)

lemma progress_keeps_row:
  assumes "progress U A B db db'" "ob \<in> set (outbox_events db)"
  obtains ob' where "ob' \<in> set (outbox_events db')" "event_kept B ob ob'"
  using assms unfolding progress_def by (fastforce simp: list_all2_conv_all_nth in_set_conv_nth)

lemma event_ok_same: "same_event ob ob' \<Longrightarrow> event_ok U ob' = event_ok U ob"
  by (simp add: same_event_def event_ok_def payload_ok_def)

lemma progress_dispatch_ok:
  assumes "progress U A B db db'" "dispatch_ok U db"
  shows "dispatch_ok U db'"
proof -
  have "event_ok U ob'" if "ob' \<in> set (outbox_events db')" for ob'
    using assms(1) that by (cases rule: progress_rows)
      (use assms(2) in \<open>auto simp: event_kept_def event_ok_same dispatch_okD new_event_def\<close>)
  moreover have "utf8_valid (ti_handler_key r)" if "r \<in> set (task_instances db')" for r
    using assms(1) that by (auto simp: progress_def task_from_def)
  ultimately show ?thesis by (simp add: dispatch_ok_def)
qed

lemma perform_ready:
  assumes "faithful U env" "store_ok U db" "dispatch_ok U db"
  shows "store_ok U (perform c env db)" "dispatch_ok U (perform c env db)"
proof -
  show "store_ok U (perform c env db)"
    using faithfulD(1) [OF assms(1)] assms(2) by (rule store_inv.perform_keeps)
  have "ready U env db" using assms by (simp add: ready_def)
  from progress_dispatch_ok [OF perform_progress [OF this] assms(3)] show "dispatch_ok U (perform c env db)" .
qed

lemma dispatch_ok_empty [simp]: "dispatch_ok U empty_pg"
  by (simp add: dispatch_ok_def empty_pg_def)

lemma reachable_ready:
  assumes "reachable (faithful U) db"
  shows "store_ok U db \<and> dispatch_ok U db"
  using assms by (induction rule: reachable.induct) (simp_all add: store_ok_empty perform_ready)

section \<open>Events name the rows of their tasks\<close>

text \<open>The payload of an event is the id, the execution and the handler key of a task.\<close>

definition names_task :: "outbox_row \<Rightarrow> task_row \<Rightarrow> bool" where
  "names_task ob r \<longleftrightarrow> ob_aggregate_id ob = ti_id r \<and> json_unmarshal unmarshal_payload (ob_payload_json ob) =
     Inr \<lparr>pay_TaskID = ti_id r, pay_ExecutionID = ti_workflow_execution_id r, pay_HandlerKey = ti_handler_key r\<rparr>"

definition events_named :: "pg \<Rightarrow> bool" where
  "events_named db \<longleftrightarrow> (\<forall>ob \<in> set (outbox_events db). \<exists>r \<in> set (task_instances db). names_task ob r)"

text \<open>A call keeps the keys of the tasks; its events are old ones or name a task.\<close>

definition names_kept :: "pg \<Rightarrow> pg \<Rightarrow> bool" where
  "names_kept db db' \<longleftrightarrow>
     (\<forall>r \<in> set (task_instances db). \<exists>r' \<in> set (task_instances db'). ti_id r' = ti_id r \<and>
        ti_workflow_execution_id r' = ti_workflow_execution_id r \<and> ti_handler_key r' = ti_handler_key r) \<and>
     (\<forall>ob' \<in> set (outbox_events db'). (\<exists>ob \<in> set (outbox_events db). same_event ob ob') \<or>
        (\<exists>r \<in> set (task_instances db'). names_task ob' r))"

lemma names_kept_named: "names_kept db db' \<Longrightarrow> events_named db \<Longrightarrow> events_named db'"
  unfolding names_kept_def events_named_def names_task_def same_event_def by (metis (no_types, lifting))

lemma names_kept_refl [simp]: "names_kept db db"
  by (auto simp: names_kept_def same_event_def)

lemma names_kept_same:
  assumes "task_instances db' = task_instances db" "outbox_events db' = outbox_events db"
  shows "names_kept db db'"
  using assms by (auto simp: names_kept_def same_event_def)

lemma names_kept_tasks:
  assumes "same_task_keys f" "\<And>r. r \<in> set (task_instances db) \<Longrightarrow> r \<in> set (task_instances db') \<or> f r \<in> set (task_instances db')"
    and "\<And>ob. ob \<in> set (outbox_events db') \<Longrightarrow> ob \<in> set (outbox_events db) \<or> (\<exists>r \<in> set (task_instances db'). names_task ob r)"
  shows "names_kept db db'"
  unfolding names_kept_def
proof (intro conjI ballI)
  fix r assume "r \<in> set (task_instances db)"
  from assms(2) [OF this] assms(1) show "\<exists>r' \<in> set (task_instances db'). ti_id r' = ti_id r \<and>
      ti_workflow_execution_id r' = ti_workflow_execution_id r \<and> ti_handler_key r' = ti_handler_key r"
    by (metis same_task_keysD(1,3,5))
qed (use assms(3) in \<open>force simp: same_event_def\<close>)

lemma upd_task_keeps:
  "r \<in> set (task_instances db) \<Longrightarrow>
   r \<in> set (task_instances (upd_task u f db)) \<or> f r \<in> set (task_instances (upd_task u f db))"
  by (auto simp: upd_task_def update_by_def)

lemma names_new_dispatch:
  assumes "faithful U env" "U (ti_id r) = Some (ti_id r)" "U (ti_workflow_execution_id r) = Some (ti_workflow_execution_id r)"
    and "utf8_valid (ti_handler_key r)"
    and "pg_jsonb_in env (payload_text (ti_id r) (ti_workflow_execution_id r) (ti_handler_key r)) = Some j"
  shows "names_task (new_dispatch env n (ti_id r) j) r"
  using stored_payload [OF assms] by (simp add: names_task_def new_dispatch_def)

lemma ready_row:
  assumes "ready U env db" "r \<in> set (task_instances db)"
  shows "U (ti_id r) = Some (ti_id r)" "U (ti_workflow_execution_id r) = Some (ti_workflow_execution_id r)" "utf8_valid (ti_handler_key r)"
  using store_ok_ids [OF readyD(3) [OF assms(1)]] dispatch_okD(2) [OF readyD(2) [OF assms(1)] assms(2)] assms(2)
  by (auto simp: ids_canonical_def list_all_iff)

lemma names_create:
  assumes "ready U env (tx_db s)" "create_execution_tx d input name hkey env s = Inr (x, t)"
  shows "names_kept (tx_db s) (tx_db t)"
  using readyD(5) [OF assms(1)] assms(2)
proof (cases rule: create_execution_effect)
  case (1 du j pj er tr ob)
  have "utf8_valid hkey" using faithfulD(2) [OF readyD(1) [OF assms(1)], of hkey] 1(9) by simp
  then have "names_task ob tr" unfolding 1(11)
    using 1(10) gen_canonical [OF assms(1)]
    by (intro names_new_dispatch [OF readyD(1) [OF assms(1)]]) (simp_all add: 1(4,6) new_task_def new_execution_def)
  then show ?thesis by (intro names_kept_tasks [OF same_task_keys_set(5)]) (auto simp: 1(13))
qed

lemma names_replay:
  assumes "ready U env (tx_db s)" "replay_tx a env s = Inr (x, t)"
  shows "names_kept (tx_db s) (tx_db t)"
  using readyD(5,4) [OF assms(1)] assms(2)
proof (cases rule: replay_effect)
  case (1 u r r' pj ob)
  have r: "ti_id r = u" "r \<in> set (task_instances (tx_db s))" using 1(2) by (auto dest: select_by_key select_by_mem)
  then have "names_task ob r" unfolding 1(6) using 1(5) names_new_dispatch [OF readyD(1) [OF assms(1)] ready_row [OF assms(1)]] by blast
  then have "names_task ob (set_task_replayed (pg_now env) r)" by (simp add: names_task_def same_task_keysD)
  moreover have "set_task_replayed (pg_now env) r \<in> set (task_instances (tx_db t))"
    using r by (auto simp: 1(8) upd_defs update_by_def)
  ultimately show ?thesis
    using upd_task_keeps [of _ "tx_db s" u "set_task_replayed (pg_now env)"] 
    by (intro names_kept_tasks [OF same_task_keys_set(5)]) (auto simp: 1(8))
qed

lemma names_complete_next:
  assumes "ready U env (tx_db s)" "complete_and_enqueue_tx a b name hkey out env s = Inr (x, t)"
  shows "names_kept (tx_db s) (tx_db t)"
  using readyD(5,4) [OF assms(1)] assms(2)
proof (cases rule: complete_next_effect)
  case (1 u r a j tr pj ob)
  have r: "r \<in> set (task_instances (tx_db s))" using 1(2) by (rule select_by_mem)
  have h: "utf8_valid hkey" using faithfulD(2) [OF readyD(1) [OF assms(1)], of hkey] 1(9) by simp
  have "names_task ob tr" unfolding 1(11)
    using 1(10) gen_canonical [OF assms(1)] ready_row [OF assms(1) r] h
    by (intro names_new_dispatch [OF readyD(1) [OF assms(1)]]) (simp_all add: 1(5) new_task_def)
  then show ?thesis
    using upd_task_keeps [of _ "tx_db s" u "set_task_succeeded (pg_now env) j"] 
    by (intro names_kept_tasks [OF same_task_keys_set(2)]) (auto simp: 1(13))
qed

lemma names_due:
  assumes "ready U env (tx_db s)" "enqueue_due_tx limit env s = Inr (x, t)"
  shows "names_kept (tx_db s) (tx_db t)"
  using readyD(6,4) [OF assms(1)] assms(2)
proof (cases rule: enqueue_due_effect)
  case (1 items obs)
  let ?clear = "clear_next_run_at (pg_now env)"
  have kept: "r \<in> set (task_instances (tx_db t)) \<or> ?clear r \<in> set (task_instances (tx_db t))"
    if "r \<in> set (task_instances (tx_db s))" for r
    using that by (auto simp: 1(6) clear_all_def)
  have "\<exists>r' \<in> set (task_instances (tx_db t)). names_task ob r'" if "ob \<in> set obs" for ob
  proof -
    from 1(3) that obtain r where r: "r \<in> set items" "dispatch_of env r ob"
      by (metis in_set_conv_nth list_all2_conv_all_nth)
    then have mem: "r \<in> set (task_instances (tx_db s))" using select_due_subset [OF readyD(6) [OF assms(1)] 1(1)] by blast
    then have "names_task ob r"
      using r(2) names_new_dispatch [OF readyD(1) [OF assms(1)] ready_row [OF assms(1)]] by (auto simp: dispatch_of_def)
    then have "names_task ob r" "names_task ob (?clear r)" by (simp_all add: names_task_def same_task_keysD)
    with kept [OF mem] show ?thesis by blast
  qed
  then show ?thesis using kept by (intro names_kept_tasks [OF same_task_keys_set(6)]) (auto simp: 1(6))
qed

lemma names_start:
  assumes "start_attempt_tx a env s = Inr (x, t)"
  shows "names_kept (tx_db s) (tx_db t)"
  using assms
proof (cases rule: start_attempt_effect)
  case (started u r v i)
  let ?db = "(tx_db s)\<lparr>task_attempts := task_attempts (tx_db s) @ [new_attempt env (Suc (tx_rt s)) v i]\<rparr>"
  have "tx_db t = upd_task v (set_task_running (pg_now env) i) ?db" using started(10) by simp
  then show ?thesis
    using upd_task_keeps [of _ ?db v "set_task_running (pg_now env) i"]
    by (intro names_kept_tasks [OF same_task_keys_set(1) [of "pg_now env" i]]) (simp_all add: upd_defs)
qed simp

lemma names_attempt_end:
  assumes "ready U env (tx_db s)"
  shows "complete_attempt_tx a b out env s = Inr (x, t) \<Longrightarrow> names_kept (tx_db s) (tx_db t)"
    and "fail_attempt_tx a b err env s = Inr (x, t) \<Longrightarrow> names_kept (tx_db s) (tx_db t)"
    and "schedule_retry_tx a b err at env s = Inr (x, t) \<Longrightarrow> names_kept (tx_db s) (tx_db t)"
proof -
  note ids = readyD(4) [OF assms]
  have upd: "names_kept (tx_db s) db'"
    if "task_instances db' = task_instances (upd_task u f (tx_db s))" "outbox_events db' = outbox_events (tx_db s)"
      "same_task_keys f" for db' u f
    using that upd_task_keeps [of _ "tx_db s" u f] by (intro names_kept_tasks [OF that(3)]) auto
  show "complete_attempt_tx a b out env s = Inr (x, t) \<Longrightarrow> names_kept (tx_db s) (tx_db t)"
    by (erule complete_effect_tx [OF ids], rule upd [where f = "set_task_succeeded n j" for n j]) (simp_all add: upd_defs)
  show "fail_attempt_tx a b err env s = Inr (x, t) \<Longrightarrow> names_kept (tx_db s) (tx_db t)"
    by (erule fail_effect [OF ids], rule upd [where f = "set_task_dead_lettered n j" for n j]) (simp_all add: upd_defs)
  show "schedule_retry_tx a b err at env s = Inr (x, t) \<Longrightarrow> names_kept (tx_db s) (tx_db t)"
    by (erule schedule_retry_effect, rule upd [where f = "set_task_retry n j k" for n j k]) (simp_all add: upd_defs)
qed

lemma names_upd_outbox:
  assumes "\<And>ob. same_event ob (f ob)"
  shows "names_kept db (upd_outbox u f db)"
  using assms by (auto simp: names_kept_def upd_outbox_def update_by_def same_event_def)

lemma names_single:
  "sql_insert_definition a b c d env n db = Inr (x1, db') \<Longrightarrow> names_kept db db'"
  "sql_insert_idempotency a b c d env n db = Inr (x6, db') \<Longrightarrow> names_kept db db'"
  "sql_update_idempotency_completed a b c d env n db = Inr (x6, db') \<Longrightarrow> names_kept db db'"
  "sql_delete_idempotency a b c d env n db = Inr (x5, db') \<Longrightarrow> names_kept db db'"
  "sql_record_outbox_failure a b env n db = Inr (x5, db') \<Longrightarrow> names_kept db db'"
  "sql_mark_outbox_dispatched a env n db = Inr (x5, db') \<Longrightarrow> names_kept db db'"
  by (auto simp: sql_insert_definition_def sql_insert_idempotency_def
      sql_update_idempotency_completed_def sql_delete_idempotency_def
      sql_mark_outbox_dispatched_def sql_record_outbox_failure_def sql_simps Let_def
      set_outbox_defs same_event_def split: if_splits
      intro: names_kept_same intro!: names_upd_outbox)

lemma perform_names:
  assumes "ready U env db"
  shows "names_kept db (perform c env db)"
proof -
  have s: "ready U env (tx_db \<lparr>tx_db = db, tx_rt = 1\<rparr>)" using assms by simp
  have tx: "names_kept db (snd (run_tx m env db))"
    if "\<And>x t. m env \<lparr>tx_db = db, tx_rt = 1\<rparr> = Inr (x, t) \<Longrightarrow> names_kept db (tx_db t)" for m :: "'b tx_op"
    by (rule txn.invariant_call) (use that in \<open>auto simp: tx_effect_def\<close>)
  have pe: "names_kept db (snd (pool_exec n f env db))"
    if "\<And>x db'. f env n db = Inr (x, db') \<Longrightarrow> names_kept db db'" for n and f :: "'c sql"
    by (rule pool_exec_keeps) (use that in auto)
  show ?thesis
    by (cases c)
       (simp_all add: CreateWorkflowDefinition_def CreateExecutionAndTask_def ReplayDeadLetteredTask_def
        StartTaskAttempt_def CompleteTaskAttempt_def CompleteTaskAttemptAndEnqueueNextTask_def
        EnqueueDueTaskRetries_def ScheduleTaskRetry_def FailTaskAttempt_def MarkOutboxDispatched_def
        RecordOutboxFailure_def ReleaseIdempotentTask_def store_inv.snd_Begin store_inv.snd_Complete,
        (rule tx, drule names_create [OF s] names_replay [OF s] names_start names_attempt_end [OF s]
           names_complete_next [OF s] names_due [OF s]; simp
        | rule pe, erule names_single; simp)+)
qed

lemma reachable_named: "reachable (faithful U) db \<Longrightarrow> events_named db"
proof (induction rule: reachable.induct)
  case (call db env c)
  then have "ready U env db" using reachable_ready by (simp add: ready_def)
  from names_kept_named [OF perform_names [OF this] call.IH] show ?case .
qed (simp add: events_named_def empty_pg_def)

end
