(* ===== verification/StrictDemo.thy ===== *)
theory StrictDemo
  imports Demo Dispatch
begin

text \<open>
  A second concrete server, for the properties that need a \<open>faithful\<close> one: its uuids and texts are
  ASCII.  Call number \<open>k\<close> makes uuids that start with \<open>k\<close> dashes, so different calls make
  different ones.
\<close>

definition strict_uuid :: "string \<Rightarrow> string option" where
  "strict_uuid s = (if s \<noteq> [] \<and> ascii s then Some s else None)"

definition strict_env :: "nat \<Rightarrow> go_time \<Rightarrow> pgenv" where
  "strict_env k now = (demo_env [] now)
     \<lparr>pg_gen_random_uuid := (\<lambda>n. ''u'' @ replicate k (CHR ''-'') @ replicate n (CHR ''.'')),
      pg_uuid_in := strict_uuid, pg_text_ok := ascii\<rparr>"

lemma strict_fields [simp]:
  "pg_now (strict_env k now) = now"
  "pg_gen_random_uuid (strict_env k now) n = CHR ''u'' # replicate k (CHR ''-'') @ replicate n (CHR ''.'')"
  "pg_uuid_in (strict_env k now) = strict_uuid" "pg_text_ok (strict_env k now) = ascii"
  "pg_jsonb_in (strict_env k now) = demo_jsonb_in" "pg_timestamptz_in (strict_env k now) at = at"
  "pg_scan_tasks (strict_env k now) ts = ts" "pg_scan_attempts (strict_env k now) as = as"
  "pg_scan_outbox (strict_env k now) obs = obs" "\<not> pg_locked (strict_env k now) u"
  "pg_fault (strict_env k now) n = None" "pg_commit (strict_env k now) n = CommitOk"
  by (simp_all add: strict_env_def demo_env_def)

lemma ascii_Cons [simp]: "ascii (c # s) \<longleftrightarrow> byte c < 128 \<and> ascii s"
  by (simp add: ascii_def)

lemma ascii_Nil [simp]: "ascii []"
  by (simp add: ascii_def)

lemma ascii_replicate [simp]: "ascii (replicate n c) \<longleftrightarrow> n = 0 \<or> byte c < 128"
  by (induction n) auto

lemma strict_faithful [simp]: "faithful strict_uuid (strict_env k now)"
  by (auto simp: faithful_def server_def uuid_canonical_def scans_ok_def strict_uuid_def demo_jsonb_in_def
      byte_def utf8_valid_ascii split: if_splits)

lemma strict_calm [simp]: "calm (strict_env k now)"
  by (simp add: calm_def)

definition strict_db :: pg where
  "strict_db =
     perform (CallCreateExecutionAndTask ''u'' [] ''a'' ''sample.echo'') (strict_env 1 10)
       (perform (CallCreateWorkflowDefinition ''demo'' [] demo_definition) (strict_env 0 5) empty_pg)"

definition strict_task :: task_row where
  "strict_task = \<lparr>ti_id = ''u-..'', ti_workflow_execution_id = ''u-.'', ti_task_name = ''a'',
     ti_handler_key = ''sample.echo'', ti_status = TaskStatusPending, ti_input_json = ''{}'',
     ti_output_json = None, ti_next_run_at = None, ti_last_error_text = None, ti_attempts_total = 0,
     ti_idempotency_key = ''u-.:a'', ti_dispatched_at = None, ti_completed_at = None,
     ti_created_at = 10, ti_updated_at = 10\<rparr>"

definition strict_event :: outbox_row where
  "strict_event = \<lparr>ob_id = ''u-...'', ob_aggregate_type = ''task_instance'', ob_aggregate_id = ''u-..'',
         ob_event_type = ''task.dispatch'',
         ob_payload_json = payload_text ''u-..'' ''u-.'' ''sample.echo'', ob_available_at = 10,
         ob_dispatched_at = None, ob_attempt_count = 0, ob_last_error_text = None, ob_created_at = 10\<rparr>"

lemmas strict_defs = strict_uuid_def demo_jsonb_in_def byte_def

lemma strict_db_eq:
  "strict_db =
    \<lparr>workflow_definitions =
       [\<lparr>wd_id = ''u'', wd_name = ''demo'', wd_description = [], wd_version = 1,
         wd_status = WorkflowDefinitionStatusActive, wd_definition_json = demo_definition,
         wd_created_at = 5, wd_updated_at = 5\<rparr>],
     workflow_executions =
       [\<lparr>we_id = ''u-.'', we_workflow_definition_id = ''u'', we_status = ExecutionStatusRunning,
         we_input_json = ''{}'', we_output_json = None, we_error_text = None, we_created_at = 10,
         we_updated_at = 10, we_started_at = Some 10, we_completed_at = None\<rparr>],
     task_instances = [strict_task], task_attempts = [], outbox_events = [strict_event],
     idempotency_records = []\<rparr>"
  by (simp add: strict_db_def empty_pg_def CreateWorkflowDefinition_def CreateExecutionAndTask_def
      create_execution_tx_def run_defs strict_defs Let_def normalizeJSON_def numeral_eq_Suc
      scanWorkflowExecution_def scanTaskInstance_def makeTaskIdempotencyKey_def strict_task_def strict_event_def)

lemma strict_reachable: "reachable (faithful strict_uuid) strict_db"
  unfolding strict_db_def by (intro reachable.intros strict_faithful)

end
