(* ===== verification/OutboxProps.thy ===== *)
theory OutboxProps
  imports Outbox StoreProps StrictDemo
begin

text \<open>
  The properties of the outbox publisher: an event is marked dispatched only after its message is in
  the stream, and what the store wrote into an event is what the consumer decodes from the stream.
\<close>

section \<open>The stream as the publisher sees it\<close>

text \<open>
  \<open>sent r\<close> is the list of payloads in the stream when Redis is in state \<open>r\<close>.  A successful \<^verbatim>\<open>XADD\<close>
  appends its payload; one that reports an error (say, a lost reply) may have done so as well.
\<close>

definition appends :: "'r redis \<Rightarrow> ('r \<Rightarrow> string list) \<Rightarrow> bool" where
  "appends rd sent \<longleftrightarrow> (\<forall>p r e r'. rd_xadd rd p r = (e, r') \<longrightarrow>
     sent r' = sent r @ [p] \<or> e \<noteq> None \<and> sent r' = sent r)"

text \<open>The message of an event with this payload.\<close>

definition message_text :: "string \<Rightarrow> go_error + string" where
  "message_text raw =
     (case json_unmarshal unmarshal_payload raw of Inl e \<Rightarrow> Inl e | Inr p \<Rightarrow> marshal_message (payload_message p))"

definition marked_are_sent :: "string set \<Rightarrow> pg \<Rightarrow> bool" where
  "marked_are_sent X db \<longleftrightarrow>
     (\<forall>r \<in> set (outbox_events db). ob_dispatched_at r \<noteq> None \<longrightarrow>
        (\<exists>text \<in> X. message_text (ob_payload_json r) = Inr text))"

lemma marked_are_sent_mono: "marked_are_sent X db \<Longrightarrow> X \<subseteq> Y \<Longrightarrow> marked_are_sent Y db"
  by (auto simp: marked_are_sent_def)

lemma marshal_message_Inr: "\<exists>text. marshal_message m = Inr text"
  by (simp add: marshal_message_def marshal_payload_def json_marshal_def)

lemma appends_prefix:
  "appends rd sent \<Longrightarrow> rd_xadd rd p r = (e, r') \<Longrightarrow> set (sent r) \<subseteq> set (sent r')"
  by (fastforce simp: appends_def)

section \<open>Rows with the same id\<close>

lemma store_ok_outbox_ids: "store_ok U db \<Longrightarrow> distinct (map ob_id (outbox_events db))"
  by (simp add: store_ok_def numbered_ok_def schema_ok_def)

text \<open>\<open>listed db events\<close>: the events were read from rows of the table.\<close>

definition listed :: "pg \<Rightarrow> OutboxEvent list \<Rightarrow> bool" where
  "listed db events \<longleftrightarrow> (\<forall>ev \<in> set events. \<exists>r \<in> set (outbox_events db).
     ob_id r = evt_ID ev \<and> ob_payload_json r = evt_PayloadJSON ev)"

lemma listed_progress: "progress U A B db db' \<Longrightarrow> listed db events \<Longrightarrow> listed db' events"
proof -
  assume p: "progress U A B db db'" and l: "listed db events"
  show ?thesis unfolding listed_def
  proof
    fix ev assume "ev \<in> set events"
    then obtain ob where ob: "ob \<in> set (outbox_events db)" "ob_id ob = evt_ID ev" "ob_payload_json ob = evt_PayloadJSON ev"
      using l by (auto simp: listed_def)
    from p ob(1) obtain ob' where "ob' \<in> set (outbox_events db')" "event_kept B ob ob'" by (rule progress_keeps_row)
    with ob show "\<exists>r \<in> set (outbox_events db'). ob_id r = evt_ID ev \<and> ob_payload_json r = evt_PayloadJSON ev"
      by (auto simp: event_kept_def same_event_def)
  qed
qed

lemma marked_progress:
  assumes "progress U A B db db'" "marked_are_sent X db"
    and "\<And>ob. ob \<in> set (outbox_events db) \<Longrightarrow> ob_id ob \<in> B \<Longrightarrow> \<exists>text \<in> X. message_text (ob_payload_json ob) = Inr text"
  shows "marked_are_sent X db'"
  unfolding marked_are_sent_def
proof (intro ballI impI)
  fix ob' assume "ob' \<in> set (outbox_events db')" and "ob_dispatched_at ob' \<noteq> None"
  with assms(1) show "\<exists>text \<in> X. message_text (ob_payload_json ob') = Inr text"
  proof (cases rule: progress_rows)
    case (kept ob)
    with assms(2,3) \<open>ob_dispatched_at ob' \<noteq> None\<close> show ?thesis
      by (auto simp: event_kept_def same_event_def marked_are_sent_def)
  next
    case new
    then show ?thesis using \<open>ob_dispatched_at ob' \<noteq> None\<close> by (simp add: new_event_def)
  qed
qed

section \<open>Sent before marked\<close>

text \<open>
  What other sessions may do in between: keep the invariants and the events, and mark an event only
  when its message is among the messages \<open>others\<close> sent by them.
\<close>

definition others_ok :: "(string \<Rightarrow> string option) \<Rightarrow> string set \<Rightarrow> (pg \<Rightarrow> pg) \<Rightarrow> bool" where
  "others_ok U others f \<longleftrightarrow> (\<forall>db. store_ok U db \<and> dispatch_ok U db \<longrightarrow>
     store_ok U (f db) \<and> dispatch_ok U (f db) \<and> (\<forall>events. listed db events \<longrightarrow> listed (f db) events) \<and>
     (\<forall>X. others \<subseteq> X \<and> marked_are_sent X db \<longrightarrow> marked_are_sent X (f db)))"

definition session_ok :: "(string \<Rightarrow> string option) \<Rightarrow> string set \<Rightarrow> session \<Rightarrow> bool" where
  "session_ok U others ses \<longleftrightarrow> (\<forall>n. faithful U (ses_env ses n)) \<and> (\<forall>n. others_ok U others (ses_other ses n))"

definition outbox_inv :: "(string \<Rightarrow> string option) \<Rightarrow> string set \<Rightarrow> pg \<Rightarrow> bool" where
  "outbox_inv U X db \<longleftrightarrow> store_ok U db \<and> dispatch_ok U db \<and> marked_are_sent X db"

lemma outbox_inv_mono: "outbox_inv U X db \<Longrightarrow> X \<subseteq> Y \<Longrightarrow> outbox_inv U Y db"
  by (auto simp: outbox_inv_def intro: marked_are_sent_mono)

lemma others_inv:
  assumes "session_ok U others ses" "outbox_inv U (others \<union> X) db"
  shows "outbox_inv U (others \<union> X) (ses_other ses n db)" "listed db events \<Longrightarrow> listed (ses_other ses n db) events"
  using assms by (auto simp: session_ok_def others_ok_def outbox_inv_def)

lemma call_inv:
  assumes "faithful U env" "outbox_inv U X db" "marked_by U c = {}"
  shows "outbox_inv U X (perform c env db)" "listed db events \<Longrightarrow> listed (perform c env db) events"
proof -
  have "ready U env db" using assms(1,2) by (simp add: ready_def outbox_inv_def)
  note p = perform_progress [OF this, of c, unfolded assms(3)]
  show "outbox_inv U X (perform c env db)"
    using perform_ready [OF assms(1)] assms(2) marked_progress [OF p] by (simp add: outbox_inv_def)
  show "listed db events \<Longrightarrow> listed (perform c env db) events" by (rule listed_progress [OF p])
qed

lemma record_inv:
  assumes "faithful U env" "outbox_inv U X db"
  shows "outbox_inv U X (snd (RecordOutboxFailure a e env db))"
    "listed db events \<Longrightarrow> listed (snd (RecordOutboxFailure a e env db)) events"
  using call_inv [OF assms, of "CallRecordOutboxFailure a e"] by simp_all

lemma mark_inv:
  assumes "faithful U env" "outbox_inv U X db" "listed db (ev # events)"
    and "message_text (evt_PayloadJSON ev) = Inr text" "text \<in> X"
  shows "outbox_inv U X (snd (MarkOutboxDispatched (evt_ID ev) env db))"
    "listed (snd (MarkOutboxDispatched (evt_ID ev) env db)) events"
proof -
  let ?c = "CallMarkOutboxDispatched (evt_ID ev)"
  have r: "ready U env db" using assms(1,2) by (simp add: ready_def outbox_inv_def)
  obtain q where q: "q \<in> set (outbox_events db)" "ob_id q = evt_ID ev" "ob_payload_json q = evt_PayloadJSON ev"
    using assms(3) by (auto simp: listed_def)
  have "U (evt_ID ev) = Some (evt_ID ev)"
    using dispatch_okD(1) [OF readyD(2) [OF r] q(1)] q(2) by (simp add: event_ok_def)
  then have B: "marked_by U ?c = {evt_ID ev}" by auto
  have one: "ob = q" if "ob \<in> set (outbox_events db)" "ob_id ob = evt_ID ev" for ob
    using store_ok_outbox_ids [OF readyD(3) [OF r]] that q(1,2) by (auto simp: distinct_map inj_on_def)
  note p = perform_progress [OF r, of ?c, unfolded B]
  have "marked_are_sent X (perform ?c env db)"
    by (rule marked_progress [OF p]) (use assms(2,4,5) one q(3) in \<open>auto simp: outbox_inv_def\<close>)
  then show "outbox_inv U X (snd (MarkOutboxDispatched (evt_ID ev) env db))"
    using perform_ready [OF assms(1), of db ?c] assms(2) by (simp add: outbox_inv_def)
  show "listed (snd (MarkOutboxDispatched (evt_ID ev) env db)) events"
    using listed_progress [OF p, of events] assms(3) by (simp add: listed_def)
qed

lemma publish_events_inv:
  assumes "appends rd sent" "session_ok U others ses"
    and "outbox_inv U (others \<union> set (sent r)) db" "listed db events"
    and "publish_events rd ses n events (db, r) = (res, db', r')"
  shows "outbox_inv U (others \<union> set (sent r')) db'"
  using assms(3-5)
proof (induction events arbitrary: n db r res)
  case (Cons ev events)
  let ?db = "ses_other ses n db"
  have env: "faithful U (ses_env ses n)" using assms(2) by (simp add: session_ok_def)
  note o = others_inv [OF assms(2) Cons.prems(1)]
  have l: "listed ?db (ev # events)" "listed ?db events"
    using o(2) [OF Cons.prems(2), of n] by (auto simp: listed_def)
  show ?case
  proof (cases "json_unmarshal unmarshal_payload (evt_PayloadJSON ev)")
    case (Inl e)
    with Cons.prems(3) show ?thesis
      by (intro Cons.IH [OF record_inv(1) [OF env o(1)] record_inv(2) [OF env o(1) l(2)]]) (auto simp: Let_def)
  next
    case (Inr p)
    let ?m = "\<lparr>msg_TaskID = pay_TaskID p, msg_ExecutionID = pay_ExecutionID p, msg_HandlerKey = pay_HandlerKey p\<rparr>"
    obtain tx where tx: "marshal_message ?m = Inr tx" using marshal_message_Inr by blast
    obtain e r1 where x: "rd_xadd rd tx r = (e, r1)" by fastforce
    have d: "DispatchTask rd ?m r = (e, r1)" by (simp add: DispatchTask_def tx x)
    have mono: "others \<union> set (sent r) \<subseteq> others \<union> set (sent r1)" using appends_prefix [OF assms(1) x] by blast
    note o1 = outbox_inv_mono [OF o(1) mono]
    show ?thesis
    proof (cases e)
      case (Some err)
      with Cons.prems(3) Inr d obtain res' where "publish_events rd ses (Suc n) events
          (snd (RecordOutboxFailure (evt_ID ev) (error_text (rd_error_text rd) err) (ses_env ses n) ?db), r1) =
          (res', db', r')"
        by (auto simp: Let_def apfst_def map_prod_def split: prod.splits)
      from Cons.IH [OF record_inv(1) [OF env o1] record_inv(2) [OF env o1 l(2)] this] show ?thesis .
    next
      case None
      have "tx \<in> others \<union> set (sent r1)" using assms(1) x None by (fastforce simp: appends_def)
      moreover have "message_text (evt_PayloadJSON ev) = Inr tx"
        using Inr tx by (simp add: message_text_def payload_message_def)
      ultimately have m: "outbox_inv U (others \<union> set (sent r1)) (snd (MarkOutboxDispatched (evt_ID ev) (ses_env ses n) ?db))"
        "listed (snd (MarkOutboxDispatched (evt_ID ev) (ses_env ses n) ?db)) events"
        using mark_inv [OF env o1 l(1)] by blast+
      show ?thesis
      proof (cases "fst (MarkOutboxDispatched (evt_ID ev) (ses_env ses n) ?db)")
        case (Inl err)
        with Cons.prems(3) Inr d None m(1) show ?thesis by (auto simp: Let_def split: prod.splits)
      next
        case (Inr u)
        with Cons.prems(3) \<open>json_unmarshal _ _ = Inr p\<close> d None obtain res' where
          "publish_events rd ses (Suc n) events
            (snd (MarkOutboxDispatched (evt_ID ev) (ses_env ses n) ?db), r1) = (res', db', r')"
          by (auto simp: Let_def apfst_def map_prod_def split: prod.splits)
        from Cons.IH [OF m this] show ?thesis .
      qed
    qed
  qed
qed simp

lemma ListPendingOutbox_listed:
  assumes "scans_ok env" "ListPendingOutbox limit env db = Inr events"
  shows "listed db events"
proof -
  let ?P = "filter (pending_event env) (pg_scan_outbox env (outbox_events db))"
  have "events = map scanOutboxEvent (order_limit ob_created_at limit ?P)"
    using assms(2) by (auto simp: ListPendingOutbox_def pool_query_def check_def split: option.splits if_splits)
  moreover have "set (order_limit ob_created_at limit ?P) \<subseteq> set (outbox_events db)"
    using set_order_limit [of ob_created_at limit ?P] scans_sets [OF assms(1)] by auto
  ultimately show ?thesis by (auto simp: listed_def scanOutboxEvent_def)
qed

lemma publishOnce_inv:
  assumes "appends rd sent" "session_ok U others ses"
    and "outbox_inv U (others \<union> set (sent r)) db" "publishOnce rd ses (db, r) = (res, db', r')"
  shows "outbox_inv U (others \<union> set (sent r')) db'"
proof -
  have env: "faithful U (ses_env ses n)" for n using assms(2) by (simp add: session_ok_def)
  note o = others_inv(1) [OF assms(2)]
  obtain x db1 where e: "EnqueueDueTaskRetries 20 (ses_env ses 0) (ses_other ses 0 db) = (x, db1)" by fastforce
  have o1: "outbox_inv U (others \<union> set (sent r)) db1"
    using call_inv(1) [OF env o [OF assms(3)], of "CallEnqueueDueTaskRetries 20" 0 0] by (simp add: e)
  note o2 = o [OF o1]
  show ?thesis
  proof (cases x)
    case (Inl err)
    with assms(4) e o1 show ?thesis by (auto simp: publishOnce_def)
  next
    case (Inr k)
    show ?thesis
    proof (cases "ListPendingOutbox 20 (ses_env ses 1) (ses_other ses 1 db1)")
      case (Inl err)
      with assms(4) e o2 Inr show ?thesis by (auto simp: publishOnce_def Let_def simp del: One_nat_def)
    next
      case (Inr events)
      note l = ListPendingOutbox_listed [OF faithfulD(6) [OF env] Inr]
      obtain res' where "publish_events rd ses 2 events (ses_other ses 1 db1, r) = (res', db', r')"
        using assms(4) e Inr \<open>x = Inr k\<close>
        by (auto simp: publishOnce_def Let_def apfst_def map_prod_def simp del: One_nat_def split: prod.splits)
      from publish_events_inv [OF assms(1,2) o2 l this] show ?thesis .
    qed
  qed
qed

text \<open>
  C8.  The publisher marks an outbox event as dispatched only after its message is in the stream:
  after any number of batches, with any failures of the database and of Redis in between and other
  publishers at work, every marked event has its message in the stream.  So a crash between the two
  can only send a message twice, never lose it.
\<close>

theorem marked_events_are_sent:
  assumes "appends rd sent" "list_all (session_ok U others) sessions"
    and "store_ok U db" "dispatch_ok U db" "marked_are_sent (others \<union> set (sent r)) db"
    and "publisher_Run rd sessions (db, r) = (db', r')"
  shows "marked_are_sent (others \<union> set (sent r')) db'"
proof -
  have "outbox_inv U (others \<union> set (sent r1)) db1"
    if "outbox_inv U (others \<union> set (sent r)) db" "publisher_Run rd sessions (db, r) = (db1, r1)" for db r db1 r1
    using assms(2) that
  proof (induction sessions arbitrary: db r)
    case (Cons ses sessions)
    obtain res db2 r2 where p: "publishOnce rd ses (db, r) = (res, db2, r2)" by (metis surj_pair)
    show ?case using Cons.IH [of r2 db2] publishOnce_inv [OF assms(1) _ Cons.prems(2) p] Cons.prems p by simp
  qed simp
  from this [OF _ assms(6)] assms(3-5) show ?thesis by (simp add: outbox_inv_def)
qed

text \<open>A stream that never fails; its state is the list of payloads added.\<close>

definition demo_stream :: "string list redis" where
  "demo_stream = \<lparr>rd_xgroup_create = Pair None, rd_xadd = (\<lambda>p ps. (None, ps @ [p])),
     rd_xautoclaim = (\<lambda>_ _ _. Pair (None, [])), rd_xreadgroup = (\<lambda>_ _ _. Pair (Inr [])),
     rd_xack = (\<lambda>_. Pair None), rd_ctx_err = (\<lambda>_. None), rd_error_text = (\<lambda>_. ''error'')\<rparr>"

definition strict_session :: "nat \<Rightarrow> session" where
  "strict_session k = \<lparr>ses_env = (\<lambda>n. strict_env (k + n) 50), ses_other = (\<lambda>_. id),
     ses_rfc3339 = ''1970-01-01T00:00:00Z'', ses_float64 = Some\<rparr>"

lemma strict_session_fields [simp]:
  "ses_env (strict_session k) n = strict_env (k + n) 50" "ses_other (strict_session k) n = id"
  by (simp_all add: strict_session_def)

lemma strict_session_ok: "session_ok strict_uuid {} (strict_session k)"
  by (simp add: session_ok_def others_ok_def)

lemma strict_payload:
  "json_unmarshal unmarshal_payload (payload_text ''u-..'' ''u-.'' ''sample.echo'') =
     Inr \<lparr>pay_TaskID = ''u-..'', pay_ExecutionID = ''u-.'', pay_HandlerKey = ''sample.echo''\<rparr>"
  by (rule payload_roundtrip)
     (simp_all add: utf8_valid_ascii byte_def marshal_payload_def json_marshal_def payload_text_def)

lemma strict_scan:
  "evt_ID (scanOutboxEvent strict_event) = ''u-...''"
  "evt_PayloadJSON (scanOutboxEvent strict_event) = payload_text ''u-..'' ''u-.'' ''sample.echo''"
  by (simp_all add: scanOutboxEvent_def strict_event_def)

lemma strict_mark:
  "MarkOutboxDispatched ''u-...'' (strict_env 4 50) strict_db =
      (Inr (), upd_outbox ''u-...'' (set_outbox_dispatched 50) strict_db)"
  by (simp add: MarkOutboxDispatched_def sql_mark_outbox_dispatched_def run_defs strict_defs
      outbox_count_ok_def strict_db_eq strict_event_def int4_max_def)

lemma strict_due: "EnqueueDueTaskRetries 20 (strict_env 2 50) strict_db = (Inr 0, strict_db)"
  by (simp add: EnqueueDueTaskRetries_def enqueue_due_tx_def run_defs strict_db_eq select_due_retries_def
      due_retry_def strict_task_def order_limit_def)

lemma strict_listed: "ListPendingOutbox 20 (strict_env 3 50) strict_db = Inr [scanOutboxEvent strict_event]"
  by (simp add: ListPendingOutbox_def run_defs strict_db_eq order_limit_def pending_event_def strict_event_def)

lemma strict_publish:
  "\<exists>metrics db'. publishOnce demo_stream (strict_session 2) (strict_db, []) =
     ((None, metrics), db', [payload_text ''u-..'' ''u-.'' ''sample.echo'']) \<and>
     outbox_events db' = [set_outbox_dispatched 50 strict_event] \<and> task_instances db' = [strict_task]"
proof -
  have "DispatchTask demo_stream \<lparr>msg_TaskID = ''u-..'', msg_ExecutionID = ''u-.'', msg_HandlerKey = ''sample.echo''\<rparr> [] =
      (None, [payload_text ''u-..'' ''u-.'' ''sample.echo''])"
    by (simp add: DispatchTask_def demo_stream_def marshal_message_def message_payload_def marshal_payload_def
      json_marshal_def payload_text_def)
  then show ?thesis
    by (simp add: publishOnce_def strict_due strict_listed Let_def strict_payload strict_scan strict_mark)
      (simp add: upd_outbox_def strict_db_eq strict_event_def)
qed

theorem marked_events_are_sent_witness:
  "\<exists>db'. publisher_Run demo_stream [strict_session 2] (strict_db, []) =
       (db', [payload_text ''u-..'' ''u-.'' ''sample.echo'']) \<and>
     map ob_dispatched_at (outbox_events db') = [Some 50] \<and>
     marked_are_sent {payload_text ''u-..'' ''u-.'' ''sample.echo''} db'"
proof -
  obtain metrics db' where p: "publishOnce demo_stream (strict_session 2) (strict_db, []) =
     ((None, metrics), db', [payload_text ''u-..'' ''u-.'' ''sample.echo''])"
     "outbox_events db' = [set_outbox_dispatched 50 strict_event]"
    using strict_publish by blast
  then have run: "publisher_Run demo_stream [strict_session 2] (strict_db, []) =
       (db', [payload_text ''u-..'' ''u-.'' ''sample.echo''])" by simp
  have ok: "store_ok strict_uuid strict_db" "dispatch_ok strict_uuid strict_db"
    using reachable_ready [OF strict_reachable] by simp_all
  have "appends demo_stream id" by (simp add: appends_def demo_stream_def)
  from marked_events_are_sent [OF this _ ok _ run, of "{}"]
  have "marked_are_sent {payload_text ''u-..'' ''u-.'' ''sample.echo''} db'"
    by (simp add: strict_session_ok marked_are_sent_def strict_db_eq strict_event_def)
  with run p(2) show ?thesis by (simp add: set_outbox_dispatched_def)
qed

section \<open>From the store to the consumer\<close>



end
