(* ===== verification/ServiceProps.thy ===== *)
theory ServiceProps
  imports Service StoreProps
begin

text \<open>
  The properties of the service: which definitions are accepted, what the lookups on an accepted
  definition return, and the bounds of the dead-letter listing.
\<close>

section \<open>Validation\<close>

text \<open>
  C21.  \<^verbatim>\<open>ParseAndValidateWorkflowDefinition\<close> accepts exactly the JSON documents that decode to a
  definition whose entry task is named and defined, whose tasks all have a name and a handler key,
  no negative limits, and whose \<^verbatim>\<open>next_task\<close>, where present, names another defined task; and it
  returns that definition unchanged.
\<close>

theorem validation_exact:
  "ParseAndValidateWorkflowDefinition raw = Inr spec \<longleftrightarrow>
     json_unmarshal unmarshal_spec raw = Inr spec \<and> wf_spec spec"
  by (rule parse_validate_iff)

text \<open>
  On an accepted definition the lookups of the engine cannot fail: the entry task is found,
  and for every task that is found by name, the successor is found when there is one.  So the
  worker's error branch for the next task is dead code.
\<close>

lemma lookups_total:
  assumes "ParseAndValidateWorkflowDefinition raw = Inr spec"
  shows "(\<exists>task. FindEntryTask spec = Inr task \<and> wf_task spec task) \<and>
     (\<forall>name task. FindTaskSpecByName spec name = Inr task \<longrightarrow>
        (\<exists>next. FindNextTaskSpec spec name = Inr next \<and>
           (next = None \<longleftrightarrow> TrimSpace (spec_NextTask task) = []) \<and>
           (\<forall>t. next = Some t \<longrightarrow> t \<in> set (spec_Tasks spec) \<and>
              TrimSpace (spec_Name t) = TrimSpace (spec_NextTask task) \<and>
              TrimSpace (spec_Name t) \<noteq> TrimSpace (spec_Name task))))"
proof -
  have wf: "wf_spec spec" using assms by (simp add: parse_validate_iff)
  have tasks: "wf_task spec task" if "task \<in> set (spec_Tasks spec)" for task
    using wf that by (simp add: wf_spec_def list_all_iff)
  have "\<exists>next. FindNextTaskSpec spec name = Inr next \<and>
         (next = None \<longleftrightarrow> TrimSpace (spec_NextTask task) = []) \<and>
         (\<forall>t. next = Some t \<longrightarrow> t \<in> set (spec_Tasks spec) \<and>
            TrimSpace (spec_Name t) = TrimSpace (spec_NextTask task) \<and>
            TrimSpace (spec_Name t) \<noteq> TrimSpace (spec_Name task))"
    if "FindTaskSpecByName spec name = Inr task" for name task
  proof -
    have "wf_task spec task"
      using that tasks by (auto simp: FindTaskSpecByName_Inr dest: find_spec_SomeD)
    then show ?thesis using wf_spec_next [OF wf that]
      by (auto simp: wf_task_def dest: find_spec_SomeD)
  qed
  with wf_spec_entry [OF wf] tasks show ?thesis by blast
qed

text \<open>A definition of two tasks, the second after the first, in JSON.\<close>

definition chain_json :: string where
  "chain_json = json_print (JObj [(''entry_task'', JStr ''a''),
     (''tasks'', JArr [JObj [(''name'', JStr ''a''), (''handler_key'', JStr ''h''), (''next_task'', JStr ''b'')],
        JObj [(''name'', JStr ''b''), (''handler_key'', JStr ''h'')]])])"

definition chain_spec :: WorkflowDefinitionSpec where
  "chain_spec = \<lparr>spec_EntryTask = ''a'', spec_Tasks =
     [\<lparr>spec_Name = ''a'', spec_HandlerKey = ''h'', spec_MaxAttempts = 0, spec_BackoffSeconds = 0,
       spec_NextTask = ''b''\<rparr>,
      \<lparr>spec_Name = ''b'', spec_HandlerKey = ''h'', spec_MaxAttempts = 0, spec_BackoffSeconds = 0,
       spec_NextTask = []\<rparr>]\<rparr>"

lemma chain_accepted: "ParseAndValidateWorkflowDefinition chain_json = Inr chain_spec"
  by code_simp

section \<open>Cyclic definitions\<close>

definition cycle_json :: string where
  "cycle_json = json_print (JObj [(''entry_task'', JStr ''a''),
     (''tasks'', JArr [JObj [(''name'', JStr ''a''), (''handler_key'', JStr ''h''), (''next_task'', JStr ''b'')],
        JObj [(''name'', JStr ''b''), (''handler_key'', JStr ''h''), (''next_task'', JStr ''a'')]])])"

definition cycle_spec :: WorkflowDefinitionSpec where
  "cycle_spec = \<lparr>spec_EntryTask = ''a'', spec_Tasks =
     [\<lparr>spec_Name = ''a'', spec_HandlerKey = ''h'', spec_MaxAttempts = 0, spec_BackoffSeconds = 0,
       spec_NextTask = ''b''\<rparr>,
      \<lparr>spec_Name = ''b'', spec_HandlerKey = ''h'', spec_MaxAttempts = 0, spec_BackoffSeconds = 0,
       spec_NextTask = ''a''\<rparr>]\<rparr>"

lemma cycle_accepted:
  "ParseAndValidateWorkflowDefinition cycle_json = Inr cycle_spec"
  "FindNextTaskSpec cycle_spec ''b'' = Inr (Some (hd (spec_Tasks cycle_spec)))"
  by code_simp+

text \<open>
  C37.  Validation accepts a definition whose tasks form a cycle a, b, a, .. (only a task that names
  itself is refused), but the engine cannot run it: in an execution that already has its task a,
  completing b with its successor a fails in every reachable state and changes nothing, so b is
  never completed and its message never acknowledged.
\<close>

theorem cyclic_definition_stuck:
  "ParseAndValidateWorkflowDefinition cycle_json = Inr cycle_spec \<and>
   FindNextTaskSpec cycle_spec ''b'' = Inr (Some (hd (spec_Tasks cycle_spec))) \<and>
   (\<forall>U env db t u r a out. server U env \<and> reachable (server U) db \<and> U t = Some u \<and>
      select_by ti_id u (task_instances db) = Some r \<and>
      makeTaskIdempotencyKey (ti_workflow_execution_id r) ''a'' \<in> ti_idempotency_key ` set (task_instances db)
      \<longrightarrow> (\<exists>e. CompleteTaskAttemptAndEnqueueNextTask t a (spec_Name (hd (spec_Tasks cycle_spec)))
             (spec_HandlerKey (hd (spec_Tasks cycle_spec))) out env db = (Inl e, db)))"
proof (intro conjI allI impI cycle_accepted, elim conjE)
  fix U env db t u r a out
  assume "server U env" "reachable (server U) db" "U t = Some u"
    "select_by ti_id u (task_instances db) = Some r"
    "makeTaskIdempotencyKey (ti_workflow_execution_id r) ''a'' \<in> ti_idempotency_key ` set (task_instances db)"
  from next_task_conflict [OF this, where a = a and hkey = "''h''" and out = out]
  show "\<exists>e. CompleteTaskAttemptAndEnqueueNextTask t a (spec_Name (hd (spec_Tasks cycle_spec)))
             (spec_HandlerKey (hd (spec_Tasks cycle_spec))) out env db = (Inl e, db)"
    by (auto simp: cycle_spec_def)
qed

theorem cyclic_definition_stuck_witness:
  "\<exists>e. CompleteTaskAttemptAndEnqueueNextTask ''ue..'' ''us..'' ''a'' ''h'' ''{}'' (demo_env ''n'' 30)
     demo_running = (Inl e, demo_running)"
proof -
  have "server demo_uuid_in (demo_env ''n'' 30) \<and> reachable (server demo_uuid_in) demo_running \<and>
      demo_uuid_in ''ue..'' = Some ''ue..'' \<and>
      select_by ti_id ''ue..'' (task_instances demo_running) = Some (set_task_running 20 1 demo_task) \<and>
      makeTaskIdempotencyKey (ti_workflow_execution_id (set_task_running 20 1 demo_task)) ''a'' \<in>
        ti_idempotency_key ` set (task_instances demo_running)"
    using demo_running_reachable demo_running_select
    by (simp add: demo_uuid_in_def demo_running_eq set_task_running_def makeTaskIdempotencyKey_def)
  from cyclic_definition_stuck [THEN conjunct2, THEN conjunct2, rule_format, OF this]
  show ?thesis by (simp add: cycle_spec_def)
qed

section \<open>Service calls\<close>

text \<open>
  Triggering an execution succeeds only for a stored definition that validates, and then
  starts exactly its entry task: the new task carries the entry task's name and handler, belongs to
  the new execution, and the execution belongs to the definition.
\<close>

lemma trigger_starts_entry_task:
  assumes "server U env'" "TriggerExecution req env other env' db = (Inr res, db')"
  shows "\<exists>def spec task.
     GetWorkflowDefinition (req_WorkflowDefinitionID req) env db = Inr def \<and>
     ParseAndValidateWorkflowDefinition (def_DefinitionJSON def) = Inr spec \<and>
     FindEntryTask spec = Inr task \<and>
     task_TaskName (start_Task res) = spec_Name task \<and>
     task_HandlerKey (start_Task res) = spec_HandlerKey task \<and>
     task_Status (start_Task res) = TaskStatusPending \<and>
     task_WorkflowExecutionID (start_Task res) = exec_ID (start_Execution res) \<and>
     U (req_WorkflowDefinitionID req) = Some (exec_WorkflowDefinitionID (start_Execution res))"
proof -
  obtain def spec task where found:
      "GetWorkflowDefinition (req_WorkflowDefinitionID req) env db = Inr def"
      "ParseAndValidateWorkflowDefinition (def_DefinitionJSON def) = Inr spec" "FindEntryTask spec = Inr task"
    and create: "CreateExecutionAndTask (req_WorkflowDefinitionID req) (req_Input req) (spec_Name task)
        (spec_HandlerKey task) env' (other db) = (Inr res, db')"
    using assms(2) by (auto simp: TriggerExecution_def split: if_splits sum.splits prod.splits)
  obtain s where s: "create_execution_tx (req_WorkflowDefinitionID req) (req_Input req) (spec_Name task)
      (spec_HandlerKey task) env' \<lparr>tx_db = other db, tx_rt = 1\<rparr> = Inr (res, s)"
    using create unfolding CreateExecutionAndTask_def by (rule run_tx_InrE)
  from serverD(1) [OF assms(1)] s have
    "task_TaskName (start_Task res) = spec_Name task \<and>
     task_HandlerKey (start_Task res) = spec_HandlerKey task \<and>
     task_Status (start_Task res) = TaskStatusPending \<and>
     task_WorkflowExecutionID (start_Task res) = exec_ID (start_Execution res) \<and>
     U (req_WorkflowDefinitionID req) = Some (exec_WorkflowDefinitionID (start_Execution res))"
    by (cases rule: create_execution_effect)
       (simp add: new_execution_def new_task_def scanWorkflowExecution_def scanTaskInstance_def
          serverD(2) [OF assms(1)])
  with found show ?thesis by blast
qed

definition demo_spec_a :: WorkflowTaskSpec where
  "demo_spec_a = \<lparr>spec_Name = ''a'', spec_HandlerKey = ''sample.echo'', spec_MaxAttempts = 2,
     spec_BackoffSeconds = 0, spec_NextTask = ''b''\<rparr>"

definition demo_spec :: WorkflowDefinitionSpec where
  "demo_spec = \<lparr>spec_EntryTask = ''a'', spec_Tasks =
     [demo_spec_a,
      \<lparr>spec_Name = ''b'', spec_HandlerKey = ''notifications.send'', spec_MaxAttempts = 0,
       spec_BackoffSeconds = 0, spec_NextTask = []\<rparr>]\<rparr>"

lemma demo_definition_accepted:
  "ParseAndValidateWorkflowDefinition demo_definition = Inr demo_spec"
  "FindEntryTask demo_spec = Inr demo_spec_a" "FindTaskSpecByName demo_spec ''a'' = Inr demo_spec_a"
  by code_simp+

text \<open>
  The dead-letter listing never asks the database for more than 500 rows or for a negative
  number: the limit is forced into 1..500 with 100 for none, and the answer has at most 500 tasks.
\<close>

lemma dead_letter_limit_bounds:
  "1 \<le> normalizeDeadLetterTaskLimit limit \<and> normalizeDeadLetterTaskLimit limit \<le> 500 \<and>
   (1 \<le> limit \<and> limit \<le> 500 \<longrightarrow> normalizeDeadLetterTaskLimit limit = limit) \<and>
   (\<forall>tasks. GetDeadLetteredTasks limit env db = Inr tasks \<longrightarrow> length tasks \<le> 500) \<and>
   (calm env \<longrightarrow> (\<exists>tasks. GetDeadLetteredTasks limit env db = Inr tasks))"
proof -
  have range: "1 \<le> normalizeDeadLetterTaskLimit limit" "normalizeDeadLetterTaskLimit limit \<le> 500"
    by (simp_all add: normalizeDeadLetterTaskLimit_def defaultDeadLetterTaskLimit_def
        maxDeadLetterTaskLimit_def)
  have "length (order_limit key (normalizeDeadLetterTaskLimit limit) rows) \<le> 500"
    for key :: "task_row \<Rightarrow> int" and rows
    using length_order_limit [of key "normalizeDeadLetterTaskLimit limit" rows] range(2) by simp
  then show ?thesis using range
    by (auto simp: GetDeadLetteredTasks_def ListDeadLetteredTasks_def pool_query_def check_def calm_def
        normalizeDeadLetterTaskLimit_def maxDeadLetterTaskLimit_def split: option.splits if_splits)
qed

end
