(* ===== verification/HandlerProps.thy ===== *)
theory HandlerProps
  imports Handlers StoreProps
begin

text \<open>
  The properties of the handlers, from the contract of the idempotency store
  (\<open>idempotency_contract\<close>, interpreted as \<open>idem\<close>): the response of a key is computed and stored
  once, a failed handler gives its claim back, and a foreign claim is respected.
\<close>

section \<open>The contract for calm environments\<close>

definition quiet :: "session \<Rightarrow> bool" where
  "quiet ses \<longleftrightarrow> (\<forall>n. calm (ses_env ses n)) \<and> (\<forall>n. ses_other ses n = id)"

definition task_key :: "string \<Rightarrow> TaskInstance \<Rightarrow> string \<times> string" where
  "task_key key task = (key, task_IdempotencyKey task)"

text \<open>Every call of the session is made for a task and key the store accepts.\<close>

definition may_handle :: "session \<Rightarrow> pg \<Rightarrow> string \<Rightarrow> TaskInstance \<Rightarrow> bool" where
  "may_handle ses db key task \<longleftrightarrow>
     (\<forall>n m. claimable (ses_env ses n) (ses_env ses m) db (task_key key task) (task_ID task))"

lemma quietD:
  assumes "quiet ses"
  shows "calmed (ses_env ses n) = ses_env ses n" "ses_other ses n = id"
  using assms by (simp_all add: quiet_def calmed_calm)

lemma begin_free:
  assumes "quiet ses" "records_wf db" "may_handle ses db key task" "claims db (task_key key task) = None"
  obtains db1 where
    "BeginIdempotentTask key (task_IdempotencyKey task) (task_ID task) (ses_env ses 0) (ses_other ses 1)
       (ses_env ses 1) (ses_other ses 0 db) = (Inr ([], False), db1)"
    "records_wf db1" "claims db1 = (claims db)(task_key key task \<mapsto> InProgress (Some (task_ID task)))"
    "task_instances db1 = task_instances db"
proof -
  let ?r = "BeginIdempotentTask key (task_IdempotencyKey task) (task_ID task) (ses_env ses 0) id (ses_env ses 1) db"
  have c: "claimable (calmed (ses_env ses 0)) (calmed (ses_env ses 1)) db (task_key key task) (task_ID task)"
    using assms(3) by (simp add: may_handle_def quietD(1) [OF assms(1)])
  from idem.begin_fresh [OF assms(2) c assms(4)] obtain db1 where
    db1: "?r = (Inr ([], False), db1)" "records_wf db1"
      "claims db1 = (claims db)(task_key key task \<mapsto> InProgress (Some (task_ID task)))"
    by (auto simp: task_key_def quietD(1) [OF assms(1)])
  have "task_instances (snd ?r) = task_instances db"
    by (auto simp: BeginIdempotentTask_def pool_exec_def commit_def sql_insert_idempotency_def
        with_uuid_def with_text_def check_def pool_query_def Let_def
        split: option.split sum.split commit_outcome.split)
  with db1 that show thesis by (simp add: quietD(2) [OF assms(1)])
qed

lemma begin_answered:
  assumes "quiet ses" "records_wf db" "may_handle ses db key task" "claims db (task_key key task) = Some c"
  shows "BeginIdempotentTask key (task_IdempotencyKey task) (task_ID task) (ses_env ses 0) (ses_other ses 1)
       (ses_env ses 1) (ses_other ses 0 db) =
     (case c of Completed resp \<Rightarrow> Inr (resp, True)
      | InProgress v \<Rightarrow> if v = Some (task_ID task) then Inr ([], False) else Inl errIdempotencyKeyInProgress, db)"
proof -
  have "claimable (calmed (ses_env ses 0)) (calmed (ses_env ses 1)) db (task_key key task) (task_ID task)"
    using assms(3) by (simp add: may_handle_def quietD(1) [OF assms(1)])
  from idem.begin_claimed [OF assms(2) this assms(4)] show ?thesis
    by (simp add: task_key_def quietD [OF assms(1)])
qed

lemma complete_claimed:
  assumes "quiet ses" "records_wf db" "may_handle ses db key task"
    and "claims db (task_key key task) = Some (InProgress (Some (task_ID task)))"
    and "pg_jsonb_in (ses_env ses 2) (normalizeJSON resp) = Some j"
  obtains db' where
    "CompleteIdempotentTask key (task_IdempotencyKey task) (task_ID task) resp (ses_env ses 2)
       (ses_other ses 2 db) = (Inr (), db')" "records_wf db'"
    "claims db' = (claims db)(task_key key task \<mapsto> Completed j)"
proof -
  have "claimable (calmed (ses_env ses 2)) (calmed (ses_env ses 2)) db (task_key key task) (task_ID task)"
    using assms(3) by (simp add: may_handle_def quietD(1) [OF assms(1)])
  from idem.complete_owner [OF assms(2) this assms(4), of resp j] assms(5) obtain db' where
    "CompleteIdempotentTask key (task_IdempotencyKey task) (task_ID task) resp (ses_env ses 2) db = (Inr (), db')"
    "records_wf db'" "claims db' = (claims db)(task_key key task \<mapsto> Completed j)"
    by (auto simp: task_key_def quietD(1) [OF assms(1)])
  then show thesis using that by (simp add: quietD(2) [OF assms(1)])
qed

lemma release_claimed:
  assumes "quiet ses" "records_wf db" "may_handle ses db key task"
    and "claims db (task_key key task) = Some (InProgress (Some (task_ID task)))"
  shows "claims (snd (ReleaseIdempotentTask key (task_IdempotencyKey task) (task_ID task) (ses_env ses n)
      (ses_other ses n db))) = (claims db)(task_key key task := None)"
proof -
  have "claimable (calmed (ses_env ses n)) (calmed (ses_env ses n)) db (task_key key task) (task_ID task)"
    using assms(3) by (simp add: may_handle_def quietD(1) [OF assms(1)])
  from idem.release_owner [OF assms(2) this] obtain db' where
    "ReleaseIdempotentTask key (task_IdempotencyKey task) (task_ID task) (ses_env ses n) db = (Inr (), db')"
    "claims db' = (if claims db (task_key key task) = Some (InProgress (Some (task_ID task)))
       then (claims db)(task_key key task := None) else claims db)"
    by (auto simp: task_key_def quietD(1) [OF assms(1)])
  with assms(4) show ?thesis by (simp add: quietD(2) [OF assms(1)])
qed

lemma complete_refused:
  assumes "quiet ses" "records_wf db" "may_handle ses db key task"
    and "pg_jsonb_in (ses_env ses 2) (normalizeJSON resp) = None"
  obtains e where
    "CompleteIdempotentTask key (task_IdempotencyKey task) (task_ID task) resp (ses_env ses 2)
       (ses_other ses 2 db) = (Inl e, db)"
proof -
  have c: "claimable (calmed (ses_env ses 2)) (calmed (ses_env ses 2)) db (task_key key task) (task_ID task)"
    using assms(3) by (simp add: may_handle_def quietD(1) [OF assms(1)])
  have "pg_jsonb_in (calmed (ses_env ses 2)) (normalizeJSON resp) = None" using assms(4) by simp
  from idem.complete_rejected [OF assms(2) c this] obtain e where
    e: "CompleteIdempotentTask (fst (task_key key task)) (snd (task_key key task)) (task_ID task) resp
      (calmed (ses_env ses 2)) db = (Inl e, db)" by blast
  show thesis
    by (rule that [of e]) (use e in \<open>simp add: task_key_def quietD [OF assms(1)]\<close>)
qed

lemma may_handle_tasks:
  "task_instances db' = task_instances db \<Longrightarrow> may_handle ses db' key task = may_handle ses db key task"
  by (simp add: may_handle_def claimable_def)

section \<open>Once per key\<close>

lemma handle_with_stores:
  assumes "quiet ses" "records_wf db" "may_handle ses db key task" "claims db (task_key key task) = None"
    and "handle_with key e respond True task ses db = (Inr resp, db')"
  shows "\<exists>j. pg_jsonb_in (ses_env ses 2) (normalizeJSON resp) = Some j \<and> records_wf db' \<and>
     claims db' = (claims db)(task_key key task \<mapsto> Completed j)"
proof -
  from begin_free [OF assms(1-4)] obtain db1 where
    b: "BeginIdempotentTask key (task_IdempotencyKey task) (task_ID task) (ses_env ses 0) (ses_other ses 1)
       (ses_env ses 1) (ses_other ses 0 db) = (Inr ([], False), db1)"
    and db1: "records_wf db1" "claims db1 = (claims db)(task_key key task \<mapsto> InProgress (Some (task_ID task)))"
      "task_instances db1 = task_instances db" .
  have may1: "may_handle ses db1 key task" using assms(3) by (simp add: may_handle_tasks [OF db1(3)])
  have own: "claims db1 (task_key key task) = Some (InProgress (Some (task_ID task)))" by (simp add: db1(2))
  have fin: "CompleteIdempotentTask key (task_IdempotencyKey task) (task_ID task) resp (ses_env ses 2)
      (ses_other ses 2 db1) = (Inr (), db')"
    using assms(5) by (auto simp: handle_with_def Let_def b json_marshal_def simp del: One_nat_def
        split: sum.splits prod.splits if_splits)
  have "pg_jsonb_in (ses_env ses 2) (normalizeJSON resp) \<noteq> None"
    by (rule notI, erule complete_refused [OF assms(1) db1(1) may1]) (simp add: fin)
  then obtain j where j: "pg_jsonb_in (ses_env ses 2) (normalizeJSON resp) = Some j" by blast
  from complete_claimed [OF assms(1) db1(1) may1 own j] fin db1(2) j show ?thesis by auto
qed

lemma handle_with_answers:
  assumes "quiet ses" "records_wf db" "may_handle ses db key task"
    and "claims db (task_key key task) = Some (Completed j)"
  shows "handle_with key e respond True task ses db = (Inr j, db)"
  by (simp add: handle_with_def Let_def begin_answered [OF assms] del: One_nat_def)

text \<open>
  C14.  The first successful run of a handler stores its response under the idempotency key; every
  later run for that key, of the same or of another task, answers with the stored response and
  leaves the database alone.  So however often a message is delivered, the key's work is done once.
\<close>

theorem response_stored_once:
  assumes "quiet ses" "records_wf db"
    and "(key, handle) = (SampleEchoHandler_Key, SampleEchoHandler_Handle True) \<or>
         (key, handle) = (NotificationSendHandler_Key, NotificationSendHandler_Handle True)"
    and "may_handle ses db key task" "claims db (key, task_IdempotencyKey task) = None"
    and "handle task ses db = (Inr resp, db')"
  shows "\<exists>j. pg_jsonb_in (ses_env ses 2) (normalizeJSON resp) = Some j \<and>
     claims db' = (claims db)((key, task_IdempotencyKey task) \<mapsto> Completed j) \<and>
     (\<forall>ses2 task2. quiet ses2 \<and> may_handle ses2 db' key task2 \<and>
        task_IdempotencyKey task2 = task_IdempotencyKey task \<longrightarrow> handle task2 ses2 db' = (Inr j, db'))"
proof -
  from assms(3) obtain e respond where h: "handle = handle_with key e respond True"
    by (auto simp: SampleEchoHandler_Handle_def NotificationSendHandler_Handle_def)
  have k: "task_key key t = (key, task_IdempotencyKey t)" for t by (simp add: task_key_def)
  from handle_with_stores [OF assms(1,2,4), unfolded k, OF assms(5) assms(6) [unfolded h]] obtain j where
    j: "pg_jsonb_in (ses_env ses 2) (normalizeJSON resp) = Some j" "records_wf db'"
      "claims db' = (claims db)((key, task_IdempotencyKey task) \<mapsto> Completed j)" by blast
  have "handle task2 ses2 db' = (Inr j, db')"
    if "quiet ses2" "may_handle ses2 db' key task2" "task_IdempotencyKey task2 = task_IdempotencyKey task"
    for ses2 task2
    unfolding h by (rule handle_with_answers [OF that(1) j(2) that(2)]) (simp add: k that(3) j(3))
  with j show ?thesis by blast
qed

text \<open>
  A handler whose input does not decode, or whose response cannot be stored, gives its claim
  back: afterwards the key is free again and a retry or another task can claim it.
\<close>

lemma failed_handler_releases:
  assumes "quiet ses" "records_wf db"
    and "(key, handle) = (SampleEchoHandler_Key, SampleEchoHandler_Handle True) \<or>
         (key, handle) = (NotificationSendHandler_Key, NotificationSendHandler_Handle True)"
    and "may_handle ses db key task" "claims db (key, task_IdempotencyKey task) = None"
    and "handle task ses db = (Inl err, db')"
  shows "claims db' = claims db"
proof -
  from assms(3) obtain e respond where h: "handle = handle_with key e respond True"
    by (auto simp: SampleEchoHandler_Handle_def NotificationSendHandler_Handle_def)
  have k: "task_key key t = (key, task_IdempotencyKey t)" for t by (simp add: task_key_def)
  from begin_free [OF assms(1,2,4), unfolded k, OF assms(5)] obtain db1 where
    b: "BeginIdempotentTask key (task_IdempotencyKey task) (task_ID task) (ses_env ses 0) (ses_other ses 1)
       (ses_env ses 1) (ses_other ses 0 db) = (Inr ([], False), db1)"
    and db1: "records_wf db1"
      "claims db1 = (claims db)((key, task_IdempotencyKey task) \<mapsto> InProgress (Some (task_ID task)))"
      "task_instances db1 = task_instances db" .
  have may1: "may_handle ses db1 key task" using assms(4) by (simp add: may_handle_tasks [OF db1(3)])
  have own: "claims db1 (task_key key task) = Some (InProgress (Some (task_ID task)))" by (simp add: db1(2) k)
  note released = release_claimed [OF assms(1) db1(1) may1 own]
  have freed: "(claims db1)((key, task_IdempotencyKey task) := None) = claims db"
    using assms(5) by (auto simp: db1(2))
  have refused: "db2 = db1"
    if "CompleteIdempotentTask key (task_IdempotencyKey task) (task_ID task) resp (ses_env ses 2)
      (ses_other ses 2 db1) = (Inl er, db2)" for resp er db2
  proof (cases "pg_jsonb_in (ses_env ses 2) (normalizeJSON resp)")
    case None
    from complete_refused [OF assms(1) db1(1) may1 None] that show ?thesis by auto
  next
    case (Some j)
    from complete_claimed [OF assms(1) db1(1) may1 own Some] that show ?thesis by auto
  qed
  from assms(6) show ?thesis
    by (auto simp: h handle_with_def Let_def b json_marshal_def released [unfolded k] freed
        simp del: One_nat_def dest!: refused split: sum.splits prod.splits if_splits)
qed

section \<open>On the concrete server\<close>

text \<open>Connections to the concrete server with nobody else around.\<close>

definition demo_session :: "string \<Rightarrow> session" where
  "demo_session tag = \<lparr>ses_env = (\<lambda>n. demo_env (tag @ replicate n (CHR ''-'')) 100),
     ses_other = (\<lambda>_. id), ses_rfc3339 = ''1970-01-01T00:00:00Z'', ses_float64 = Some\<rparr>"

lemma demo_session_fields [simp]:
  "ses_env (demo_session tag) n = demo_env (tag @ replicate n (CHR ''-'')) 100"
  "ses_other (demo_session tag) n = id" "ses_rfc3339 (demo_session tag) = ''1970-01-01T00:00:00Z''"
  "ses_float64 (demo_session tag) = Some"
  by (simp_all add: demo_session_def)

lemma demo_session_quiet: "quiet (demo_session tag)"
  by (simp add: quiet_def)

lemma demo_may_handle:
  assumes "task_ID task = ''ue..''" "task_IdempotencyKey task = ''ue.:a''" "CHR 0x00 \<notin> set key"
  shows "may_handle (demo_session tag) demo_db key task"
  using assms by (simp add: may_handle_def claimable_def task_key_def demo_uuid_in_def demo_db_eq)

lemma demo_unclaimed: "claims demo_db k = None" "records_wf demo_db"
  by (simp_all add: claims_def records_wf_def demo_db_eq)

definition demo_input :: "string \<Rightarrow> TaskInstance" where
  "demo_input input = (scanTaskInstance demo_task)\<lparr>task_InputJSON := input\<rparr>"

lemma demo_input_fields [simp]:
  "task_ID (demo_input input) = ''ue..''" "task_IdempotencyKey (demo_input input) = ''ue.:a''"
  "task_InputJSON (demo_input input) = input"
  by (simp_all add: demo_input_def scanTaskInstance_def)

lemma demo_decode:
  "json_unmarshal (unmarshal_any_map Some) ''{}'' = Inr (JObj [])"
  "isl (json_unmarshal (unmarshal_any_map Some) ''[]'')"
  by code_simp+

lemma json_print_obj_not_Nil [simp]: "json_print (JObj ms) \<noteq> []"
  by simp

lemma demo_handled:
  "\<exists>resp db'. SampleEchoHandler_Handle True (demo_input ''{}'') (demo_session ''h'') demo_db = (Inr resp, db') \<and>
     task_instances db' = [demo_task]"
  by (simp add: SampleEchoHandler_Handle_def handle_with_def Let_def BeginIdempotentTask_def run_defs
      sql_insert_idempotency_def demo_defs demo_db_eq demo_decode CompleteIdempotentTask_def
      sql_update_idempotency_completed_def SampleEchoHandler_Key_def json_marshal_def normalizeJSON_def
      owned_by_def ir_key_def sample_response_def)

theorem response_stored_once_witness:
  "\<exists>resp db' j. SampleEchoHandler_Handle True (demo_input ''{}'') (demo_session ''h'') demo_db = (Inr resp, db') \<and>
     claims db' = (claims demo_db)((SampleEchoHandler_Key, ''ue.:a'') \<mapsto> Completed j) \<and>
     SampleEchoHandler_Handle True (demo_input ''{}'') (demo_session ''k'') db' = (Inr j, db')"
proof -
  obtain resp db' where
    run: "SampleEchoHandler_Handle True (demo_input ''{}'') (demo_session ''h'') demo_db = (Inr resp, db')"
    and tasks: "task_instances db' = [demo_task]" using demo_handled by blast
  have may: "may_handle (demo_session tag) demo_db SampleEchoHandler_Key (demo_input input)" for tag input
    by (rule demo_may_handle) (simp_all add: SampleEchoHandler_Key_def)
  have "task_instances db' = task_instances demo_db" by (simp add: tasks demo_db_eq)
  then have may': "may_handle (demo_session tag) db' SampleEchoHandler_Key (demo_input input)" for tag input
    using may by (simp add: may_handle_tasks [of db' demo_db])
  from response_stored_once [where key = SampleEchoHandler_Key and handle = "SampleEchoHandler_Handle True",
      OF demo_session_quiet demo_unclaimed(2) _ may _ run] demo_unclaimed(1)
  obtain j where "claims db' = (claims demo_db)((SampleEchoHandler_Key, ''ue.:a'') \<mapsto> Completed j)"
    "\<forall>ses2 task2. quiet ses2 \<and> may_handle ses2 db' SampleEchoHandler_Key task2 \<and>
        task_IdempotencyKey task2 = ''ue.:a'' \<longrightarrow> SampleEchoHandler_Handle True task2 ses2 db' = (Inr j, db')"
    by auto
  with run may' [of "''k''"] demo_session_quiet show ?thesis by fastforce
qed

end
