(* ===== verification/WorkerProps.thy ===== *)
theory WorkerProps
  imports Worker ServiceProps HandlerProps Dispatch
begin

text \<open>
  The properties of the worker: every message is accounted for once, a message is acknowledged
  only when its task is settled in the database, and the retry policy.  They hold whatever other
  sessions commit between the worker's store calls, as long as those keep the store's invariants.
\<close>

section \<open>Surroundings of the worker\<close>

definition benign :: "(string \<Rightarrow> string option) \<Rightarrow> (pg \<Rightarrow> pg) \<Rightarrow> bool" where
  "benign U f \<longleftrightarrow> (\<forall>db. store_ok U db \<longrightarrow> store_ok U (f db) \<and> tasks_grow db (f db))"

definition run_ok :: "(string \<Rightarrow> string option) \<Rightarrow> worker_run \<Rightarrow> bool" where
  "run_ok U run \<longleftrightarrow> (\<forall>n. server U (env_at run n)) \<and> (\<forall>n. benign U (at_call run n))"

definition handler_ok :: "(string \<Rightarrow> string option) \<Rightarrow> handler \<Rightarrow> session \<Rightarrow> bool" where
  "handler_ok U h ses \<longleftrightarrow> (\<forall>task. benign U (\<lambda>db. snd (h task ses db)))"

definition registry_ok :: "(string \<Rightarrow> string option) \<Rightarrow> registry \<Rightarrow> worker_run \<Rightarrow> bool" where
  "registry_ok U reg run \<longleftrightarrow> (\<forall>key h. reg key = Some h \<longrightarrow> handler_ok U h (wr_handler run))"

lemma tasks_growD: "tasks_grow db db' \<Longrightarrow> u \<in> ti_id ` set (task_instances db) \<Longrightarrow> u \<in> ti_id ` set (task_instances db')"
  by (auto simp: tasks_grow_def)

lemma tasks_grow_refl [simp]: "tasks_grow db db"
  by (simp add: tasks_grow_def)

lemma tasks_grow_trans: "tasks_grow a b \<Longrightarrow> tasks_grow b c \<Longrightarrow> tasks_grow a c"
  by (auto simp: tasks_grow_def)

lemma benignD:
  assumes "benign U f" "store_ok U db"
  shows "store_ok U (f db)" "tasks_grow db (f db)"
  using assms by (simp_all add: benign_def)

lemma run_okD:
  assumes "run_ok U run"
  shows "server U (env_at run n)" "benign U (at_call run n)"
  using assms by (simp_all add: run_ok_def)

lemma select_exists: "u \<in> ti_id ` set rows \<Longrightarrow> \<exists>r. select_by ti_id u rows = Some r"
  by (metis not_Some_eq select_by_None)

section \<open>What the final store call leaves behind\<close>

lemma select_after_upd:
  assumes "same_task_keys f" "select_by ti_id u (task_instances db) = Some r"
  shows "select_by ti_id u (task_instances (upd_task u f db)) = Some (f r)"
  using assms by (simp add: select_upd_task)

lemma fail_leaves:
  assumes "server U env" "store_ok U db" "U t = Some u"
    and "FailTaskAttempt t a err env db = (Inr x, db')"
  shows "\<exists>r. select_by ti_id u (task_instances db) = Some r \<and>
     select_by ti_id u (task_instances db') =
       Some (set_task_dead_lettered (pg_now env) (Store.truncate err 1000) r)"
  using assms(4) unfolding FailTaskAttempt_def
  by (elim run_tx_InrE fail_effect [OF env_ids [OF assms(1,2)]])
     (use assms(3) in \<open>simp add: serverD(2) [OF assms(1)] upd_defs select_update_by_same set_task_defs\<close>)

lemma complete_leaves:
  assumes "server U env" "store_ok U db" "U t = Some u"
    and "CompleteTaskAttempt t a out env db = (Inr x, db')"
  shows "\<exists>r j. select_by ti_id u (task_instances db) = Some r \<and>
     select_by ti_id u (task_instances db') = Some (set_task_succeeded (pg_now env) j r)"
  using assms(4) unfolding CompleteTaskAttempt_def
  by (elim run_tx_InrE complete_effect_tx [OF env_ids [OF assms(1,2)]])
     (use assms(3) in \<open>auto simp: serverD(2) [OF assms(1)] upd_defs select_update_by_same set_task_defs\<close>)

lemma complete_next_leaves:
  assumes "server U env" "store_ok U db" "U t = Some u"
    and "CompleteTaskAttemptAndEnqueueNextTask t a name hkey out env db = (Inr x, db')"
  shows "\<exists>r j. select_by ti_id u (task_instances db) = Some r \<and>
     select_by ti_id u (task_instances db') = Some (set_task_succeeded (pg_now env) j r)"
  using assms(4) unfolding CompleteTaskAttemptAndEnqueueNextTask_def
  by (elim run_tx_InrE complete_next_effect [OF serverD(1) [OF assms(1)] env_ids [OF assms(1,2)]])
     (use assms(3) in \<open>auto simp: serverD(2) [OF assms(1)] upd_defs select_update_by_same set_task_defs\<close>)

lemma retry_leaves:
  assumes "server U env" "U t = Some u" "u \<in> ti_id ` set (task_instances db)"
    and "ScheduleTaskRetry t a err at env db = (Inr x, db')"
  shows "\<exists>r. select_by ti_id u (task_instances db) = Some r \<and>
     select_by ti_id u (task_instances db') =
       Some (set_task_retry (pg_now env) (Store.truncate err 1000) (pg_timestamptz_in env at) r)"
  using assms(4) select_exists [OF assms(3)] unfolding ScheduleTaskRetry_def
  by (elim run_tx_InrE schedule_retry_effect)
     (use assms(2) in \<open>auto simp: serverD(2) [OF assms(1)] upd_defs select_update_by_same set_task_defs\<close>)

lemma perform_store_ok:
  assumes "server U env" "store_ok U db"
  shows "store_ok U (perform c env db)"
  using assms by (rule store_inv.perform_keeps)

lemma start_leaves:
  assumes "server U env" "store_ok U db"
    and "StartTaskAttempt t env db = (Inr (task, attempt, already), db')"
  obtains u r where "U t = Some u" "U u = Some u" "store_ok U db'"
    "select_by ti_id u (task_instances db') = Some r" "task = scanTaskInstance r"
    "already \<longleftrightarrow> ti_status r = TaskStatusSucceeded \<or> ti_status r = TaskStatusDeadLettered"
    "\<not> already \<Longrightarrow> ti_status r = TaskStatusRunning \<and> att_AttemptNumber attempt = ti_attempts_total r"
proof -
  have ok: "store_ok U db'"
    using perform_store_ok [OF assms(1,2), of "CallStartTaskAttempt t"] assms(3) by simp
  obtain s where s: "start_attempt_tx t env \<lparr>tx_db = db, tx_rt = 1\<rparr> = Inr ((task, attempt, already), s)"
      and db': "db' = tx_db s"
    using assms(3) unfolding StartTaskAttempt_def by (rule run_tx_InrE)
  from s show thesis
  proof (cases rule: start_attempt_effect)
    case (finished u r)
    then show thesis using that [of u r] ok db' serverD(2) [OF assms(1)]
        uuid_canonical_in [OF serverD(1) [OF assms(1)] finished(1)] by auto
  next
    case (started u r v i)
    note canon = uuid_canonical_in [OF serverD(1) [OF assms(1)] started(1)]
    then have "v = u" using started(5) by simp
    then have "select_by ti_id u (task_instances db') = Some (set_task_running (pg_now env) i r)"
      using started(2,10) by (simp add: db' upd_task_def select_update_by_same set_task_running_def)
    then show thesis using that [of u "set_task_running (pg_now env) i r"] ok started canon
        serverD(2) [OF assms(1)] \<open>v = u\<close>
      by (auto simp: db' set_task_running_def scanTaskAttempt_def new_attempt_def)
  qed
qed

lemma load_keeps:
  assumes "run_ok U run" "store_ok U db" "GetWorkflowSpecAndTaskSpecByTaskID t run db = (res, db')"
  shows "store_ok U db'"
proof -
  have "store_ok U (at_call run n d)" if "store_ok U d" for n d
    using run_okD(2) [OF assms(1)] that by (simp add: benign_def)
  then show ?thesis using assms(2,3)
    by (auto simp: GetWorkflowSpecAndTaskSpecByTaskID_def Let_def split: sum.splits)
qed

lemma finish_eq:
  "finish key outcome extra err db = ((e, ms), db') \<longleftrightarrow>
     e = err \<and> db' = db \<and> ms = TasksProcessed key outcome # extra @ [TaskProcessingDuration key outcome]"
  by (auto simp: finish_def)

lemmas persist_defs = persist_missing_handler_def persist_handler_error_def persist_output_def

lemma persist_settles:
  assumes "run_ok U run" "store_ok U db" "U (task_ID task) = Some u"
    and "u \<in> ti_id ` set (task_instances db)"
  shows "persist_missing_handler key task attempt run db = ((None, ms), db') \<Longrightarrow>
           \<exists>r. select_by ti_id u (task_instances db') = Some r \<and> settled r"
    and "persist_handler_error key tspec task attempt err run db = ((None, ms), db') \<Longrightarrow>
           \<exists>r. select_by ti_id u (task_instances db') = Some r \<and> settled r"
    and "persist_output key spec task attempt out run db = ((None, ms), db') \<Longrightarrow>
           \<exists>r. select_by ti_id u (task_instances db') = Some r \<and> settled r"
proof -
  note env = run_okD(1) [OF assms(1), of 4]
  note ok = benignD(1) [OF run_okD(2) [OF assms(1)] assms(2), of 4]
  have mem: "u \<in> ti_id ` set (task_instances (at_call run 4 db))"
    using tasks_growD [OF benignD(2) [OF run_okD(2) [OF assms(1)] assms(2)] assms(4)] .
  note leaves = fail_leaves [OF env ok assms(3)] complete_leaves [OF env ok assms(3)]
    complete_next_leaves [OF env ok assms(3)] retry_leaves [OF env assms(3) mem]
  show "persist_missing_handler key task attempt run db = ((None, ms), db') \<Longrightarrow>
      \<exists>r. select_by ti_id u (task_instances db') = Some r \<and> settled r"
    by (auto simp: persist_missing_handler_def Let_def finish_eq settled_def set_task_defs
        split: prod.splits sum.splits dest!: leaves)
  show "persist_handler_error key tspec task attempt err run db = ((None, ms), db') \<Longrightarrow>
      \<exists>r. select_by ti_id u (task_instances db') = Some r \<and> settled r"
    by (auto simp: persist_handler_error_def Let_def finish_eq settled_def set_task_defs
        split: prod.splits sum.splits if_splits dest!: leaves)
  show "persist_output key spec task attempt out run db = ((None, ms), db') \<Longrightarrow>
      \<exists>r. select_by ti_id u (task_instances db') = Some r \<and> settled r"
    by (auto simp: persist_output_def finish_eq settled_def set_task_defs
        split: prod.splits sum.splits option.splits dest!: leaves)
qed

section \<open>Acknowledged means settled\<close>

lemma acknowledged_settled:
  assumes "run_ok U run" "registry_ok U reg run" "store_ok U db"
    and "HandleDispatchedTask reg message run db = ((None, metrics), db')"
  shows "\<exists>u r. U (msg_TaskID message) = Some u \<and> select_by ti_id u (task_instances db') = Some r \<and> settled r"
proof -
  obtain spec tspec0 db1 where load:
      "GetWorkflowSpecAndTaskSpecByTaskID (msg_TaskID message) run db = (Inr (spec, tspec0), db1)"
    using assms(4) by (auto simp: HandleDispatchedTask_def Let_def finish_eq split: prod.splits sum.splits)
  obtain task attempt already db2 where start:
      "StartTaskAttempt (msg_TaskID message) (env_at run 3) (at_call run 3 db1) =
         (Inr (task, attempt, already), db2)"
    using assms(4) load by (auto simp: HandleDispatchedTask_def Let_def finish_eq split: prod.splits sum.splits)
  have "store_ok U (at_call run 3 db1)"
    using load_keeps [OF assms(1,3) load] benignD(1) [OF run_okD(2) [OF assms(1)]] by blast
  from start_leaves [OF run_okD(1) [OF assms(1)] this start] obtain u r where
    u: "U (msg_TaskID message) = Some u" "U u = Some u" and ok2: "store_ok U db2"
    and r: "select_by ti_id u (task_instances db2) = Some r" "task = scanTaskInstance r"
    and already: "already \<longleftrightarrow> ti_status r = TaskStatusSucceeded \<or> ti_status r = TaskStatusDeadLettered"
    by metis
  show ?thesis
  proof (cases already)
    case True
    then have "db' = db2" using assms(4) load start by (simp add: HandleDispatchedTask_def Let_def finish_eq)
    then show ?thesis using u r already True by (auto simp: settled_def)
  next
    case False
    let ?tspec = "if spec_MaxAttempts tspec0 = 0 then tspec0\<lparr>spec_MaxAttempts := 1\<rparr> else tspec0"
    have run: "run_handler reg (msg_HandlerKey message) spec ?tspec task attempt run db2 =
        ((None, metrics), db')"
      using assms(4) load start False by (simp add: HandleDispatchedTask_def Let_def)
    have tid: "U (task_ID task) = Some u"
      using u(2) select_by_key [OF r(1)] r(2) by (simp add: scanTaskInstance_def)
    have mem: "u \<in> ti_id ` set (task_instances db2)" using r(1) by (metis imageI select_by_SomeD)
    have "\<exists>r. select_by ti_id u (task_instances db') = Some r \<and> settled r"
    proof (cases "reg (task_HandlerKey task)")
      case None
      then show ?thesis
        using run persist_settles(1) [OF assms(1) ok2 tid mem]
        by (simp add: run_handler_def registry_Get_def)
    next
      case (Some h)
      then have "benign U (\<lambda>db. snd (h task (wr_handler run) db))"
        using assms(2) by (simp add: registry_ok_def handler_ok_def)
      from benignD [OF this ok2] have keep: "store_ok U (snd (h task (wr_handler run) db2))"
        "u \<in> ti_id ` set (task_instances (snd (h task (wr_handler run) db2)))"
        using mem by (auto dest: tasks_growD)
      then show ?thesis
        using run Some persist_settles(2,3) [OF assms(1) keep(1) tid keep(2)]
        by (cases "h task (wr_handler run) db2"; cases "fst (h task (wr_handler run) db2)")
           (auto simp: run_handler_def registry_Get_def)
    qed
    then show ?thesis using u(1) by blast
  qed
qed

text \<open>A worker with its own connections to the concrete server, alone in the world.\<close>

definition demo_run :: worker_run where
  "demo_run = \<lparr>wr_store = demo_session ''w'', wr_handler = demo_session ''h'', wr_now = 100,
     wr_error_text = (\<lambda>_. ''library error''), wr_is_print = (\<lambda>_. True)\<rparr>"

definition demo_message :: TaskMessage where
  "demo_message = \<lparr>msg_TaskID = ''ue..'', msg_ExecutionID = ''ue.'', msg_HandlerKey = ''sample.echo''\<rparr>"

lemma demo_run_fields [simp]:
  "env_at demo_run n = demo_env (''w'' @ replicate n (CHR ''-'')) 100" "at_call demo_run n = id"
  by (simp_all add: env_at_def at_call_def demo_run_def demo_session_def fun_eq_iff)

lemma demo_run_ok: "run_ok demo_uuid_in demo_run"
  by (simp add: run_ok_def benign_def del: append.simps append_Cons)

lemma demo_load:
  "GetWorkflowSpecAndTaskSpecByTaskID ''ue..'' demo_run demo_db = (Inr (demo_spec, demo_spec_a), demo_db)"
  by (simp add: GetWorkflowSpecAndTaskSpecByTaskID_def Let_def GetTaskInstance_def GetWorkflowExecution_def
      GetWorkflowDefinition_def pool_query_def sql_select_task_def sql_select_execution_def
      sql_select_definition_def with_uuid_def demo_uuid_in_def one_row_def demo_db_eq scan_defs
      demo_definition_accepted demo_task_def)

lemma demo_start:
  "\<exists>attempt db'. StartTaskAttempt ''ue..'' (demo_env tag 100) demo_db =
     (Inr (scanTaskInstance (set_task_running 100 1 demo_task), attempt, False), db') \<and>
     task_instances db' = [set_task_running 100 1 demo_task] \<and> att_ID attempt \<noteq> [] \<and>
     att_AttemptNumber attempt = 1"
  by (simp add: StartTaskAttempt_def start_attempt_tx_def run_defs demo_defs
      int4_max_def Let_def scanTaskInstance_def scanTaskAttempt_def demo_db_eq set_task_running_def)

lemma demo_quote: "go_quote (\<lambda>_. True) ''sample.echo'' = [CHR 0x22] @ ''sample.echo'' @ [CHR 0x22]"
  by code_simp

lemma demo_handle:
  "\<exists>db'' metrics. HandleDispatchedTask Map.empty demo_message demo_run demo_db = ((None, metrics), db'')"
proof -
  obtain attempt db' where start: "StartTaskAttempt ''ue..'' (demo_env ''w---'' 100) demo_db =
     (Inr (scanTaskInstance (set_task_running 100 1 demo_task), attempt, False), db')"
     and db': "task_instances db' = [set_task_running 100 1 demo_task]" "att_ID attempt \<noteq> []"
    using demo_start [of "''w---''"] by blast
  have "\<exists>db''. FailTaskAttempt ''ue..'' (att_ID attempt) err (demo_env tag 100) db' = (Inr (), db'')"
    if "CHR 0x00 \<notin> set err" for err tag
    using that db' in_set_takeD
    by (fastforce simp: FailTaskAttempt_def fail_attempt_tx_def run_defs demo_defs set_task_running_def
        Store.truncate_def)
  from this [of "''no handler registered for '' @ go_quote (wr_is_print demo_run) ''sample.echo''"
      "''w----''"] obtain dbf where
    f: "FailTaskAttempt ''ue..'' (att_ID attempt)
      (''no handler registered for '' @ go_quote (wr_is_print demo_run) ''sample.echo'')
      (demo_env ''w----'' 100) db' = (Inr (), dbf)"
    by (auto simp: demo_run_def demo_quote)
  have t: "task_ID (scanTaskInstance (set_task_running 100 1 demo_task)) = ''ue..''"
    "task_HandlerKey (scanTaskInstance (set_task_running 100 1 demo_task)) = ''sample.echo''"
    by (simp_all add: scanTaskInstance_def set_task_running_def demo_task_def)
  show ?thesis using start f
    by (simp add: HandleDispatchedTask_def demo_message_def run_handler_def registry_Get_def demo_load t
       persist_missing_handler_def finish_def numeral_eq_Suc Let_def)
qed

lemma demo_no_handlers: "registry_ok demo_uuid_in Map.empty demo_run"
  by (simp add: registry_ok_def)

section \<open>Accounting\<close>

definition nil_outcomes :: "string list" where
  "nil_outcomes = [''duplicate'', ''missing_handler'', ''scheduled_retry'', ''failed'', ''advanced'', ''succeeded'']"

definition error_outcomes :: "string list" where
  "error_outcomes = [''task_spec_error'', ''db_error'', ''persist_error'']"

text \<open>The counters of one message with outcome \<open>outcome\<close>.\<close>

definition extra_counters :: "string \<Rightarrow> string \<Rightarrow> metric list" where
  "extra_counters key outcome =
     (if outcome = ''missing_handler'' then [DeadLetteredTasks key ''missing_handler'']
      else if outcome = ''scheduled_retry'' then [RetriesScheduled key]
      else if outcome = ''failed'' then [DeadLetteredTasks key ''exhausted_attempts'']
      else [])"

definition accounted :: "string \<Rightarrow> handled \<Rightarrow> bool" where
  "accounted key res \<longleftrightarrow> (\<exists>outcome.
     snd (fst res) =
       TasksProcessed key outcome # extra_counters key outcome @ [TaskProcessingDuration key outcome] \<and>
     outcome \<in> set (if fst (fst res) = None then nil_outcomes else error_outcomes))"

lemma accounted_finish:
  "accounted key (finish key outcome (extra_counters key outcome) err db) \<longleftrightarrow>
     outcome \<in> set (if err = None then nil_outcomes else error_outcomes)"
  by (auto simp: accounted_def finish_def)

lemma accounted_each [simp]:
  "accounted key (finish key ''task_spec_error'' [] (Some e) db)"
  "accounted key (finish key ''db_error'' [] (Some e) db)"
  "accounted key (finish key ''persist_error'' [] (Some e) db)"
  "accounted key (finish key ''duplicate'' [] None db)"
  "accounted key (finish key ''advanced'' [] None db)"
  "accounted key (finish key ''succeeded'' [] None db)"
  "accounted key (finish key ''missing_handler'' [DeadLetteredTasks key ''missing_handler''] None db)"
  "accounted key (finish key ''scheduled_retry'' [RetriesScheduled key] None db)"
  "accounted key (finish key ''failed'' [DeadLetteredTasks key ''exhausted_attempts''] None db)"
  using accounted_finish [of key "''task_spec_error''"] accounted_finish [of key "''db_error''"]
    accounted_finish [of key "''persist_error''"] accounted_finish [of key "''duplicate''"]
    accounted_finish [of key "''advanced''"] accounted_finish [of key "''succeeded''"]
    accounted_finish [of key "''missing_handler''"] accounted_finish [of key "''scheduled_retry''"]
    accounted_finish [of key "''failed''"]
  by (simp_all add: extra_counters_def nil_outcomes_def error_outcomes_def)

lemma accounted_persist:
  "accounted key (persist_missing_handler key task attempt run db)"
  "accounted key (persist_handler_error key tspec task attempt err run db)"
  "accounted key (persist_output key spec task attempt out run db)"
  by (auto simp: persist_defs Let_def split: prod.split sum.split option.split)

text \<open>
  Every message is counted exactly once, under the outcome its duration is recorded with and
  never under "unknown"; the retry and dead-letter counters are incremented exactly for the outcomes
  they belong to; and the worker returns nil, so that the message is acknowledged, exactly for the
  outcomes duplicate, missing_handler, scheduled_retry, failed, advanced and succeeded.
\<close>

lemma message_accounted_once:
  "accounted (msg_HandlerKey message) (HandleDispatchedTask reg message run db)"
  by (auto simp: HandleDispatchedTask_def Let_def run_handler_def registry_Get_def accounted_persist
      split: prod.split sum.split option.split)

section \<open>The retry policy\<close>

text \<open>
  C13.  When the handler of a started attempt fails and the worker can record it, the task is
  scheduled again at the clock plus the backoff if the attempt's number is below the task's
  \<^verbatim>\<open>max_attempts\<close> (1 when the definition gives 0), and otherwise it is dead-lettered; either way
  \<^verbatim>\<open>last_error_text\<close> is the first 1000 bytes of the handler's error.
\<close>

theorem failed_attempt_policy:
  assumes "run_ok U run" "registry_ok U reg run" "store_ok U db"
    and "GetWorkflowSpecAndTaskSpecByTaskID (msg_TaskID message) run db = (Inr (spec, tspec), db1)"
    and "StartTaskAttempt (msg_TaskID message) (env_at run 3) (at_call run 3 db1) =
           (Inr (task, attempt, False), db2)"
    and "reg (task_HandlerKey task) = Some h" "h task (wr_handler run) db2 = (Inl err, db3)"
    and "HandleDispatchedTask reg message run db = ((None, metrics), db')"
  shows "\<exists>u r. U (msg_TaskID message) = Some u \<and> select_by ti_id u (task_instances db') = Some r \<and>
     ti_last_error_text r = Some (Store.truncate (error_text (wr_error_text run) err) 1000) \<and>
     (if att_AttemptNumber attempt <
           (if spec_MaxAttempts tspec = 0 then 1 else spec_MaxAttempts tspec)
      then ti_status r = TaskStatusPending \<and>
        ti_next_run_at r = Some (pg_timestamptz_in (env_at run 4)
          (wr_now run + mul64 (spec_BackoffSeconds tspec) Second))
      else ti_status r = TaskStatusDeadLettered \<and> ti_next_run_at r = None)"
proof -
  have "store_ok U (at_call run 3 db1)"
    using load_keeps [OF assms(1,3,4)] benignD(1) [OF run_okD(2) [OF assms(1)]] by blast
  from start_leaves [OF run_okD(1) [OF assms(1)] this assms(5)] obtain u r where
    u: "U (msg_TaskID message) = Some u" "U u = Some u" and ok2: "store_ok U db2"
    and r: "select_by ti_id u (task_instances db2) = Some r" "task = scanTaskInstance r" by metis
  have tid: "U (task_ID task) = Some u"
    using u(2) select_by_key [OF r(1)] r(2) by (simp add: scanTaskInstance_def)
  have "benign U (\<lambda>db. snd (h task (wr_handler run) db))"
    using assms(2,6) by (simp add: registry_ok_def handler_ok_def)
  from benignD [OF this ok2] have ok3: "store_ok U db3" "u \<in> ti_id ` set (task_instances db3)"
    using assms(7) r(1) by (auto dest: tasks_growD intro: rev_image_eqI dest!: select_by_SomeD)
  note ok4 = benignD [OF run_okD(2) [OF assms(1)] ok3(1), of 4]
  note leaves = fail_leaves [OF run_okD(1) [OF assms(1)] ok4(1) tid]
    retry_leaves [OF run_okD(1) [OF assms(1)] tid tasks_growD [OF ok4(2) ok3(2)]]
  let ?tspec = "if spec_MaxAttempts tspec = 0 then tspec\<lparr>spec_MaxAttempts := 1\<rparr> else tspec"
  have "persist_handler_error (msg_HandlerKey message) ?tspec task attempt err run db3 =
      ((None, metrics), db')"
    using assms(4-8) by (simp add: HandleDispatchedTask_def Let_def run_handler_def registry_Get_def)
  then have "\<exists>r. select_by ti_id u (task_instances db') = Some r \<and>
     ti_last_error_text r = Some (Store.truncate (error_text (wr_error_text run) err) 1000) \<and>
     (if att_AttemptNumber attempt < spec_MaxAttempts ?tspec
      then ti_status r = TaskStatusPending \<and>
        ti_next_run_at r = Some (pg_timestamptz_in (env_at run 4)
          (wr_now run + mul64 (spec_BackoffSeconds ?tspec) Second))
      else ti_status r = TaskStatusDeadLettered \<and> ti_next_run_at r = None)"
    by (auto simp: persist_handler_error_def Let_def finish_eq set_task_defs next_run_at_def
        split: prod.splits sum.splits if_splits dest!: leaves)
  with u(1) show ?thesis by (auto split: if_splits)
qed

definition failing_registry :: registry where
  "failing_registry = [''sample.echo'' \<mapsto> (\<lambda>task ses db. (Inl (ErrorString ''boom''), db))]"

theorem failed_attempt_policy_witness:
  "\<exists>metrics db' r. HandleDispatchedTask failing_registry demo_message demo_run demo_db = ((None, metrics), db') \<and>
     select_by ti_id ''ue..'' (task_instances db') = Some r \<and> ti_status r = TaskStatusPending \<and>
     ti_next_run_at r = Some 100 \<and> ti_last_error_text r = Some ''boom''"
proof -
  obtain attempt db2 where start: "StartTaskAttempt ''ue..'' (demo_env ''w---'' 100) demo_db =
     (Inr (scanTaskInstance (set_task_running 100 1 demo_task), attempt, False), db2)"
     and db2: "task_instances db2 = [set_task_running 100 1 demo_task]" "att_ID attempt \<noteq> []"
       "att_AttemptNumber attempt = 1"
    using demo_start [of "''w---''"] by blast
  let ?task = "scanTaskInstance (set_task_running 100 1 demo_task)"
  have t: "task_ID ?task = ''ue..''" "task_HandlerKey ?task = ''sample.echo''"
    by (simp_all add: scanTaskInstance_def set_task_running_def demo_task_def)
  have mul: "mul64 0 Second = 0" by (simp add: mul64_def int64_def)
  have reg: "failing_registry (task_HandlerKey ?task) = Some (\<lambda>task ses db. (Inl (ErrorString ''boom''), db))"
    by (simp add: failing_registry_def t)
  have "\<exists>dbf. ScheduleTaskRetry ''ue..'' (att_ID attempt) ''boom'' 100 (demo_env ''w----'' 100) db2 = (Inr (), dbf)"
    using db2 by (simp add: ScheduleTaskRetry_def schedule_retry_tx_def run_defs demo_defs Store.truncate_def)
  then obtain dbf where
    f: "ScheduleTaskRetry ''ue..'' (att_ID attempt) ''boom'' 100 (demo_env ''w----'' 100) db2 = (Inr (), dbf)" ..
  have now: "wr_now demo_run = 100" by (simp add: demo_run_def)
  have "\<exists>db' metrics. HandleDispatchedTask failing_registry demo_message demo_run demo_db = ((None, metrics), db')"
    using start f db2(3)
    by (simp add: HandleDispatchedTask_def demo_message_def run_handler_def registry_Get_def demo_load
       reg [unfolded t] t persist_handler_error_def finish_def numeral_eq_Suc Let_def demo_spec_a_def next_run_at_def mul now)
  then obtain metrics db' where
    h: "HandleDispatchedTask failing_registry demo_message demo_run demo_db = ((None, metrics), db')" by blast
  have ok: "registry_ok demo_uuid_in failing_registry demo_run"
    by (simp add: registry_ok_def failing_registry_def handler_ok_def benign_def)
  have m: "msg_TaskID demo_message = ''ue..''" by (simp add: demo_message_def)
  have load: "GetWorkflowSpecAndTaskSpecByTaskID (msg_TaskID demo_message) demo_run demo_db =
      (Inr (demo_spec, demo_spec_a), demo_db)" by (simp add: m demo_load)
  have start': "StartTaskAttempt (msg_TaskID demo_message) (env_at demo_run 3) (at_call demo_run 3 demo_db) =
      (Inr (?task, attempt, False), db2)" using start by (simp add: m numeral_eq_Suc)
  from failed_attempt_policy [OF demo_run_ok ok reachable_store_ok [OF demo_reachable] load start' reg _ h]
  show ?thesis using h db2(3)
    by (auto simp: m demo_uuid_in_def demo_spec_a_def mul Store.truncate_def now)
qed

lemma int64_mod: "int64 i = (i + 9223372036854775808) mod 18446744073709551616 - 9223372036854775808"
  by (simp add: int64_def signed_of_int signed_take_bit_eq_take_bit_shift take_bit_eq_mod)

text \<open>
  C33.  The retry time is the clock plus the backoff in nanoseconds, computed in 64 bits: for every backoff the
  difference is the product wrapped into the range of \<^verbatim>\<open>int64\<close>.  It is exact precisely for backoffs of at most
  9223372036 seconds (either sign), falls short of every larger backoff, and for every backoff from there
  up to 18446744073 seconds, which validation accepts, it lies in the past, so that the retry runs at once.
\<close>

theorem backoff_exact_until_wrap:
  "next_run_at now b = now + ((b * 1000000000 + 2 ^ 63) mod 2 ^ 64 - 2 ^ 63) \<and>
   (next_run_at now b = now + b * 1000000000 \<longleftrightarrow> \<bar>b\<bar> \<le> 9223372036) \<and>
   (9223372036 < b \<longrightarrow> next_run_at now b < now + b * 1000000000) \<and>
   (9223372036 < b \<and> b \<le> 18446744073 \<longrightarrow> next_run_at now b < now)"
proof -
  let ?w = "(b * 1000000000 + 9223372036854775808) mod 18446744073709551616 - 9223372036854775808"
  have n: "next_run_at now b = now + ?w" by (simp add: next_run_at_def mul64_def Second_def int64_mod)
  have w: "- 9223372036854775808 \<le> ?w" "?w < 9223372036854775808" by simp_all
  have "?w = b * 1000000000 \<longleftrightarrow> \<bar>b\<bar> \<le> 9223372036"
  proof
    assume "?w = b * 1000000000"
    with w show "\<bar>b\<bar> \<le> 9223372036" by linarith
  next
    assume "\<bar>b\<bar> \<le> 9223372036"
    then have "b * 1000000000 + 9223372036854775808 \<ge> 0" "b * 1000000000 + 9223372036854775808 < 18446744073709551616" by linarith+
    then show "?w = b * 1000000000" by simp
  qed
  moreover have "?w < b * 1000000000" if "9223372036 < b" using w(2) that by linarith
  moreover have "?w < 0" if "9223372036 < b" "b \<le> 18446744073"
  proof -
    let ?x = "b * 1000000000 + 9223372036854775808"
    have "?x mod 18446744073709551616 = (?x - 18446744073709551616) mod 18446744073709551616"
      by (simp only: minus_mod_self2)
    also have "\<dots> = ?x - 18446744073709551616" using that by (intro mod_pos_pos_trivial) linarith+
    finally have "?x mod 18446744073709551616 = ?x - 18446744073709551616" .
    then show ?thesis using that by linarith
  qed
  ultimately show ?thesis unfolding n by simp
qed

theorem backoff_exact_until_wrap_witness:
  "next_run_at 5 30 = 30000000005 \<and> next_run_at 5 10000000000 < 5"
  using backoff_exact_until_wrap [of 5 30] backoff_exact_until_wrap [of 5 10000000000] by simp

end
