(* ===== verification/Engine.thy ===== *)
theory Engine
  imports OutboxProps WorkerProps
begin

text \<open>
  The engine as a whole: the database, the stream's unacknowledged entries, and any number of API
  servers, publishers and workers, interleaved call by call.  Each process may fail at any point and
  each call may fail or lose the reply to its commit.

  The steps are the calls of the components: a worker takes an entry, starts an attempt, ends it one
  of the four ways and acknowledges (\<^verbatim>\<open>processMessages\<close> and \<^verbatim>\<open>HandleDispatchedTask\<close>), a publisher lists
  events, sends and marks them (\<^verbatim>\<open>publishOnce\<close>); theory \<open>System\<close> shows that every interleaving of the
  processes running their code is a run of these steps.  The flag \<open>excl\<close> says whether an entry is delivered only
  while no other worker is still at it: Redis redelivers an entry after \<^verbatim>\<open>ReclaimMinIdle\<close>, so this
  holds as long as no handler runs longer than that.
\<close>

section \<open>States\<close>

datatype wphase =
    Idle
  | Holding nat TaskMessage
  | Started nat TaskMessage string string
  | Acking nat TaskMessage

fun entry_of :: "wphase \<Rightarrow> (nat \<times> TaskMessage) option" where
  "entry_of Idle = None"
| "entry_of (Holding k m) = Some (k, m)"
| "entry_of (Started k m t a) = Some (k, m)"
| "entry_of (Acking k m) = Some (k, m)"

datatype pphase = Publishing "OutboxEvent list" | Marking OutboxEvent "OutboxEvent list"

fun events_of :: "pphase \<Rightarrow> OutboxEvent list" where
  "events_of (Publishing evs) = evs"
| "events_of (Marking ev evs) = ev # evs"

record engine =
  en_db :: pg
  en_unacked :: "nat \<rightharpoonup> TaskMessage"
  en_next :: nat
  en_worker :: "nat \<Rightarrow> wphase"
  en_publisher :: "nat \<Rightarrow> pphase"

definition engine_start :: engine where
  "engine_start = \<lparr>en_db = empty_pg, en_unacked = Map.empty, en_next = 0, en_worker = (\<lambda>_. Idle),
     en_publisher = (\<lambda>_. Publishing [])\<rparr>"

definition set_worker :: "nat \<Rightarrow> wphase \<Rightarrow> engine \<Rightarrow> engine" where
  "set_worker w ph s = s\<lparr>en_worker := (en_worker s)(w := ph)\<rparr>"

definition set_publisher :: "nat \<Rightarrow> pphase \<Rightarrow> engine \<Rightarrow> engine" where
  "set_publisher p ph s = s\<lparr>en_publisher := (en_publisher s)(p := ph)\<rparr>"

definition add_entry :: "TaskMessage \<Rightarrow> engine \<Rightarrow> engine" where
  "add_entry m s = s\<lparr>en_unacked := (en_unacked s)(en_next s \<mapsto> m), en_next := Suc (en_next s)\<rparr>"

section \<open>Steps\<close>

text \<open>Calls that no worker or publisher step stands for: the API's, the handlers', and two of the publisher's.\<close>

fun free_call :: "store_call \<Rightarrow> bool" where
  "free_call (CallStartTaskAttempt _) = False"
| "free_call (CallCompleteTaskAttempt _ _ _) = False"
| "free_call (CallCompleteTaskAttemptAndEnqueueNextTask _ _ _ _ _) = False"
| "free_call (CallScheduleTaskRetry _ _ _ _) = False"
| "free_call (CallFailTaskAttempt _ _ _) = False"
| "free_call (CallMarkOutboxDispatched _) = False"
| "free_call _ = True"

text \<open>The calls an API request makes.\<close>

fun api_call :: "store_call \<Rightarrow> bool" where
  "api_call (CallCreateWorkflowDefinition _ _ _) = True"
| "api_call (CallCreateExecutionAndTask _ _ _ _) = True"
| "api_call (CallReplayDeadLetteredTask _) = True"
| "api_call _ = False"

text \<open>The four ways \<^verbatim>\<open>HandleDispatchedTask\<close> ends a started attempt.\<close>

datatype ending = Succeed string | Advance string string string | Retry string go_time | GiveUp string

fun end_attempt :: "ending \<Rightarrow> string \<Rightarrow> string \<Rightarrow> pgenv \<Rightarrow> pg \<Rightarrow> unit store_result" where
  "end_attempt (Succeed out) t a = CompleteTaskAttempt t a out"
| "end_attempt (Advance name hkey out) t a = CompleteTaskAttemptAndEnqueueNextTask t a name hkey out"
| "end_attempt (Retry err at) t a = ScheduleTaskRetry t a err at"
| "end_attempt (GiveUp err) t a = FailTaskAttempt t a err"

fun after_start :: "nat \<Rightarrow> TaskMessage \<Rightarrow> go_error + (TaskInstance \<times> TaskAttempt \<times> bool) \<Rightarrow> wphase" where
  "after_start k m (Inl e) = Idle"
| "after_start k m (Inr (task, attempt, alreadyCompleted)) =
     (if alreadyCompleted then Acking k m else Started k m (task_ID task) (att_ID attempt))"

fun after_end :: "nat \<Rightarrow> TaskMessage \<Rightarrow> go_error + unit \<Rightarrow> wphase" where
  "after_end k m (Inl e) = Idle"
| "after_end k m (Inr _) = Acking k m"

inductive engine_step :: "(string \<Rightarrow> string option) \<Rightarrow> bool \<Rightarrow> engine \<Rightarrow> engine \<Rightarrow> bool" for U excl where
  free: "engine_step U excl s (s\<lparr>en_db := perform c env (en_db s)\<rparr>)"
    if "faithful U env" and "free_call c"
| deliver: "engine_step U excl s (set_worker w (Holding k m) s)"
    if "en_worker s w = Idle" and "en_unacked s k = Some m"
    and "excl \<longrightarrow> (\<forall>v m'. entry_of (en_worker s v) \<noteq> Some (k, m'))"
| start: "engine_step U excl s (set_worker w (after_start k m res) (s\<lparr>en_db := db\<rparr>))"
    if "en_worker s w = Holding k m" and "faithful U env"
    and "StartTaskAttempt (msg_TaskID m) env (en_db s) = (res, db)"
| finish_attempt: "engine_step U excl s (set_worker w (after_end k m res) (s\<lparr>en_db := db\<rparr>))"
    if "en_worker s w = Started k m t a" and "faithful U env"
    and "end_attempt en t a env (en_db s) = (res, db)"
| ack: "engine_step U excl s (set_worker w Idle (s\<lparr>en_unacked := (en_unacked s)(k := None)\<rparr>))"
    if "en_worker s w = Acking k m"
| drop: "engine_step U excl s (set_worker w Idle s)"
| enlist: "engine_step U excl s (set_publisher p (Publishing events) s)"
    if "faithful U env" and "ListPendingOutbox limit env (en_db s) = Inr events"
| send: "engine_step U excl s (set_publisher p (if reported then Marking ev evs else Publishing evs) (add_entry m s))"
    if "en_publisher s p = Publishing (ev # evs)" and "message_text (evt_PayloadJSON ev) = Inr raw"
    and "xm_Values x ''payload'' = Some (XString raw)" and "decodeTaskMessage x = Inr m"
| skip: "engine_step U excl s (set_publisher p (Publishing evs) s)"
    if "en_publisher s p = Publishing (ev # evs)"
| mark: "engine_step U excl s
      (set_publisher p (Publishing (if isl res then [] else evs)) (s\<lparr>en_db := db\<rparr>))"
    if "en_publisher s p = Marking ev evs" and "faithful U env"
    and "MarkOutboxDispatched (evt_ID ev) env (en_db s) = (res, db)"
| stop: "engine_step U excl s (set_publisher p (Publishing []) s)"

abbreviation engine_steps :: "(string \<Rightarrow> string option) \<Rightarrow> bool \<Rightarrow> engine \<Rightarrow> engine \<Rightarrow> bool" where
  "engine_steps U excl \<equiv> (engine_step U excl)\<^sup>*\<^sup>*"

definition engine_reachable :: "(string \<Rightarrow> string option) \<Rightarrow> bool \<Rightarrow> engine \<Rightarrow> bool" where
  "engine_reachable U excl s \<longleftrightarrow> engine_steps U excl engine_start s"

section \<open>The invariant\<close>

definition marking :: "engine \<Rightarrow> string set" where
  "marking s = {evt_ID ev |ev p evs. en_publisher s p = Marking ev evs}"

text \<open>A task is announced by an event that is still to be sent, and carried by an entry still to be handled.\<close>

definition announced :: "engine \<Rightarrow> string \<Rightarrow> bool" where
  "announced s u \<longleftrightarrow> (\<exists>ob \<in> set (outbox_events (en_db s)).
     ob_dispatched_at ob = None \<and> ob_id ob \<notin> marking s \<and> ob_aggregate_id ob = u)"

definition carried :: "(string \<Rightarrow> string option) \<Rightarrow> engine \<Rightarrow> string \<Rightarrow> bool" where
  "carried U s u \<longleftrightarrow> (\<exists>k m. en_unacked s k = Some m \<and> U (msg_TaskID m) = Some u \<and>
     (\<forall>w m'. en_worker s w \<noteq> Acking k m'))"

definition covered :: "(string \<Rightarrow> string option) \<Rightarrow> engine \<Rightarrow> bool" where
  "covered U s \<longleftrightarrow> (\<forall>r \<in> set (task_instances (en_db s)).
     settled r \<or> announced s (ti_id r) \<or> carried U s (ti_id r))"

text \<open>Entries are handled by one worker at a time, and stay unacknowledged meanwhile.\<close>

definition workers_ok :: "(string \<Rightarrow> string option) \<Rightarrow> engine \<Rightarrow> bool" where
  "workers_ok U s \<longleftrightarrow>
     (\<forall>w k m. entry_of (en_worker s w) = Some (k, m) \<longrightarrow> en_unacked s k = Some m) \<and>
     (\<forall>v w k m m'. entry_of (en_worker s v) = Some (k, m) \<and> entry_of (en_worker s w) = Some (k, m') \<longrightarrow> v = w) \<and>
     (\<forall>w k m t a. en_worker s w = Started k m t a \<longrightarrow> U (msg_TaskID m) = Some t \<and> U t = Some t) \<and>
     (\<forall>k. en_next s \<le> k \<longrightarrow> en_unacked s k = None)"

definition publishers_ok :: "engine \<Rightarrow> bool" where
  "publishers_ok s \<longleftrightarrow> (\<forall>p. listed (en_db s) (events_of (en_publisher s p)))"

definition engine_ok :: "(string \<Rightarrow> string option) \<Rightarrow> engine \<Rightarrow> bool" where
  "engine_ok U s \<longleftrightarrow> store_ok U (en_db s) \<and> dispatch_ok U (en_db s) \<and> workers_ok U s \<and> publishers_ok s \<and> covered U s"

lemma set_fields [simp]:
  "en_db (set_worker w wp s) = en_db s" "en_unacked (set_worker w wp s) = en_unacked s"
  "en_next (set_worker w wp s) = en_next s" "en_publisher (set_worker w wp s) = en_publisher s"
  "en_worker (set_worker w wp s) = (en_worker s)(w := wp)"
  "en_db (set_publisher p pp s) = en_db s" "en_unacked (set_publisher p pp s) = en_unacked s"
  "en_next (set_publisher p pp s) = en_next s" "en_worker (set_publisher p pp s) = en_worker s"
  "en_publisher (set_publisher p pp s) = (en_publisher s)(p := pp)"
  "en_db (add_entry m s) = en_db s" "en_unacked (add_entry m s) = (en_unacked s)(en_next s \<mapsto> m)"
  "en_next (add_entry m s) = Suc (en_next s)" "en_worker (add_entry m s) = en_worker s"
  "en_publisher (add_entry m s) = en_publisher s"
  by (simp_all add: set_worker_def set_publisher_def add_entry_def)

lemma engine_okD:
  assumes "engine_ok U s"
  shows "store_ok U (en_db s)" "dispatch_ok U (en_db s)" "workers_ok U s" "publishers_ok s" "covered U s"
  using assms by (simp_all add: engine_ok_def)

lemma marking_listed:
  assumes "publishers_ok s"
  shows "marking s \<subseteq> ob_id ` set (outbox_events (en_db s))"
proof
  fix i assume "i \<in> marking s"
  then obtain ev p evs where e: "i = evt_ID ev" "en_publisher s p = Marking ev evs" by (auto simp: marking_def)
  have "listed (en_db s) (events_of (en_publisher s p))" using assms by (simp add: publishers_ok_def)
  then show "i \<in> ob_id ` set (outbox_events (en_db s))" using e by (auto simp: listed_def image_iff) metis
qed

subsection \<open>Calls\<close>

lemma announced_call:
  assumes "progress U A B (en_db s) db" "B \<subseteq> marking s" "announced s u"
  shows "announced (s\<lparr>en_db := db\<rparr>) u"
proof -
  from assms(3) obtain ob where ob: "ob \<in> set (outbox_events (en_db s))" "ob_dispatched_at ob = None"
      "ob_id ob \<notin> marking s" "ob_aggregate_id ob = u" by (auto simp: announced_def)
  from assms(1) ob(1) obtain ob' where "ob' \<in> set (outbox_events db)" "event_kept B ob ob'"
    by (rule progress_keeps_row)
  with ob assms(2) show ?thesis by (auto simp: announced_def marking_def event_kept_def same_event_def)
qed

lemma covered_call:
  assumes "engine_ok U s" "progress U A B (en_db s) db" "\<And>u. u \<in> A \<Longrightarrow> carried U s u" "B \<subseteq> marking s"
  shows "covered U (s\<lparr>en_db := db\<rparr>)"
proof -
  have carried: "carried U (s\<lparr>en_db := db\<rparr>) u \<longleftrightarrow> carried U s u" for u by (simp add: carried_def)
  have "settled r \<or> announced (s\<lparr>en_db := db\<rparr>) (ti_id r) \<or> carried U s (ti_id r)"
    if "r \<in> set (task_instances db)" for r
  proof -
    from assms(2) that obtain new where new: "set new \<subseteq> set (outbox_events db)"
        "\<forall>ob \<in> set new. new_event U (en_db s) ob" and "task_from A new (en_db s) r"
      unfolding progress_def by (metis Un_upper2 set_append)
    from this(3) consider "settled r"
      | q where "q \<in> set (task_instances (en_db s))" "ti_id q = ti_id r" "\<not> settled q"
      | ob where "ob \<in> set new" "ob_aggregate_id ob = ti_id r"
      | "ti_id r \<in> A" by (auto simp: task_from_def)
    then show ?thesis
    proof cases
      case (2 q)
      then show ?thesis using engine_okD(5) [OF assms(1)] announced_call [OF assms(2,4)]
        by (fastforce simp: covered_def)
    next
      case (3 ob)
      then have "ob_id ob \<notin> marking s"
        using new(2) marking_listed [OF engine_okD(4) [OF assms(1)]] by (auto simp: new_event_def)
      then have "announced (s\<lparr>en_db := db\<rparr>) (ti_id r)"
        using 3 new by (auto simp: announced_def marking_def new_event_def)
      then show ?thesis by blast
    qed (use assms(3) in blast)+
  qed
  then show ?thesis by (simp add: covered_def carried)
qed

lemma engine_ok_call:
  assumes "engine_ok U s" "faithful U env" "\<And>u. u \<in> started_by U c \<Longrightarrow> carried U s u" "marked_by U c \<subseteq> marking s"
  shows "engine_ok U (s\<lparr>en_db := perform c env (en_db s)\<rparr>)"
proof -
  note ok = engine_okD [OF assms(1)]
  have r: "ready U env (en_db s)" using assms(2) ok by (simp add: ready_def)
  note p = perform_progress [OF r, of c]
  have "publishers_ok (s\<lparr>en_db := perform c env (en_db s)\<rparr>)"
    using ok(4) listed_progress [OF p] by (simp add: publishers_ok_def)
  moreover have "workers_ok U (s\<lparr>en_db := perform c env (en_db s)\<rparr>)" using ok(3) by (simp add: workers_ok_def)
  ultimately show ?thesis
    using perform_ready [OF assms(2) ok(1,2)] covered_call [OF assms(1) p assms(3,4)] by (simp add: engine_ok_def)
qed

subsection \<open>Phases\<close>

lemma marking_worker [simp]: "marking (set_worker w ph s) = marking s"
  by (simp add: marking_def)

lemma announced_worker [simp]: "announced (set_worker w ph s) = announced s"
  by (simp add: announced_def fun_eq_iff)

lemma carried_worker:
  "carried U s u \<Longrightarrow> (\<And>k m. ph \<noteq> Acking k m) \<Longrightarrow> carried U (set_worker w ph s) u"
  unfolding carried_def by (metis fun_upd_apply set_fields(2,5))

lemma engine_ok_idle: "engine_ok U s \<Longrightarrow> engine_ok U (set_worker w Idle s)"
  using carried_worker [of U s _ Idle w]
  by (auto simp: engine_ok_def workers_ok_def publishers_ok_def covered_def)

lemma workers_okD:
  assumes "workers_ok U s" "entry_of (en_worker s w) = Some (k, m)"
  shows "en_unacked s k = Some m" "v \<noteq> w \<Longrightarrow> entry_of (en_worker s v) \<noteq> Some (k, m')"
  using assms unfolding workers_ok_def by blast+

lemma started_ok:
  assumes "workers_ok U s" "en_worker s w = Started k m t a"
  shows "U (msg_TaskID m) = Some t" "U t = Some t"
  using assms unfolding workers_ok_def by blast+

lemma engine_ok_take:
  assumes "engine_ok U s" "en_unacked s k = Some m" "\<And>v m'. v \<noteq> w \<Longrightarrow> entry_of (en_worker s v) \<noteq> Some (k, m')"
    and "ph = Holding k m \<or> ph = Started k m t a \<and> U (msg_TaskID m) = Some t \<and> U t = Some t"
  shows "engine_ok U (set_worker w ph s)"
proof -
  have e: "entry_of ph = Some (k, m)" "\<And>k m. ph \<noteq> Acking k m" using assms(4) by auto
  note ok = engine_okD [OF assms(1)]
  have "covered U (set_worker w ph s)"
    using ok(5) carried_worker [of U s _ ph w] e(2) by (auto simp: covered_def)
  moreover have "workers_ok U (set_worker w ph s)"
    unfolding workers_ok_def
  proof (intro conjI allI impI)
    fix v k1 m1 assume "entry_of (en_worker (set_worker w ph s) v) = Some (k1, m1)"
    then show "en_unacked (set_worker w ph s) k1 = Some m1"
      using ok(3) assms(2) e(1) by (auto simp: workers_ok_def split: if_splits)
  next
    fix v v' k1 m1 m2
    assume "entry_of (en_worker (set_worker w ph s) v) = Some (k1, m1) \<and>
      entry_of (en_worker (set_worker w ph s) v') = Some (k1, m2)"
    then show "v = v'" using ok(3) assms(3) e(1) unfolding workers_ok_def
      by (simp split: if_splits)
  next
    fix v k1 m1 t1 a1 assume "en_worker (set_worker w ph s) v = Started k1 m1 t1 a1"
    then show "U (msg_TaskID m1) = Some t1" "U t1 = Some t1"
      using started_ok [OF ok(3)] assms(4) by (auto split: if_splits)
  next
    fix k1 assume "en_next (set_worker w ph s) \<le> k1"
    then show "en_unacked (set_worker w ph s) k1 = None" using ok(3) by (simp add: workers_ok_def)
  qed
  ultimately show ?thesis using ok by (simp add: engine_ok_def publishers_ok_def)
qed

lemma engine_ok_acking:
  assumes "engine_ok U s" "entry_of (en_worker s w) = Some (k, m)"
    and "\<And>r. r \<in> set (task_instances (en_db s)) \<Longrightarrow> U (msg_TaskID m) = Some (ti_id r) \<Longrightarrow> settled r"
  shows "engine_ok U (set_worker w (Acking k m) s)"
proof -
  note ok = engine_okD [OF assms(1)] and own = workers_okD [OF engine_okD(3) [OF assms(1)] assms(2)]
  have "carried U (set_worker w (Acking k m) s) u" if "carried U s u" "U (msg_TaskID m) \<noteq> Some u" for u
    using that own(1) by (auto simp: carried_def) (metis option.inject)
  then have "covered U (set_worker w (Acking k m) s)"
    using ok(5) assms(3) by (auto simp: covered_def)
  moreover have "workers_ok U (set_worker w (Acking k m) s)"
    using ok(3) assms(2) unfolding workers_ok_def by (auto split: if_splits)
  ultimately show ?thesis using ok by (simp add: engine_ok_def publishers_ok_def)
qed

lemma engine_ok_ack:
  assumes "engine_ok U s" "en_worker s w = Acking k m"
  shows "engine_ok U (set_worker w Idle (s\<lparr>en_unacked := (en_unacked s)(k := None)\<rparr>))"
proof -
  let ?s = "set_worker w Idle (s\<lparr>en_unacked := (en_unacked s)(k := None)\<rparr>)"
  note ok = engine_okD [OF assms(1)]
  have own: "entry_of (en_worker s v) \<noteq> Some (k, m')" if "v \<noteq> w" for v m'
    using workers_okD(2) [OF ok(3), of w k m v m'] assms(2) that by simp
  have "carried U ?s u" if "carried U s u" for u
  proof -
    from that obtain k' m' where k': "en_unacked s k' = Some m'" "U (msg_TaskID m') = Some u"
        "\<forall>w m'. en_worker s w \<noteq> Acking k' m'" by (auto simp: carried_def)
    then have "k' \<noteq> k" using assms(2) by blast
    with k' show ?thesis by (fastforce simp: carried_def)
  qed
  moreover have "announced ?s = announced s" by (simp add: announced_def marking_def fun_eq_iff)
  ultimately have "covered U ?s" using ok(5) by (auto simp: covered_def)
  moreover have "workers_ok U ?s" using ok(3) own unfolding workers_ok_def by (auto split: if_splits)
  ultimately show ?thesis using ok by (simp add: engine_ok_def publishers_ok_def)
qed

subsection \<open>Publishers\<close>

lemma carried_publisher [simp]: "carried U (set_publisher p ph s) = carried U s"
  by (simp add: carried_def fun_eq_iff)

lemma engine_ok_publish:
  assumes "engine_ok U s" "listed (en_db s) evs"
  shows "engine_ok U (set_publisher p (Publishing evs) s)"
proof -
  note ok = engine_okD [OF assms(1)]
  have "marking (set_publisher p (Publishing evs) s) \<subseteq> marking s"
    by (auto simp: marking_def split: if_splits)
  then have "announced (set_publisher p (Publishing evs) s) u" if "announced s u" for u
    using that by (auto simp: announced_def)
  then have "covered U (set_publisher p (Publishing evs) s)" using ok(5) by (auto simp: covered_def)
  moreover have "workers_ok U (set_publisher p (Publishing evs) s)" using ok(3) by (simp add: workers_ok_def)
  ultimately show ?thesis using ok assms(2) by (simp add: engine_ok_def publishers_ok_def)
qed

lemma engine_ok_add_entry:
  assumes "engine_ok U s"
  shows "engine_ok U (add_entry m s)" "U (msg_TaskID m) = Some u \<Longrightarrow> carried U (add_entry m s) u"
proof -
  note ok = engine_okD [OF assms]
  have free: "entry_of (en_worker s w) \<noteq> Some (en_next s, m')" for w m'
    using workers_okD(1) [OF ok(3), of w "en_next s" m'] ok(3) by (auto simp: workers_ok_def)
  then have idle: "en_worker s w \<noteq> Acking (en_next s) m'" for w m'
    using free [of w m'] by (metis entry_of.simps(4))
  have "carried U (add_entry m s) v" if c: "carried U s v" for v
  proof -
    from c obtain k m' where k: "en_unacked s k = Some m'" "U (msg_TaskID m') = Some v"
        "\<forall>w m'. en_worker s w \<noteq> Acking k m'" by (auto simp: carried_def)
    then have "k \<noteq> en_next s" using ok(3) by (auto simp: workers_ok_def)
    with k show ?thesis by (fastforce simp: carried_def)
  qed
  moreover have "announced (add_entry m s) = announced s" by (simp add: announced_def marking_def fun_eq_iff)
  ultimately have "covered U (add_entry m s)" using ok(5) by (auto simp: covered_def)
  moreover have "workers_ok U (add_entry m s)" using ok(3) free unfolding workers_ok_def by auto
  ultimately show "engine_ok U (add_entry m s)" using ok by (simp add: engine_ok_def publishers_ok_def)
  show "U (msg_TaskID m) = Some u \<Longrightarrow> carried U (add_entry m s) u"
    using idle by (auto simp: carried_def)
qed

text \<open>The message of a listed event is for the event's task.\<close>

lemma listed_message:
  assumes "engine_ok U s" "listed (en_db s) (ev # evs)" "message_text (evt_PayloadJSON ev) = Inr raw"
    and "xm_Values x ''payload'' = Some (XString raw)" "decodeTaskMessage x = Inr m"
    and "ob \<in> set (outbox_events (en_db s))" "ob_id ob = evt_ID ev"
  shows "U (msg_TaskID m) = Some (ob_aggregate_id ob)"
proof -
  note ok = engine_okD [OF assms(1)]
  obtain q where q: "q \<in> set (outbox_events (en_db s))" "ob_id q = evt_ID ev" "ob_payload_json q = evt_PayloadJSON ev"
    using assms(2) by (auto simp: listed_def)
  then have "q = ob"
    using store_ok_outbox_ids [OF ok(1)] assms(6,7) by (auto simp: distinct_map inj_on_def)
  then obtain p where p: "json_unmarshal unmarshal_payload (evt_PayloadJSON ev) = Inr p"
      "pay_TaskID p = ob_aggregate_id ob" "utf8_valid (pay_TaskID p)" "utf8_valid (pay_ExecutionID p)"
      "utf8_valid (pay_HandlerKey p)" "U (ob_aggregate_id ob) = Some (ob_aggregate_id ob)"
    using dispatch_okD(1) [OF ok(2) q(1)] q(3) by (auto simp: event_ok_def payload_ok_def)
  have "decodeTaskMessage x = Inr (payload_message p)"
    using assms(3,4) p by (intro message_roundtrip [of _ raw]) (auto simp: message_text_def payload_message_def)
  with assms(5) p(2,6) show ?thesis by (auto simp: payload_message_def)
qed

lemma engine_ok_send:
  assumes "engine_ok U s" "en_publisher s p = Publishing (ev # evs)"
    and "message_text (evt_PayloadJSON ev) = Inr raw" "xm_Values x ''payload'' = Some (XString raw)"
    and "decodeTaskMessage x = Inr m"
  shows "engine_ok U (set_publisher p (Marking ev evs) (add_entry m s))"
proof -
  let ?s = "set_publisher p (Marking ev evs) (add_entry m s)"
  note ok = engine_okD [OF assms(1)] and ok' = engine_okD [OF engine_ok_add_entry(1) [OF assms(1), of m]]
  have l: "listed (en_db s) (ev # evs)"
    using ok(4) assms(2) unfolding publishers_ok_def by (metis events_of.simps(1))
  have marks: "marking ?s \<subseteq> insert (evt_ID ev) (marking (add_entry m s))"
    by (auto simp: marking_def split: if_splits)
  have "announced ?s u \<or> carried U ?s u" if "announced (add_entry m s) u" for u
  proof -
    from that obtain ob where ob: "ob \<in> set (outbox_events (en_db s))" "ob_dispatched_at ob = None"
        "ob_id ob \<notin> marking (add_entry m s)" "ob_aggregate_id ob = u" by (auto simp: announced_def)
    show ?thesis
    proof (cases "ob_id ob = evt_ID ev")
      case True
      from listed_message [OF assms(1) l assms(3-5) ob(1) True] ob(4) engine_ok_add_entry(2) [OF assms(1)]
      show ?thesis by simp
    next
      case False
      with ob marks show ?thesis by (auto simp: announced_def)
    qed
  qed
  then have "covered U ?s" using ok'(5) by (auto simp: covered_def)
  moreover have "workers_ok U ?s" using ok'(3) by (simp add: workers_ok_def)
  ultimately show ?thesis using ok' l by (simp add: engine_ok_def publishers_ok_def)
qed

subsection \<open>Every step keeps the invariant\<close>

fun end_call :: "ending \<Rightarrow> string \<Rightarrow> string \<Rightarrow> store_call" where
  "end_call (Succeed out) t a = CallCompleteTaskAttempt t a out"
| "end_call (Advance name hkey out) t a = CallCompleteTaskAttemptAndEnqueueNextTask t a name hkey out"
| "end_call (Retry err at) t a = CallScheduleTaskRetry t a err at"
| "end_call (GiveUp err) t a = CallFailTaskAttempt t a err"

lemma end_call_perform:
  "perform (end_call en t a) env db = snd (end_attempt en t a env db)"
  "started_by U (end_call en t a) = {}" "marked_by U (end_call en t a) = {}"
  by (cases en; simp)+

lemma settled_setters [simp]:
  "settled (set_task_succeeded n j r)" "settled (set_task_dead_lettered n e r)" "settled (set_task_retry n e at r)"
  by (simp_all add: settled_def set_task_defs)

lemma store_ok_select:
  assumes "store_ok U db" "select_by ti_id u (task_instances db) = Some q" "r \<in> set (task_instances db)" "ti_id r = u"
  shows "r = q"
  using schema_task_unique [OF _ assms(2-4)] assms(1) by (simp add: store_ok_def numbered_ok_def)

lemma end_settles:
  assumes "ready U env db" "U t = Some t" "end_attempt en t a env db = (Inr x, db')"
    and "r \<in> set (task_instances db')" "ti_id r = t"
  shows "settled r"
proof -
  note env = faithfulD(1) [OF readyD(1) [OF assms(1)]] and ok = readyD(3) [OF assms(1)]
  have ok': "store_ok U db'"
    using perform_ready(1) [OF readyD(1,3,2) [OF assms(1)], of "end_call en t a"] assms(3)
    by (simp add: end_call_perform)
  note only = store_ok_select [OF ok' _ assms(4,5)]
  show ?thesis
  proof (cases en)
    case (Succeed out)
    then show ?thesis using complete_leaves [OF env ok assms(2)] assms(3) only by fastforce
  next
    case (Advance name hkey out)
    then show ?thesis using complete_next_leaves [OF env ok assms(2)] assms(3) only by fastforce
  next
    case (GiveUp err)
    then show ?thesis using fail_leaves [OF env ok assms(2)] assms(3) only by fastforce
  next
    case (Retry err at)
    then have "ScheduleTaskRetry t a err at env db = (Inr x, db')" using assms(3) by simp
    then have "\<exists>n e at' db1. db' = upd_task t (set_task_retry n e at') db1"
      unfolding ScheduleTaskRetry_def
      by (elim run_tx_InrE schedule_retry_effect) (use assms(2) in \<open>auto simp: readyD(7) [OF assms(1)]\<close>)
    then show ?thesis using assms(4,5) by (auto dest!: upd_task_rows)
  qed
qed

lemma engine_ok_start_step:
  assumes "engine_ok U s" "en_worker s w = Holding k m" "faithful U env"
    and "StartTaskAttempt (msg_TaskID m) env (en_db s) = (res, db)"
  shows "engine_ok U (set_worker w (after_start k m res) (s\<lparr>en_db := db\<rparr>))"
proof -
  note ok = engine_okD [OF assms(1)]
  have e: "entry_of (en_worker s w) = Some (k, m)" using assms(2) by simp
  note own = workers_okD [OF ok(3) e]
  have idle: "en_worker s v \<noteq> Acking k m'" for v m'
    using own(2) [of v m'] assms(2) by (cases "v = w") auto
  have "carried U s u" if "U (msg_TaskID m) = Some u" for u
    using own(1) that idle by (auto simp: carried_def)
  then have okd: "engine_ok U (s\<lparr>en_db := db\<rparr>)"
    using engine_ok_call [OF assms(1,3), of "CallStartTaskAttempt (msg_TaskID m)"] assms(4) by simp
  show ?thesis
  proof (cases res)
    case (Inl err)
    then show ?thesis using engine_ok_idle [OF okd] by simp
  next
    case (Inr y)
    obtain task attempt already where y: "y = (task, attempt, already)" by (metis surj_pair)
    from start_leaves [OF faithfulD(1) [OF assms(3)] ok(1) assms(4) [unfolded Inr y]] obtain u r where
      u: "U (msg_TaskID m) = Some u" "U u = Some u" "store_ok U db"
      and r: "select_by ti_id u (task_instances db) = Some r" "task = scanTaskInstance r"
      and fin: "already \<longleftrightarrow> ti_status r = TaskStatusSucceeded \<or> ti_status r = TaskStatusDeadLettered" by metis
    have e': "entry_of (en_worker (s\<lparr>en_db := db\<rparr>) w) = Some (k, m)" using e by simp
    show ?thesis
    proof (cases already)
      case True
      have "settled r'" if "r' \<in> set (task_instances db)" "U (msg_TaskID m) = Some (ti_id r')" for r'
        using store_ok_select [OF u(3) r(1) that(1)] that(2) u(1) fin True by (auto simp: settled_def)
      then show ?thesis using engine_ok_acking [OF okd e'] True by (simp add: Inr y)
    next
      case False
      have "task_ID task = u" using select_by_key [OF r(1)] r(2) by (simp add: scanTaskInstance_def)
      then show ?thesis using False own u(1,2)
        by (simp add: Inr y) (rule engine_ok_take [OF okd, of k m w _ u "att_ID attempt"]; simp)
    qed
  qed
qed

lemma engine_ok_finish_step:
  assumes "engine_ok U s" "en_worker s w = Started k m t a" "faithful U env"
    and "end_attempt en t a env (en_db s) = (res, db)"
  shows "engine_ok U (set_worker w (after_end k m res) (s\<lparr>en_db := db\<rparr>))"
proof -
  note ok = engine_okD [OF assms(1)] and t = started_ok [OF engine_okD(3) [OF assms(1)] assms(2)]
  have okd: "engine_ok U (s\<lparr>en_db := db\<rparr>)"
    using engine_ok_call [OF assms(1,3), of "end_call en t a"] assms(4) by (simp add: end_call_perform)
  show ?thesis
  proof (cases res)
    case (Inl err)
    then show ?thesis using engine_ok_idle [OF okd] by simp
  next
    case (Inr x)
    have r: "ready U env (en_db s)" using assms(3) ok by (simp add: ready_def)
    have "engine_ok U (set_worker w (Acking k m) (s\<lparr>en_db := db\<rparr>))"
      by (rule engine_ok_acking [OF okd])
         (use assms(2) t end_settles [OF r t(2) assms(4) [unfolded Inr]] in auto)
    then show ?thesis by (simp add: Inr)
  qed
qed

lemma engine_ok_mark_step:
  assumes "engine_ok U s" "en_publisher s p = Marking ev evs" "faithful U env"
    and "MarkOutboxDispatched (evt_ID ev) env (en_db s) = (res, db)" "evs' = evs \<or> evs' = []"
  shows "engine_ok U (set_publisher p (Publishing evs') (s\<lparr>en_db := db\<rparr>))"
proof -
  note ok = engine_okD [OF assms(1)]
  have l: "listed (en_db s) (ev # evs)"
    using ok(4) assms(2) unfolding publishers_ok_def by (metis events_of.simps(2))
  then obtain q where q: "q \<in> set (outbox_events (en_db s))" "ob_id q = evt_ID ev" by (auto simp: listed_def)
  then have "U (evt_ID ev) = Some (evt_ID ev)" using dispatch_okD(1) [OF ok(2) q(1)] by (simp add: event_ok_def)
  moreover have "evt_ID ev \<in> marking s" using assms(2) by (auto simp: marking_def)
  ultimately have okd: "engine_ok U (s\<lparr>en_db := db\<rparr>)"
    using engine_ok_call [OF assms(1,3), of "CallMarkOutboxDispatched (evt_ID ev)"] assms(4) by simp
  have "listed db (ev # evs)"
    using engine_okD(4) [OF okd] assms(2) unfolding publishers_ok_def
    by (metis events_of.simps(2) engine.select_convs(1,5) engine.surjective engine.update_convs(1))
  then show ?thesis using assms(5) by (intro engine_ok_publish [OF okd]) (auto simp: listed_def)
qed

lemma engine_ok_step:
  assumes "engine_step U True s s'" "engine_ok U s"
  shows "engine_ok U s'"
  using assms(1)
proof cases
  case (free env c)
  have "started_by U c = {}" "marked_by U c = {}" using free(3) by (cases c; simp)+
  then show ?thesis using engine_ok_call [OF assms(2) free(2), of c] free(1) by simp
next
  case (deliver w k m)
  then show ?thesis using engine_ok_take [OF assms(2) deliver(3), of w "Holding k m"] by blast
next
  case (start w k m env res db)
  then show ?thesis using engine_ok_start_step [OF assms(2)] by blast
next
  case (finish_attempt w k m t a env en res db)
  then show ?thesis using engine_ok_finish_step [OF assms(2)] by blast
next
  case (ack w k m)
  then show ?thesis using engine_ok_ack [OF assms(2)] by blast
next
  case (drop w)
  then show ?thesis using engine_ok_idle [OF assms(2)] by blast
next
  case (enlist env limit events p)
  then show ?thesis
    using engine_ok_publish [OF assms(2) ListPendingOutbox_listed [OF faithfulD(6) [OF enlist(2)] enlist(3)]] by blast
next
  case (send p ev evs raw x m reported)
  have "listed (en_db s) evs"
    using engine_okD(4) [OF assms(2)] send(2) unfolding publishers_ok_def listed_def
    by (metis events_of.simps(1) list.set_intros(2))
  then show ?thesis
    using engine_ok_send [OF assms(2) send(2-5)] engine_ok_publish [OF engine_ok_add_entry(1) [OF assms(2)], of m evs p]
    by (simp add: send(1))
next
  case (skip p ev evs)
  have "listed (en_db s) evs"
    using engine_okD(4) [OF assms(2)] skip(2) unfolding publishers_ok_def listed_def
    by (metis events_of.simps(1) list.set_intros(2))
  then show ?thesis using engine_ok_publish [OF assms(2)] skip(1) by blast
next
  case (mark p ev evs env res db)
  then show ?thesis using engine_ok_mark_step [OF assms(2) mark(2-4), of "if isl res then [] else evs"] by simp
next
  case (stop p)
  then show ?thesis using engine_ok_publish [OF assms(2), of "[]"] by (simp add: listed_def)
qed

lemma engine_ok_start: "engine_ok U engine_start"
  by (simp add: engine_ok_def engine_start_def store_ok_empty workers_ok_def publishers_ok_def listed_def covered_def
      empty_pg_def dispatch_ok_def store_ok_empty [unfolded empty_pg_def])

lemma engine_reachable_ok:
  assumes "engine_reachable U True s"
  shows "engine_ok U s"
  using assms unfolding engine_reachable_def
  by (induction rule: rtranclp_induct) (auto intro: engine_ok_start engine_ok_step)

text \<open>
  C1.  No task is ever lost.  However the API servers, publishers and workers interleave, crash and
  fail, in every state of the engine each task is finished (succeeded or dead-lettered), or waits for
  its retry time, or has an outbox event that is still to be dispatched, or has an unacknowledged
  message in the stream, as long as no message is redelivered while a worker is still at it.
\<close>

theorem no_task_lost:
  assumes "engine_reachable U True s" "r \<in> set (task_instances (en_db s))"
  shows "settled r \<or>
     (\<exists>ob \<in> set (outbox_events (en_db s)). ob_dispatched_at ob = None \<and> ob_aggregate_id ob = ti_id r) \<or>
     (\<exists>k m. en_unacked s k = Some m \<and> U (msg_TaskID m) = Some (ti_id r))"
  using engine_okD(5) [OF engine_reachable_ok [OF assms(1)]] assms(2)
  by (auto simp: covered_def announced_def carried_def)

end
