(* ===== verification/EngineDemo.thy ===== *)
theory EngineDemo
  imports Engine
begin

text \<open>
  Two runs of the engine on the concrete server: one task dispatched and started by a worker, and the
  run in which a message is redelivered while a worker is still at it, after which the task is lost.
\<close>

definition strict_message :: TaskMessage where
  "strict_message = \<lparr>msg_TaskID = ''u-..'', msg_ExecutionID = ''u-.'', msg_HandlerKey = ''sample.echo''\<rparr>"

definition strict_entry :: xmessage where
  "strict_entry = \<lparr>xm_ID = ''1-0'', xm_Values = [''payload'' \<mapsto> XString (payload_text ''u-..'' ''u-.'' ''sample.echo'')]\<rparr>"

lemma strict_marshal: "marshal_message strict_message = Inr (payload_text ''u-..'' ''u-.'' ''sample.echo'')"
  by (simp add: marshal_message_def strict_message_def message_payload_def marshal_payload_def
      json_marshal_def payload_text_def)

lemma strict_entry_decodes: "decodeTaskMessage strict_entry = Inr strict_message"
  by (rule message_roundtrip [OF _ _ _ strict_marshal])
     (simp_all add: strict_message_def strict_entry_def utf8_valid_ascii byte_def)

lemma strict_message_text:
  "message_text (evt_PayloadJSON (scanOutboxEvent strict_event)) = Inr (payload_text ''u-..'' ''u-.'' ''sample.echo'')"
  using strict_marshal
  by (simp add: message_text_def strict_scan strict_payload payload_message_def strict_message_def)

text \<open>The database once the event is marked; \<open>engine_at r as\<close> is the engine with the task and attempts given.\<close>

definition marked_db :: pg where
  "marked_db = upd_outbox ''u-...'' (set_outbox_dispatched 50) strict_db"

definition at_db :: "task_row \<Rightarrow> attempt_row list \<Rightarrow> pg" where
  "at_db r as = marked_db\<lparr>task_instances := [r], task_attempts := as\<rparr>"

definition engine_at :: "task_row \<Rightarrow> attempt_row list \<Rightarrow> (nat \<rightharpoonup> TaskMessage) \<Rightarrow> (nat \<Rightarrow> wphase) \<Rightarrow> engine" where
  "engine_at r as unacked ws = \<lparr>en_db = at_db r as, en_unacked = unacked, en_next = 1, en_worker = ws,
     en_publisher = (\<lambda>_. Publishing [])\<rparr>"

lemma at_db_strict: "at_db strict_task [] = marked_db"
  by (simp add: at_db_def marked_db_def strict_db_eq upd_outbox_def)

lemma strict_published:
  "engine_steps strict_uuid excl engine_start (engine_at strict_task [] [0 \<mapsto> strict_message] (\<lambda>_. Idle))"
proof -
  let ?step = "engine_step strict_uuid excl"
  let ?d0 = "perform (CallCreateWorkflowDefinition ''demo'' [] demo_definition) (strict_env 0 5) empty_pg"
  let ?ev = "scanOutboxEvent strict_event"
  let ?s0 = "engine_start\<lparr>en_db := ?d0\<rparr>" and ?s1 = "engine_start\<lparr>en_db := strict_db\<rparr>"
  let ?s2 = "set_publisher 0 (Publishing [?ev]) ?s1"
  let ?s3 = "set_publisher 0 (if True then Marking ?ev [] else Publishing []) (add_entry strict_message ?s2)"
  have "?step engine_start ?s0"
    using engine_step.free [of strict_uuid "strict_env 0 5" "CallCreateWorkflowDefinition ''demo'' [] demo_definition" excl engine_start]
    by (simp add: engine_start_def)
  moreover have "?step ?s0 ?s1"
    using engine_step.free [of strict_uuid "strict_env 1 10" "CallCreateExecutionAndTask ''u'' [] ''a'' ''sample.echo''" excl ?s0]
    by (simp add: strict_db_def)
  moreover have "?step ?s1 ?s2"
    by (rule engine_step.enlist [of _ "strict_env 3 50" 20]) (simp_all add: strict_listed)
  moreover have "?step ?s2 ?s3"
    by (rule engine_step.send [OF _ strict_message_text _ strict_entry_decodes]) (simp_all add: strict_entry_def)
  moreover have "?step ?s3 (set_publisher 0 (Publishing (if isl (Inr () :: go_error + unit) then [] else [])) (?s3\<lparr>en_db := marked_db\<rparr>))"
  proof (rule engine_step.mark [of _ _ ?ev _ _ "strict_env 4 50"])
    show "MarkOutboxDispatched (evt_ID ?ev) (strict_env 4 50) (en_db ?s3) = (Inr (), marked_db)"
      by (simp add: strict_scan strict_mark marked_db_def)
  qed simp_all
  moreover have "set_publisher 0 (Publishing (if isl (Inr () :: go_error + unit) then [] else [])) (?s3\<lparr>en_db := marked_db\<rparr>) =
      engine_at strict_task [] [0 \<mapsto> strict_message] (\<lambda>_. Idle)"
    by (simp add: engine_at_def at_db_strict set_publisher_def add_entry_def engine_start_def fun_eq_iff)
  ultimately show ?thesis
    by (metis (no_types, lifting) converse_rtranclp_into_rtranclp rtranclp.rtrancl_refl)
qed

lemma strict_start:
  assumes "ti_id r = ''u-..''" "ti_status r = TaskStatusPending \<or> ti_status r = TaskStatusRunning" "ti_attempts_total r < 5"
    and "CHR ''u'' # replicate k (CHR ''-'') @ ''..'' \<notin> ta_id ` set as"
  shows "\<exists>task attempt a. StartTaskAttempt ''u-..'' (strict_env k now) (at_db r as) =
     (Inr (task, attempt, False), at_db (set_task_running now (ti_attempts_total r + 1) r) (as @ [a])) \<and>
     task_ID task = ''u-..'' \<and> att_ID attempt = ta_id a \<and> ta_id a = CHR ''u'' # replicate k (CHR ''-'') @ ''..''"
  using assms
  by (auto simp: StartTaskAttempt_def start_attempt_tx_def run_defs strict_defs at_db_def
      int4_max_def Let_def scanTaskInstance_def scanTaskAttempt_def set_task_running_def numeral_eq_Suc marked_db_def
      strict_db_eq)

text \<open>A worker that holds the entry starts the task, or schedules its retry.\<close>

lemma engine_at_fields [simp]:
  "en_db (engine_at r as unacked ws) = at_db r as" "en_unacked (engine_at r as unacked ws) = unacked"
  "en_worker (engine_at r as unacked ws) = ws"
  by (simp_all add: engine_at_def)

lemma engine_at_upd:
  "set_worker w ph (engine_at r as unacked ws) = engine_at r as unacked (ws(w := ph))"
  "engine_at r as unacked ws\<lparr>en_db := at_db r' as'\<rparr> = engine_at r' as' unacked ws"
  "engine_at r as unacked ws\<lparr>en_unacked := unacked'\<rparr> = engine_at r as unacked' ws"
  by (simp_all add: engine_at_def set_worker_def)

lemma take_step:
  assumes "ws w = Idle" "excl \<longrightarrow> (\<forall>v m'. entry_of (ws v) \<noteq> Some (0, m'))"
  shows "engine_step strict_uuid excl (engine_at r as [0 \<mapsto> strict_message] ws)
    (engine_at r as [0 \<mapsto> strict_message] (ws(w := Holding 0 strict_message)))"
  using engine_step.deliver [of "engine_at r as [0 \<mapsto> strict_message] ws" w 0 strict_message excl strict_uuid] assms
  by (simp add: engine_at_upd)

lemma start_step:
  assumes "ws w = Holding 0 strict_message" "ti_id r = ''u-..''"
    "ti_status r = TaskStatusPending \<or> ti_status r = TaskStatusRunning" "ti_attempts_total r < 5"
    and "CHR ''u'' # replicate k (CHR ''-'') @ ''..'' \<notin> ta_id ` set as"
  shows "\<exists>a. ta_id a = CHR ''u'' # replicate k (CHR ''-'') @ ''..'' \<and>
    engine_step strict_uuid excl (engine_at r as unacked ws)
      (engine_at (set_task_running now (ti_attempts_total r + 1) r) (as @ [a]) unacked
         (ws(w := Started 0 strict_message ''u-..'' (ta_id a))))"
proof -
  obtain task attempt a where st: "StartTaskAttempt ''u-..'' (strict_env k now) (at_db r as) =
     (Inr (task, attempt, False), at_db (set_task_running now (ti_attempts_total r + 1) r) (as @ [a]))"
     "task_ID task = ''u-..''" "att_ID attempt = ta_id a" "ta_id a = CHR ''u'' # replicate k (CHR ''-'') @ ''..''"
    using strict_start [OF assms(2-5), of now] by blast
  have "engine_step strict_uuid excl (engine_at r as unacked ws)
     (set_worker w (after_start 0 strict_message (Inr (task, attempt, False)))
        (engine_at r as unacked ws\<lparr>en_db := at_db (set_task_running now (ti_attempts_total r + 1) r) (as @ [a])\<rparr>))"
    by (rule engine_step.start [of _ _ _ _ _ "strict_env k now"]) (use assms(1) st(1) in \<open>simp_all add: strict_message_def\<close>)
  then show ?thesis using st(2-4) by (auto simp: engine_at_upd)
qed

lemma retry_step:
  assumes "ws w = Started 0 strict_message ''u-..'' (ta_id a)" "ti_id r = ''u-..''" "ta_id a \<noteq> []" "ascii (ta_id a)"
  shows "engine_step strict_uuid excl (engine_at r [a] unacked ws)
    (engine_at (set_task_retry 70 ''boom'' 90 r) [set_attempt_failed 70 ''boom'' a] unacked
       (ws(w := Acking 0 strict_message)))"
proof -
  have "ScheduleTaskRetry ''u-..'' (ta_id a) ''boom'' 90 (strict_env 8 70) (at_db r [a]) =
      (Inr (), at_db (set_task_retry 70 ''boom'' 90 r) [set_attempt_failed 70 ''boom'' a])"
    using assms(2-4)
    by (simp add: ScheduleTaskRetry_def schedule_retry_tx_def run_defs strict_defs at_db_def Store.truncate_def marked_db_def)
  then have "engine_step strict_uuid excl (engine_at r [a] unacked ws)
     (set_worker w (after_end 0 strict_message (Inr ()))
       (engine_at r [a] unacked ws\<lparr>en_db := at_db (set_task_retry 70 ''boom'' 90 r) [set_attempt_failed 70 ''boom'' a]\<rparr>))"
    by (intro engine_step.finish_attempt [of _ _ _ _ "''u-..''" "ta_id a" _ "strict_env 8 70" "Retry ''boom'' 90"])
       (simp_all add: assms(1))
  then show ?thesis by (simp add: engine_at_upd)
qed

lemma strict_task_fields [simp]:
  "ti_id strict_task = ''u-..''" "ti_status strict_task = TaskStatusPending" "ti_attempts_total strict_task = 0"
  by (simp_all add: strict_task_def)

definition strict_running :: task_row where
  "strict_running = set_task_running 60 1 strict_task"

lemma strict_running_reached:
  "\<exists>a. ta_id a = ''u------..'' \<and> engine_steps strict_uuid excl engine_start
     (engine_at strict_running [a] [0 \<mapsto> strict_message]
       ((\<lambda>_. Idle)(0 := Started 0 strict_message ''u-..'' (ta_id a))))"
proof -
  note take_step [of "\<lambda>_. Idle" 0 excl strict_task "[]"]
  moreover from start_step [of "(\<lambda>_. Idle)(0 := Holding 0 strict_message)" 0 strict_task 6 "[]" excl "[0 \<mapsto> strict_message]" 60]
  obtain a where "ta_id a = ''u------..''"
    "engine_step strict_uuid excl (engine_at strict_task [] [0 \<mapsto> strict_message] ((\<lambda>_. Idle)(0 := Holding 0 strict_message)))
      (engine_at strict_running [a] [0 \<mapsto> strict_message] ((\<lambda>_. Idle)(0 := Started 0 strict_message ''u-..'' (ta_id a))))"
    by (auto simp: strict_running_def numeral_eq_Suc)
  ultimately show ?thesis
    using strict_published [of excl] by (intro exI [of _ a] conjI) (auto intro: rtranclp.rtrancl_into_rtrancl)
qed

theorem no_task_lost_witness:
  "\<exists>s. engine_reachable strict_uuid True s \<and> task_instances (en_db s) = [strict_running] \<and> \<not> settled strict_running \<and>
     (\<exists>k m. en_unacked s k = Some m \<and> strict_uuid (msg_TaskID m) = Some ''u-..'')"
proof -
  obtain a where reach: "engine_reachable strict_uuid True (engine_at strict_running [a] [0 \<mapsto> strict_message]
       ((\<lambda>_. Idle)(0 := Started 0 strict_message ''u-..'' (ta_id a))))"
    using strict_running_reached [of True] by (auto simp: engine_reachable_def)
  have r: "\<not> settled strict_running" "ti_id strict_running = ''u-..''"
    by (simp_all add: strict_running_def settled_def set_task_running_def status_simps)
  have "outbox_events (at_db strict_running [a]) = [set_outbox_dispatched 50 strict_event]"
    by (simp add: at_db_def marked_db_def upd_outbox_def strict_db_eq strict_event_def)
  with no_task_lost [OF reach, of strict_running] r
  have "\<exists>k m. [0 \<mapsto> strict_message] k = Some m \<and> strict_uuid (msg_TaskID m) = Some ''u-..''"
    by (auto simp: at_db_def set_outbox_dispatched_def split: if_splits)
  moreover have "task_instances (at_db strict_running [a]) = [strict_running]" by (simp add: at_db_def)
  ultimately show ?thesis using r(1) reach by (metis engine_at_fields(1,2))
qed

text \<open>
  C34.  The condition is needed.  When an entry is reclaimed while its first worker is still at it,
  a task can be lost: the first worker schedules a retry, the second starts the task again, which
  clears the retry time, the first acknowledges the entry, and the second crashes.  Then the task is
  running for good: no process works at it, no event and no message is left for it.
\<close>

theorem reclaim_race_loses_task:
  "\<exists>s r. engine_reachable strict_uuid False s \<and> r \<in> set (task_instances (en_db s)) \<and>
     ti_status r = TaskStatusRunning \<and> en_unacked s = Map.empty \<and> (\<forall>w. en_worker s w = Idle) \<and>
     (\<forall>p. en_publisher s p = Publishing []) \<and> list_all (\<lambda>ob. ob_dispatched_at ob \<noteq> None) (outbox_events (en_db s))"
proof -
  let ?m = strict_message and ?u = "[0 \<mapsto> strict_message]"
  obtain a where a: "ta_id a = ''u------..''" and run: "engine_steps strict_uuid False engine_start
     (engine_at strict_running [a] ?u ((\<lambda>_. Idle)(0 := Started 0 ?m ''u-..'' (ta_id a))))"
    using strict_running_reached [of False] by blast
  let ?w0 = "(\<lambda>_::nat. Idle)(0 := Started 0 ?m ''u-..'' (ta_id a))"
  let ?w1 = "?w0(1 := Holding 0 ?m)" and ?w2 = "?w0(1 := Holding 0 ?m, 0 := Acking 0 ?m)"
  let ?r = "set_task_retry 70 ''boom'' 90 strict_running" and ?a = "set_attempt_failed 70 ''boom'' a"
  let ?q = "set_task_running 80 2 ?r"
  have s1: "engine_step strict_uuid False (engine_at strict_running [a] ?u ?w0) (engine_at strict_running [a] ?u ?w1)"
    by (rule take_step) simp_all
  have s2: "engine_step strict_uuid False (engine_at strict_running [a] ?u ?w1) (engine_at ?r [?a] ?u ?w2)"
    by (rule retry_step) (simp_all add: a strict_running_def set_task_running_def byte_def)
  obtain b where s3: "engine_step strict_uuid False (engine_at ?r [?a] ?u ?w2)
      (engine_at ?q [?a, b] ?u (?w2(1 := Started 0 ?m ''u-..'' (ta_id b))))"
    using start_step [of ?w2 1 ?r 9 "[?a]" False ?u 80] a
    by (auto simp: set_task_defs strict_running_def set_attempt_failed_def numeral_eq_Suc)
  let ?w3 = "?w2(1 := Started 0 ?m ''u-..'' (ta_id b))"
  have s4: "engine_step strict_uuid False (engine_at ?q [?a, b] ?u ?w3) (engine_at ?q [?a, b] Map.empty (?w3(0 := Idle)))"
    using engine_step.ack [of "engine_at ?q [?a, b] ?u ?w3" 0 0 ?m strict_uuid False] by (simp add: engine_at_upd)
  have "?w3(0 := Idle, 1 := Idle) = (\<lambda>_. Idle)" by auto
  then have s5: "engine_step strict_uuid False (engine_at ?q [?a, b] Map.empty (?w3(0 := Idle)))
      (engine_at ?q [?a, b] Map.empty (\<lambda>_. Idle))"
    using engine_step.drop [of strict_uuid False "engine_at ?q [?a, b] Map.empty (?w3(0 := Idle))" 1]
    by (simp only: engine_at_upd)
  have "engine_reachable strict_uuid False (engine_at ?q [?a, b] Map.empty (\<lambda>_. Idle))"
    unfolding engine_reachable_def using run s1 s2 s3 s4 s5 by (meson rtranclp.rtrancl_into_rtrancl)
  moreover have "task_instances (at_db ?q [?a, b]) = [?q]" "ti_status ?q = TaskStatusRunning"
    "outbox_events (at_db ?q [?a, b]) = [set_outbox_dispatched 50 strict_event]"
    by (simp_all add: at_db_def marked_db_def upd_outbox_def strict_db_eq strict_event_def set_task_running_def)
  ultimately show ?thesis
    by (intro exI [of _ "engine_at ?q [?a, b] Map.empty (\<lambda>_. Idle)"] exI [of _ ?q])
       (simp add: engine_at_def set_outbox_dispatched_def)
qed

end
