(* ===== verification/System.thy ===== *)
theory System
  imports Programs EngineDemo
begin

text \<open>
  The processes of the system running their code: any number of workers, publishers and API servers,
  interleaved call by call.  Workers and publishers are the programs of theory \<open>Programs\<close>; each call may
  fail or lose its reply, each process may stop at any point and start again.  Every state of this system is
  a state of the abstract engine (\<open>system_refines_engine\<close>).
\<close>

section \<open>The system\<close>

text \<open>
  \<open>sy_stream\<close> are the entries of the stream that are not acknowledged, with their payloads.  Of each worker,
  \<open>sy_batch\<close> are the messages it was delivered and has not turned to, \<open>sy_current\<close> the one it last turned to.
\<close>

record system =
  sy_db :: pg
  sy_stream :: "nat \<rightharpoonup> string"
  sy_next :: nat
  sy_worker :: "nat \<Rightarrow> go_error option prog"
  sy_batch :: "nat \<Rightarrow> xmessage set"
  sy_current :: "nat \<Rightarrow> xmessage option"
  sy_publisher :: "nat \<Rightarrow> go_error option prog"

definition system_start :: system where
  "system_start = \<lparr>sy_db = empty_pg, sy_stream = Map.empty, sy_next = 0, sy_worker = (\<lambda>_. Done None),
     sy_batch = (\<lambda>_. {}), sy_current = (\<lambda>_. None), sy_publisher = (\<lambda>_. Done None)\<rparr>"

text \<open>Entry \<open>n\<close> has the id \<open>ids n\<close>; \<^verbatim>\<open>XADD\<close> gave it the one value \<^verbatim>\<open>payload\<close>.\<close>

definition entry_message :: "(nat \<Rightarrow> string) \<Rightarrow> nat \<Rightarrow> string \<Rightarrow> xmessage" where
  "entry_message ids n raw = \<lparr>xm_ID = ids n, xm_Values = [''payload'' \<mapsto> XString raw]\<rparr>"

definition held :: "system \<Rightarrow> nat \<Rightarrow> xmessage set" where
  "held s w = sy_batch s w \<union> set_option (sy_current s w)"

text \<open>
  What \<^verbatim>\<open>XAUTOCLAIM\<close> and \<^verbatim>\<open>XREADGROUP\<close> may deliver to a worker: unacknowledged entries and, if \<open>excl\<close>, none that
  another worker still has before it or is at.
\<close>

definition deliverable :: "(nat \<Rightarrow> string) \<Rightarrow> bool \<Rightarrow> system \<Rightarrow> nat \<Rightarrow> xmessage list \<Rightarrow> bool" where
  "deliverable ids excl s w xs \<longleftrightarrow> distinct (map xm_ID xs) \<and>
     (\<forall>x \<in> set xs. (\<exists>n raw. sy_stream s n = Some raw \<and> x = entry_message ids n raw) \<and>
        (excl \<longrightarrow> (\<forall>v. v \<noteq> w \<longrightarrow> (\<forall>y \<in> held s v. xm_ID y \<noteq> xm_ID x))))"

definition put_prog :: "nat \<Rightarrow> go_error option prog \<Rightarrow> system \<Rightarrow> system" where
  "put_prog w p s = s\<lparr>sy_worker := (sy_worker s)(w := p)\<rparr>"

definition put_hold :: "nat \<Rightarrow> xmessage set \<Rightarrow> xmessage option \<Rightarrow> system \<Rightarrow> system" where
  "put_hold w batch current s =
     s\<lparr>sy_batch := (sy_batch s)(w := batch), sy_current := (sy_current s)(w := current)\<rparr>"

definition put_publisher :: "nat \<Rightarrow> go_error option prog \<Rightarrow> system \<Rightarrow> system" where
  "put_publisher p q s = s\<lparr>sy_publisher := (sy_publisher s)(p := q)\<rparr>"

inductive system_step ::
  "(string \<Rightarrow> string option) \<Rightarrow> (nat \<Rightarrow> string) \<Rightarrow> bool \<Rightarrow> system \<Rightarrow> system \<Rightarrow> bool" for U ids excl
where
  request: "system_step U ids excl s (s\<lparr>sy_db := perform c env (sy_db s)\<rparr>)"
    if "faithful U env" and "api_call c"
| worker_call: "system_step U ids excl s (put_prog w (k (env, sy_db s)) (s\<lparr>sy_db := eff env (sy_db s)\<rparr>))"
    if "sy_worker s w = Store ses i eff k" and "faithful U env"
| worker_begin: "system_step U ids excl s (put_prog w p (put_hold w (sy_batch s w - {x}) (Some x) s))"
    if "sy_worker s w = Begin x p"
| worker_ack: "system_step U ids excl s (put_prog w (k err)
      (s\<lparr>sy_stream := (\<lambda>n. if removed \<and> ids n = ident then None else sy_stream s n)\<rparr>))"
    if "sy_worker s w = Ack ident k" and "err = None \<longrightarrow> removed"
| worker_claim: "system_step U ids excl s (put_prog w (k (err, xs)) (put_hold w (set xs) None s))"
    if "sy_worker s w = Claim opts k" and "deliverable ids excl s w xs"
| worker_read: "system_step U ids excl s (put_prog w (k (Inr xss)) (put_hold w (set (concat xss)) None s))"
    if "sy_worker s w = Read opts k" and "deliverable ids excl s w (concat xss)"
| worker_no_read: "system_step U ids excl s (put_prog w (k (Inl e)) (put_hold w {} None s))"
    if "sy_worker s w = Read opts k"
| worker_context: "system_step U ids excl s (put_prog w (k err) s)"
    if "sy_worker s w = Context k"
| worker_turn: "system_step U ids excl s (put_prog w (turn_prog opts runs n) (put_hold w {} None s))"
| publisher_call: "system_step U ids excl s (put_publisher p (k (env, sy_db s)) (s\<lparr>sy_db := eff env (sy_db s)\<rparr>))"
    if "sy_publisher s p = Store ses i eff k" and "faithful U env"
| publisher_send: "system_step U ids excl s (put_publisher p (k err)
      (if added then s\<lparr>sy_stream := (sy_stream s)(sy_next s \<mapsto> raw), sy_next := Suc (sy_next s)\<rparr> else s))"
    if "sy_publisher s p = Send raw k" and "err = None \<longrightarrow> added"
| publisher_batch: "system_step U ids excl s (put_publisher p (publish_prog lib ses) s)"

definition system_reachable :: "(string \<Rightarrow> string option) \<Rightarrow> (nat \<Rightarrow> string) \<Rightarrow> bool \<Rightarrow> system \<Rightarrow> bool" where
  "system_reachable U ids excl s \<longleftrightarrow> (system_step U ids excl)\<^sup>*\<^sup>* system_start s"

section \<open>Programs that follow the phases of the engine\<close>

text \<open>
  \<open>wsafe U ids ph B p\<close>: from phase \<open>ph\<close>, with the messages \<open>B\<close> before it, the program \<open>p\<close> makes only calls that a
  worker of the engine makes in its phases.
\<close>

inductive wsafe ::
  "(string \<Rightarrow> string option) \<Rightarrow> (nat \<Rightarrow> string) \<Rightarrow> wphase \<Rightarrow> xmessage set \<Rightarrow> 'a prog \<Rightarrow> bool" for U ids
where
  ended: "wsafe U ids ph B (Done x)"
| idle: "wsafe U ids Idle B p \<Longrightarrow> wsafe U ids ph B p"
| free: "wsafe U ids ph B (Store ses i eff k)"
    if "\<And>env db. faithful U env \<Longrightarrow> eff env db = db \<or> (\<exists>c. free_call c \<and> eff env db = perform c env db)"
    and "\<And>env db. faithful U env \<Longrightarrow> wsafe U ids ph B (k (env, db))"
| start: "wsafe U ids (Holding e m) B (Store ses i eff k)"
    if "\<And>env db. faithful U env \<Longrightarrow> eff env db = snd (StartTaskAttempt (msg_TaskID m) env db)"
    and "\<And>env db. faithful U env \<Longrightarrow> wsafe U ids (after_start e m (fst (StartTaskAttempt (msg_TaskID m) env db))) B (k (env, db))"
| fin: "wsafe U ids (Started e m t a) B (Store ses i eff k)"
    if "\<And>env db. faithful U env \<Longrightarrow> eff env db = snd (end_attempt en t a env db)"
    and "\<And>env db. faithful U env \<Longrightarrow> wsafe U ids (after_end e m (fst (end_attempt en t a env db))) B (k (env, db))"
| turn_to: "wsafe U ids Idle B (Begin x p)"
    if "x \<in> B" and "decodeTaskMessage x = Inr m" and "\<And>e. ids e = xm_ID x \<Longrightarrow> wsafe U ids (Holding e m) (B - {x}) p"
| ack: "wsafe U ids (Acking e m) B (Ack (ids e) k)" if "\<And>err. wsafe U ids Idle B (k err)"
| claim: "wsafe U ids ph B (Claim opts k)"
    if "\<And>err xs. distinct (map xm_ID xs) \<Longrightarrow> wsafe U ids Idle (set xs) (k (err, xs))"
| read: "wsafe U ids ph B (Read opts k)"
    if "\<And>e. wsafe U ids Idle {} (k (Inl e))"
    and "\<And>xss. distinct (map xm_ID (concat xss)) \<Longrightarrow> wsafe U ids Idle (set (concat xss)) (k (Inr xss))"
| ctx: "wsafe U ids ph B (Context k)" if "\<And>err. wsafe U ids ph B (k err)"

text \<open>\<open>psafe U ph p\<close>: likewise for a publisher.\<close>

inductive psafe :: "(string \<Rightarrow> string option) \<Rightarrow> pphase \<Rightarrow> 'a prog \<Rightarrow> bool" for U
where
  ended: "psafe U ph (Done x)"
| stop: "psafe U (Publishing []) p \<Longrightarrow> psafe U ph p"
| skip: "psafe U (Publishing evs) p \<Longrightarrow> psafe U (Publishing (ev # evs)) p"
| free: "psafe U ph (Store ses i eff k)"
    if "\<And>env db. faithful U env \<Longrightarrow> \<exists>c. free_call c \<and> eff env db = perform c env db"
    and "\<And>env db. faithful U env \<Longrightarrow> psafe U ph (k (env, db))"
| enlist: "psafe U ph (Store ses i (\<lambda>env db. db) k)"
    if "\<And>env db e. faithful U env \<Longrightarrow> ListPendingOutbox limit env db = Inl e \<Longrightarrow> psafe U ph (k (env, db))"
    and "\<And>env db evs. faithful U env \<Longrightarrow> ListPendingOutbox limit env db = Inr evs \<Longrightarrow> psafe U (Publishing evs) (k (env, db))"
| send: "psafe U (Publishing (ev # evs)) (Send raw k)"
    if "message_text (evt_PayloadJSON ev) = Inr raw"
    and "psafe U (Marking ev evs) (k None)" and "\<And>e. psafe U (Publishing evs) (k (Some e))"
| mark: "psafe U (Marking ev evs) (Store ses i eff k)"
    if "\<And>env db. faithful U env \<Longrightarrow> eff env db = snd (MarkOutboxDispatched (evt_ID ev) env db)"
    and "\<And>env db. faithful U env \<Longrightarrow>
      psafe U (Publishing (if isl (fst (MarkOutboxDispatched (evt_ID ev) env db)) then [] else evs)) (k (env, db))"

subsection \<open>The code follows them\<close>

lemma bind_bind: "bind_prog (bind_prog p f) g = bind_prog p (\<lambda>x. bind_prog (f x) g)"
  by (induction p) simp_all

lemma bind_calls [simp]:
  "bind_prog (store ses i f k) g = store ses i f (\<lambda>x. bind_prog (k x) g)"
  "bind_prog (query ses i h l) g = query ses i h (\<lambda>x. bind_prog (l x) g)"
  by (simp_all add: store_def query_def case_prod_unfold)

lemma wsafe_query: "(\<And>x. wsafe U ids ph B (k x)) \<Longrightarrow> wsafe U ids ph B (query ses i f k)"
  unfolding query_def by (rule wsafe.free) auto

lemma wsafe_store:
  assumes "\<And>env db. \<exists>c. free_call c \<and> snd (f env db) = perform c env db" "\<And>x. wsafe U ids ph B (k x)"
  shows "wsafe U ids ph B (store ses i f k)"
  unfolding store_def by (rule wsafe.free) (use assms in auto)

lemma idempotency_calls:
  "\<exists>c. free_call c \<and> snd (pool_exec 0 (sql_insert_idempotency key ikey owner IdempotencyStatusInProgress) env db) = perform c env db"
  "\<exists>c. free_call c \<and> snd (CompleteIdempotentTask key ikey owner out env db) = perform c env db"
  "\<exists>c. free_call c \<and> snd (ReleaseIdempotentTask key ikey owner env db) = perform c env db"
  by (rule exI [of _ "CallBeginIdempotentTask key ikey owner"], simp add: store_inv.snd_Begin)
     (rule exI [of _ "CallCompleteIdempotentTask key ikey owner out"], simp,
      rule exI [of _ "CallReleaseIdempotentTask key ikey owner"], simp)

lemma wsafe_begin:
  assumes "\<And>x. wsafe U ids ph B (bind_prog (k x) g)"
  shows "wsafe U ids ph B (bind_prog (begin_prog key ikey owner ses k) g)"
  unfolding begin_prog_def bind_calls
proof (rule wsafe_store [OF idempotency_calls(1)])
  fix x :: "go_error + int"
  show "wsafe U ids ph B (bind_prog (case x of
      Inl e \<Rightarrow> k (Inl e)
    | Inr affected \<Rightarrow> if affected = 1 then k (Inr ([], False))
        else query ses 1 (pool_query 0 (sql_select_idempotency key ikey)) (\<lambda>found. case found of
            Inl e \<Rightarrow> k (Inl e)
          | Inr r \<Rightarrow> if ir_status r = IdempotencyStatusCompleted then k (Inr (stringValue (ir_response_json r), True))
              else if ir_owner_task_instance_id r = Some owner then k (Inr ([], False))
              else k (Inl errIdempotencyKeyInProgress))) g)"
    by (cases x) (auto simp del: One_nat_def intro!: wsafe_query assms split: sum.split)
qed

lemma wsafe_handler:
  assumes "registry_prog key = Some h" "\<And>x. wsafe U ids ph B (g x)"
  shows "wsafe U ids ph B (bind_prog (h task ses) g)"
proof -
  have "wsafe U ids ph B (bind_prog (handler_prog key' response task ses) g)" for key' response
    unfolding handler_prog_def Let_def
    by (rule wsafe_begin)
       (auto intro!: wsafe_store idempotency_calls assms(2) split: sum.split)
  with assms(1) show ?thesis by (auto simp: registry_prog_def split: if_splits)
qed

lemma wsafe_end:
  assumes "\<And>env db. call env db = end_attempt en t a env db" "wsafe U ids (Acking e m) B (g None)" "\<And>err. wsafe U ids Idle B (g (Some err))"
  shows "wsafe U ids (Started e m t a) B (bind_prog (end_prog call f ses) g)"
proof -
  have "wsafe U ids (after_end e m r) B (bind_prog (case r of Inl e \<Rightarrow> Done (Some (f e)) | Inr _ \<Rightarrow> Done None) g)" for r
    using assms(2,3) by (cases r) auto
  then show ?thesis unfolding end_prog_def bind_calls unfolding store_def
    by (intro wsafe.fin [where en = en]) (simp_all add: assms(1))
qed

lemma wsafe_ended:
  assumes "wsafe U ids (Acking e m) B (g None)" "\<And>err. wsafe U ids Idle B (g (Some err))"
  shows "wsafe U ids (Started e m (task_ID task) (att_ID attempt)) B (bind_prog (ended_prog wspec tspec task attempt run res) g)"
proof -
  have fin: "wsafe U ids (Started e m (task_ID task) (att_ID attempt)) B (bind_prog (end_prog (end_attempt en (task_ID task) (att_ID attempt)) f ses) g)"
    for en f ses
    by (rule wsafe_end [OF refl assms])
  note ends = fin [of "Succeed out" for out, simplified] fin [of "Advance n h out" for n h out, simplified]
    fin [of "Retry err at" for err at, simplified] fin [of "GiveUp err" for err, simplified]
  show ?thesis
    unfolding ended_prog_def using ends wsafe.idle [OF assms(2)]
    by (simp add: Let_def split: sum.split option.split)
qed

lemma wsafe_load:
  assumes "\<And>x. wsafe U ids ph B (bind_prog (k x) g)"
  shows "wsafe U ids ph B (bind_prog (load_prog t ses k) g)"
  unfolding load_prog_def bind_calls using assms
  by (auto intro!: wsafe_query split: sum.split)

lemma wsafe_start:
  assumes "\<And>r. wsafe U ids (after_start e m r) B (k r)"
  shows "wsafe U ids (Holding e m) B (store ses i (StartTaskAttempt (msg_TaskID m)) k)"
  unfolding store_def by (rule wsafe.start) (use assms in auto)

lemma wsafe_handle:
  assumes "wsafe U ids (Acking e m) B (g None)" "\<And>err. wsafe U ids Idle B (g (Some err))"
  shows "wsafe U ids (Holding e m) B (bind_prog (handle_prog m run) g)"
proof -
  have fail: "wsafe U ids ph B (g (Some err))" for ph err by (rule wsafe.idle [OF assms(2)])
  have missing: "wsafe U ids (Started e m (task_ID task) (att_ID attempt)) B
      (bind_prog (end_prog (FailTaskAttempt (task_ID task) (att_ID attempt) err) f ses) g)" for task attempt err f ses
    by (rule wsafe_end [of _ "GiveUp err", OF _ assms]) simp
  have handled: "wsafe U ids (Started e m (task_ID task) (att_ID attempt)) B
      (bind_prog (bind_prog (h task ses) (ended_prog wspec tspec task attempt run)) g)"
    if "registry_prog key = Some h" for key h task ses wspec tspec attempt
    by (simp add: bind_bind) (rule wsafe_handler [OF that wsafe_ended [OF assms]])
  show ?thesis unfolding handle_prog_def
    by (rule wsafe_load)
       (auto simp: Let_def fail assms(1) intro!: wsafe_start missing handled split: sum.split option.split)
qed

lemma wsafe_process:
  assumes "distinct (map xm_ID xs)" "set xs \<subseteq> B" "wsafe U ids Idle (B - set xs) (g None)" "\<And>B e. wsafe U ids Idle B (g (Some e))"
  shows "wsafe U ids Idle B (bind_prog (process_prog runs n xs) g)"
  using assms(1-3)
proof (induction xs arbitrary: B n)
  case (Cons x xs)
  show ?case
  proof (cases "decodeTaskMessage x")
    case (Inr m)
    have "x \<notin> set xs" using Cons.prems(1) by auto
    then have rest: "wsafe U ids Idle (B - {x}) (bind_prog (process_prog runs (Suc n) xs) g)"
      using Cons.prems by (intro Cons.IH) (auto simp: set_diff_eq Diff_insert2 [symmetric] insert_commute)
    have "wsafe U ids (Holding e m) (B - {x}) (bind_prog (handle_prog m (runs n)) (\<lambda>err. bind_prog (case err of
          Some e \<Rightarrow> process_prog runs (Suc n) xs
        | None \<Rightarrow> Ack (xm_ID x) (\<lambda>err. case err of Some e \<Rightarrow> Done (Some e) | None \<Rightarrow> process_prog runs (Suc n) xs)) g))"
      if "ids e = xm_ID x" for e
    proof (rule wsafe_handle)
      have "wsafe U ids Idle (B - {x}) (bind_prog (case err of Some e \<Rightarrow> Done (Some e) | None \<Rightarrow> process_prog runs (Suc n) xs) g)" for err
        using rest assms(4) by (cases err) simp_all
      then show "wsafe U ids (Acking e m) (B - {x}) (bind_prog (case None of
          Some e \<Rightarrow> process_prog runs (Suc n) xs
        | None \<Rightarrow> Ack (xm_ID x) (\<lambda>err. case err of Some e \<Rightarrow> Done (Some e) | None \<Rightarrow> process_prog runs (Suc n) xs)) g)"
        by (simp flip: that) (rule wsafe.ack)
    qed (use rest in simp)
    with Cons.prems(2) Inr show ?thesis by (auto simp: bind_bind intro!: wsafe.turn_to)
  qed (simp add: assms(4))
qed simp

lemma wsafe_streams:
  assumes "distinct (map xm_ID (concat xss))" "set (concat xss) \<subseteq> B"
  shows "wsafe U ids Idle B (streams_prog runs n xss)"
  using assms
proof (induction xss arbitrary: B n)
  case (Cons xs xss)
  have "wsafe U ids Idle (B - set xs) (streams_prog runs (n + length xs) xss)"
  proof (rule Cons.IH)
    have "xm_ID ` set xs \<inter> xm_ID ` set (concat xss) = {}" using Cons.prems(1) by simp
    then show "set (concat xss) \<subseteq> B - set xs" using Cons.prems(2) by (auto 0 3)
  qed (use Cons.prems in simp)
  then show ?case using Cons.prems by (auto intro!: wsafe_process wsafe.ended)
qed (simp add: wsafe.ended)

lemma bind_Done [simp]: "bind_prog p Done = p"
  by (induction p) simp_all

lemma wsafe_turn: "wsafe U ids Idle B (turn_prog opts runs n)"
proof -
  have "wsafe U ids Idle (set xs) (process_prog runs n xs)" if "distinct (map xm_ID xs)" for xs
    using wsafe_process [OF that, of "set xs" U ids Done runs n] by (simp add: wsafe.ended)
  then show ?thesis unfolding turn_prog_def
    by (auto intro!: wsafe.ctx wsafe.claim wsafe.read wsafe_streams wsafe.ended split: option.split)
qed

subsection \<open>The publisher\<close>

lemma psafe_store:
  assumes "\<And>env db. \<exists>c. free_call c \<and> snd (f env db) = perform c env db" "\<And>x. psafe U ph (k x)"
  shows "psafe U ph (store ses i f k)"
  unfolding store_def by (rule psafe.free) (use assms in auto)

lemma publisher_calls:
  "\<exists>c. free_call c \<and> snd (EnqueueDueTaskRetries l env db) = perform c env db"
  "\<exists>c. free_call c \<and> snd (RecordOutboxFailure i t env db) = perform c env db"
  by (rule exI [of _ "CallEnqueueDueTaskRetries l"], simp) (rule exI [of _ "CallRecordOutboxFailure i t"], simp)

lemma psafe_events: "psafe U (Publishing events) (events_prog lib ses n events)"
proof (induction events arbitrary: n)
  case (Cons ev events)
  have failed: "psafe U (Publishing events) (store ses n (RecordOutboxFailure i t) (\<lambda>_. events_prog lib ses (Suc n) events))" for i t
    by (rule psafe_store [OF publisher_calls(2) Cons.IH])
  have "psafe U (Marking ev events) (store ses n (MarkOutboxDispatched (evt_ID ev)) (\<lambda>marked. case marked of
      Inl e \<Rightarrow> Done (Some e) | Inr _ \<Rightarrow> events_prog lib ses (Suc n) events))"
    unfolding store_def using Cons.IH by (intro psafe.mark) (auto intro: psafe.ended split: sum.split)
  then have sent: "psafe U (Publishing (ev # events)) (Send raw (\<lambda>sent. case sent of
       Some e \<Rightarrow> store ses n (RecordOutboxFailure (evt_ID ev) (lib e)) (\<lambda>_. events_prog lib ses (Suc n) events)
     | None \<Rightarrow> store ses n (MarkOutboxDispatched (evt_ID ev)) (\<lambda>marked. case marked of
         Inl e \<Rightarrow> Done (Some e) | Inr _ \<Rightarrow> events_prog lib ses (Suc n) events)))"
    if "message_text (evt_PayloadJSON ev) = Inr raw" for raw
    using that failed by (intro psafe.send) simp_all
  show ?case using psafe.skip [OF failed] sent
    by (auto simp: Let_def message_text_def split: sum.split)
qed (simp add: psafe.ended)

lemma psafe_publish: "psafe U ph (publish_prog lib ses)"
proof -
  have "psafe U ph (query ses i (ListPendingOutbox limit) (\<lambda>listed. case listed of
      Inl e \<Rightarrow> Done (Some e) | Inr events \<Rightarrow> events_prog lib ses 2 events))" for i limit
    unfolding query_def by (rule psafe.enlist [where limit = limit]) (auto intro: psafe.ended psafe_events)
  then show ?thesis unfolding publish_prog_def
    by (intro psafe_store publisher_calls(1)) (auto intro: psafe.ended split: sum.split)
qed

section \<open>The simulation\<close>

text \<open>Every consumer decodes the payload to the message.\<close>

definition decodes_to :: "string \<Rightarrow> TaskMessage \<Rightarrow> bool" where
  "decodes_to raw m \<longleftrightarrow> (\<forall>x. xm_Values x ''payload'' = Some (XString raw) \<longrightarrow> decodeTaskMessage x = Inr m)"

lemma listed_decodes:
  assumes "engine_ok U s" "listed (en_db s) (ev # evs)" "message_text (evt_PayloadJSON ev) = Inr raw"
  obtains m where "decodes_to raw m"
proof -
  obtain q where q: "q \<in> set (outbox_events (en_db s))" "ob_payload_json q = evt_PayloadJSON ev"
    using assms(2) by (auto simp: listed_def)
  obtain pl where pl: "json_unmarshal unmarshal_payload (evt_PayloadJSON ev) = Inr pl"
      "utf8_valid (pay_TaskID pl)" "utf8_valid (pay_ExecutionID pl)" "utf8_valid (pay_HandlerKey pl)"
    using dispatch_okD(1) [OF engine_okD(2) [OF assms(1)] q(1)] q(2) by (auto simp: event_ok_def payload_ok_def)
  have "decodes_to raw (payload_message pl)"
    unfolding decodes_to_def using assms(3) pl
    by (auto intro!: message_roundtrip [of _ raw] simp: message_text_def payload_message_def)
  then show thesis by (rule that)
qed

lemma entry_decodes: "decodes_to raw m \<Longrightarrow> decodeTaskMessage (entry_message ids n raw) = Inr m"
  by (simp add: decodes_to_def entry_message_def)

text \<open>A worker of the engine moves alone, and goes on with its entry or drops it.\<close>

definition worker_moves :: "nat \<Rightarrow> engine \<Rightarrow> engine \<Rightarrow> bool" where
  "worker_moves w s s' \<longleftrightarrow> en_next s' = en_next s \<and> en_publisher s' = en_publisher s \<and>
     (\<forall>v. v \<noteq> w \<longrightarrow> en_worker s' v = en_worker s v) \<and>
     (entry_of (en_worker s' w) = entry_of (en_worker s w) \<or> en_worker s' w = Idle)"

lemma wsafe_call:
  assumes "wsafe U ids ph B q" "q = Store ses i eff k" "en_worker s w = ph" "faithful U env"
  shows "\<exists>s'. engine_steps U True s s' \<and> en_db s' = eff env (en_db s) \<and> en_unacked s' = en_unacked s \<and>
    worker_moves w s s' \<and> wsafe U ids (en_worker s' w) B (k (env, en_db s))"
  using assms(1-3)
proof (induction arbitrary: s rule: wsafe.induct)
  case (idle B p ph)
  have "engine_step U True s (set_worker w Idle s)" by (rule engine_step.drop)
  moreover obtain s' where "engine_steps U True (set_worker w Idle s) s'" "en_db s' = eff env (en_db s)"
      "en_unacked s' = en_unacked s" "worker_moves w (set_worker w Idle s) s'" "wsafe U ids (en_worker s' w) B (k (env, en_db s))"
    using idle.IH [OF idle.prems(1), of "set_worker w Idle s"] by auto
  moreover from this(4) have "worker_moves w s s'" by (cases "en_worker s' w") (auto simp: worker_moves_def)
  ultimately show ?case by (meson converse_rtranclp_into_rtranclp)
next
  case (free eff' ph B k' ses' i')
  then have e: "eff' = eff" "k' = k" by simp_all
  from free.hyps(1) [OF assms(4), of "en_db s"] show ?case
  proof (elim disjE exE conjE)
    assume "eff' env (en_db s) = en_db s"
    then show ?thesis using free.hyps(2) [OF assms(4)] free.prems e by (intro exI [of _ s]) (auto simp: worker_moves_def)
  next
    fix c assume c: "free_call c" "eff' env (en_db s) = perform c env (en_db s)"
    have "engine_step U True s (s\<lparr>en_db := perform c env (en_db s)\<rparr>)" by (rule engine_step.free [OF assms(4) c(1)])
    then show ?thesis using free.hyps(2) [OF assms(4)] free.prems e c(2)
      by (intro exI [of _ "s\<lparr>en_db := perform c env (en_db s)\<rparr>"]) (auto simp: worker_moves_def)
  qed
next
  case (start eff' m e B k' ses' i')
  let ?r = "StartTaskAttempt (msg_TaskID m) env (en_db s)"
  let ?s = "set_worker w (after_start e m (fst ?r)) (s\<lparr>en_db := snd ?r\<rparr>)"
  have "engine_step U True s ?s" using start.prems(2) assms(4) by (rule engine_step.start) simp
  moreover have "entry_of (after_start e m r) = Some (e, m) \<or> after_start e m r = Idle" for r
    by (cases "(e, m, r)" rule: after_start.cases) auto
  ultimately show ?case using start.hyps(1,2) [OF assms(4), of "en_db s"] start.prems
    by (intro exI [of _ ?s]) (auto simp: worker_moves_def)
next
  case (fin eff' en t a e m B k' ses' i')
  let ?r = "end_attempt en t a env (en_db s)"
  let ?s = "set_worker w (after_end e m (fst ?r)) (s\<lparr>en_db := snd ?r\<rparr>)"
  have "engine_step U True s ?s" using fin.prems(2) assms(4) by (rule engine_step.finish_attempt) simp
  moreover have "entry_of (after_end e m r) = Some (e, m) \<or> after_end e m r = Idle" for r by (cases r) auto
  ultimately show ?case using fin.hyps(1,2) [OF assms(4), of "en_db s"] fin.prems
    by (intro exI [of _ ?s]) (auto simp: worker_moves_def)
qed simp_all

text \<open>What the program of a worker is followed by at its calls of Redis.\<close>

lemma wsafe_Begin:
  assumes "wsafe U ids ph B (Begin x p)"
  obtains m where "x \<in> B" "decodeTaskMessage x = Inr m" "\<And>e. ids e = xm_ID x \<Longrightarrow> wsafe U ids (Holding e m) (B - {x}) p"
proof -
  have "q = Begin x p \<Longrightarrow> x \<in> B \<and> (\<exists>m. decodeTaskMessage x = Inr m \<and> (\<forall>e. ids e = xm_ID x \<longrightarrow> wsafe U ids (Holding e m) (B - {x}) p))"
    if "wsafe U ids ph B q" for q
    using that by (induction rule: wsafe.induct) auto
  with assms that show thesis by blast
qed

lemma wsafe_Ack:
  assumes "wsafe U ids ph B (Ack ident k)"
  obtains e m where "ph = Acking e m" "ident = ids e" "\<And>err. wsafe U ids Idle B (k err)"
proof -
  have "q = Ack ident k \<Longrightarrow> \<exists>e m. ph = Acking e m \<and> ident = ids e \<and> (\<forall>err. wsafe U ids Idle B (k err))"
    if "wsafe U ids ph B q" for q
    using that by (induction rule: wsafe.induct) auto
  with assms that show thesis by blast
qed

lemma wsafe_Claim:
  assumes "wsafe U ids ph B (Claim opts k)" "distinct (map xm_ID xs)"
  shows "wsafe U ids Idle (set xs) (k (err, xs))"
proof -
  have "q = Claim opts k \<Longrightarrow> wsafe U ids Idle (set xs) (k (err, xs))" if "wsafe U ids ph B q" for q
    using that assms(2) by (induction rule: wsafe.induct) auto
  with assms(1) show ?thesis by blast
qed

lemma wsafe_Read:
  assumes "wsafe U ids ph B (Read opts k)"
  shows "wsafe U ids Idle {} (k (Inl e))" "distinct (map xm_ID (concat xss)) \<Longrightarrow> wsafe U ids Idle (set (concat xss)) (k (Inr xss))"
proof -
  have "q = Read opts k \<Longrightarrow> wsafe U ids Idle {} (k (Inl e)) \<and>
      (distinct (map xm_ID (concat xss)) \<longrightarrow> wsafe U ids Idle (set (concat xss)) (k (Inr xss)))" if "wsafe U ids ph B q" for q
    using that by (induction rule: wsafe.induct) auto
  with assms show "wsafe U ids Idle {} (k (Inl e))" "distinct (map xm_ID (concat xss)) \<Longrightarrow> wsafe U ids Idle (set (concat xss)) (k (Inr xss))"
    by blast+
qed

lemma wsafe_Context:
  assumes "wsafe U ids ph B (Context k)"
  shows "wsafe U ids ph B (k err)"
proof -
  have "q = Context k \<Longrightarrow> wsafe U ids ph B (k err)" if "wsafe U ids ph B q" for q
    using that by (induction rule: wsafe.induct) (auto intro: wsafe.idle)
  with assms show ?thesis by blast
qed

text \<open>The calls of a publisher.\<close>

definition publisher_moves :: "nat \<Rightarrow> engine \<Rightarrow> engine \<Rightarrow> bool" where
  "publisher_moves p s s' \<longleftrightarrow> en_worker s' = en_worker s \<and> (\<forall>v. v \<noteq> p \<longrightarrow> en_publisher s' v = en_publisher s v)"

lemma psafe_lead:
  assumes "engine_step U True s s1" "publisher_moves p s s1" "en_db s1 = en_db s" "en_unacked s1 = en_unacked s" "en_next s1 = en_next s"
    and "\<exists>s'. engine_steps U True s1 s' \<and> publisher_moves p s1 s' \<and> P (en_db s1) (en_unacked s1) (en_next s1) s'"
  shows "\<exists>s'. engine_steps U True s s' \<and> publisher_moves p s s' \<and> P (en_db s) (en_unacked s) (en_next s) s'"
proof -
  from assms(6) obtain s' where "engine_steps U True s1 s'" "publisher_moves p s1 s'" "P (en_db s) (en_unacked s) (en_next s) s'"
    by (auto simp: assms(3-5))
  with assms(1,2) show ?thesis
    by (intro exI [of _ s']) (auto simp: publisher_moves_def intro: converse_rtranclp_into_rtranclp)
qed

lemma psafe_call:
  assumes "psafe U ph q" "q = Store ses i eff k" "en_publisher s p = ph" "faithful U env"
  shows "\<exists>s'. engine_steps U True s s' \<and> publisher_moves p s s' \<and>
    (en_db s' = eff env (en_db s) \<and> en_unacked s' = en_unacked s \<and> en_next s' = en_next s \<and> psafe U (en_publisher s' p) (k (env, en_db s)))"
  using assms(1-3)
proof (induction arbitrary: s rule: psafe.induct)
  case (stop q ph)
  show ?case
    by (rule psafe_lead [where P = "\<lambda>db u n s'. en_db s' = eff env db \<and> en_unacked s' = u \<and> en_next s' = n \<and> psafe U (en_publisher s' p) (k (env, db))",
        OF engine_step.stop [of U True s p]])
       (use stop.IH [OF stop.prems(1), of "set_publisher p (Publishing []) s"] in \<open>auto simp: publisher_moves_def\<close>)
next
  case (skip evs q ev)
  show ?case
    by (rule psafe_lead [where P = "\<lambda>db u n s'. en_db s' = eff env db \<and> en_unacked s' = u \<and> en_next s' = n \<and> psafe U (en_publisher s' p) (k (env, db))",
        OF engine_step.skip [OF skip.prems(2)]])
       (use skip.IH [OF skip.prems(1), of "set_publisher p (Publishing evs) s"] in \<open>auto simp: publisher_moves_def\<close>)
next
  case (free eff' ph k' ses' i')
  from free.hyps(1) [OF assms(4), of "en_db s"] obtain c where c: "free_call c" "eff' env (en_db s) = perform c env (en_db s)" by blast
  have "engine_step U True s (s\<lparr>en_db := perform c env (en_db s)\<rparr>)" by (rule engine_step.free [OF assms(4) c(1)])
  then show ?case using free.hyps(2) [OF assms(4), of "en_db s"] free.prems c(2)
    by (intro exI [of _ "s\<lparr>en_db := perform c env (en_db s)\<rparr>"]) (auto simp: publisher_moves_def)
next
  case (enlist limit ph k' ses' i')
  show ?case
  proof (cases "ListPendingOutbox limit env (en_db s)")
    case (Inl e)
    from enlist.hyps(1) [OF assms(4) Inl] enlist.prems show ?thesis by (intro exI [of _ s]) (auto simp: publisher_moves_def)
  next
    case (Inr evs)
    have "engine_step U True s (set_publisher p (Publishing evs) s)" by (rule engine_step.enlist [OF assms(4) Inr])
    then show ?thesis using enlist.hyps(2) [OF assms(4) Inr] enlist.prems
      by (intro exI [of _ "set_publisher p (Publishing evs) s"]) (auto simp: publisher_moves_def)
  qed
next
  case (mark eff' ev evs k' ses' i')
  let ?r = "MarkOutboxDispatched (evt_ID ev) env (en_db s)"
  let ?s = "set_publisher p (Publishing (if isl (fst ?r) then [] else evs)) (s\<lparr>en_db := snd ?r\<rparr>)"
  have "engine_step U True s ?s" using mark.prems(2) assms(4) by (rule engine_step.mark) simp
  then show ?case using mark.hyps(1,2) [OF assms(4), of "en_db s"] mark.prems
    by (intro exI [of _ ?s]) (auto simp: publisher_moves_def)
qed simp_all

lemma psafe_Send:
  assumes "psafe U ph (Send raw k)"
  obtains pre ev evs where "ph = Publishing (pre @ ev # evs)" "message_text (evt_PayloadJSON ev) = Inr raw"
    "psafe U (Marking ev evs) (k None)" "\<And>e. psafe U (Publishing evs) (k (Some e))"
proof -
  have "q = Send raw k \<Longrightarrow> \<exists>pre ev evs. ph = Publishing (pre @ ev # evs) \<and> message_text (evt_PayloadJSON ev) = Inr raw \<and>
      psafe U (Marking ev evs) (k None) \<and> (\<forall>e. psafe U (Publishing evs) (k (Some e)))"
    if "psafe U ph q" for q
    using that
  proof (induction rule: psafe.induct)
    case (skip evs q ev)
    then obtain pre ev' evs' where "evs = pre @ ev' # evs'" "message_text (evt_PayloadJSON ev') = Inr raw"
      "psafe U (Marking ev' evs') (k None)" "\<forall>e. psafe U (Publishing evs') (k (Some e))" by auto
    then show ?case by (intro exI [of _ "ev # pre"] exI [of _ ev'] exI [of _ evs']) simp
  next
    case (send ev raw' evs k')
    then show ?case by (intro exI [of _ "[]"] exI [of _ ev] exI [of _ evs]) auto
  qed auto
  with assms that show thesis by blast
qed

lemma skip_steps:
  "en_publisher s p = Publishing (pre @ evs) \<Longrightarrow> engine_steps U True s (set_publisher p (Publishing evs) s)"
proof (induction pre arbitrary: s)
  case Nil
  then have "set_publisher p (Publishing evs) s = s" by (simp add: set_publisher_def fun_upd_idem)
  then show ?case by simp
next
  case (Cons ev pre)
  let ?s = "set_publisher p (Publishing (pre @ evs)) s"
  have "engine_step U True s ?s" using Cons.prems by (intro engine_step.skip) simp
  moreover have "engine_steps U True ?s (set_publisher p (Publishing evs) ?s)" by (rule Cons.IH) simp
  moreover have "set_publisher p (Publishing evs) ?s = set_publisher p (Publishing evs) s" by (simp add: set_publisher_def)
  ultimately show ?case by (metis converse_rtranclp_into_rtranclp)
qed

lemma psafe_send:
  assumes "psafe U ph (Send raw k)" "en_publisher s p = ph" "engine_ok U s" "err = None \<longrightarrow> added"
  obtains m s' where "engine_steps U True s s'" "publisher_moves p s s'" "en_db s' = en_db s" "decodes_to raw m"
    "en_unacked s' = (if added then (en_unacked s)(en_next s \<mapsto> m) else en_unacked s)"
    "en_next s' = (if added then Suc (en_next s) else en_next s)" "psafe U (en_publisher s' p) (k err)"
proof -
  from psafe_Send [OF assms(1)] obtain pre ev evs where ph: "ph = Publishing (pre @ ev # evs)"
    and raw: "message_text (evt_PayloadJSON ev) = Inr raw"
    and k: "psafe U (Marking ev evs) (k None)" "\<And>e. psafe U (Publishing evs) (k (Some e))" by metis
  let ?s = "set_publisher p (Publishing (ev # evs)) s"
  have skips: "engine_steps U True s ?s" using assms(2) ph by (intro skip_steps) simp
  have ok: "engine_ok U ?s" using skips assms(3) by (induction rule: rtranclp_induct) (auto intro: engine_ok_step)
  then have "listed (en_db ?s) (ev # evs)" unfolding engine_ok_def publishers_ok_def
    by (metis events_of.simps(1) fun_upd_same set_fields(10))
  then obtain m where m: "decodes_to raw m" using listed_decodes [OF ok _ raw] by blast
  show thesis
  proof (cases added)
    case True
    let ?ph = "if err = None then Marking ev evs else Publishing evs"
    have "engine_step U True ?s (set_publisher p ?ph (add_entry m ?s))"
      by (rule engine_step.send [where x = "entry_message (\<lambda>_. []) 0 raw", OF _ raw])
         (use m in \<open>simp_all add: entry_decodes\<close>, simp add: entry_message_def)
    with skips have "engine_steps U True s (set_publisher p ?ph (add_entry m ?s))" by simp
    then show thesis
      by (rule that [OF _ _ _ m]) (use k True in \<open>auto simp: publisher_moves_def\<close>)
  next
    case False
    then obtain e where e: "err = Some e" using assms(4) by auto
    have "engine_steps U True s (set_publisher p (Publishing evs) s)"
      using assms(2) ph by (intro skip_steps [where pre = "pre @ [ev]"]) simp
    then show thesis
      by (rule that [OF _ _ _ m]) (use k(2) False e in \<open>auto simp: publisher_moves_def\<close>)
  qed
qed

section \<open>The refinement\<close>

definition sim :: "(string \<Rightarrow> string option) \<Rightarrow> (nat \<Rightarrow> string) \<Rightarrow> system \<Rightarrow> engine \<Rightarrow> bool" where
  "sim U ids x s \<longleftrightarrow> engine_ok U s \<and> en_db s = sy_db x \<and> en_next s = sy_next x \<and>
     (\<forall>n. rel_option decodes_to (sy_stream x n) (en_unacked s n)) \<and>
     (\<forall>w. wsafe U ids (en_worker s w) (sy_batch x w) (sy_worker x w)) \<and>
     (\<forall>p. psafe U (en_publisher s p) (sy_publisher x p)) \<and>
     (\<forall>w k m. entry_of (en_worker s w) = Some (k, m) \<longrightarrow> (\<exists>y. sy_current x w = Some y \<and> xm_ID y = ids k)) \<and>
     (\<forall>w. \<forall>y \<in> sy_batch x w. \<exists>n raw. sy_stream x n = Some raw \<and> y = entry_message ids n raw) \<and>
     (\<forall>w z. sy_current x w = Some z \<longrightarrow> (\<forall>y \<in> sy_batch x w. xm_ID y \<noteq> xm_ID z)) \<and>
     (\<forall>v w. v \<noteq> w \<longrightarrow> (\<forall>y \<in> held x v. \<forall>z \<in> held x w. xm_ID y \<noteq> xm_ID z))"

lemma simD:
  assumes "sim U ids x s"
  shows "engine_ok U s" "en_db s = sy_db x" "en_next s = sy_next x" "rel_option decodes_to (sy_stream x n) (en_unacked s n)"
    "wsafe U ids (en_worker s w) (sy_batch x w) (sy_worker x w)" "psafe U (en_publisher s p) (sy_publisher x p)"
    "entry_of (en_worker s w) = Some (k, m) \<Longrightarrow> \<exists>y. sy_current x w = Some y \<and> xm_ID y = ids k"
    "y \<in> sy_batch x w \<Longrightarrow> \<exists>n raw. sy_stream x n = Some raw \<and> y = entry_message ids n raw"
    "sy_current x w = Some z \<Longrightarrow> y \<in> sy_batch x w \<Longrightarrow> xm_ID y \<noteq> xm_ID z"
    "v \<noteq> w \<Longrightarrow> y \<in> held x v \<Longrightarrow> z \<in> held x w \<Longrightarrow> xm_ID y \<noteq> xm_ID z"
  using assms unfolding sim_def by blast+

lemma system_fields [simp]:
  "sy_db (put_prog w q x) = sy_db x" "sy_stream (put_prog w q x) = sy_stream x" "sy_next (put_prog w q x) = sy_next x"
  "sy_worker (put_prog w q x) = (sy_worker x)(w := q)" "sy_batch (put_prog w q x) = sy_batch x"
  "sy_current (put_prog w q x) = sy_current x" "sy_publisher (put_prog w q x) = sy_publisher x"
  "sy_db (put_hold w B c x) = sy_db x" "sy_stream (put_hold w B c x) = sy_stream x" "sy_next (put_hold w B c x) = sy_next x"
  "sy_worker (put_hold w B c x) = sy_worker x" "sy_batch (put_hold w B c x) = (sy_batch x)(w := B)"
  "sy_current (put_hold w B c x) = (sy_current x)(w := c)" "sy_publisher (put_hold w B c x) = sy_publisher x"
  "sy_db (put_publisher p q x) = sy_db x" "sy_stream (put_publisher p q x) = sy_stream x" "sy_next (put_publisher p q x) = sy_next x"
  "sy_worker (put_publisher p q x) = sy_worker x" "sy_batch (put_publisher p q x) = sy_batch x"
  "sy_current (put_publisher p q x) = sy_current x" "sy_publisher (put_publisher p q x) = (sy_publisher x)(p := q)"
  by (simp_all add: put_prog_def put_hold_def put_publisher_def)

lemma system_updates [simp]:
  "put_prog w q (put_prog w q' x) = put_prog w q x" "put_hold w B c (put_prog v q x) = put_prog v q (put_hold w B c x)"
  "put_hold w B c (put_hold w B' c' x) = put_hold w B c x"
  by (simp_all add: put_prog_def put_hold_def)

lemma steps_ok: "engine_steps U True s s' \<Longrightarrow> engine_ok U s \<Longrightarrow> engine_ok U s'"
  by (induction rule: rtranclp_induct) (auto intro: engine_ok_step)

text \<open>A call of a worker or a publisher.\<close>

lemma sim_worker_call:
  assumes "sim U ids x s" "engine_steps U True s s'" "en_db s' = db" "en_unacked s' = en_unacked s" "worker_moves w s s'"
    and "wsafe U ids (en_worker s' w) (sy_batch x w) q"
  shows "sim U ids (put_prog w q (x\<lparr>sy_db := db\<rparr>)) s'"
proof -
  note d = simD [OF assms(1)] and m = assms(5) [unfolded worker_moves_def]
  have "\<exists>y. sy_current x v = Some y \<and> xm_ID y = ids k" if "entry_of (en_worker s' v) = Some (k, m')" for v k m'
    using that m d(7) [of v k m'] by (cases "v = w") auto
  moreover have "wsafe U ids (en_worker s' v) (sy_batch x v) (((sy_worker x)(w := q)) v)" for v
    using m d(5) [of v] assms(6) by simp
  ultimately show ?thesis
    using assms(1,3,4) m steps_ok [OF assms(2) d(1)] unfolding sim_def by (simp add: held_def)
qed

lemma sim_publisher_call:
  assumes "sim U ids x s" "engine_steps U True s s'" "publisher_moves p s s'" "en_db s' = sy_db x'" "en_next s' = sy_next x'"
    and "\<And>n. rel_option decodes_to (sy_stream x' n) (en_unacked s' n)" "\<And>n raw. sy_stream x n = Some raw \<Longrightarrow> sy_stream x' n = Some raw"
    and "sy_worker x' = sy_worker x" "sy_batch x' = sy_batch x" "sy_current x' = sy_current x" "sy_publisher x' = (sy_publisher x)(p := q)"
    and "psafe U (en_publisher s' p) q"
  shows "sim U ids x' s'"
proof -
  note d = simD [OF assms(1)] and m = assms(3) [unfolded publisher_moves_def]
  have held: "held x' = held x" by (simp add: held_def fun_eq_iff assms(9,10))
  have "\<forall>w. \<forall>y \<in> sy_batch x' w. \<exists>n raw. sy_stream x' n = Some raw \<and> y = entry_message ids n raw"
    using d(8) assms(7) unfolding assms(9) by blast
  moreover have "psafe U (en_publisher s' v) (sy_publisher x' v)" for v using m d(6) [of v] assms(11,12) by simp
  ultimately show ?thesis
    using assms(1,4-6,8-10) m steps_ok [OF assms(2) d(1)] held unfolding sim_def by simp
qed

text \<open>A worker drops what it is at and gets the messages \<open>B\<close>.\<close>

lemma sim_worker_idle:
  assumes "sim U ids x s" "wsafe U ids Idle B q" "\<forall>y \<in> B. \<exists>n raw. sy_stream x n = Some raw \<and> y = entry_message ids n raw"
    and "\<And>v y z. v \<noteq> w \<Longrightarrow> y \<in> held x v \<Longrightarrow> z \<in> B \<Longrightarrow> xm_ID y \<noteq> xm_ID z"
  shows "sim U ids (put_prog w q (put_hold w B None x)) (set_worker w Idle s)"
proof -
  let ?x = "put_prog w q (put_hold w B None x)"
  note d = simD [OF assms(1)]
  have h: "held ?x v = (if v = w then B else held x v)" for v by (simp add: held_def)
  have "xm_ID y \<noteq> xm_ID z" if "v \<noteq> v'" "y \<in> held ?x v" "z \<in> held ?x v'" for v v' y z
    using that d(10) [of v v' y z] assms(4) [of v y z] assms(4) [of v' z y] unfolding h by (auto split: if_splits)
  moreover have "engine_ok U (set_worker w Idle s)" by (rule engine_ok_idle [OF d(1)])
  ultimately show ?thesis using assms(1-3) unfolding sim_def by auto
qed

lemma sim_begin:
  assumes "sim U ids x s" "inj ids" "sy_worker x w = Begin y p"
  shows "\<exists>s'. engine_steps U True s s' \<and> sim U ids (put_prog w p (put_hold w (sy_batch x w - {y}) (Some y) x)) s'"
proof -
  let ?x = "put_prog w p (put_hold w (sy_batch x w - {y}) (Some y) x)"
  note d = simD [OF assms(1)]
  from wsafe_Begin [OF d(5) [of w, unfolded assms(3)]] obtain m where y: "y \<in> sy_batch x w" "decodeTaskMessage y = Inr m"
    "\<And>e. ids e = xm_ID y \<Longrightarrow> wsafe U ids (Holding e m) (sy_batch x w - {y}) p" by metis
  from d(8) [OF y(1)] obtain n raw where n: "sy_stream x n = Some raw" "y = entry_message ids n raw" by blast
  have id: "ids n = xm_ID y" by (simp add: n(2) entry_message_def)
  from d(4) [of n] n(1) obtain m' where m': "en_unacked s n = Some m'" "decodes_to raw m'" by (auto simp: option_rel_Some1)
  then have m: "m' = m" using y(2) entry_decodes [OF m'(2), of ids n] n(2) by simp
  have others: "entry_of (en_worker s v) \<noteq> Some (n, m'')" if "v \<noteq> w" for v m''
  proof
    assume "entry_of (en_worker s v) = Some (n, m'')"
    from d(7) [OF this] obtain z where "sy_current x v = Some z" "xm_ID z = ids n" by blast
    then show False using d(10) [OF that, of z y] y(1) id by (simp add: held_def)
  qed
  let ?idle = "set_worker w Idle s" and ?s = "set_worker w (Holding n m) (set_worker w Idle s)"
  have drop: "engine_step U True s ?idle" by (rule engine_step.drop)
  have deliver: "engine_step U True ?idle ?s"
    by (rule engine_step.deliver) (use m'(1) m others in auto)
  have sub: "held ?x v \<subseteq> held x v" for v
    using y(1) by (auto simp: held_def)
  have "xm_ID z \<noteq> xm_ID z'" if "v \<noteq> v'" "z \<in> held ?x v" "z' \<in> held ?x v'" for v v' z z'
    using d(10) [OF that(1)] that(2,3) sub by blast
  moreover have "xm_ID z' \<noteq> xm_ID z" if "sy_current ?x v = Some z" "z' \<in> sy_batch ?x v" for v z z'
  proof (cases "v = w")
    case True
    with that have z: "z = y" "z' \<in> sy_batch x w" "z' \<noteq> y" by simp_all
    from d(8) [OF z(2)] obtain n' raw' where "sy_stream x n' = Some raw'" "z' = entry_message ids n' raw'" by blast
    then show ?thesis using z n assms(2) by (auto simp: entry_message_def inj_eq)
  qed (use that d(9) [of v z z'] in simp)
  moreover have "\<exists>n raw. sy_stream ?x n = Some raw \<and> z = entry_message ids n raw" if "z \<in> sy_batch ?x v" for v z
    using that d(8) [of z v] by (cases "v = w") auto
  moreover have "\<exists>z. sy_current ?x v = Some z \<and> xm_ID z = ids k" if "entry_of (en_worker ?s v) = Some (k, m')" for v k m'
    using that d(7) [of v k m'] id by (cases "v = w") auto
  moreover have "wsafe U ids (en_worker ?s v) (sy_batch ?x v) (sy_worker ?x v)" for v
    using d(5) [of v] y(3) [OF id] by simp
  moreover have "engine_ok U ?s" using drop deliver engine_ok_step d(1) by blast
  ultimately have "sim U ids ?x ?s"
    using d(2,3,4,6) unfolding sim_def by simp
  with drop deliver show ?thesis by (meson converse_rtranclp_into_rtranclp rtranclp.rtrancl_refl)
qed

lemma sim_ack:
  assumes "sim U ids x s" "inj ids" "sy_worker x w = Ack ident k"
  shows "\<exists>s'. engine_steps U True s s' \<and> sim U ids (put_prog w (k err)
    (x\<lparr>sy_stream := (\<lambda>n. if removed \<and> ids n = ident then None else sy_stream x n)\<rparr>)) s'"
proof -
  let ?x = "put_prog w (k err) (x\<lparr>sy_stream := (\<lambda>n. if removed \<and> ids n = ident then None else sy_stream x n)\<rparr>)"
  note d = simD [OF assms(1)]
  from wsafe_Ack [OF d(5) [of w, unfolded assms(3)]] obtain e m where a: "en_worker s w = Acking e m" "ident = ids e"
    "wsafe U ids Idle (sy_batch x w) (k err)" by metis
  from d(7) [of w e m] a(1) obtain z where z: "sy_current x w = Some z" "xm_ID z = ids e" by auto
  let ?s = "set_worker w Idle (if removed then s\<lparr>en_unacked := (en_unacked s)(e := None)\<rparr> else s)"
  have step: "engine_step U True s ?s" using engine_step.ack [OF a(1)] engine_step.drop by simp
  have held: "held ?x = held x" by (simp add: held_def fun_eq_iff)
  have "\<exists>n raw. sy_stream ?x n = Some raw \<and> y = entry_message ids n raw" if "y \<in> sy_batch x v" for v y
  proof -
    from d(8) [OF that] obtain n raw where n: "sy_stream x n = Some raw" "y = entry_message ids n raw" by blast
    have "xm_ID y \<noteq> xm_ID z" using d(9) [OF z(1)] d(10) [of v w y z] that z(1) by (cases "v = w") (auto simp: held_def)
    then have "ids n \<noteq> ident" using n(2) z(2) a(2) by (auto simp: entry_message_def)
    with n show ?thesis by auto
  qed
  moreover have "rel_option decodes_to (sy_stream ?x n) (en_unacked ?s n)" for n
    using d(4) [of n] a(2) assms(2) by (auto simp: inj_eq)
  moreover have "\<exists>z. sy_current ?x v = Some z \<and> xm_ID z = ids k" if "entry_of (en_worker ?s v) = Some (k, m')" for v k m'
    using that d(7) [of v k m'] by (auto split: if_splits)
  moreover have "wsafe U ids (en_worker ?s v) (sy_batch ?x v) (sy_worker ?x v)" for v
    using d(5) [of v] a(3) by (simp split: if_split)
  moreover have "engine_ok U ?s" using step engine_ok_step d(1) by blast
  ultimately have "sim U ids ?x ?s"
    using d(2,3,6,9,10) held unfolding sim_def by (simp split: if_split)
  with step show ?thesis by blast
qed

lemma sim_publisher_store:
  assumes "sim U ids x s" "sy_publisher x p = Store ses i eff k" "faithful U env"
  shows "\<exists>s'. engine_steps U True s s' \<and> sim U ids (put_publisher p (k (env, sy_db x)) (x\<lparr>sy_db := eff env (sy_db x)\<rparr>)) s'"
proof -
  note d = simD [OF assms(1)]
  obtain s' where s': "engine_steps U True s s'" "publisher_moves p s s'" "en_db s' = eff env (en_db s)" "en_unacked s' = en_unacked s"
      "en_next s' = en_next s" "psafe U (en_publisher s' p) (k (env, en_db s))"
    using psafe_call [OF d(6) [of p, unfolded assms(2)] refl refl assms(3)] by blast
  have "sim U ids (put_publisher p (k (env, sy_db x)) (x\<lparr>sy_db := eff env (sy_db x)\<rparr>)) s'"
    by (rule sim_publisher_call [OF assms(1) s'(1,2), where q = "k (env, sy_db x)"]) (use s' d(2,3,4) in simp_all)
  with s'(1) show ?thesis by blast
qed

lemma sim_publisher_send:
  assumes "sim U ids x s" "sy_publisher x p = Send raw k" "err = None \<longrightarrow> added"
  shows "\<exists>s'. engine_steps U True s s' \<and> sim U ids (put_publisher p (k err)
    (if added then x\<lparr>sy_stream := (sy_stream x)(sy_next x \<mapsto> raw), sy_next := Suc (sy_next x)\<rparr> else x)) s'"
proof -
  let ?x = "put_publisher p (k err) (if added then x\<lparr>sy_stream := (sy_stream x)(sy_next x \<mapsto> raw), sy_next := Suc (sy_next x)\<rparr> else x)"
  note d = simD [OF assms(1)]
  from psafe_send [OF d(6) [of p, unfolded assms(2)] refl d(1) assms(3)]
  obtain m s' where s': "engine_steps U True s s'" "publisher_moves p s s'" "en_db s' = en_db s" "decodes_to raw m"
    "en_unacked s' = (if added then (en_unacked s)(en_next s \<mapsto> m) else en_unacked s)"
    "en_next s' = (if added then Suc (en_next s) else en_next s)" "psafe U (en_publisher s' p) (k err)" by metis
  have "en_unacked s (sy_next x) = None" using engine_okD(3) [OF d(1)] d(3) by (simp add: workers_ok_def)
  then have fresh: "sy_stream x (sy_next x) = None" using d(4) [of "sy_next x"] by simp
  have "sim U ids ?x s'"
    by (rule sim_publisher_call [OF assms(1) s'(1,2), where q = "k err"]) (use s' d(2,3,4) fresh in auto)
  with s'(1) show ?thesis by blast
qed

lemma api_call_free: "api_call c \<Longrightarrow> free_call c"
  by (cases c) simp_all

lemma sim_request:
  assumes "sim U ids x s" "faithful U env" "api_call c"
  shows "\<exists>s'. engine_steps U True s s' \<and> sim U ids (x\<lparr>sy_db := perform c env (sy_db x)\<rparr>) s'"
proof -
  let ?s = "s\<lparr>en_db := perform c env (sy_db x)\<rparr>"
  have step: "engine_step U True s ?s"
    using engine_step.free [OF assms(2) api_call_free [OF assms(3)], of True s] simD(2) [OF assms(1)] by simp
  then have "engine_ok U ?s" using engine_ok_step simD(1) [OF assms(1)] by blast
  then have "sim U ids (x\<lparr>sy_db := perform c env (sy_db x)\<rparr>) ?s"
    using assms(1) unfolding sim_def by (simp add: held_def)
  with step show ?thesis by blast
qed

lemma sim_deliver:
  assumes "sim U ids x s" "deliverable ids True x w xs" "wsafe U ids Idle (set xs) q"
  shows "\<exists>s'. engine_steps U True s s' \<and> sim U ids (put_prog w q (put_hold w (set xs) None x)) s'"
proof -
  have "sim U ids (put_prog w q (put_hold w (set xs) None x)) (set_worker w Idle s)"
    by (rule sim_worker_idle [OF assms(1,3)]) (use assms(2) in \<open>auto simp: deliverable_def\<close>)
  then show ?thesis using engine_step.drop by blast
qed

lemma deliverable_Nil [simp]: "deliverable ids excl x w []"
  by (simp add: deliverable_def)

lemma sim_step:
  assumes "system_step U ids True x x'" "sim U ids x s" "inj ids"
  shows "\<exists>s'. engine_steps U True s s' \<and> sim U ids x' s'"
  using assms(1)
proof cases
  case (worker_call w ses i eff k env)
  obtain s' where s': "engine_steps U True s s'" "en_db s' = eff env (en_db s)" "en_unacked s' = en_unacked s"
      "worker_moves w s s'" "wsafe U ids (en_worker s' w) (sy_batch x w) (k (env, en_db s))"
    using wsafe_call [OF simD(5) [OF assms(2), of w, unfolded worker_call(2)] refl refl worker_call(3)] by blast
  with simD(2) [OF assms(2)] show ?thesis unfolding worker_call(1)
    by (intro exI [of _ s'] conjI sim_worker_call [OF assms(2) s'(1) _ s'(3,4)]) simp_all
next
  case (worker_claim w opts k xs err)
  have "wsafe U ids Idle (set xs) (k (err, xs))"
    by (rule wsafe_Claim [OF simD(5) [OF assms(2), of w, unfolded worker_claim(2)]])
       (use worker_claim(3) in \<open>simp add: deliverable_def\<close>)
  then show ?thesis unfolding worker_claim(1) by (rule sim_deliver [OF assms(2) worker_claim(3)])
next
  case (worker_read w opts k xss)
  have "wsafe U ids Idle (set (concat xss)) (k (Inr xss))"
    by (rule wsafe_Read(2) [OF simD(5) [OF assms(2), of w, unfolded worker_read(2)]])
       (use worker_read(3) in \<open>simp add: deliverable_def\<close>)
  then show ?thesis unfolding worker_read(1) by (rule sim_deliver [OF assms(2) worker_read(3)])
next
  case (worker_no_read w opts k e)
  have "wsafe U ids Idle (set []) (k (Inl e))"
    using wsafe_Read(1) [OF simD(5) [OF assms(2), of w, unfolded worker_no_read(2)]] by simp
  from sim_deliver [OF assms(2) deliverable_Nil this] show ?thesis unfolding worker_no_read(1) by simp
next
  case (worker_context w k err)
  have "wsafe U ids (en_worker s w) (sy_batch x w) (k err)"
    by (rule wsafe_Context [OF simD(5) [OF assms(2), of w, unfolded worker_context(2)]])
  then have "sim U ids (put_prog w (k err) (x\<lparr>sy_db := sy_db x\<rparr>)) s"
    by (intro sim_worker_call [OF assms(2) rtranclp.rtrancl_refl]) (simp_all add: simD(2) [OF assms(2)] worker_moves_def)
  then show ?thesis unfolding worker_context(1) by auto
next
  case (worker_turn w opts runs n)
  from sim_deliver [OF assms(2) deliverable_Nil wsafe_turn] show ?thesis unfolding worker_turn by simp
next
  case (publisher_batch p lib ses)
  have "sim U ids x' s" unfolding publisher_batch
    by (rule sim_publisher_call [OF assms(2) rtranclp.rtrancl_refl, where p = p and q = "publish_prog lib ses"])
       (simp_all add: simD(2-4) [OF assms(2)] publisher_moves_def psafe_publish)
  then show ?thesis by auto
qed (use sim_begin [OF assms(2,3)] sim_ack [OF assms(2,3)] sim_request [OF assms(2)] sim_publisher_store [OF assms(2)]
      sim_publisher_send [OF assms(2)] in simp_all)

lemma sim_start: "sim U ids system_start engine_start"
  using engine_ok_start [of U] unfolding sim_def
  by (simp add: system_start_def engine_start_def held_def wsafe.ended psafe.ended)

lemma sim_reachable:
  assumes "inj ids" "system_reachable U ids True x"
  obtains s where "engine_steps U True engine_start s" "sim U ids x s"
proof -
  from assms(2) have "\<exists>s. engine_steps U True engine_start s \<and> sim U ids x s" unfolding system_reachable_def
  proof (induction rule: rtranclp_induct)
    case base
    show ?case using sim_start by blast
  next
    case (step y z)
    then obtain s where s: "engine_steps U True engine_start s" "sim U ids y s" by blast
    from sim_step [OF step.hyps(2) s(2) assms(1)] s(1) show ?case by (meson rtranclp_trans)
  qed
  with that show thesis by blast
qed

section \<open>What the system guarantees\<close>

text \<open>
  C2.  The running system refines the engine, in every interleaving of its processes.  Any number of
  workers run the turns of \<^verbatim>\<open>Consume\<close> with \<^verbatim>\<open>HandleDispatchedTask\<close> and the registered handlers, any number of
  publishers run \<^verbatim>\<open>publishOnce\<close>, and requests of the API make their store calls in between; a call may fail or
  lose its reply, a process may stop before any call, and entries are delivered again.  If an entry is delivered
  only while no other worker has it before it (\<open>excl\<close> is \<open>True\<close>; Redis keeps to this while no running worker
  keeps an entry longer than \<^verbatim>\<open>ReclaimMinIdle\<close>, and does not otherwise), then for every state of the system there is a reachable state of
  the engine with the same database and, entry by entry, the same unacknowledged stream: each payload is text
  that every consumer decodes to the message of the engine's entry.
\<close>

theorem system_refines_engine:
  assumes "inj ids" "system_reachable U ids True x"
  shows "\<exists>s. engine_reachable U True s \<and> en_db s = sy_db x \<and> en_next s = sy_next x \<and>
     (\<forall>n. rel_option decodes_to (sy_stream x n) (en_unacked s n)) \<and>
     (\<forall>w n m. entry_of (en_worker s w) = Some (n, m) \<longrightarrow>
        (\<exists>y. sy_current x w = Some y \<and> xm_ID y = ids n \<and> sy_stream x n \<noteq> None))"
proof -
  obtain s where s: "engine_steps U True engine_start s" "sim U ids x s" by (rule sim_reachable [OF assms])
  note d = simD [OF s(2)]
  have "sy_stream x n \<noteq> None" if "entry_of (en_worker s w) = Some (n, m)" for w n m
    using workers_okD(1) [OF engine_okD(3) [OF d(1)] that] d(4) [of n] by (auto simp: option_rel_Some2)
  then show ?thesis using s(1) d(2,3,4,7) unfolding engine_reachable_def by blast
qed

text \<open>
  C3.  The running system loses no task: under the same condition on deliveries, in every state of every
  interleaving each task instance is settled (completed, dead-lettered, or waiting for its retry time), or has an
  outbox event that is not marked dispatched, or has an unacknowledged entry in the stream whose payload every
  consumer decodes to a message with its id.
\<close>

theorem system_loses_no_task:
  assumes "inj ids" "system_reachable U ids True x" "r \<in> set (task_instances (sy_db x))"
  shows "settled r \<or>
     (\<exists>ob \<in> set (outbox_events (sy_db x)). ob_dispatched_at ob = None \<and> ob_aggregate_id ob = ti_id r) \<or>
     (\<exists>n raw m. sy_stream x n = Some raw \<and> decodes_to raw m \<and> U (msg_TaskID m) = Some (ti_id r))"
proof -
  obtain s where s: "engine_steps U True engine_start s" "sim U ids x s" by (rule sim_reachable [OF assms(1,2)])
  note d = simD [OF s(2)]
  have stream: "\<exists>raw. sy_stream x n = Some raw \<and> decodes_to raw m" if "en_unacked s n = Some m" for n m
    using d(4) [of n] that by (auto simp: option_rel_Some2)
  have "settled r \<or> announced s (ti_id r) \<or> carried U s (ti_id r)"
    using engine_okD(5) [OF d(1)] assms(3) d(2) by (simp add: covered_def)
  then show ?thesis using d(2) stream by (auto simp: announced_def carried_def) blast
qed

subsection \<open>A run\<close>

text \<open>
  Two requests, a batch of the publisher that sends the event and marks it, and a worker that reads the entry
  and turns to it.
\<close>

definition strict_ids :: "nat \<Rightarrow> string" where
  "strict_ids n = replicate n (CHR ''x'')"

definition strict_raw :: string where
  "strict_raw = payload_text ''u-..'' ''u-.'' ''sample.echo''"

lemma inj_strict_ids: "inj strict_ids"
  by (rule injI) (metis length_replicate strict_ids_def)

lemma reachable_step:
  "system_reachable U ids excl x \<Longrightarrow> system_step U ids excl x y \<Longrightarrow> system_reachable U ids excl y"
  unfolding system_reachable_def by simp

lemma reachable_store:
  assumes "system_reachable U ids excl (put_publisher p (store ses i f k) x)" "faithful U env" "f env (sy_db x) = (y, db)"
  shows "system_reachable U ids excl (put_publisher p (k y) (x\<lparr>sy_db := db\<rparr>))"
  using reachable_step [OF assms(1) system_step.publisher_call [of _ p ses i _ _ _ env, OF _ assms(2)]] assms(3)
  by (simp add: store_def put_publisher_def)

lemma reachable_query:
  assumes "system_reachable U ids excl (put_publisher p (query ses i f k) x)" "faithful U env" "f env (sy_db x) = y"
  shows "system_reachable U ids excl (put_publisher p (k y) x)"
  using reachable_step [OF assms(1) system_step.publisher_call [of _ p ses i _ _ _ env, OF _ assms(2)]] assms(3)
  by (simp add: query_def put_publisher_def)

lemma reachable_send:
  assumes "system_reachable U ids excl (put_publisher p (Send raw k) x)"
  shows "system_reachable U ids excl
    (put_publisher p (k None) (x\<lparr>sy_stream := (sy_stream x)(sy_next x \<mapsto> raw), sy_next := Suc (sy_next x)\<rparr>))"
  using reachable_step [OF assms system_step.publisher_send [of _ p raw _ None True]]
  by (simp add: put_publisher_def)

lemma system_published:
  "\<exists>x. system_reachable strict_uuid strict_ids True x \<and> sy_db x = marked_db \<and> sy_stream x = [0 \<mapsto> strict_raw] \<and>
     sy_batch x = (\<lambda>_. {}) \<and> sy_current x = (\<lambda>_. None)"
proof -
  let ?R = "system_reachable strict_uuid strict_ids True" and ?ev = "scanOutboxEvent strict_event"
  let ?ses = "strict_session 2" and ?lib = "\<lambda>_ :: go_error. [] :: string"
  let ?b = "system_start\<lparr>sy_db := strict_db\<rparr>"
  have "?R system_start" by (simp add: system_reachable_def)
  from reachable_step [OF this system_step.request [of _ "strict_env 0 5" "CallCreateWorkflowDefinition ''demo'' [] demo_definition"]]
  have "?R (system_start\<lparr>sy_db := perform (CallCreateWorkflowDefinition ''demo'' [] demo_definition) (strict_env 0 5) empty_pg\<rparr>)"
    by (simp add: system_start_def)
  from reachable_step [OF this system_step.request [of _ "strict_env 1 10" "CallCreateExecutionAndTask ''u'' [] ''a'' ''sample.echo''"]]
  have "?R ?b" by (simp add: strict_db_def)
  from reachable_step [OF this system_step.publisher_batch [of _ _ _ _ 0 ?lib ?ses]]
  have "?R (put_publisher 0 (publish_prog ?lib ?ses) ?b)" .
  from reachable_store [OF this [unfolded publish_prog_def], of "strict_env 2 50" "Inr 0" strict_db]
  have "?R (put_publisher 0 (query ?ses 1 (ListPendingOutbox 20) (\<lambda>listed. case listed of
      Inl e \<Rightarrow> Done (Some e) | Inr events \<Rightarrow> events_prog ?lib ?ses 2 events)) ?b)"
    by (simp add: strict_due)
  from reachable_query [OF this, of "strict_env 3 50"] have "?R (put_publisher 0 (events_prog ?lib ?ses 2 [?ev]) ?b)"
    by (simp add: strict_listed)
  then have "?R (put_publisher 0 (Send strict_raw (\<lambda>sent. case sent of
      Some e \<Rightarrow> store ?ses 2 (RecordOutboxFailure (evt_ID ?ev) (?lib e)) (\<lambda>_. Done None)
    | None \<Rightarrow> store ?ses 2 (MarkOutboxDispatched (evt_ID ?ev)) (\<lambda>marked. case marked of
        Inl e \<Rightarrow> Done (Some e) | Inr _ \<Rightarrow> Done None))) ?b)"
    using strict_message_text by (simp add: message_text_def strict_raw_def Let_def split: sum.splits)
  from reachable_store [OF reachable_send [OF this, unfolded option.case], of "strict_env 4 50" "Inr ()" marked_db]
  have "?R (put_publisher 0 (Done None) (?b\<lparr>sy_stream := [0 \<mapsto> strict_raw], sy_next := Suc 0, sy_db := marked_db\<rparr>))"
    by (simp add: strict_scan strict_mark marked_db_def system_start_def)
  then show ?thesis by (intro exI conjI, assumption) (simp_all add: system_start_def)
qed

lemma strict_raw_decodes: "decodes_to strict_raw m \<longleftrightarrow> m = strict_message"
proof -
  have "decodes_to strict_raw strict_message" unfolding decodes_to_def
    by (intro allI impI message_roundtrip [OF _ _ _ strict_marshal])
       (simp_all add: strict_message_def strict_raw_def utf8_valid_ascii byte_def)
  then show ?thesis by (metis entry_decodes sum.inject(2))
qed

lemma system_held:
  "\<exists>x. system_reachable strict_uuid strict_ids True x \<and> sy_db x = marked_db \<and> sy_stream x = [0 \<mapsto> strict_raw] \<and>
     sy_current x 0 = Some (entry_message strict_ids 0 strict_raw)"
proof -
  let ?R = "system_reachable strict_uuid strict_ids True" and ?y = "entry_message strict_ids 0 strict_raw"
  obtain x where x: "?R x" "sy_db x = marked_db" "sy_stream x = [0 \<mapsto> strict_raw]" "sy_batch x = (\<lambda>_. {})" "sy_current x = (\<lambda>_. None)"
    using system_published by blast
  fix opts :: ConsumeOptions and runs :: "nat \<Rightarrow> worker_run"
  let ?read = "Read opts (\<lambda>res. case res of
       Inl e \<Rightarrow> Done (if error_is e RedisNil then None else Some e) | Inr streams \<Rightarrow> streams_prog runs 0 streams)"
  have hold: "put_hold 0 {} None x = x" using x(4,5) by (simp add: put_hold_def fun_upd_idem)
  from reachable_step [OF x(1) system_step.worker_turn [of _ _ _ _ 0 opts runs 0]]
  have "?R (put_prog 0 (turn_prog opts runs 0) x)" by (simp add: hold)
  from reachable_step [OF this system_step.worker_context [of _ 0 _ _ _ _ None]]
  have "?R (put_prog 0 (Claim opts (\<lambda>(err, reclaimed).
             if err \<noteq> None \<and> \<not> error_is (the err) RedisNil then Done err
             else if length reclaimed > 0 then process_prog runs 0 reclaimed else ?read)) x)"
    by (simp add: turn_prog_def put_prog_def)
  from reachable_step [OF this system_step.worker_claim [of _ 0 opts _ _ _ "[]" _ None]]
  have "?R (put_prog 0 ?read x)" by (simp add: hold)
  from reachable_step [OF this system_step.worker_read [of _ 0 opts _ _ _ "[[?y]]"]]
  have "?R (put_prog 0 (streams_prog runs 0 [[?y]]) (put_hold 0 {?y} None x))"
    by (simp add: x deliverable_def held_def)
  moreover have "decodeTaskMessage ?y = Inr strict_message"
    by (simp add: entry_decodes strict_raw_decodes)
  then obtain q where "streams_prog runs 0 [[?y]] = Begin ?y q" by simp
  ultimately have "?R (put_prog 0 (Begin ?y q) (put_hold 0 {?y} None x))" by simp
  from reachable_step [OF this system_step.worker_begin [of _ 0 ?y q]]
  have "?R (put_prog 0 q (put_hold 0 {} (Some ?y) x))" by simp
  then show ?thesis by (intro exI conjI, assumption) (simp_all add: x)
qed

theorem system_refines_engine_witness:
  "\<exists>x s. system_reachable strict_uuid strict_ids True x \<and> sy_current x 0 = Some (entry_message strict_ids 0 strict_raw) \<and>
     engine_reachable strict_uuid True s \<and> en_db s = marked_db \<and> en_unacked s = [0 \<mapsto> strict_message]"
proof -
  obtain x where x: "system_reachable strict_uuid strict_ids True x" "sy_db x = marked_db" "sy_stream x = [0 \<mapsto> strict_raw]"
    "sy_current x 0 = Some (entry_message strict_ids 0 strict_raw)" using system_held by blast
  from system_refines_engine [OF inj_strict_ids x(1)] obtain s where s: "engine_reachable strict_uuid True s" "en_db s = marked_db"
    "\<And>n. rel_option decodes_to (sy_stream x n) (en_unacked s n)" using x(2) by auto
  have "en_unacked s n = [0 \<mapsto> strict_message] n" for n
    using s(3) [of n] by (auto simp: x(3) option_rel_Some1 strict_raw_decodes split: if_splits)
  then show ?thesis using x s by blast
qed

theorem system_loses_no_task_witness:
  "\<exists>x. system_reachable strict_uuid strict_ids True x \<and> task_instances (sy_db x) = [strict_task] \<and> \<not> settled strict_task \<and>
     (\<exists>n raw m. sy_stream x n = Some raw \<and> decodes_to raw m \<and> strict_uuid (msg_TaskID m) = Some ''u-..'')"
proof -
  obtain x where x: "system_reachable strict_uuid strict_ids True x" "sy_db x = marked_db" using system_held by blast
  have r: "task_instances marked_db = [strict_task]" "outbox_events marked_db = [set_outbox_dispatched 50 strict_event]" "\<not> settled strict_task"
    by (simp_all add: marked_db_def upd_outbox_def strict_db_eq strict_event_def settled_def strict_task_def status_simps)
  show ?thesis using system_loses_no_task [OF inj_strict_ids x(1), of strict_task] x r
    by (intro exI [of _ x]) (auto simp: set_outbox_dispatched_def)
qed

end
