(* ===== verification/LateReport.thy ===== *)
theory LateReport
  imports Process WorkerProps
begin

text \<open>
  Two deliveries of one message, handled by two workers at the same time: what the slower one reports last stands.
\<close>

definition late_db :: "task_row list \<Rightarrow> attempt_row list \<Rightarrow> pg" where
  "late_db ts as = demo_db\<lparr>task_instances := ts, task_attempts := as\<rparr>"

definition second_run :: worker_run where
  "second_run = demo_run\<lparr>wr_store := demo_session ''v''\<rparr>"

lemma second_run_fields [simp]:
  "env_at second_run n = demo_env (''v'' @ replicate n (CHR ''-'')) 100" "at_call second_run n = id"
  "wr_handler second_run = demo_session ''h''"
  by (simp_all add: env_at_def at_call_def second_run_def demo_run_def demo_session_def fun_eq_iff)

lemma second_start:
  assumes "ta_id a = ''uw---..''"
  shows "\<exists>b. StartTaskAttempt ''ue..'' (demo_env ''v---'' 100) (late_db [set_task_running 100 1 demo_task] [a]) =
     (Inr (scanTaskInstance (set_task_running 100 2 demo_task), scanTaskAttempt b, False),
      late_db [set_task_running 100 2 demo_task] [a, b]) \<and> ta_id b = ''uv---..''"
  using assms
  by (simp add: StartTaskAttempt_def start_attempt_tx_def run_defs demo_defs late_db_def
      int4_max_def Let_def scanTaskInstance_def scanTaskAttempt_def demo_db_eq set_task_running_def)

lemma second_handler:
  "\<exists>resp rec. SampleEchoHandler_Handle True (scanTaskInstance (set_task_running 100 2 demo_task)) (demo_session ''h'')
      (late_db [set_task_running 100 2 demo_task] as) =
      (Inr resp, late_db [set_task_running 100 2 demo_task] as\<lparr>idempotency_records := [rec]\<rparr>) \<and> resp \<noteq> []"
  by (simp add: SampleEchoHandler_Handle_def handle_with_def Let_def BeginIdempotentTask_def run_defs
      sql_insert_idempotency_def demo_defs demo_db_eq demo_decode CompleteIdempotentTask_def late_db_def
      sql_update_idempotency_completed_def SampleEchoHandler_Key_def json_marshal_def normalizeJSON_def
      owned_by_def ir_key_def sample_response_def scanTaskInstance_def set_task_running_def demo_task_def)

lemma second_complete:
  assumes "ta_id a = ''uw---..''" "ta_id b = ''uv---..''" "resp \<noteq> []"
  shows "\<exists>n as obs. CompleteTaskAttemptAndEnqueueNextTask ''ue..'' ''uv---..'' ''b'' ''notifications.send'' resp (demo_env ''v----'' 100)
      (late_db [set_task_running 100 2 demo_task] [a, b]\<lparr>idempotency_records := rs\<rparr>) =
     (Inr (), late_db [set_task_succeeded 100 resp (set_task_running 100 2 demo_task), n] as\<lparr>outbox_events := obs, idempotency_records := rs\<rparr>) \<and>
     ti_id n = ''uv----....'' \<and> ti_status n = TaskStatusPending \<and> ti_task_name n = ''b'' \<and> map ta_id as = [''uw---..'', ''uv---..'']"
  using assms
  by (simp add: CompleteTaskAttemptAndEnqueueNextTask_def complete_and_enqueue_tx_def run_defs demo_defs late_db_def
      Let_def scanTaskInstance_def demo_db_eq set_task_defs normalizeJSON_def makeTaskIdempotencyKey_def numeral_eq_Suc)

lemmas load_defs = GetWorkflowSpecAndTaskSpecByTaskID_def Let_def GetTaskInstance_def GetWorkflowExecution_def
  GetWorkflowDefinition_def pool_query_def sql_select_task_def sql_select_execution_def
  sql_select_definition_def with_uuid_def demo_uuid_in_def one_row_def demo_db_eq scan_defs
  demo_definition_accepted demo_task_def

lemma second_load:
  "GetWorkflowSpecAndTaskSpecByTaskID ''ue..'' second_run (late_db [set_task_running 100 1 demo_task] as) =
     (Inr (demo_spec, demo_spec_a), late_db [set_task_running 100 1 demo_task] as)"
  by (simp add: load_defs late_db_def set_task_running_def)

lemma demo_next:
  "FindNextTaskSpec demo_spec ''a'' = Inr (Some \<lparr>spec_Name = ''b'', spec_HandlerKey = ''notifications.send'',
     spec_MaxAttempts = 0, spec_BackoffSeconds = 0, spec_NextTask = []\<rparr>)"
  by code_simp

lemma echo_registered: "worker_registry ''sample.echo'' = Some (SampleEchoHandler_Handle True)"
  by (simp add: worker_registry_def NewRegistry_map_of SampleEchoHandler_Key_def NotificationSendHandler_Key_def)

lemma second_handling:
  assumes "ta_id a = ''uw---..''"
  shows "\<exists>ms out n as obs rs. HandleDispatchedTask worker_registry demo_message second_run (late_db [set_task_running 100 1 demo_task] [a]) =
     ((None, ms), late_db [set_task_succeeded 100 out (set_task_running 100 2 demo_task), n] as\<lparr>outbox_events := obs, idempotency_records := rs\<rparr>) \<and>
     ti_id n = ''uv----....'' \<and> ti_status n = TaskStatusPending \<and> ti_task_name n = ''b'' \<and> map ta_id as = [''uw---..'', ''uv---..'']"
proof -
  let ?task = "scanTaskInstance (set_task_running 100 2 demo_task)"
  have t: "task_ID ?task = ''ue..''" "task_HandlerKey ?task = ''sample.echo''" "task_TaskName ?task = ''a''"
    by (simp_all add: scanTaskInstance_def set_task_running_def demo_task_def)
  obtain b where b: "StartTaskAttempt ''ue..'' (demo_env ''v---'' 100) (late_db [set_task_running 100 1 demo_task] [a]) =
      (Inr (?task, scanTaskAttempt b, False), late_db [set_task_running 100 2 demo_task] [a, b])" "ta_id b = ''uv---..''"
    using second_start [OF assms] by blast
  obtain out rec where h: "SampleEchoHandler_Handle True ?task (demo_session ''h'') (late_db [set_task_running 100 2 demo_task] [a, b]) =
      (Inr out, late_db [set_task_running 100 2 demo_task] [a, b]\<lparr>idempotency_records := [rec]\<rparr>)" "out \<noteq> []"
    using second_handler by blast
  obtain n as obs where c: "CompleteTaskAttemptAndEnqueueNextTask ''ue..'' ''uv---..'' ''b'' ''notifications.send'' out (demo_env ''v----'' 100)
      (late_db [set_task_running 100 2 demo_task] [a, b]\<lparr>idempotency_records := [rec]\<rparr>) =
     (Inr (), late_db [set_task_succeeded 100 out (set_task_running 100 2 demo_task), n] as\<lparr>outbox_events := obs, idempotency_records := [rec]\<rparr>)"
     "ti_id n = ''uv----....''" "ti_status n = TaskStatusPending" "ti_task_name n = ''b''" "map ta_id as = [''uw---..'', ''uv---..'']"
    using second_complete [OF assms b(2) h(2), of "[rec]"] by (elim exE conjE) (rule that)
  have id: "att_ID (scanTaskAttempt b) = ''uv---..''" by (simp add: scanTaskAttempt_def b(2))
  let ?db = "late_db [set_task_succeeded 100 out (set_task_running 100 2 demo_task), n] as\<lparr>outbox_events := obs, idempotency_records := [rec]\<rparr>"
  have "\<exists>ms. HandleDispatchedTask worker_registry demo_message second_run (late_db [set_task_running 100 1 demo_task] [a]) = ((None, ms), ?db)"
    using b(1) h(1) c(1)
    by (simp add: HandleDispatchedTask_def demo_message_def second_load run_handler_def registry_Get_def echo_registered t id demo_next
        persist_output_def finish_def numeral_eq_Suc Let_def)
  then obtain ms where "HandleDispatchedTask worker_registry demo_message second_run (late_db [set_task_running 100 1 demo_task] [a]) = ((None, ms), ?db)" ..
  with c(2-5) show ?thesis by (intro exI conjI)
qed

text \<open>The first delivery: its handler cannot reach the database, and the second is handled before it reports that.\<close>

definition down_session :: session where
  "down_session = (demo_session ''h'')\<lparr>ses_env := (\<lambda>n. (demo_env ''h'' 100)\<lparr>pg_fault := (\<lambda>_. Some (ErrorString ''down''))\<rparr>)\<rparr>"

definition late_run :: worker_run where
  "late_run = demo_run\<lparr>wr_handler := down_session, wr_store := (demo_session ''w'')\<lparr>ses_other := (\<lambda>n db.
     if n = 4 then snd (HandleDispatchedTask worker_registry demo_message second_run db) else db)\<rparr>\<rparr>"

lemma late_run_fields [simp]:
  "env_at late_run n = demo_env (''w'' @ replicate n (CHR ''-'')) 100" "wr_handler late_run = down_session"
  "at_call late_run n db = (if n = 4 then snd (HandleDispatchedTask worker_registry demo_message second_run db) else db)"
  "wr_now late_run = 100" "wr_error_text late_run = wr_error_text demo_run"
  by (simp_all add: env_at_def at_call_def late_run_def demo_run_def)

lemma late_load: "GetWorkflowSpecAndTaskSpecByTaskID ''ue..'' late_run demo_db = (Inr (demo_spec, demo_spec_a), demo_db)"
  by (simp add: load_defs)

lemma late_start:
  "\<exists>a. StartTaskAttempt ''ue..'' (demo_env ''w---'' 100) demo_db =
     (Inr (scanTaskInstance (set_task_running 100 1 demo_task), scanTaskAttempt a, False), late_db [set_task_running 100 1 demo_task] [a]) \<and>
     ta_id a = ''uw---..'' \<and> ta_attempt_number a = 1"
  by (simp add: StartTaskAttempt_def start_attempt_tx_def run_defs demo_defs late_db_def
      int4_max_def Let_def scanTaskInstance_def scanTaskAttempt_def demo_db_eq set_task_running_def)

lemma late_handler: "SampleEchoHandler_Handle True task down_session db = (Inl (ErrorString ''down''), db)"
  by (simp add: SampleEchoHandler_Handle_def handle_with_def Let_def BeginIdempotentTask_def pool_exec_def down_session_def)

lemma late_retry:
  assumes "map ta_id as = [''uw---..'', ''uv---..'']" "ti_id n = ''uv----....''"
  shows "\<exists>db'. ScheduleTaskRetry ''ue..'' ''uw---..'' ''down'' 100 (demo_env ''w----'' 100)
      (late_db [set_task_succeeded 100 out (set_task_running 100 2 demo_task), n] as\<lparr>outbox_events := obs, idempotency_records := rs\<rparr>) =
     (Inr (), db') \<and>
     task_instances db' = [set_task_retry 100 ''down'' 100 (set_task_succeeded 100 out (set_task_running 100 2 demo_task)), n]"
  using assms
  by (simp add: ScheduleTaskRetry_def schedule_retry_tx_def run_defs demo_defs Store.truncate_def late_db_def set_task_defs)

text \<open>
  C38.  A late report of failure overwrites success: attempts are not fenced.  One message is delivered twice.  The
  first worker has started its attempt and its handler fails (it cannot reach the database); before
  that worker's last call, the second worker handles the same message to the end: task \<^verbatim>\<open>a\<close> is succeeded and its
  successor \<^verbatim>\<open>b\<close> created.  Then the first worker schedules a retry: \<^verbatim>\<open>a\<close> is pending again with a next run time,
  beside its successor.  Both calls of \<^verbatim>\<open>HandleDispatchedTask\<close>, with the handlers that the worker registers,
  return nil, so both deliveries are acknowledged.
\<close>

theorem late_failure_overwrites_success:
  "\<exists>db1 db2 db' m1 m2.
     HandleDispatchedTask worker_registry demo_message second_run db1 = ((None, m1), db2) \<and>
     map (\<lambda>r. (ti_task_name r, ti_status r)) (task_instances db1) = [(''a'', TaskStatusRunning)] \<and>
     map (\<lambda>r. (ti_task_name r, ti_status r)) (task_instances db2) = [(''a'', TaskStatusSucceeded), (''b'', TaskStatusPending)] \<and>
     at_call late_run 4 db1 = db2 \<and>
     HandleDispatchedTask worker_registry demo_message late_run demo_db = ((None, m2), db') \<and>
     map (\<lambda>r. (ti_task_name r, ti_status r)) (task_instances db') = [(''a'', TaskStatusPending), (''b'', TaskStatusPending)] \<and>
     ti_next_run_at (hd (task_instances db')) = Some 100"
proof -
  let ?task = "scanTaskInstance (set_task_running 100 1 demo_task)"
  have t: "task_ID ?task = ''ue..''" "task_HandlerKey ?task = ''sample.echo''"
    by (simp_all add: scanTaskInstance_def set_task_running_def demo_task_def)
  obtain a where a: "StartTaskAttempt ''ue..'' (demo_env ''w---'' 100) demo_db =
      (Inr (?task, scanTaskAttempt a, False), late_db [set_task_running 100 1 demo_task] [a])" "ta_id a = ''uw---..''" "ta_attempt_number a = 1"
    using late_start by blast
  let ?db1 = "late_db [set_task_running 100 1 demo_task] [a]"
  obtain m1 out n as obs rs where s: "HandleDispatchedTask worker_registry demo_message second_run ?db1 =
     ((None, m1), late_db [set_task_succeeded 100 out (set_task_running 100 2 demo_task), n] as\<lparr>outbox_events := obs, idempotency_records := rs\<rparr>)"
     "ti_id n = ''uv----....''" "ti_status n = TaskStatusPending" "ti_task_name n = ''b''" "map ta_id as = [''uw---..'', ''uv---..'']"
    using second_handling [OF a(2)] by (elim exE conjE) (rule that)
  let ?db2 = "late_db [set_task_succeeded 100 out (set_task_running 100 2 demo_task), n] as\<lparr>outbox_events := obs, idempotency_records := rs\<rparr>"
  obtain db' where r: "ScheduleTaskRetry ''ue..'' ''uw---..'' ''down'' 100 (demo_env ''w----'' 100)
      (late_db [set_task_succeeded 100 out (set_task_running 100 2 demo_task), n] as\<lparr>outbox_events := obs, idempotency_records := rs\<rparr>) = (Inr (), db')"
      "task_instances db' = [set_task_retry 100 ''down'' 100 (set_task_succeeded 100 out (set_task_running 100 2 demo_task)), n]"
    using late_retry [OF s(5,2)] by blast
  have id: "att_ID (scanTaskAttempt a) = ''uw---..''" "att_AttemptNumber (scanTaskAttempt a) = 1"
    by (simp_all add: scanTaskAttempt_def a(2,3))
  have mul: "mul64 0 Second = 0" by (simp add: mul64_def int64_def)
  have "\<exists>m2. HandleDispatchedTask worker_registry demo_message late_run demo_db = ((None, m2), db')"
    using a(1) r(1) id s(1)
    by (simp add: HandleDispatchedTask_def [of _ _ late_run] demo_message_def late_load run_handler_def registry_Get_def echo_registered t late_handler
        persist_handler_error_def finish_def numeral_eq_Suc Let_def demo_spec_a_def next_run_at_def mul)
  then obtain m2 where m2: "HandleDispatchedTask worker_registry demo_message late_run demo_db = ((None, m2), db')" ..
  have call: "at_call late_run 4 ?db1 = ?db2" using s(1) by simp
  show ?thesis
    by (rule exI [of _ ?db1], rule exI [of _ ?db2], rule exI [of _ db'], rule exI [of _ m1], rule exI [of _ m2],
        intro conjI s(1) m2 call)
       (simp_all add: late_db_def set_task_defs demo_task_def r(2) s(2-4))
qed

end
