(* ===== verification/Drain.thy ===== *)
theory Drain
  imports OutboxProps
begin

text \<open>
  The publisher makes progress: in a quiet period, in which no call fails, it works off its backlog,
  twenty events per batch, until every event has been sent and no retry is overdue.
\<close>

section \<open>Quiet periods\<close>

text \<open>
  A batch in which every call succeeds and nobody else writes: the clock has reached \<open>T\<close> and does not go
  back, the uuids made are new (\<open>X\<close> are those in use), and a document without a zero byte is accepted.
\<close>

definition quiet_batch :: "(string \<Rightarrow> string option) \<Rightarrow> go_time \<Rightarrow> string set \<Rightarrow> session \<Rightarrow> bool" where
  "quiet_batch U T X ses \<longleftrightarrow>
     (\<forall>n. faithful U (ses_env ses n) \<and> calm (ses_env ses n) \<and> ses_other ses n = id) \<and>
     (\<forall>u. \<not> pg_locked (ses_env ses 0) u) \<and> T \<le> pg_now (ses_env ses 0) \<and> pg_now (ses_env ses 0) \<le> pg_now (ses_env ses 1) \<and>
     inj (pg_gen_random_uuid (ses_env ses 0)) \<and> range (pg_gen_random_uuid (ses_env ses 0)) \<inter> X = {} \<and>
     (\<forall>t e h. U t = Some t \<and> U e = Some e \<and> utf8_valid h \<and> CHR 0x00 \<notin> set h \<longrightarrow>
        pg_jsonb_in (ses_env ses 0) (payload_text t e h) \<noteq> None)"

fun quiet_sessions :: "(string \<Rightarrow> string option) \<Rightarrow> go_time \<Rightarrow> string set \<Rightarrow> session list \<Rightarrow> bool" where
  "quiet_sessions U T X [] = True"
| "quiet_sessions U T X (ses # sessions) \<longleftrightarrow> quiet_batch U T X ses \<and>
     quiet_sessions U (pg_now (ses_env ses 0)) (X \<union> range (pg_gen_random_uuid (ses_env ses 0))) sessions"

text \<open>
  What is to be done: events that are not dispatched, and tasks that wait for their retry; \<open>overdue T\<close> are
  those whose retry time is \<open>T\<close> or before.
\<close>

definition open_events :: "pg \<Rightarrow> string set" where
  "open_events db = ob_id ` {ob \<in> set (outbox_events db). ob_dispatched_at ob = None}"

definition waiting :: "pg \<Rightarrow> string set" where
  "waiting db = ti_id ` {t \<in> set (task_instances db). ti_status t = TaskStatusPending \<and> ti_next_run_at t \<noteq> None}"

definition overdue :: "go_time \<Rightarrow> pg \<Rightarrow> string set" where
  "overdue T db = ti_id ` {t \<in> set (task_instances db). ti_status t = TaskStatusPending \<and>
     (\<exists>at. ti_next_run_at t = Some at \<and> at \<le> T)}"

definition backlog :: "pg \<Rightarrow> nat" where
  "backlog db = card (open_events db) + card (waiting db)"

definition drained :: "go_time \<Rightarrow> pg \<Rightarrow> bool" where
  "drained T db \<longleftrightarrow> open_events db = {} \<and> overdue T db = {}"

text \<open>
  A database whose open events can be sent at \<open>T\<close>: they are available, and their counters are not at
  the maximum of the column.
\<close>

definition drainable :: "(string \<Rightarrow> string option) \<Rightarrow> go_time \<Rightarrow> string set \<Rightarrow> pg \<Rightarrow> bool" where
  "drainable U T X db \<longleftrightarrow> store_ok U db \<and> dispatch_ok U db \<and> ob_id ` set (outbox_events db) \<subseteq> X \<and>
     (\<forall>ob \<in> set (outbox_events db). ob_dispatched_at ob = None \<longrightarrow> ob_available_at ob \<le> T \<and> ob_attempt_count ob < int4_max) \<and>
     (\<forall>t \<in> set (task_instances db). CHR 0x00 \<notin> set (ti_handler_key t))"

lemma card_keys: "distinct (map key rows) \<Longrightarrow> card (key ` set rows) = length rows"
  using distinct_card [of "map key rows"] by simp

lemma finite_backlog [simp]: "finite (open_events db)" "finite (waiting db)"
  by (simp_all add: open_events_def waiting_def)

lemma backlog_bound: "backlog db \<le> length (outbox_events db) + length (task_instances db)"
proof -
  have "card (key ` {r \<in> set rows. P r}) \<le> length rows" for key :: "'r \<Rightarrow> string" and P rows
    using card_image_le [of "{r \<in> set rows. P r}" key] card_mono [of "set rows" "{r \<in> set rows. P r}"] card_length [of rows]
    by force
  then show ?thesis unfolding backlog_def open_events_def waiting_def by (rule add_mono) fact
qed

section \<open>Due retries\<close>

lemma enqueue_retries_succeeds:
  assumes "calm env" "inj (pg_gen_random_uuid env)"
    and "\<And>t. t \<in> set items \<Longrightarrow> pg_uuid_in env (ti_id t) = Some (ti_id t) \<and>
      pg_jsonb_in env (payload_text (ti_id t) (ti_workflow_execution_id t) (ti_handler_key t)) \<noteq> None"
    and "\<And>n. tx_rt s \<le> n \<Longrightarrow> pg_gen_random_uuid env n \<notin> ob_id ` set (outbox_events (tx_db s))"
  shows "\<exists>t. enqueue_retries_tx items env s = Inr ((), t)"
  using assms(3,4)
proof (induction items arbitrary: s)
  case Nil
  then show ?case by (simp add: tx_simps)
next
  case (Cons t items)
  have canon: "pg_uuid_in env (ti_id t) = Some (ti_id t)" using Cons.prems(1) by simp
  obtain j where j: "pg_jsonb_in env (payload_text (ti_id t) (ti_workflow_execution_id t) (ti_handler_key t)) = Some j"
    using Cons.prems(1) [of t] by auto
  let ?ob = "new_dispatch env (tx_rt s) (ti_id t) j"
  let ?s = "\<lparr>tx_db = (tx_db s)\<lparr>outbox_events := outbox_events (tx_db s) @ [?ob],
      task_instances := update_by ti_id (ti_id t) (clear_next_run_at (pg_now env)) (task_instances (tx_db s))\<rparr>,
    tx_rt = Suc (Suc (tx_rt s))\<rparr>"
  have fresh: "ob_id ?ob \<notin> ob_id ` set (outbox_events (tx_db s))" using Cons.prems(2) [of "tx_rt s"] by (simp add: new_dispatch_def)
  have "pg_gen_random_uuid env n \<noteq> ob_id ?ob" if "Suc (Suc (tx_rt s)) \<le> n" for n
    using that assms(2) by (auto simp: new_dispatch_def dest: injD)
  then have "\<exists>t. enqueue_retries_tx items env ?s = Inr ((), t)"
    using Cons.prems by (intro Cons.IH) auto
  then show ?case
    using fresh j canon assms(1)
    by (auto simp: tx_simps insert_dispatch_Inr [OF canon] sql_clear_next_run_at_def sql_simps upd_task_def calm_def)
qed

lemma calm_run_tx: "calm env \<Longrightarrow> m env \<lparr>tx_db = db, tx_rt = 1\<rparr> = Inr (x, s) \<Longrightarrow> run_tx m env db = (Inr x, tx_db s)"
  by (simp add: run_tx_Inr calm_def)

text \<open>The rows that \<^verbatim>\<open>EnqueueDueTaskRetries\<close> turns into events.\<close>

definition due_items :: "pgenv \<Rightarrow> pg \<Rightarrow> task_row list" where
  "due_items env db = order_limit next_run_key 20 (due_candidates env db)"

lemma due_items_rows:
  assumes "scans_ok env" "store_ok U db"
  shows "set (due_items env db) \<subseteq> set (task_instances db)" "distinct (map ti_id (due_items env db))" "length (due_items env db) \<le> 20"
    "t \<in> set (due_items env db) \<Longrightarrow> due_retry env t"
proof -
  have scan: "mset (pg_scan_tasks env (task_instances db)) = mset (task_instances db)" using assms(1) by (simp add: scans_ok_def)
  then have rows: "set (pg_scan_tasks env (task_instances db)) = set (task_instances db)" by (rule mset_eq_setD)
  note sub = set_order_limit [of next_run_key 20 "due_candidates env db"]
  show "set (due_items env db) \<subseteq> set (task_instances db)" "t \<in> set (due_items env db) \<Longrightarrow> due_retry env t"
    using sub rows by (auto simp: due_items_def due_candidates_def)
  have "mset (map ti_id (pg_scan_tasks env (task_instances db))) = mset (map ti_id (task_instances db))" using scan by simp
  moreover have "distinct (map ti_id (task_instances db))"
    using assms(2) by (simp add: store_ok_def numbered_ok_def schema_ok_def)
  ultimately have "distinct (map ti_id (pg_scan_tasks env (task_instances db)))" by (metis mset_eq_imp_distinct_iff)
  then have "distinct (map ti_id (due_candidates env db))" by (simp add: due_candidates_def distinct_map_filter)
  then show "distinct (map ti_id (due_items env db))" unfolding due_items_def by (rule distinct_map_order_limit)
  show "length (due_items env db) \<le> 20" using length_order_limit [of next_run_key 20 "due_candidates env db"] by (simp add: due_items_def)
qed

lemma quiet_batchD:
  assumes "quiet_batch U T X ses"
  shows "faithful U (ses_env ses n)" "calm (ses_env ses n)" "ses_other ses n = id" "\<not> pg_locked (ses_env ses 0) u"
    "T \<le> pg_now (ses_env ses 0)" "pg_now (ses_env ses 0) \<le> pg_now (ses_env ses 1)"
    "inj (pg_gen_random_uuid (ses_env ses 0))" "pg_gen_random_uuid (ses_env ses 0) n \<notin> X"
    "U t = Some t \<Longrightarrow> U e = Some e \<Longrightarrow> utf8_valid h \<Longrightarrow> CHR 0x00 \<notin> set h \<Longrightarrow>
       \<exists>j. pg_jsonb_in (ses_env ses 0) (payload_text t e h) = Some j"
  using assms unfolding quiet_batch_def by blast+

lemma drainableD:
  assumes "drainable U T X db"
  shows "store_ok U db" "dispatch_ok U db" "ob_id ` set (outbox_events db) \<subseteq> X"
    "ob \<in> set (outbox_events db) \<Longrightarrow> ob_dispatched_at ob = None \<Longrightarrow> ob_available_at ob \<le> T \<and> ob_attempt_count ob < int4_max"
    "t \<in> set (task_instances db) \<Longrightarrow> CHR 0x00 \<notin> set (ti_handler_key t)"
  using assms by (auto simp: drainable_def)

lemma enqueue_succeeds:
  assumes "quiet_batch U T X ses" "drainable U T X db"
  shows "\<exists>n db1. EnqueueDueTaskRetries 20 (ses_env ses 0) db = (Inr n, db1)"
proof -
  let ?env = "ses_env ses 0"
  have ids: "U (ti_id t) = Some (ti_id t)" "U (ti_workflow_execution_id t) = Some (ti_workflow_execution_id t)"
    if "t \<in> set (task_instances db)" for t
    using store_ok_parts(3) [OF drainableD(1) [OF assms(2)]] that by (auto simp: ids_canonical_def list_all_iff)
  have rows: "set (due_items ?env db) \<subseteq> set (task_instances db)"
    by (rule due_items_rows(1) [OF faithfulD(6) [OF quiet_batchD(1) [OF assms(1)]] drainableD(1) [OF assms(2)]])
  have "\<exists>t. enqueue_retries_tx (due_items ?env db) ?env \<lparr>tx_db = db, tx_rt = 2\<rparr> = Inr ((), t)"
  proof (rule enqueue_retries_succeeds [OF quiet_batchD(2,7) [OF assms(1)]])
    fix t assume "t \<in> set (due_items ?env db)"
    then have t: "t \<in> set (task_instances db)" using rows by blast
    have "utf8_valid (ti_handler_key t)" using drainableD(2) [OF assms(2)] t by (simp add: dispatch_ok_def)
    with quiet_batchD(9) [OF assms(1) ids(1,2) [OF t] _ drainableD(5) [OF assms(2) t]] ids(1) [OF t] faithfulD(5) [OF quiet_batchD(1) [OF assms(1)]]
    show "pg_uuid_in ?env (ti_id t) = Some (ti_id t) \<and>
        pg_jsonb_in ?env (payload_text (ti_id t) (ti_workflow_execution_id t) (ti_handler_key t)) \<noteq> None" by auto
  next
    fix n show "pg_gen_random_uuid ?env n \<notin> ob_id ` set (outbox_events (tx_db \<lparr>tx_db = db, tx_rt = 2\<rparr>))"
      using quiet_batchD(8) [OF assms(1), of n] drainableD(3) [OF assms(2)] by auto
  qed
  then obtain t where t: "enqueue_retries_tx (due_items ?env db) ?env \<lparr>tx_db = db, tx_rt = 2\<rparr> = Inr ((), t)" by blast
  have "enqueue_due_tx 20 ?env \<lparr>tx_db = db, tx_rt = 1\<rparr> = Inr (int (length (due_items ?env db)), t)"
    using t quiet_batchD(2) [OF assms(1), of 0]
    by (simp add: enqueue_due_tx_def tx_simps sql_simps select_due_retries_def due_items_def due_candidates_def calm_def numeral_2_eq_2)
  from calm_run_tx [OF quiet_batchD(2) [OF assms(1), of 0], of "enqueue_due_tx 20", OF this] show ?thesis unfolding EnqueueDueTaskRetries_def by blast
qed

lemma open_append:
  "outbox_events db1 = outbox_events db @ obs \<Longrightarrow> list_all (\<lambda>ob. ob_dispatched_at ob = None) obs \<Longrightarrow>
     open_events db1 = open_events db \<union> ob_id ` set obs"
  by (auto simp: open_events_def list_all_iff)

lemma waiting_cleared:
  "task_instances db1 = clear_all now us (task_instances db) \<Longrightarrow> waiting db1 = waiting db - us"
  by (auto simp: waiting_def clear_all_def clear_next_run_at_def image_iff)

lemma overdue_cleared:
  "task_instances db1 = clear_all now us (task_instances db) \<Longrightarrow> overdue T db1 = overdue T db - us"
  by (auto simp: overdue_def clear_all_def clear_next_run_at_def image_iff)

lemma due_overdue: "due_retry env t \<longleftrightarrow> ti_status t = TaskStatusPending \<and> (\<exists>at. ti_next_run_at t = Some at \<and> at \<le> pg_now env)"
  by (auto simp: due_retry_def split: option.splits)

text \<open>
  The first half of a batch: as many events are opened as tasks stop waiting, and when fewer than twenty
  were due none is left.
\<close>

lemma enqueue_batch:
  assumes "quiet_batch U T X ses" "drainable U T X db"
  obtains n db1 where "EnqueueDueTaskRetries 20 (ses_env ses 0) db = (Inr n, db1)"
    "drainable U (pg_now (ses_env ses 0)) (X \<union> range (pg_gen_random_uuid (ses_env ses 0))) db1"
    "backlog db1 = backlog db" "card (open_events db1) < 20 \<longrightarrow> overdue T db1 = {}"
    "open_events db = {} \<longrightarrow> card (open_events db1) \<le> 20" "\<forall>T. overdue T db1 \<subseteq> overdue T db"
proof -
  let ?env = "ses_env ses 0"
  obtain n db1 where e: "EnqueueDueTaskRetries 20 ?env db = (Inr n, db1)" using enqueue_succeeds [OF assms] by blast
  note ok = drainableD [OF assms(2)] and f = quiet_batchD(1) [OF assms(1), of 0]
  obtain s where s: "enqueue_due_tx 20 ?env \<lparr>tx_db = db, tx_rt = 1\<rparr> = Inr (n, s)" "db1 = tx_db s"
    using e unfolding EnqueueDueTaskRetries_def by (rule run_tx_InrE)
  have ids: "ids_canonical (pg_uuid_in ?env) (tx_db \<lparr>tx_db = db, tx_rt = 1\<rparr>)" by (rule env_ids [OF faithfulD(1) [OF f] ok(1)])
  obtain items obs where
    sel: "select_due_retries 20 ?env db = Inr items" and obs: "list_all2 (dispatch_of ?env) items obs"
    and dist: "distinct (map ob_id obs)" "ob_id ` set obs \<inter> ob_id ` set (outbox_events db) = {}"
    and db1: "db1 = db\<lparr>task_instances := clear_all (pg_now ?env) (ti_id ` set items) (task_instances db),
                outbox_events := outbox_events db @ obs\<rparr>"
    using enqueue_due_effect [OF faithfulD(6) [OF f] ids s(1)] s(2) by (metis tx.select_convs(1))
  have items: "items = due_items ?env db" using sel by (simp add: select_due_retries_def sql_simps due_items_def due_candidates_def)
  note rows = due_items_rows [OF faithfulD(6) [OF f] ok(1), folded items]
  have new: "ob_dispatched_at ob = None \<and> ob_available_at ob \<le> pg_now ?env \<and> ob_attempt_count ob < int4_max \<and>
      ob_id ob \<in> range (pg_gen_random_uuid ?env)" if "ob \<in> set obs" for ob
    using obs that by (induction rule: list_all2_induct) (auto simp: dispatch_of_def new_dispatch_def int4_max_def)
  have opened: "open_events db1 = open_events db \<union> ob_id ` set obs"
    by (rule open_append) (use new in \<open>simp_all add: db1 list_all_iff\<close>)
  have "open_events db \<inter> ob_id ` set obs = {}" using dist(2) by (auto simp: open_events_def)
  then have c1: "card (open_events db1) = card (open_events db) + length items"
    using card_keys [OF dist(1)] list_all2_lengthD [OF obs] by (simp add: opened card_Un_disjoint)
  have w: "waiting db1 = waiting db - ti_id ` set items" "overdue T' db1 = overdue T' db - ti_id ` set items" for T'
    by (rule waiting_cleared overdue_cleared; simp add: db1)+
  have "ti_id ` set items \<subseteq> waiting db" using rows(1,4) unfolding waiting_def due_overdue by (intro image_mono) fastforce
  then have c2: "card (waiting db) = card (waiting db1) + length items"
    using card_keys [OF rows(2)] card_Diff_subset [of "ti_id ` set items" "waiting db"] card_mono [of "waiting db" "ti_id ` set items"]
    by (simp add: w(1))
  have "drainable U (pg_now ?env) (X \<union> range (pg_gen_random_uuid ?env)) db1"
    unfolding drainable_def
  proof (intro conjI ballI)
    show "store_ok U db1" "dispatch_ok U db1"
      using perform_ready [OF f ok(1,2), of "CallEnqueueDueTaskRetries 20"] by (simp_all add: e)
    show "ob_id ` set (outbox_events db1) \<subseteq> X \<union> range (pg_gen_random_uuid ?env)" using ok(3) new by (auto simp: db1)
    show "ob_dispatched_at ob = None \<longrightarrow> ob_available_at ob \<le> pg_now ?env \<and> ob_attempt_count ob < int4_max"
      if "ob \<in> set (outbox_events db1)" for ob using that new ok(4) quiet_batchD(5) [OF assms(1)] by (fastforce simp: db1)
    show "CHR 0x00 \<notin> set (ti_handler_key t)" if "t \<in> set (task_instances db1)" for t
      using that ok(5) by (auto simp: db1 clear_all_def clear_next_run_at_def)
  qed
  moreover have "overdue T db1 = {}" if "card (open_events db1) < 20"
  proof -
    have "length items < 20" using that c1 by simp
    then have "length (due_candidates ?env db) < 20" by (simp add: items due_items_def order_limit_def)
    then have "set items = set (due_candidates ?env db)" by (simp add: items due_items_def order_limit_all)
    moreover have "set (pg_scan_tasks ?env (task_instances db)) = set (task_instances db)"
      using faithfulD(6) [OF f] unfolding scans_ok_def by (metis mset_eq_setD)
    ultimately have "overdue T db \<subseteq> ti_id ` set items"
      using quiet_batchD(4,5) [OF assms(1)] by (fastforce simp: overdue_def due_candidates_def due_overdue)
    then show ?thesis by (auto simp: w(2))
  qed
  ultimately show thesis using that [OF e] c1 c2 w(2) rows(3) by (auto simp: backlog_def)
qed

section \<open>Open events\<close>

text \<open>Redis takes every message.\<close>

definition accepts_all :: "'r redis \<Rightarrow> bool" where
  "accepts_all rd \<longleftrightarrow> (\<forall>p r. fst (rd_xadd rd p r) = None)"

lemma dispatch_accepted:
  assumes "accepts_all rd"
  obtains r' where "DispatchTask rd m r = (None, r')"
proof -
  obtain tx where tx: "marshal_message m = Inr tx" using marshal_message_Inr by blast
  obtain e r' where x: "rd_xadd rd tx r = (e, r')" by fastforce
  moreover have "e = None" using assms x by (metis accepts_all_def fst_conv)
  ultimately show thesis using that tx by (simp add: DispatchTask_def)
qed

lemma filter_update:
  "(\<And>r. key r = k \<Longrightarrow> \<not> P (f r)) \<Longrightarrow> filter P (update_by key k f rows) = filter (\<lambda>r. P r \<and> key r \<noteq> k) rows"
  by (induction rows) (simp_all add: update_by_def)

lemma mark_succeeds:
  assumes "faithful U env" "calm env" "drainable U T X db" "ident \<in> open_events db"
  obtains db' where "MarkOutboxDispatched ident env db = (Inr (), db')" "drainable U T X db'"
    "open_events db' = open_events db - {ident}" "task_instances db' = task_instances db"
proof -
  note ok = drainableD [OF assms(3)]
  obtain ob where ob: "ob \<in> set (outbox_events db)" "ob_id ob = ident" "ob_dispatched_at ob = None"
    using assms(4) by (auto simp: open_events_def)
  have u: "pg_uuid_in env ident = Some ident"
    using dispatch_okD(1) [OF ok(2) ob(1)] ob(2) faithfulD(5) [OF assms(1)] by (simp add: event_ok_def)
  have one: "q = ob" if "q \<in> set (outbox_events db)" "ob_id q = ident" for q
    using store_ok_outbox_ids [OF ok(1)] that ob(1,2) by (auto simp: distinct_map inj_on_def)
  have count: "outbox_count_ok ident db" using one ok(4) [OF ob(1,3)] by (auto simp: outbox_count_ok_def list_all_iff)
  let ?db = "upd_outbox ident (set_outbox_dispatched (pg_now env)) db"
  have m: "MarkOutboxDispatched ident env db = (Inr (), ?db)"
    using assms(2) u count
    by (simp add: MarkOutboxDispatched_def pool_exec_Inr sql_mark_outbox_dispatched_def sql_simps calm_def)
  have "drainable U T X ?db"
    unfolding drainable_def
  proof (intro conjI ballI)
    show "store_ok U ?db" "dispatch_ok U ?db"
      using perform_ready [OF assms(1) ok(1,2), of "CallMarkOutboxDispatched ident"] by (simp_all add: m)
    show "ob_id ` set (outbox_events ?db) \<subseteq> X"
      using ok(3) by (auto simp: upd_outbox_def update_by_def set_outbox_dispatched_def)
    show "ob_dispatched_at q = None \<longrightarrow> ob_available_at q \<le> T \<and> ob_attempt_count q < int4_max"
      if "q \<in> set (outbox_events ?db)" for q
      using that ok(4) by (auto simp: upd_outbox_def update_by_def set_outbox_dispatched_def)
    show "CHR 0x00 \<notin> set (ti_handler_key t)" if "t \<in> set (task_instances ?db)" for t
      using that ok(5) by (simp add: upd_outbox_def)
  qed
  moreover have "filter (\<lambda>q. ob_dispatched_at q = None) (outbox_events ?db) =
      filter (\<lambda>q. ob_dispatched_at q = None \<and> ob_id q \<noteq> ident) (outbox_events db)"
    unfolding upd_outbox_def by simp (rule filter_update, simp add: set_outbox_dispatched_def)
  then have "open_events ?db = open_events db - {ident}"
    unfolding open_events_def set_filter [symmetric] by auto
  ultimately show thesis using that [OF m] by (simp add: upd_outbox_def)
qed

lemma publish_succeeds:
  assumes "accepts_all rd" "quiet_batch U T' X' ses" "drainable U T X db"
    and "listed db events" "distinct (map evt_ID events)" "evt_ID ` set events \<subseteq> open_events db"
    and "publish_events rd ses n events (db, r) = (res, db', r')"
  shows "drainable U T X db' \<and> open_events db' = open_events db - evt_ID ` set events \<and> task_instances db' = task_instances db"
  using assms(3-7)
proof (induction events arbitrary: n db r res)
  case (Cons ev events)
  note ok = drainableD [OF Cons.prems(1)]
  obtain ob where ob: "ob \<in> set (outbox_events db)" "ob_payload_json ob = evt_PayloadJSON ev"
    using Cons.prems(2) by (auto simp: listed_def)
  then obtain p where p: "json_unmarshal unmarshal_payload (evt_PayloadJSON ev) = Inr p"
    using dispatch_okD(1) [OF ok(2)] by (fastforce simp: event_ok_def payload_ok_def)
  obtain r1 where d: "DispatchTask rd \<lparr>msg_TaskID = pay_TaskID p, msg_ExecutionID = pay_ExecutionID p,
      msg_HandlerKey = pay_HandlerKey p\<rparr> r = (None, r1)" by (rule dispatch_accepted [OF assms(1)])
  have "evt_ID ev \<in> open_events db" using Cons.prems(4) by simp
  then obtain db1 where db1: "MarkOutboxDispatched (evt_ID ev) (ses_env ses n) db = (Inr (), db1)" "drainable U T X db1"
      "open_events db1 = open_events db - {evt_ID ev}" "task_instances db1 = task_instances db"
    by (rule mark_succeeds [OF quiet_batchD(1,2) [OF assms(2)] Cons.prems(1)])
  have "ready U (ses_env ses n) db" using quiet_batchD(1) [OF assms(2)] ok by (simp add: ready_def)
  from perform_progress [OF this, of "CallMarkOutboxDispatched (evt_ID ev)"] have l: "listed db1 events"
    using Cons.prems(2) by (intro listed_progress [of U _ _ db db1]) (simp_all add: db1(1) listed_def)
  obtain res1 where "publish_events rd ses (Suc n) events (db1, r1) = (res1, db', r')"
    using Cons.prems(5) p d db1(1) quiet_batchD(3) [OF assms(2), of n]
    by (auto simp: Let_def apfst_def map_prod_def split: prod.splits)
  from Cons.IH [OF db1(2) l _ _ this] Cons.prems(3,4) db1(3,4) show ?case by auto
qed simp

text \<open>The events of a batch: all that are open when there are at most twenty, else twenty.\<close>

lemma list_batch:
  assumes "quiet_batch U T' X' ses" "drainable U T X db" "T \<le> pg_now (ses_env ses 1)"
  obtains events where "ListPendingOutbox 20 (ses_env ses 1) db = Inr events" "listed db events"
    "distinct (map evt_ID events)" "evt_ID ` set events \<subseteq> open_events db"
    "length events = min 20 (card (open_events db))"
proof -
  let ?env = "ses_env ses 1"
  let ?rows = "filter (pending_event ?env) (pg_scan_outbox ?env (outbox_events db))"
  let ?events = "map scanOutboxEvent (order_limit ob_created_at 20 ?rows)"
  note ok = drainableD [OF assms(2)] and f = quiet_batchD(1) [OF assms(1), of 1]
  have l: "ListPendingOutbox 20 ?env db = Inr ?events"
    using quiet_batchD(2) [OF assms(1), of 1] by (simp add: ListPendingOutbox_def pool_query_def check_def calm_def)
  have scan: "mset (pg_scan_outbox ?env (outbox_events db)) = mset (outbox_events db)"
    using faithfulD(6) [OF f] by (simp add: scans_ok_def)
  then have rows: "set (pg_scan_outbox ?env (outbox_events db)) = set (outbox_events db)" by (rule mset_eq_setD)
  then have pending: "set ?rows = {ob \<in> set (outbox_events db). ob_dispatched_at ob = None}"
    using ok(4) assms(3) by (fastforce simp: pending_event_def)
  have "mset (map ob_id (pg_scan_outbox ?env (outbox_events db))) = mset (map ob_id (outbox_events db))" using scan by simp
  then have "distinct (map ob_id (pg_scan_outbox ?env (outbox_events db)))"
    using store_ok_outbox_ids [OF ok(1)] by (metis mset_eq_imp_distinct_iff)
  then have d: "distinct (map ob_id ?rows)" by (rule distinct_map_filter)
  have ids: "map evt_ID ?events = map ob_id (order_limit ob_created_at 20 ?rows)" by (simp add: scanOutboxEvent_def)
  have "card (open_events db) = length ?rows" using card_keys [OF d] pending by (simp add: open_events_def)
  then have len: "length ?events = min 20 (card (open_events db))" by (simp add: order_limit_def)
  have "evt_ID ` set ?events \<subseteq> ob_id ` set ?rows"
    using set_order_limit [of ob_created_at 20 ?rows] by (auto simp: scanOutboxEvent_def)
  then have sub: "evt_ID ` set ?events \<subseteq> open_events db" by (simp only: open_events_def pending)
  show thesis
    by (rule that [OF l ListPendingOutbox_listed [OF faithfulD(6) [OF f] l] _ sub len])
       (use distinct_map_order_limit [OF d] in \<open>simp only: ids\<close>)
qed

section \<open>Batches\<close>

lemma batch_drains:
  assumes "accepts_all rd" "quiet_batch U T X ses" "drainable U T X db" "T0 \<le> T" "publishOnce rd ses (db, r) = (res, db', r')"
  shows "drainable U (pg_now (ses_env ses 0)) (X \<union> range (pg_gen_random_uuid (ses_env ses 0))) db'"
    and "backlog db' + 20 \<le> backlog db \<or> drained T0 db'" and "drained T0 db \<Longrightarrow> drained T0 db'"
proof -
  let ?X = "X \<union> range (pg_gen_random_uuid (ses_env ses 0))" and ?T = "pg_now (ses_env ses 0)"
  obtain n db1 where e: "EnqueueDueTaskRetries 20 (ses_env ses 0) db = (Inr n, db1)" "drainable U ?T ?X db1"
      "backlog db1 = backlog db" "card (open_events db1) < 20 \<longrightarrow> overdue T db1 = {}"
      "open_events db = {} \<longrightarrow> card (open_events db1) \<le> 20" "\<forall>T. overdue T db1 \<subseteq> overdue T db"
    by (rule enqueue_batch [OF assms(2,3)])
  obtain events where l: "ListPendingOutbox 20 (ses_env ses 1) db1 = Inr events" "listed db1 events"
      "distinct (map evt_ID events)" "evt_ID ` set events \<subseteq> open_events db1" "length events = min 20 (card (open_events db1))"
    by (rule list_batch [OF assms(2) e(2) quiet_batchD(6) [OF assms(2)]])
  obtain res1 where p: "publish_events rd ses 2 events (db1, r) = (res1, db', r')"
    using assms(5) e(1) l(1) quiet_batchD(3) [OF assms(2)]
    by (auto simp: publishOnce_def Let_def apfst_def map_prod_def simp del: One_nat_def split: prod.splits)
  have s: "drainable U ?T ?X db'" "open_events db' = open_events db1 - evt_ID ` set events" "task_instances db' = task_instances db1"
    using publish_succeeds [OF assms(1,2) e(2) l(2-4) p] by simp_all
  then show "drainable U ?T ?X db'" by simp
  have same: "waiting db' = waiting db1" "overdue T0 db' = overdue T0 db1" by (simp_all add: waiting_def overdue_def s(3))
  have less: "card (open_events db') = card (open_events db1) - min 20 (card (open_events db1))"
    using card_keys [OF l(3)] card_Diff_subset [OF _ l(4)] by (simp add: s(2) l(5))
  then have none: "open_events db' = {}" if "card (open_events db1) \<le> 20" using that by simp
  have earlier: "overdue T0 db1 \<subseteq> overdue T db1" using assms(4) by (fastforce simp: overdue_def)
  show "backlog db' + 20 \<le> backlog db \<or> drained T0 db'"
  proof (cases "card (open_events db1) < 20")
    case True
    with none e(4) earlier show ?thesis by (simp add: drained_def same)
  next
    case False
    with less e(3) show ?thesis by (simp add: backlog_def same)
  qed
  show "drained T0 db'" if "drained T0 db" using that none e(5,6) by (fastforce simp: drained_def same)
qed

lemma quiet_session_ok: "quiet_batch U T X ses \<Longrightarrow> session_ok U {} ses"
  by (simp add: quiet_batch_def session_ok_def others_ok_def)

lemma run_drains:
  assumes "accepts_all rd" "quiet_sessions U T X sessions" "drainable U T X db" "T0 \<le> T"
    and "publisher_Run rd sessions (db, r) = (db', r')"
  shows "(backlog db' + 20 * length sessions \<le> backlog db \<or> drained T0 db') \<and> (drained T0 db \<longrightarrow> drained T0 db')"
  using assms(2-5)
proof (induction sessions arbitrary: T X db r)
  case (Cons ses sessions)
  obtain res db1 r1 where p: "publishOnce rd ses (db, r) = (res, db1, r1)" by (metis surj_pair)
  note q = Cons.prems(1) [simplified]
  note b = batch_drains [OF assms(1) conjunct1 [OF q] Cons.prems(2,3) p]
  have "T0 \<le> pg_now (ses_env ses 0)" using Cons.prems(3) quiet_batchD(5) [OF conjunct1 [OF q]] by simp
  from Cons.IH [OF conjunct2 [OF q] b(1) this, of r1] Cons.prems(4) p b(2,3) show ?case by auto
qed simp

lemma run_inv:
  assumes "appends rd sent" "quiet_sessions U T X sessions" "outbox_inv U (set (sent r)) db"
    and "publisher_Run rd sessions (db, r) = (db', r')"
  shows "outbox_inv U (set (sent r')) db'"
  using assms(2-4)
proof (induction sessions arbitrary: T X db r)
  case (Cons ses sessions)
  obtain res db1 r1 where p: "publishOnce rd ses (db, r) = (res, db1, r1)" by (metis surj_pair)
  have "outbox_inv U (set (sent r1)) db1"
    using publishOnce_inv [OF assms(1) quiet_session_ok _ p, of U T X] Cons.prems(1,2) by simp
  with Cons.IH Cons.prems(1,3) p show ?case by auto
qed simp

text \<open>
  C9.  The publisher works off its backlog: when \<open>backlog\<close> events and retries are open, then after so many
  quiet batches (twenty per batch) every event is marked dispatched and its message is in the stream, and
  no task has a retry time of \<open>T\<close> or before left.  Failures before that period do not matter, as long as
  the counters of the events are not at the maximum of their column.
\<close>

theorem publisher_drains:
  assumes "appends rd sent" "accepts_all rd" "quiet_sessions U T X sessions"
    and "drainable U T X db" "marked_are_sent (set (sent r)) db" "backlog db \<le> 20 * length sessions"
    and "publisher_Run rd sessions (db, r) = (db', r')"
  shows "(\<forall>ob \<in> set (outbox_events db'). ob_dispatched_at ob \<noteq> None \<and>
       (\<exists>text \<in> set (sent r'). message_text (ob_payload_json ob) = Inr text)) \<and>
     (\<forall>t \<in> set (task_instances db'). ti_status t = TaskStatusPending \<longrightarrow>
       (case ti_next_run_at t of None \<Rightarrow> True | Some at \<Rightarrow> T < at))"
proof -
  have inv: "outbox_inv U (set (sent r')) db'"
    using run_inv [OF assms(1,3) _ assms(7)] drainableD(1,2) [OF assms(4)] assms(5) by (simp add: outbox_inv_def)
  have "drained T db'"
    using run_drains [OF assms(2-4) order_refl assms(7)]
  proof (elim conjE disjE)
    assume "backlog db' + 20 * length sessions \<le> backlog db"
    then have "backlog db' = 0" using assms(6) by simp
    then show ?thesis by (auto simp: backlog_def drained_def waiting_def overdue_def)
  qed
  then have "ob_dispatched_at ob \<noteq> None" if "ob \<in> set (outbox_events db')" for ob
    using that by (auto simp: drained_def open_events_def)
  moreover have "case ti_next_run_at t of None \<Rightarrow> True | Some at \<Rightarrow> T < at"
    if "t \<in> set (task_instances db')" "ti_status t = TaskStatusPending" for t
    using that \<open>drained T db'\<close> by (force simp: drained_def overdue_def split: option.split)
  ultimately show ?thesis using inv by (auto simp: outbox_inv_def marked_are_sent_def)
qed

theorem publisher_drains_witness:
  "\<exists>db' r'. publisher_Run demo_stream [strict_session 2] (strict_db, []) = (db', r') \<and>
     (\<exists>ob. outbox_events db' = [ob] \<and> ob_dispatched_at ob \<noteq> None \<and>
       (\<exists>text \<in> set r'. message_text (ob_payload_json ob) = Inr text))"
proof -
  obtain db' r' where run: "publisher_Run demo_stream [strict_session 2] (strict_db, []) = (db', r')" by fastforce
  have "quiet_sessions strict_uuid 10 {''u-...''} [strict_session 2]"
    by (auto simp: quiet_batch_def inj_def demo_jsonb_in_def numeral_eq_Suc)
  moreover have "drainable strict_uuid 10 {''u-...''} strict_db"
    using reachable_ready [OF strict_reachable]
    by (simp add: drainable_def strict_db_eq strict_event_def strict_task_def int4_max_def)
  moreover have "backlog strict_db \<le> 20 * length [strict_session 2]"
    using backlog_bound [of strict_db] by (simp add: strict_db_eq)
  moreover have "outbox_events db' = [set_outbox_dispatched 50 strict_event]" using strict_publish run by auto
  ultimately show ?thesis
    using publisher_drains [of demo_stream "\<lambda>r. r" strict_uuid 10 "{''u-...''}" "[strict_session 2]" strict_db "[]" db' r'] run
    by (auto simp: appends_def accepts_all_def demo_stream_def marked_are_sent_def strict_db_eq strict_event_def)
qed

end
