(* ===== verification/CalmRun.thy ===== *)
theory CalmRun
  imports WorkerProps
begin

text \<open>
  Why a message can stay unacknowledged: in a run of the worker in which no call of the database fails and
  nobody else writes, the only errors are values that the database rejects.
\<close>

section \<open>Errors of statements\<close>

definition rejections :: "go_error set" where
  "rejections = {invalid_text, invalid_json, unique_violation, int4_overflow}"

lemma rejected [simp]:
  "invalid_text \<in> rejections" "invalid_json \<in> rejections" "unique_violation \<in> rejections" "int4_overflow \<in> rejections"
  by (simp_all add: rejections_def)

lemma tx_bind_Inl:
  "tx_bind m k env s = Inl e \<longleftrightarrow> m env s = Inl e \<or> (\<exists>x s'. m env s = Inr (x, s') \<and> k x env s' = Inl e)"
  by (auto simp: tx_bind_def split: sum.splits prod.splits)

lemma statement_Inl: "calm env \<Longrightarrow> statement f env s = Inl e \<longleftrightarrow> f env (tx_rt s) (tx_db s) = Inl e"
  by (auto simp: statement_def calm_def split: sum.splits)

lemma run_tx_Inl: "calm env \<Longrightarrow> run_tx m env db = (Inl e, db') \<Longrightarrow> m env \<lparr>tx_db = db, tx_rt = 1\<rparr> = Inl e"
  by (auto simp: run_tx_def calm_def commit_def split: sum.splits)

lemma sql_Inl:
  "with_uuid env x k = Inl e \<longleftrightarrow> (case pg_uuid_in env x of None \<Rightarrow> e = invalid_uuid | Some u \<Rightarrow> k u = Inl e)"
  "with_text env ts (r :: go_error + 'a) = Inl e \<longleftrightarrow> (if list_all (pg_text_ok env) ts then r = Inl e else e = invalid_text)"
  "with_jsonb env raw k' = Inl e \<longleftrightarrow> (case pg_jsonb_in env raw of None \<Rightarrow> e = invalid_json | Some j \<Rightarrow> k' j = Inl e)"
  "check b e' (r' :: go_error + 'b) = Inl e \<longleftrightarrow> (if b then r' = Inl e else e = e')"
  "sql_read f env n db = Inl e \<longleftrightarrow> f env db = Inl e"
  "one_row ro = Inl e \<longleftrightarrow> ro = None \<and> e = ErrNoRows"
  by (auto simp: with_uuid_def with_text_def with_jsonb_def check_def sql_read_def one_row_def split: option.splits sum.splits)
     (cases "f env db"; simp)+

lemma map_sum_id:
  "map_sum id f x = Inl e \<longleftrightarrow> x = Inl e" "map_sum id f x = Inr y \<longleftrightarrow> (\<exists>z. x = Inr z \<and> y = f z)"
  by (cases x; auto)+

lemmas tx_Inl = tx_bind_Inl statement_Inl sql_Inl map_sum_id

section \<open>Errors of the calls\<close>

text \<open>A task whose row is there, with the row of its execution, and an attempt id that a server made.\<close>

lemma task_rows:
  assumes "server U env" "store_ok U db" "U t = Some u" "u \<in> ti_id ` set (task_instances db)"
  obtains r where "pg_uuid_in env t = Some u" "pg_uuid_in env u = Some u" "select_by ti_id u (task_instances db) = Some r"
    "pg_uuid_in env (ti_workflow_execution_id r) = Some (ti_workflow_execution_id r)"
    "ti_workflow_execution_id r \<in> we_id ` set (workflow_executions db)" "ti_id r = u"
proof -
  obtain r where r: "select_by ti_id u (task_instances db) = Some r" using select_exists [OF assms(4)] by blast
  note ids = ids_canonicalD [OF store_ok_parts(3) [OF assms(2)] r]
  have row: "r \<in> set (task_instances db)" "ti_id r = u" using select_by_SomeD [OF r] by auto
  have "ti_workflow_execution_id r \<in> we_id ` set (workflow_executions db)"
    using store_ok_parts(1) [OF assms(2)] row(1) by (auto simp: schema_ok_def)
  with r ids row(2) assms(3) serverD(2) [OF assms(1)] show thesis by (intro that) auto
qed

lemma start_rejected:
  assumes "server U env" "store_ok U db" "U t = Some u" "u \<in> ti_id ` set (task_instances db)" "calm env"
    and "StartTaskAttempt t env db = (Inl e, db')"
  shows "e \<in> rejections"
proof -
  obtain r where r: "pg_uuid_in env t = Some u" "pg_uuid_in env u = Some u" "select_by ti_id u (task_instances db) = Some r"
      "ti_id r = u" by (rule task_rows [OF assms(1-4)])
  note run = run_tx_Inl [OF assms(5) assms(6) [unfolded StartTaskAttempt_def]]
  show ?thesis
    using run r assms(4,5)
    by (auto simp: start_attempt_tx_def tx_Inl tx_simps sql_simps sql_select_task_def Let_def scanTaskInstance_def sql_insert_attempt_def
        sql_update_task_running_def returning_task_def upd_task_def select_update_by_same set_task_running_def
        split: if_splits option.splits)
qed

lemma end_rejected:
  assumes "server U env" "store_ok U db" "U t = Some u" "u \<in> ti_id ` set (task_instances db)" "calm env" "U a = Some v"
  shows "FailTaskAttempt t a err env db = (Inl e, db') \<Longrightarrow> e \<in> rejections"
    "ScheduleTaskRetry t a err at env db = (Inl e, db') \<Longrightarrow> e \<in> rejections"
    "CompleteTaskAttempt t a out env db = (Inl e, db') \<Longrightarrow> e \<in> rejections"
proof -
  obtain r where r: "pg_uuid_in env t = Some u" "select_by ti_id u (task_instances db) = Some r"
      "pg_uuid_in env (ti_workflow_execution_id r) = Some (ti_workflow_execution_id r)" by (rule task_rows [OF assms(1-4)])
  have a: "pg_uuid_in env a = Some v" using assms(6) serverD(2) [OF assms(1)] by simp
  note defs = fail_attempt_tx_def schedule_retry_tx_def complete_attempt_tx_def select_execution_id_def tx_Inl tx_simps sql_simps
    sql_select_task_def sql_update_attempt_failed_def sql_update_task_dead_lettered_def sql_update_execution_failed_def
    sql_update_task_retry_def sql_update_attempt_succeeded_def sql_update_task_succeeded_def sql_update_execution_succeeded_def Let_def
  show "FailTaskAttempt t a err env db = (Inl e, db') \<Longrightarrow> e \<in> rejections"
    using r a assms(5) unfolding FailTaskAttempt_def
    by (drule_tac run_tx_Inl [OF assms(5)]) (auto simp: defs split: if_splits option.splits)
  show "ScheduleTaskRetry t a err at env db = (Inl e, db') \<Longrightarrow> e \<in> rejections"
    using r a assms(5) unfolding ScheduleTaskRetry_def
    by (drule_tac run_tx_Inl [OF assms(5)]) (auto simp: defs split: if_splits option.splits)
  show "CompleteTaskAttempt t a out env db = (Inl e, db') \<Longrightarrow> e \<in> rejections"
    using r a assms(5) unfolding CompleteTaskAttempt_def
    by (drule_tac run_tx_Inl [OF assms(5)]) (auto simp: defs split: if_splits option.splits)
qed

lemma complete_next_rejected:
  assumes "server U env" "store_ok U db" "U t = Some u" "u \<in> ti_id ` set (task_instances db)" "calm env" "U a = Some v"
    and "CompleteTaskAttemptAndEnqueueNextTask t a name hkey out env db = (Inl e, db')"
  shows "e \<in> rejections"
proof -
  obtain r where r: "pg_uuid_in env t = Some u" "select_by ti_id u (task_instances db) = Some r"
      "pg_uuid_in env (ti_workflow_execution_id r) = Some (ti_workflow_execution_id r)"
      "ti_workflow_execution_id r \<in> we_id ` set (workflow_executions db)" by (rule task_rows [OF assms(1-4)])
  have a: "pg_uuid_in env a = Some v" using assms(6) serverD(2) [OF assms(1)] by simp
  have gen: "pg_uuid_in env (pg_gen_random_uuid env n) = Some (pg_gen_random_uuid env n)" for n
    by (rule uuid_canonical_gen [OF serverD(1) [OF assms(1)]])
  note run = run_tx_Inl [OF assms(5) assms(7) [unfolded CompleteTaskAttemptAndEnqueueNextTask_def]]
  show ?thesis
    using run r a gen assms(5)
    by (auto simp: complete_and_enqueue_tx_def select_execution_id_def insert_dispatch_def tx_lift_def tx_Inl tx_simps sql_simps
        sql_select_task_def sql_update_attempt_succeeded_def sql_update_task_succeeded_def sql_insert_task_def sql_insert_outbox_def
        upd_defs Let_def split: if_splits option.splits)
qed

section \<open>A calm run\<close>

text \<open>No call of the worker itself fails, and nobody else writes between its calls.\<close>

definition calm_run :: "(string \<Rightarrow> string option) \<Rightarrow> worker_run \<Rightarrow> bool" where
  "calm_run U run \<longleftrightarrow> (\<forall>n. server U (env_at run n) \<and> calm (env_at run n) \<and> at_call run n = id)"

lemma calm_runD:
  assumes "calm_run U run"
  shows "server U (env_at run n)" "calm (env_at run n)" "at_call run n db = db"
  using assms by (simp_all add: calm_run_def)

definition refused :: "go_error option \<Rightarrow> bool" where
  "refused err \<longleftrightarrow> (case err of None \<Rightarrow> True | Some e \<Rightarrow> \<exists>x \<in> rejections. error_is e x)"

lemma refused_simps [simp]: "refused None" "refused (Some (Wrap p e)) \<longleftrightarrow> (\<exists>x \<in> rejections. error_is (Wrap p e) x)"
  by (simp_all add: refused_def)

lemma refusedI: "e \<in> rejections \<Longrightarrow> refused (Some e)" "e \<in> rejections \<Longrightarrow> refused (Some (Wrap p e))"
  by (auto simp: refused_def intro: bexI [of _ e])

lemma persist_refused:
  assumes "calm_run U run" "store_ok U db" "U (task_ID task) = Some u" "u \<in> ti_id ` set (task_instances db)" "U (att_ID attempt) = Some v"
  shows "refused (fst (fst (persist_missing_handler key task attempt run db)))"
    "refused (fst (fst (persist_handler_error key tspec task attempt err run db)))"
    "FindNextTaskSpec spec (task_TaskName task) = Inr next \<Longrightarrow> refused (fst (fst (persist_output key spec task attempt out run db)))"
proof -
  note env = calm_runD [OF assms(1), of 4]
  note rej = end_rejected [OF env(1) assms(2-4) env(2) assms(5)] complete_next_rejected [OF env(1) assms(2-4) env(2) assms(5)]
  show "refused (fst (fst (persist_missing_handler key task attempt run db)))"
    using rej(1) by (auto simp: persist_missing_handler_def Let_def env(3) finish_def refusedI simp del: refused_simps(2) split: prod.split sum.split)
  show "refused (fst (fst (persist_handler_error key tspec task attempt err run db)))"
    using rej(1,2) by (auto simp: persist_handler_error_def Let_def env(3) finish_def refusedI simp del: refused_simps(2) split: prod.split sum.split)
  show "refused (fst (fst (persist_output key spec task attempt out run db)))" if "FindNextTaskSpec spec (task_TaskName task) = Inr next"
    using rej(3,4) that
    by (auto simp: persist_output_def env(3) finish_def refusedI simp del: refused_simps(2) split: prod.split sum.split option.split)
qed

text \<open>The specification that was loaded is that of the task, and it is valid.\<close>

lemma loaded:
  assumes "calm_run U run" "store_ok U db" "GetWorkflowSpecAndTaskSpecByTaskID t run db = (Inr (spec, tspec), db1)"
  obtains u r raw where "db1 = db" "U t = Some u" "select_by ti_id u (task_instances db) = Some r"
    "ParseAndValidateWorkflowDefinition raw = Inr spec" "FindTaskSpecByName spec (ti_task_name r) = Inr tspec"
  using assms(3) serverD(2) [OF calm_runD(1) [OF assms(1)]]
  by (auto simp: GetWorkflowSpecAndTaskSpecByTaskID_def Let_def calm_runD(3) [OF assms(1)] GetTaskInstance_def map_sum_id pool_query_def
      sql_select_task_def sql_simps scanTaskInstance_def split: sum.splits option.splits intro: that)

lemma started_as:
  assumes "server U env" "store_ok U db" "StartTaskAttempt t env db = (Inr (task, attempt, False), db')"
    and "U t = Some u" "select_by ti_id u (task_instances db) = Some r"
  shows "U (task_ID task) = Some u" "task_TaskName task = ti_task_name r" "U (att_ID attempt) = Some (att_ID attempt)"
    "u \<in> ti_id ` set (task_instances db')" "store_ok U db'"
proof -
  show "store_ok U db'" using perform_store_ok [OF assms(1,2), of "CallStartTaskAttempt t"] assms(3) by simp
  obtain s where s: "start_attempt_tx t env \<lparr>tx_db = db, tx_rt = 1\<rparr> = Inr ((task, attempt, False), s)" "db' = tx_db s"
    using assms(3) unfolding StartTaskAttempt_def by (rule run_tx_InrE)
  note srv = serverD(1,2) [OF assms(1)]
  have row: "ti_id r = u" using assms(5) by (rule select_by_key)
  have "U (task_ID task) = Some u \<and> task_TaskName task = ti_task_name r \<and> U (att_ID attempt) = Some (att_ID attempt) \<and>
      u \<in> ti_id ` set (task_instances db')"
    using s(1)
  proof (cases rule: start_attempt_effect)
    case (started u' r' v i)
    have eq: "u' = u" "r' = r" using started(1,2) assms(4,5) srv(2) by auto
    have canon: "U u = Some u" using uuid_canonical_in [OF srv(1)] started(1) eq srv(2) by simp
    then have v: "v = u" using started(5) eq srv(2) by simp
    have sel: "select_by ti_id u (task_instances db') = Some (set_task_running (pg_now env) i r)"
      using started(10) assms(5) by (simp add: s(2) v upd_task_def select_update_by_same set_task_running_def)
    then have "u \<in> ti_id ` set (task_instances db')" by (metis imageI select_by_SomeD)
    moreover have "U (pg_gen_random_uuid env n) = Some (pg_gen_random_uuid env n)" for n
      using uuid_canonical_gen [OF srv(1)] srv(2) by simp
    ultimately show ?thesis
      using started(11) sel row canon by (auto simp: s(2) v scanTaskInstance_def scanTaskAttempt_def set_task_running_def new_attempt_def)
  qed simp
  then show "U (task_ID task) = Some u" "task_TaskName task = ti_task_name r" "U (att_ID attempt) = Some (att_ID attempt)"
    "u \<in> ti_id ` set (task_instances db')" by simp_all
qed

lemma calm_run_ok: "calm_run U run \<Longrightarrow> run_ok U run"
  by (simp add: calm_run_def run_ok_def benign_def)

lemma calm_refused:
  assumes "calm_run U run" "registry_ok U reg run" "store_ok U db"
    and "GetWorkflowSpecAndTaskSpecByTaskID (msg_TaskID m) run db = (Inr (spec, tspec), db1)"
  shows "refused (fst (fst (HandleDispatchedTask reg m run db)))"
proof -
  obtain u r raw where l: "db1 = db" "U (msg_TaskID m) = Some u" "select_by ti_id u (task_instances db) = Some r"
      "ParseAndValidateWorkflowDefinition raw = Inr spec" "FindTaskSpecByName spec (ti_task_name r) = Inr tspec"
    by (rule loaded [OF assms(1,3,4)])
  note env = calm_runD [OF assms(1), of 3]
  have mem: "u \<in> ti_id ` set (task_instances db)" using l(3) by (metis imageI select_by_SomeD)
  let ?tspec = "if spec_MaxAttempts tspec = 0 then tspec\<lparr>spec_MaxAttempts := 1\<rparr> else tspec"
  obtain res db2 where st: "StartTaskAttempt (msg_TaskID m) (env_at run 3) db = (res, db2)" by fastforce
  note handle = HandleDispatchedTask_def assms(4) l(1) env(3) st Let_def finish_def
  show ?thesis
  proof (cases res)
    case (Inl e)
    with start_rejected [OF env(1) assms(3) l(2) mem env(2)] st have "e \<in> rejections" by blast
    with Inl show ?thesis by (simp add: handle refusedI)
  next
    case (Inr x)
    obtain task attempt already where x: "x = (task, attempt, already)" by (metis surj_pair)
    show ?thesis
    proof (cases already)
      case True
      with Inr x show ?thesis by (simp add: handle)
    next
      case False
      note a = started_as [OF env(1) assms(3) _ l(2,3), of task attempt db2]
      have s: "U (task_ID task) = Some u" "task_TaskName task = ti_task_name r" "U (att_ID attempt) = Some (att_ID attempt)"
          "u \<in> ti_id ` set (task_instances db2)" "store_ok U db2"
        using a st Inr x False by simp_all
      obtain next_task where n: "FindNextTaskSpec spec (task_TaskName task) = Inr next_task"
        using lookups_total [OF l(4)] l(5) s(2) by metis
      have "refused (fst (fst (run_handler reg (msg_HandlerKey m) spec ?tspec task attempt run db2)))"
      proof (cases "reg (task_HandlerKey task)")
        case None
        then show ?thesis using persist_refused(1) [OF assms(1) s(5,1,4,3)] by (simp add: run_handler_def registry_Get_def)
      next
        case (Some h)
        obtain hres db3 where h: "h task (wr_handler run) db2 = (hres, db3)" by fastforce
        have "benign U (\<lambda>db. snd (h task (wr_handler run) db))" using assms(2) Some by (simp add: registry_ok_def handler_ok_def)
        from benignD [OF this s(5)] have k: "store_ok U db3" "u \<in> ti_id ` set (task_instances db3)"
          using tasks_growD s(4) by (auto simp: h)
        show ?thesis
          using Some h persist_refused(2,3) [OF assms(1) k(1) s(1) k(2) s(3)] n
          by (cases hres) (simp_all add: run_handler_def registry_Get_def)
      qed
      with Inr x False show ?thesis by (simp add: handle)
    qed
  qed
qed

text \<open>
  C7.  Why a message is not acknowledged: in a calm run, when the specification of its task is found and
  valid, \<^verbatim>\<open>HandleDispatchedTask\<close> settles the task and returns nil, whatever the handler does, or else the database
  has rejected a value: a text that is not valid in its encoding, a document that is not JSON, a key that is
  in use, or an attempt number that does not fit.  No row that the code relies on is missing, no id is
  malformed and the next task is always found.
\<close>

theorem calm_run_settles:
  assumes "calm_run U run" "registry_ok U reg run" "store_ok U db"
    and "GetWorkflowSpecAndTaskSpecByTaskID (msg_TaskID m) run db = (Inr (spec, tspec), db1)"
    and "HandleDispatchedTask reg m run db = ((err, metrics), db')"
  shows "case err of
      None \<Rightarrow> \<exists>u r. U (msg_TaskID m) = Some u \<and> select_by ti_id u (task_instances db') = Some r \<and> settled r
    | Some e \<Rightarrow> \<exists>x \<in> {invalid_text, invalid_json, unique_violation, int4_overflow}. error_is e x"
proof (cases err)
  case None
  with acknowledged_settled [OF calm_run_ok [OF assms(1)] assms(2,3)] assms(5) show ?thesis by simp
next
  case (Some e)
  with calm_refused [OF assms(1-4)] assms(5) show ?thesis by (simp add: refused_def rejections_def)
qed

theorem calm_run_settles_witness:
  "\<exists>metrics db' r. HandleDispatchedTask Map.empty demo_message demo_run demo_db = ((None, metrics), db') \<and>
     select_by ti_id ''ue..'' (task_instances db') = Some r \<and> settled r"
proof -
  have run: "calm_run demo_uuid_in demo_run" by (simp add: calm_run_def)
  obtain spec tspec db1 where load: "GetWorkflowSpecAndTaskSpecByTaskID (msg_TaskID demo_message) demo_run demo_db = (Inr (spec, tspec), db1)"
    using demo_load by (auto simp: demo_message_def)
  obtain err metrics db' where h: "HandleDispatchedTask Map.empty demo_message demo_run demo_db = ((err, metrics), db')" by (metis surj_pair)
  moreover have "err = None" using demo_handle h by auto
  ultimately show ?thesis
    using calm_run_settles [OF run demo_no_handlers reachable_store_ok [OF demo_reachable] load h]
    by (auto simp: demo_message_def demo_uuid_in_def)
qed

end
