(* ===== verification/QueueProps.thy ===== *)
theory QueueProps
  imports Process WorkerProps
begin

text \<open>
  The properties of the consumer.  The locale \<open>ack_discipline\<close> is the contract between the consumer
  and its message handler: what holds of a message once the handler returned nil, and what an
  acknowledgement needs.  It is interpreted on the worker over an arbitrary Redis client whose calls
  are observed (\<open>observed\<close>), so the discipline holds of every run of a worker process.
\<close>

section \<open>Finitely many turns of the loop\<close>

fun consume_turns ::
  "'w redis \<Rightarrow> 'w message_handler \<Rightarrow> ConsumeOptions \<Rightarrow> nat \<Rightarrow> 'w \<Rightarrow> go_error option \<times> 'w"
where
  "consume_turns r handle opts 0 w = (None, w)"
| "consume_turns r handle opts (Suc n) w =
     (case consume_turn r handle opts w of
        (Some e, w') \<Rightarrow> (Some e, w')
      | (None, w') \<Rightarrow> consume_turns r handle opts n w')"

lemma consume_loop_turns:
  "consume_turns r handle opts n w = (Some e, w') \<Longrightarrow> consume_loop r handle opts w = Some (e, w')"
proof (induction n arbitrary: w)
  case (Suc n)
  then show ?case by (subst consume_loop.simps) (auto split: prod.splits option.splits)
qed simp

lemma consume_loop_returns:
  assumes "consume_loop r handle opts w = Some (e, w')"
  shows "\<exists>n. consume_turns r handle opts n w = (Some e, w')"
proof -
  have "\<exists>n. consume_turns r handle opts n w = (Some (fst y), snd y)"
    if "consume_loop r handle opts w = Some y" for y
    using that
  proof (induction rule: consume_loop.raw_induct [rotated, consumes 1])
    case (1 loop r handle opts w y)
    show ?case
    proof (cases "consume_turn r handle opts w")
      case (Pair er w1)
      show ?thesis
      proof (cases er)
        case None
        with 1 Pair obtain n where "consume_turns r handle opts n w1 = (Some (fst y), snd y)" by fastforce
        with None Pair show ?thesis by (intro exI [of _ "Suc n"]) simp
      next
        case (Some e)
        with 1 Pair show ?thesis by (intro exI [of _ 1]) auto
      qed
    qed
  qed
  from this [OF assms] show ?thesis by simp
qed

section \<open>The discipline of acknowledgements\<close>

locale ack_discipline =
  fixes rd :: "'w redis" and handle :: "'w message_handler"
    and ok :: "'w \<Rightarrow> bool" and entry :: "'w \<Rightarrow> xmessage \<Rightarrow> bool" and finished :: "TaskMessage \<Rightarrow> 'w \<Rightarrow> bool"
  assumes handle_keeps: "ok w \<Longrightarrow> handle m w = (e, w') \<Longrightarrow> ok w' \<and> (\<forall>x. entry w x \<longrightarrow> entry w' x)"
    and handle_finishes: "ok w \<Longrightarrow> handle m w = (None, w') \<Longrightarrow> finished m w'"
    and ack_keeps:
      "ok w \<Longrightarrow> entry w x \<Longrightarrow> decodeTaskMessage x = Inr m \<Longrightarrow> finished m w \<Longrightarrow>
       rd_xack rd (xm_ID x) w = (e, w') \<Longrightarrow> ok w' \<and> (\<forall>y. entry w y \<longrightarrow> entry w' y)"
    and claim_keeps:
      "ok w \<Longrightarrow> rd_xautoclaim rd c d n w = ((e, xs), w') \<Longrightarrow> ok w' \<and> (\<forall>x \<in> set xs. entry w' x)"
    and read_keeps:
      "ok w \<Longrightarrow> rd_xreadgroup rd c n d w = (res, w') \<Longrightarrow>
       ok w' \<and> (\<forall>streams. res = Inr streams \<longrightarrow> (\<forall>xs \<in> set streams. \<forall>x \<in> set xs. entry w' x))"
    and group_keeps: "ok w \<Longrightarrow> rd_xgroup_create rd w = (e, w') \<Longrightarrow> ok w'"
begin

lemma messages_keep:
  assumes "ok w" "\<forall>x \<in> set xs. entry w x" "processMessages rd handle xs w = (e, w')"
  shows "ok w' \<and> (\<forall>x. entry w x \<longrightarrow> entry w' x)"
  using assms
proof (induction xs arbitrary: w)
  case (Cons x xs)
  show ?case
  proof (cases "decodeTaskMessage x")
    case (Inr m)
    obtain e1 w1 where h: "handle m w = (e1, w1)" by fastforce
    note k1 = handle_keeps [OF Cons.prems(1) h]
    show ?thesis
    proof (cases e1)
      case None
      obtain e2 w2 where a: "rd_xack rd (xm_ID x) w1 = (e2, w2)" by fastforce
      have "ok w2 \<and> (\<forall>y. entry w1 y \<longrightarrow> entry w2 y)"
        using k1 Cons.prems(2) handle_finishes [OF Cons.prems(1) h [unfolded None]]
        by (intro ack_keeps [OF _ _ Inr _ a]) simp_all
      then show ?thesis using Cons.IH [of w2] Cons.prems h a k1 Inr None by (cases e2) auto
    next
      case (Some _)
      then show ?thesis using Cons.IH [of w1] Cons.prems h k1 Inr by auto
    qed
  qed (use Cons in simp)
qed simp

lemma streams_keep:
  assumes "ok w" "\<forall>xs \<in> set streams. \<forall>x \<in> set xs. entry w x" "process_streams rd handle streams w = (e, w')"
  shows "ok w'"
  using assms
proof (induction streams arbitrary: w)
  case (Cons xs streams)
  obtain e1 w1 where p: "processMessages rd handle xs w = (e1, w1)" by fastforce
  from messages_keep [OF Cons.prems(1) _ p] Cons.prems(2) have "ok w1 \<and> (\<forall>x. entry w x \<longrightarrow> entry w1 x)" by simp
  then show ?case using Cons p by (cases e1) auto
qed simp

lemma turn_keeps:
  assumes "ok w" "consume_turn rd handle opts w = (e, w')"
  shows "ok w'"
proof (cases "rd_ctx_err rd w")
  case None
  obtain e1 xs w1 where c: "rd_xautoclaim rd (opt_Consumer opts) (opt_ReclaimMinIdle opts) (opt_ReclaimCount opts) w =
      ((e1, xs), w1)" by (metis surj_pair)
  obtain res w2 where r: "rd_xreadgroup rd (opt_Consumer opts) (opt_ReadCount opts) (opt_Block opts) w1 = (res, w2)"
    by fastforce
  note k1 = claim_keeps [OF assms(1) c]
  then have k2: "ok w2 \<and> (\<forall>streams. res = Inr streams \<longrightarrow> (\<forall>xs \<in> set streams. \<forall>x \<in> set xs. entry w2 x))"
    using read_keeps [OF _ r] by blast
  from None c r assms(2) k1 k2 show ?thesis
    by (auto simp: consume_turn_def claimPending_def split: option.splits if_splits sum.splits
        dest: messages_keep [OF conjunct1 [OF k1] conjunct2 [OF k1]] streams_keep [rotated 2])
qed (use assms in \<open>simp add: consume_turn_def\<close>)

lemma turns_keep:
  "ok w \<Longrightarrow> consume_turns rd handle opts n w = (e, w') \<Longrightarrow> ok w'"
proof (induction n arbitrary: w)
  case (Suc n)
  then show ?case by (auto split: prod.splits option.splits dest: turn_keeps)
qed simp

lemma consume_keeps:
  assumes "ok w" "Consume rd handle opts w = Some (e, w')"
  shows "ok w'"
proof -
  obtain e1 w1 where g: "rd_xgroup_create rd w = (e1, w1)" by fastforce
  from group_keeps [OF assms(1) g] assms(2) g show ?thesis
    by (auto simp: Consume_def EnsureGroup_def Let_def split: option.splits if_splits
        dest!: consume_loop_returns intro: turns_keep)
qed

end

section \<open>The worker keeps the discipline\<close>

definition settled_in :: "(string \<Rightarrow> string option) \<Rightarrow> TaskMessage \<Rightarrow> pg \<Rightarrow> bool" where
  "settled_in U m db \<longleftrightarrow>
     (\<exists>u r. U (msg_TaskID m) = Some u \<and> select_by ti_id u (task_instances db) = Some r \<and> settled r)"

text \<open>
  \<open>acks_justified\<close>: every acknowledged id is the id of a delivered message whose task was settled
  in the database that the last store call of its handling left.
\<close>

definition acks_justified :: "(string \<Rightarrow> string option) \<Rightarrow> 'r world \<Rightarrow> bool" where
  "acks_justified U w \<longleftrightarrow>
     (\<forall>(ident, db) \<in> set (wo_acked w). \<exists>x m. x \<in> set (wo_delivered w) \<and> xm_ID x = ident \<and>
        decodeTaskMessage x = Inr m \<and> settled_in U m db)"

text \<open>The surroundings of the worker, made benign where they are not, so that the laws hold for all.\<close>

definition surroundings_ok ::
  "(string \<Rightarrow> string option) \<Rightarrow> registry \<Rightarrow> (nat \<Rightarrow> worker_run) \<Rightarrow> (nat \<Rightarrow> pg \<Rightarrow> pg) \<Rightarrow> bool"
where
  "surroundings_ok U reg runs gap \<longleftrightarrow> (\<forall>n. run_ok U (runs n) \<and> registry_ok U reg (runs n) \<and> benign U (gap n))"

definition world_ok ::
  "(string \<Rightarrow> string option) \<Rightarrow> registry \<Rightarrow> (nat \<Rightarrow> worker_run) \<Rightarrow> (nat \<Rightarrow> pg \<Rightarrow> pg) \<Rightarrow> 'r world \<Rightarrow> bool"
where
  "world_ok U reg runs gap w \<longleftrightarrow> surroundings_ok U reg runs gap \<and> store_ok U (wo_db w) \<and> acks_justified U w"

lemma snd_finish [simp]: "snd (finish key outcome extra err db) = db"
  by (simp add: finish_def)

lemma snd_case_result:
  "snd (case p of (Inl e, d) \<Rightarrow> finish k1 o1 x1 (r1 e) d | (Inr y, d) \<Rightarrow> finish k2 o2 x2 (r2 y) d) = snd p"
  by (simp split: prod.split sum.split)

lemma persist_keeps:
  assumes "run_ok U run" "store_ok U db"
  shows "store_ok U (snd (persist_missing_handler key task attempt run db))"
    and "store_ok U (snd (persist_handler_error key tspec task attempt err run db))"
    and "store_ok U (snd (persist_output key spec task attempt out run db))"
proof -
  note env = run_okD(1) [OF assms(1), of 4]
  note ok = benignD(1) [OF run_okD(2) [OF assms(1)] assms(2), of 4]
  note keeps = perform_store_ok [OF env ok]
  have fail: "store_ok U (snd (FailTaskAttempt t a e (env_at run 4) (at_call run 4 db)))" for t a e
    using keeps [of "CallFailTaskAttempt t a e"] by simp
  have retry: "store_ok U (snd (ScheduleTaskRetry t a e at (env_at run 4) (at_call run 4 db)))" for t a e at
    using keeps [of "CallScheduleTaskRetry t a e at"] by simp
  have comp: "store_ok U (snd (CompleteTaskAttempt t a o0 (env_at run 4) (at_call run 4 db)))" for t a o0
    using keeps [of "CallCompleteTaskAttempt t a o0"] by simp
  have compn: "store_ok U (snd (CompleteTaskAttemptAndEnqueueNextTask t a n h o0 (env_at run 4) (at_call run 4 db)))"
    for t a n h o0
    using keeps [of "CallCompleteTaskAttemptAndEnqueueNextTask t a n h o0"] by simp
  show "store_ok U (snd (persist_missing_handler key task attempt run db))"
    using fail by (simp add: persist_missing_handler_def Let_def snd_case_result)
  show "store_ok U (snd (persist_handler_error key tspec task attempt err run db))"
    using fail retry by (simp add: persist_handler_error_def Let_def snd_case_result)
  show "store_ok U (snd (persist_output key spec task attempt out run db))"
    using comp compn assms(2) by (simp add: persist_output_def snd_case_result split: sum.split option.split)
qed

lemma handled_keeps:
  assumes "run_ok U run" "registry_ok U reg run" "store_ok U db"
    and "HandleDispatchedTask reg message run db = (res, db')"
  shows "store_ok U db'"
proof -
  obtain r1 db1 where load: "GetWorkflowSpecAndTaskSpecByTaskID (msg_TaskID message) run db = (r1, db1)" by fastforce
  have ok1: "store_ok U (at_call run 3 db1)"
    using load_keeps [OF assms(1,3) load] benignD(1) [OF run_okD(2) [OF assms(1)]] by blast
  obtain r2 db2 where start: "StartTaskAttempt (msg_TaskID message) (env_at run 3) (at_call run 3 db1) = (r2, db2)"
    by fastforce
  have ok2: "store_ok U db2"
    using perform_store_ok [OF run_okD(1) [OF assms(1)] ok1, of "CallStartTaskAttempt (msg_TaskID message)" 3] start
    by simp
  have "store_ok U (snd (run_handler reg key spec tspec task attempt run db2))" for key spec tspec task attempt
  proof (cases "reg (task_HandlerKey task)")
    case None
    then show ?thesis using persist_keeps(1) [OF assms(1) ok2] by (simp add: run_handler_def registry_Get_def)
  next
    case (Some h)
    then have "benign U (\<lambda>db. snd (h task (wr_handler run) db))"
      using assms(2) by (simp add: registry_ok_def handler_ok_def)
    from benignD(1) [OF this ok2] have "store_ok U (snd (h task (wr_handler run) db2))" .
    from persist_keeps(2,3) [OF assms(1) this] Some show ?thesis
      by (auto simp: run_handler_def registry_Get_def split: prod.split sum.split)
  qed
  moreover have "store_ok U db1" using load_keeps [OF assms(1,3) load] .
  ultimately show ?thesis using assms(4) load start ok2
    by (auto simp: HandleDispatchedTask_def Let_def finish_def split: sum.splits if_splits prod.splits)
       (metis snd_conv)+
qed

lemma on_redis_eq:
  "on_redis f w = (x, w') \<longleftrightarrow> (\<exists>r. f (wo_redis w) = (x, r) \<and> w' = w\<lparr>wo_redis := r\<rparr>)"
  by (auto simp: on_redis_def split: prod.splits)

lemma world_ok_redis [simp]: "world_ok U reg runs gap (w\<lparr>wo_redis := r\<rparr>) = world_ok U reg runs gap w"
  by (simp add: world_ok_def acks_justified_def)

lemma world_ok_delivered:
  "world_ok U reg runs gap w \<Longrightarrow> world_ok U reg runs gap (w\<lparr>wo_redis := r, wo_delivered := wo_delivered w @ xs\<rparr>)"
  by (fastforce simp: world_ok_def acks_justified_def)

lemma world_ok_acked:
  assumes "world_ok U reg runs gap w" "x \<in> set (wo_delivered w)" "decodeTaskMessage x = Inr m"
    and "settled_in U m (wo_db w)"
  shows "world_ok U reg runs gap (acked gap (xm_ID x) w)"
proof -
  have "store_ok U (gap (wo_handled w) (wo_db w))"
    using assms(1) by (auto simp: world_ok_def surroundings_ok_def intro: benignD(1))
  with assms show ?thesis by (auto simp: world_ok_def acks_justified_def acked_def)
qed

lemma worker_handle_keeps:
  assumes "world_ok U reg runs gap w" "worker_handle reg runs m w = (e, w')"
  shows "world_ok U reg runs gap w'" "wo_delivered w' = wo_delivered w" "e = None \<Longrightarrow> settled_in U m (wo_db w')"
proof -
  from assms(2) obtain metrics db where
    d: "HandleDispatchedTask reg m (runs (wo_handled w)) (wo_db w) = ((e, metrics), db)"
    and w': "w' = w\<lparr>wo_db := db, wo_handled := Suc (wo_handled w)\<rparr>"
    by (auto simp: worker_handle_def split: prod.splits)
  have s: "run_ok U (runs (wo_handled w))" "registry_ok U reg (runs (wo_handled w))" "store_ok U (wo_db w)"
    using assms(1) by (simp_all add: world_ok_def surroundings_ok_def)
  from handled_keeps [OF s d] assms(1) show "world_ok U reg runs gap w'"
    by (simp add: w' world_ok_def acks_justified_def)
  show "wo_delivered w' = wo_delivered w" by (simp add: w')
  show "settled_in U m (wo_db w')" if "e = None"
    using acknowledged_settled [OF s d [unfolded that]] by (simp add: settled_in_def w')
qed

interpretation worker_acks: ack_discipline
  "observed rd gap" "worker_handle reg runs" "world_ok U reg runs gap" "\<lambda>w x. x \<in> set (wo_delivered w)"
  "\<lambda>m w. settled_in U m (wo_db w)"
  for rd gap reg runs U
  by unfold_locales
     (auto simp: observed_def on_redis_eq worker_handle_keeps(2) acked_def delivered_def
       intro: worker_handle_keeps world_ok_acked [unfolded acked_def] world_ok_delivered
       split: prod.splits sum.splits)

text \<open>
  C6.  Whatever Redis does (repeated, reordered or lost deliveries, failing calls), whatever
  handlers are registered and whatever other sessions commit between the calls of the worker, also
  between the last store call and the acknowledgement, a worker process issues \<^verbatim>\<open>XACK\<close> only for
  messages it was delivered, and only after its own last store call for the message left the task
  succeeded, dead-lettered or waiting for its retry.  (Another process may have taken the task up again
  by the time of the \<^verbatim>\<open>XACK\<close>.)  This holds after every number of turns of the consume loop and when
  \<^verbatim>\<open>Consume\<close> returns.
\<close>

theorem acks_only_settled_tasks:
  assumes "surroundings_ok U reg runs gap" "store_ok U (wo_db w)" "wo_acked w = []"
  shows "acks_justified U (snd (consume_turns (observed rd gap) (worker_handle reg runs) opts n w)) \<and>
     (\<forall>e w'. worker_consume rd gap reg runs opts w = Some (e, w') \<longrightarrow> acks_justified U w')"
proof -
  have ok: "world_ok U reg runs gap w" using assms by (simp add: world_ok_def acks_justified_def)
  obtain e1 w1 where t: "consume_turns (observed rd gap) (worker_handle reg runs) opts n w = (e1, w1)" by fastforce
  from worker_acks.turns_keep [OF ok t] have "acks_justified U w1" by (simp add: world_ok_def)
  moreover have "acks_justified U w'" if "worker_consume rd gap reg runs opts w = Some (e, w')" for e w'
    using worker_acks.consume_keeps [OF ok that [unfolded worker_consume_def]] by (simp add: world_ok_def)
  ultimately show ?thesis using t by auto
qed

section \<open>Why the consumer returns\<close>

text \<open>A message that some claim or some read delivered.\<close>

definition delivers :: "'w redis \<Rightarrow> ConsumeOptions \<Rightarrow> xmessage \<Rightarrow> bool" where
  "delivers r opts x \<longleftrightarrow>
     (\<exists>v err xs v'. rd_xautoclaim r (opt_Consumer opts) (opt_ReclaimMinIdle opts) (opt_ReclaimCount opts) v = ((err, xs), v') \<and> x \<in> set xs) \<or>
     (\<exists>v xss v'. rd_xreadgroup r (opt_Consumer opts) (opt_ReadCount opts) (opt_Block opts) v = (Inr xss, v') \<and> x \<in> set (concat xss))"

text \<open>A message that ends its batch with \<open>e\<close>: it cannot be decoded, or it was handled and its acknowledgement failed.\<close>

definition breaks :: "'w redis \<Rightarrow> 'w message_handler \<Rightarrow> go_error \<Rightarrow> 'w \<Rightarrow> xmessage \<Rightarrow> bool" where
  "breaks r handle e w' x \<longleftrightarrow> decodeTaskMessage x = Inl e \<or>
     (\<exists>m u v. decodeTaskMessage x = Inr m \<and> handle m u = (None, v) \<and> rd_xack r (xm_ID x) v = (Some e, w'))"

lemma messages_break: "processMessages r handle xs w = (Some e, w') \<Longrightarrow> \<exists>x \<in> set xs. breaks r handle e w' x"
proof (induction xs arbitrary: w)
  case (Cons x xs)
  show ?case
  proof (cases "decodeTaskMessage x")
    case (Inr m)
    obtain err w1 where h: "handle m w = (err, w1)" by fastforce
    obtain err' w2 where a: "rd_xack r (xm_ID x) w1 = (err', w2)" by fastforce
    show ?thesis using Cons.prems Cons.IH [of w1] Cons.IH [of w2] Inr h a
      by (cases err; cases err') (auto simp: breaks_def)
  qed (use Cons.prems in \<open>auto simp: breaks_def\<close>)
qed simp

lemma streams_break: "process_streams r handle xss w = (Some e, w') \<Longrightarrow> \<exists>x \<in> set (concat xss). breaks r handle e w' x"
proof (induction xss arbitrary: w)
  case (Cons xs xss)
  then show ?case using messages_break [of r handle xs w e w'] by (fastforce split: prod.splits option.splits)
qed simp

definition stops_turn :: "'w redis \<Rightarrow> 'w message_handler \<Rightarrow> ConsumeOptions \<Rightarrow> go_error \<Rightarrow> 'w \<Rightarrow> bool" where
  "stops_turn r handle opts e w' \<longleftrightarrow> rd_ctx_err r w' = Some e \<or>
     (\<exists>v xs. rd_xautoclaim r (opt_Consumer opts) (opt_ReclaimMinIdle opts) (opt_ReclaimCount opts) v = ((Some e, xs), w') \<and> \<not> error_is e RedisNil) \<or>
     (\<exists>v. rd_xreadgroup r (opt_Consumer opts) (opt_ReadCount opts) (opt_Block opts) v = (Inl e, w') \<and> \<not> error_is e RedisNil) \<or>
     (\<exists>x. delivers r opts x \<and> breaks r handle e w' x)"

lemma turn_stops:
  assumes "consume_turn r handle opts w = (Some e, w')"
  shows "stops_turn r handle opts e w'"
proof -
  obtain err xs w1 where c: "rd_xautoclaim r (opt_Consumer opts) (opt_ReclaimMinIdle opts) (opt_ReclaimCount opts) w = ((err, xs), w1)"
    by (metis surj_pair)
  obtain res w2 where rd: "rd_xreadgroup r (opt_Consumer opts) (opt_ReadCount opts) (opt_Block opts) w1 = (res, w2)" by fastforce
  have "\<exists>x. delivers r opts x \<and> breaks r handle e w' x" if "processMessages r handle xs w1 = (Some e, w')"
    using messages_break [OF that] c unfolding delivers_def by blast
  moreover have "\<exists>x. delivers r opts x \<and> breaks r handle e w' x" if "res = Inr xss" "process_streams r handle xss w2 = (Some e, w')" for xss
    using streams_break [OF that(2)] rd [unfolded that(1)] unfolding delivers_def by blast
  ultimately show ?thesis using assms c rd
    by (auto simp: consume_turn_def claimPending_def stops_turn_def split: option.splits if_splits sum.splits)
qed

lemma turns_stop: "consume_turns r handle opts n w = (Some e, w') \<Longrightarrow> stops_turn r handle opts e w'"
proof (induction n arbitrary: w)
  case (Suc n)
  then show ?case using turn_stops [of r handle opts w e w'] by (auto split: prod.splits option.splits)
qed simp

text \<open>
  C27.  Why \<^verbatim>\<open>Consume\<close> returns.  It returns an error \<open>e\<close> only if creating the group failed with \<open>e\<close>, or the
  context ended with \<open>e\<close>, or a claim or a read failed with \<open>e\<close> (other than the error that says there is nothing),
  or a delivered message could not be decoded, with error \<open>e\<close>, or the acknowledgement of a delivered message, whose
  handler had returned nil, failed with \<open>e\<close>; the final state is the one that call left.  An error of a handler never stops the loop.
\<close>

theorem consume_returns_only_for:
  assumes "Consume r handle opts w = Some (e, w')" "normalizeConsumeOptions opts = os"
  shows "EnsureGroup r w = (Some e, w') \<or> rd_ctx_err r w' = Some e \<or>
     (\<exists>v xs. rd_xautoclaim r (opt_Consumer os) (opt_ReclaimMinIdle os) (opt_ReclaimCount os) v = ((Some e, xs), w') \<and> \<not> error_is e RedisNil) \<or>
     (\<exists>v. rd_xreadgroup r (opt_Consumer os) (opt_ReadCount os) (opt_Block os) v = (Inl e, w') \<and> \<not> error_is e RedisNil) \<or>
     (\<exists>x. delivers r os x \<and> decodeTaskMessage x = Inl e) \<or>
     (\<exists>x m u v. delivers r os x \<and> decodeTaskMessage x = Inr m \<and> handle m u = (None, v) \<and> rd_xack r (xm_ID x) v = (Some e, w'))"
proof -
  have "EnsureGroup r w = (Some e, w') \<or> stops_turn r handle os e w'"
    using assms by (auto simp: Consume_def Let_def split: prod.splits option.splits dest!: consume_loop_returns turns_stop)
  then show ?thesis by (auto simp: stops_turn_def breaks_def)
qed

section \<open>A batch of messages\<close>

definition decodable :: "xmessage \<Rightarrow> bool" where
  "decodable x \<longleftrightarrow> \<not> isl (decodeTaskMessage x)"

text \<open>The results of a stateful handler on a list of tasks.\<close>

fun results :: "'s message_handler \<Rightarrow> TaskMessage list \<Rightarrow> 's \<Rightarrow> go_error option list \<times> 's" where
  "results h [] s = ([], s)"
| "results h (m # ms) s = (case h m s of (e, s1) \<Rightarrow> (case results h ms s1 of (es, s2) \<Rightarrow> (e # es, s2)))"

text \<open>A client whose acknowledgements succeed and are listed, and a handler that does not see the list.\<close>

definition listing_acks :: "('s \<times> string list) redis \<Rightarrow> ('s \<times> string list) redis" where
  "listing_acks rd = rd\<lparr>rd_xack := (\<lambda>ident (s, acks). (None, (s, acks @ [ident])))\<rparr>"

definition beside_acks :: "'s message_handler \<Rightarrow> ('s \<times> string list) message_handler" where
  "beside_acks h m w = (case h m (fst w) of (e, s) \<Rightarrow> (e, (s, snd w)))"

text \<open>
  C28.  A batch is processed in order up to its first undecodable message: each message before it
  is handled exactly once, exactly those whose handler returned nil are acknowledged, in order, and
  a handler error does not stop the batch.  The batch ends with the error of the undecodable message,
  or nil when there is none; the messages behind it are not touched.
\<close>

theorem batch_acks_exactly:
  "processMessages (listing_acks rd) (beside_acks h) xs (s, acks) =
     (let good = takeWhile decodable xs;
          (errs, s') = results h (map (projr \<circ> decodeTaskMessage) good) s
      in (if good = xs then None else Some (projl (decodeTaskMessage (xs ! length good))),
          (s', acks @ map (xm_ID \<circ> fst) (filter (\<lambda>(x, e). e = None) (zip good errs)))))"
proof (induction xs arbitrary: s acks)
  case (Cons x xs)
  show ?case
  proof (cases "decodeTaskMessage x")
    case (Inl e)
    then show ?thesis by (simp add: decodable_def Let_def)
  next
    case (Inr m)
    obtain e s1 where h: "h m s = (e, s1)" by fastforce
    have x: "decodable x" by (simp add: decodable_def Inr)
    have step: "beside_acks h m (s, acks) = (e, (s1, acks))" by (simp add: beside_acks_def h)
    have ack: "rd_xack (listing_acks rd) i (t, as) = (None, (t, as @ [i]))" for i t as
      by (simp add: listing_acks_def)
    show ?thesis
      by (cases e) (auto simp: Inr h x step ack Let_def Cons.IH split: prod.split)
  qed
qed (simp add: Let_def)

text \<open>
  C35.  A message that cannot be decoded stops the consumer for good: as soon as it is reclaimed at
  the head of a batch, \<^verbatim>\<open>Consume\<close> returns its error without handling or acknowledging anything, and
  the worker process stops.  The message stays pending in Redis, so every restart ends the same way.
\<close>

theorem poison_message_stops_consumer:
  assumes "EnsureGroup r w = (None, w1)" "rd_ctx_err r w1 = None"
    and "rd_xautoclaim r (opt_Consumer opts) (opt_ReclaimMinIdle (normalizeConsumeOptions opts))
           (opt_ReclaimCount (normalizeConsumeOptions opts)) w1 = ((None, x # xs), w2)"
    and "decodeTaskMessage x = Inl e"
  shows "Consume r handle opts w = Some (e, w2)"
proof -
  have "opt_Consumer (normalizeConsumeOptions opts) = opt_Consumer opts"
    by (simp add: normalizeConsumeOptions_def Let_def)
  then have "consume_turn r handle (normalizeConsumeOptions opts) w1 = (Some e, w2)"
    using assms(2-4) by (simp add: consume_turn_def claimPending_def)
  then show ?thesis
    using assms(1) by (simp add: Consume_def Let_def consume_loop.simps)
qed

text \<open>
  The options the consumer works with are all positive, whatever the configuration says;
  positive settings are kept, and normalising again changes nothing.  So Redis is never asked to
  reclaim at once (a minimal idle time of 0) or to block for ever.
\<close>

lemma consume_options_positive:
  "let o' = normalizeConsumeOptions opts in
     0 < opt_ReclaimMinIdle o' \<and> 0 < opt_ReclaimCount o' \<and> 0 < opt_ReadCount o' \<and> 0 < opt_Block o' \<and>
     opt_Consumer o' = opt_Consumer opts \<and> normalizeConsumeOptions o' = o' \<and>
     opt_ReclaimMinIdle o' = (if 0 < opt_ReclaimMinIdle opts then opt_ReclaimMinIdle opts else 30 * Second) \<and>
     opt_ReclaimCount o' = (if 0 < opt_ReclaimCount opts then opt_ReclaimCount opts else 10) \<and>
     opt_ReadCount o' = (if 0 < opt_ReadCount opts then opt_ReadCount opts else 1) \<and>
     opt_Block o' = (if 0 < opt_Block opts then opt_Block opts else 5 * Second)"
  by (simp add: normalizeConsumeOptions_def Let_def Second_def)

section \<open>On the concrete server\<close>

text \<open>A Redis that delivers one message once; its state counts the deliveries.\<close>

definition demo_entry :: "string \<Rightarrow> xmessage" where
  "demo_entry payload = \<lparr>xm_ID = ''1-0'', xm_Values = [''payload'' \<mapsto> XString payload]\<rparr>"

definition demo_redis :: "xmessage list \<Rightarrow> nat redis" where
  "demo_redis pending =
     \<lparr>rd_xgroup_create = (\<lambda>n. (None, n)), rd_xadd = (\<lambda>_ n. (None, n)),
      rd_xautoclaim = (\<lambda>_ _ _ n. ((None, pending), n)),
      rd_xreadgroup = (\<lambda>_ _ _ n.
        (Inr [if n = 0 then [demo_entry (payload_text ''ue..'' ''ue.'' ''sample.echo'')] else []], Suc n)),
      rd_xack = (\<lambda>_ n. (None, n)), rd_ctx_err = (\<lambda>_. None), rd_error_text = (\<lambda>_. ''error'')\<rparr>"

definition demo_world :: "nat world" where
  "demo_world = \<lparr>wo_db = demo_db, wo_redis = 0, wo_handled = 0, wo_delivered = [], wo_acked = []\<rparr>"

lemma demo_entry_decodes:
  "decodeTaskMessage (demo_entry (payload_text ''ue..'' ''ue.'' ''sample.echo'')) = Inr demo_message"
proof (rule message_roundtrip)
  show "utf8_valid (msg_TaskID demo_message)" "utf8_valid (msg_ExecutionID demo_message)"
    "utf8_valid (msg_HandlerKey demo_message)"
    by (simp_all add: demo_message_def utf8_valid_ascii ascii_def byte_def)
  show "marshal_message demo_message = Inr (payload_text ''ue..'' ''ue.'' ''sample.echo'')"
    by (simp add: marshal_message_def demo_message_def message_payload_def marshal_payload_def
      json_marshal_def payload_text_def)
qed (simp add: demo_entry_def)

text \<open>Between the handling and the acknowledgement another session creates a definition.\<close>

definition demo_gap :: "nat \<Rightarrow> pg \<Rightarrow> pg" where
  "demo_gap n = perform (CallCreateWorkflowDefinition ''other'' [] demo_definition) (demo_env ''g'' 90)"

lemma demo_gap_benign: "benign demo_uuid_in (demo_gap n)"
proof -
  have "task_instances (demo_gap n db) = task_instances db" for db
    by (auto simp: demo_gap_def CreateWorkflowDefinition_def pool_exec_def sql_insert_definition_def with_text_def with_jsonb_def
        check_def commit_def Let_def split: option.split sum.split)
  then show ?thesis
    using perform_store_ok [OF demo_server] unfolding benign_def tasks_grow_def demo_gap_def
    by (simp del: perform.simps)
qed

theorem acks_only_settled_tasks_witness:
  "\<exists>w'. consume_turns (observed (demo_redis []) demo_gap) (worker_handle Map.empty (\<lambda>_. demo_run)) (worker_options ''c'' 0 0) 1 demo_world = (None, w') \<and>
     wo_acked w' \<noteq> [] \<and> acks_justified demo_uuid_in w'"
proof -
  obtain metrics db' where h: "HandleDispatchedTask Map.empty demo_message demo_run demo_db = ((None, metrics), db')"
    using demo_handle by blast
  have "\<exists>w'. consume_turns (observed (demo_redis []) demo_gap) (worker_handle Map.empty (\<lambda>_. demo_run)) (worker_options ''c'' 0 0) 1 demo_world =
      (None, w') \<and> wo_acked w' \<noteq> []"
    by (simp add: consume_turn_def claimPending_def demo_redis_def observed_def on_redis_def delivered_def
      acked_def demo_world_def demo_entry_decodes worker_handle_def h)
  moreover have "surroundings_ok demo_uuid_in Map.empty (\<lambda>_. demo_run) demo_gap"
    by (simp add: surroundings_ok_def demo_run_ok demo_no_handlers demo_gap_benign)
  ultimately show ?thesis
    using acks_only_settled_tasks [of demo_uuid_in Map.empty "\<lambda>_. demo_run" demo_gap demo_world "demo_redis []" "worker_options ''c'' 0 0" 1]
      reachable_store_ok [OF demo_reachable]
    by (auto simp: demo_world_def)
qed

theorem poison_message_stops_consumer_witness:
  "\<exists>e. Consume (demo_redis [\<lparr>xm_ID = ''1-0'', xm_Values = Map.empty\<rparr>]) (\<lambda>_ n. (None, n)) (worker_options ''c'' 0 0) 0 = Some (e, 0)"
proof -
  let ?x = "\<lparr>xm_ID = ''1-0'', xm_Values = Map.empty\<rparr>"
  obtain e where "decodeTaskMessage ?x = Inl e" by (simp add: decodeTaskMessage_def)
  then have "Consume (demo_redis [?x]) (\<lambda>_ n. (None, n)) (worker_options ''c'' 0 0) 0 = Some (e, 0)"
    by (intro poison_message_stops_consumer [where x = ?x]) (simp_all add: demo_redis_def EnsureGroup_def)
  then show ?thesis by blast
qed

text \<open>A handler that always fails, and a context that is cancelled after the first read.\<close>

definition cancelled_redis :: "nat redis" where
  "cancelled_redis = (demo_redis [])\<lparr>rd_ctx_err := (\<lambda>n. if n = 0 then None else Some (ErrorString ''context canceled''))\<rparr>"

theorem consume_returns_only_for_witness:
  "\<exists>e w'. Consume cancelled_redis (\<lambda>_ n. (Some (ErrorString ''boom''), n)) (worker_options ''c'' 0 0) 0 = Some (e, w') \<and>
     rd_ctx_err cancelled_redis w' = Some e"
proof -
  let ?h = "\<lambda>_ :: TaskMessage. \<lambda>n :: nat. (Some (ErrorString ''boom''), n)" and ?o = "worker_options ''c'' 0 0"
  have "consume_turn cancelled_redis ?h opts 0 = (None, 1)" "consume_turn cancelled_redis ?h opts 1 = (Some (ErrorString ''context canceled''), 1)" for opts
    by (simp_all add: consume_turn_def claimPending_def cancelled_redis_def demo_redis_def demo_entry_decodes)
  then have "Consume cancelled_redis ?h ?o 0 = Some (ErrorString ''context canceled'', 1)"
    by (simp add: Consume_def Let_def consume_loop.simps EnsureGroup_def cancelled_redis_def demo_redis_def)
  then obtain e w' where c: "Consume cancelled_redis ?h ?o 0 = Some (e, w')" by blast
  have "\<not> delivers cancelled_redis opts x \<or> decodeTaskMessage x = Inr demo_message" for opts x
    by (auto simp: delivers_def cancelled_redis_def demo_redis_def demo_entry_decodes split: if_splits)
  then have "rd_ctx_err cancelled_redis w' = Some e"
    using consume_returns_only_for [OF c refl]
    by (auto simp: EnsureGroup_def cancelled_redis_def demo_redis_def split: if_splits)
  with c show ?thesis by blast
qed

end
