(* ===== verification/GoText.thy ===== *)
theory GoText
  imports GoJson
begin

text \<open>
  Numbers, durations and paths as text: \<^verbatim>\<open>strconv.Itoa\<close>, \<^verbatim>\<open>strconv.Atoi\<close> and \<^verbatim>\<open>strconv.ParseInt\<close> with
  base 0, \<^verbatim>\<open>fmt.Sscan\<close> into an \<^verbatim>\<open>int64\<close>, \<^verbatim>\<open>time.ParseDuration\<close>, and \<^verbatim>\<open>strings.Split\<close>, \<^verbatim>\<open>Trim\<close> and
  \<^verbatim>\<open>TrimPrefix\<close>.  They are what the HTTP API, the configuration and the benchmark driver read and
  write texts with.

  The main results are the round trips \<open>Atoi_Itoa\<close> and \<open>split_join\<close>, and that scanning a
  duration ends (each term of it takes at least its unit from the text).
\<close>

section \<open>Splitting and trimming\<close>

text \<open>\<^verbatim>\<open>strings.Split(s, sep)\<close> for a separator of one byte; the result is never empty.\<close>

fun split_on :: "char \<Rightarrow> string \<Rightarrow> string list" where
  "split_on sep [] = [[]]"
| "split_on sep (c # cs) =
     (if c = sep then [] # split_on sep cs
      else case split_on sep cs of [] \<Rightarrow> [[c]] | p # ps \<Rightarrow> (c # p) # ps)"

fun join_on :: "string \<Rightarrow> string list \<Rightarrow> string" where
  "join_on sep [] = []"
| "join_on sep [x] = x"
| "join_on sep (x # xs) = x @ sep @ join_on sep xs"

text \<open>\<^verbatim>\<open>strings.Trim(s, cutset)\<close> and \<^verbatim>\<open>strings.TrimRight\<close> for a cutset of one byte, and \<^verbatim>\<open>strings.TrimPrefix\<close>.\<close>

definition trim_right :: "char \<Rightarrow> string \<Rightarrow> string" where
  "trim_right c s = rev (dropWhile (\<lambda>d. d = c) (rev s))"

definition trim_both :: "char \<Rightarrow> string \<Rightarrow> string" where
  "trim_both c s = trim_right c (dropWhile (\<lambda>d. d = c) s)"

definition has_prefix :: "string \<Rightarrow> string \<Rightarrow> bool" where
  "has_prefix p s = (take (length p) s = p)"

definition trim_prefix :: "string \<Rightarrow> string \<Rightarrow> string" where
  "trim_prefix p s = (if has_prefix p s then drop (length p) s else s)"

definition has_suffix :: "string \<Rightarrow> string \<Rightarrow> bool" where
  "has_suffix p s = has_prefix (rev p) (rev s)"

lemma split_on_nonempty [simp]: "split_on sep s \<noteq> []"
  by (induction s) (auto split: list.split)

lemma split_on_join [simp]: "join_on [sep] (split_on sep s) = s"
proof (induction s)
  case (Cons c cs)
  then show ?case
    by (cases "split_on sep cs"; cases "tl (split_on sep cs)") (auto split: list.split)
qed simp

lemma split_on_parts: "p \<in> set (split_on sep s) \<Longrightarrow> sep \<notin> set p"
  by (induction s arbitrary: p) (auto split: list.splits if_splits)

lemma split_on_append: "sep \<notin> set a \<Longrightarrow> split_on sep (a @ sep # b) = a # split_on sep b"
  by (induction a) auto

lemma split_on_none: "sep \<notin> set a \<Longrightarrow> split_on sep a = [a]"
  by (induction a) auto

lemma split_join:
  assumes "ps \<noteq> []" "\<And>p. p \<in> set ps \<Longrightarrow> sep \<notin> set p"
  shows "split_on sep (join_on [sep] ps) = ps"
  using assms
proof (induction ps)
  case (Cons p ps)
  then show ?case by (cases ps) (auto simp: split_on_append split_on_none)
qed simp

lemma has_prefix_append [simp]: "has_prefix p (p @ s)"
  by (simp add: has_prefix_def)

lemma trim_prefix_append [simp]: "trim_prefix p (p @ s) = s"
  by (simp add: trim_prefix_def)

lemma trim_both_id:
  assumes "s \<noteq> []" "hd s \<noteq> c" "last s \<noteq> c"
  shows "trim_both c s = s"
proof -
  have "dropWhile (\<lambda>d. d = c) s = s" using assms(1,2) by (cases s) auto
  moreover have "dropWhile (\<lambda>d. d = c) (rev s) = rev s" using assms(1,3) by (cases s rule: rev_cases) auto
  ultimately show ?thesis by (simp add: trim_both_def trim_right_def)
qed

text \<open>A text is blank when it consists of spaces only.\<close>

lemma trim_chunks_Nil: "trim_chunks chs = [] \<longleftrightarrow> list_all is_space chs"
proof -
  have "trim_chunks chs = [] \<longleftrightarrow> list_all is_space (dropWhile is_space chs)"
    by (simp add: trim_chunks_def dropWhile_eq_Nil_conv list_all_iff)
  also have "\<dots> \<longleftrightarrow> dropWhile is_space chs = []"
    using hd_dropWhile [of is_space chs] by (metis list.pred_inject(1) list.pred_set list.set_sel(1))
  finally show ?thesis by (simp add: dropWhile_eq_Nil_conv list_all_iff)
qed

lemma set_trim_chunks: "set (trim_chunks chs) \<subseteq> set chs"
  by (auto simp: trim_chunks_def dest!: set_dropWhileD)

lemma TrimSpace_blank: "TrimSpace s = [] \<longleftrightarrow> list_all is_space (chunks s)"
proof -
  have "[] \<notin> set (trim_chunks (chunks s))" using set_trim_chunks [of "chunks s"] chunks_nonempty [of s] by blast
  then have "concat (trim_chunks (chunks s)) = [] \<longleftrightarrow> trim_chunks (chunks s) = []"
    by (cases "trim_chunks (chunks s)") auto
  then show ?thesis by (simp add: TrimSpace_def trim_chunks_Nil)
qed

lemma TrimSpace_letter: "byte c < 128 \<Longrightarrow> \<not> is_space [c] \<Longrightarrow> TrimSpace (c # s) \<noteq> []"
  by (simp add: TrimSpace_blank)

section \<open>Decimal numbers\<close>

fun nat_text :: "nat \<Rightarrow> string" where
  "nat_text n = (if n < 10 then [] else nat_text (n div 10)) @ [char_of (48 + n mod 10)]"

declare nat_text.simps [simp del]

text \<open>\<^verbatim>\<open>strconv.Itoa\<close>, also what \<^verbatim>\<open>%d\<close> prints.\<close>

definition Itoa :: "int \<Rightarrow> string" where
  "Itoa i = (if i < 0 then CHR ''-'' # nat_text (nat (- i)) else nat_text (nat i))"

fun split_sign :: "string \<Rightarrow> bool \<times> string" where
  "split_sign [] = (False, [])"
| "split_sign (c # cs) = (if c = CHR ''-'' then (True, cs) else if c = CHR ''+'' then (False, cs) else (False, c # cs))"

text \<open>\<^verbatim>\<open>strconv.Atoi\<close>: an optional sign and decimal digits within 64 bits.\<close>

definition Atoi :: "string \<Rightarrow> int option" where
  "Atoi s =
     (case split_sign s of (neg, ds) \<Rightarrow>
      let v = (if neg then - digits_val ds else digits_val ds) in
      if ds \<noteq> [] \<and> list_all is_digit ds \<and> int64_min \<le> v \<and> v \<le> int64_max then Some v else None)"

lemma digits_val_snoc: "digits_val (ds @ [c]) = 10 * digits_val ds + (int (byte c) - 48)"
  by (simp add: digits_val_def)

lemma byte_digit [simp]: "d < 10 \<Longrightarrow> byte (char_of (48 + d)) = 48 + d"
  by (simp add: byte_def)

lemma nat_text_digits: "list_all is_digit (nat_text n)"
proof (induction n rule: nat_text.induct)
  case (1 n)
  moreover have "is_digit (char_of (48 + n mod 10))" by (simp add: is_digit_def byte_in_def)
  ultimately show ?case by (subst nat_text.simps) auto
qed

lemma digits_val_nat_text: "digits_val (nat_text n) = int n"
proof (induction n rule: nat_text.induct)
  case (1 n)
  have "digits_val [] = 0" by (simp add: digits_val_def)
  moreover have "10 * int (n div 10) + int (n mod 10) = int n" by presburger
  ultimately show ?case using 1 by (subst nat_text.simps) (auto simp: digits_val_snoc)
qed

lemma nat_text_nonempty [simp]: "nat_text n \<noteq> []"
  by (subst nat_text.simps) simp

lemma nat_text_ascii: "ascii (nat_text n)"
  using nat_text_digits [of n] by (auto simp: ascii_def list_all_iff is_digit_def byte_in_def)

lemma nat_text_inj: "nat_text m = nat_text n \<Longrightarrow> m = n"
  by (metis digits_val_nat_text of_nat_eq_iff)

lemma split_sign_digits: "list_all is_digit ds \<Longrightarrow> split_sign ds = (False, ds)"
  by (cases ds) (auto simp: is_digit_def byte_in_def byte_def)

lemma split_sign_nat_text [simp]: "split_sign (nat_text n) = (False, nat_text n)"
  by (rule split_sign_digits [OF nat_text_digits])

lemma Atoi_Itoa: "int64_min \<le> i \<Longrightarrow> i \<le> int64_max \<Longrightarrow> Atoi (Itoa i) = Some i"
  by (simp add: Atoi_def Itoa_def Let_def nat_text_digits digits_val_nat_text)

lemma Atoi_range: "Atoi s = Some v \<Longrightarrow> int64_min \<le> v \<and> v \<le> int64_max"
  by (auto simp: Atoi_def Let_def split: prod.splits if_splits)

section \<open>Integers with a base prefix\<close>

fun lower :: "char \<Rightarrow> char" where
  "lower c = (if byte_in 65 90 c then char_of (byte c + 32) else c)"

text \<open>\<^verbatim>\<open>underscoreOK\<close> of \<^verbatim>\<open>strconv\<close>: underscores separate digits; one may follow a base prefix.\<close>

datatype seen = AtStart | Digit | Underscore | Other

fun underscores :: "bool \<Rightarrow> seen \<Rightarrow> string \<Rightarrow> bool" where
  "underscores hex i [] = (i \<noteq> Underscore)"
| "underscores hex i (c # cs) =
     (if is_digit c \<or> (hex \<and> hex_val c \<noteq> None) then underscores hex Digit cs
      else if c = CHR ''_'' then (i = Digit \<and> underscores hex Underscore cs)
      else i \<noteq> Underscore \<and> underscores hex Other cs)"

definition base_of :: "char \<Rightarrow> nat option" where
  "base_of c = (if lower c = CHR ''b'' then Some 2 else if lower c = CHR ''o'' then Some 8
                else if lower c = CHR ''x'' then Some 16 else None)"

definition underscoreOK :: "string \<Rightarrow> bool" where
  "underscoreOK s =
     (case s of
        z # p # rest \<Rightarrow>
          if z = CHR ''0'' \<and> base_of p \<noteq> None then underscores (base_of p = Some 16) Digit rest
          else underscores False AtStart s
      | _ \<Rightarrow> underscores False AtStart s)"

text \<open>\<^verbatim>\<open>strconv.ParseUint(s, 0, 64)\<close> up to its range check: the base from the prefix, then the digits.\<close>

definition base_and_digits :: "string \<Rightarrow> nat \<times> string" where
  "base_and_digits s =
     (case s of
        z # rest \<Rightarrow>
          if z = CHR ''0'' then
            (case rest of
               p # ds \<Rightarrow> (case base_of p of Some b \<Rightarrow> if ds \<noteq> [] then (b, ds) else (8, rest) | None \<Rightarrow> (8, rest))
             | [] \<Rightarrow> (8, []))
          else (10, s)
      | [] \<Rightarrow> (10, []))"

fun digits_in :: "nat \<Rightarrow> string \<Rightarrow> int \<Rightarrow> int option" where
  "digits_in base [] v = Some v"
| "digits_in base (c # cs) v =
     (if c = CHR ''_'' then digits_in base cs v
      else case (if is_digit c then Some (byte c - 48)
                 else if byte_in 97 122 (lower c) then Some (byte (lower c) - 87) else None) of
             Some d \<Rightarrow> if d < base then digits_in base cs (int base * v + int d) else None
           | None \<Rightarrow> None)"

definition ParseInt0 :: "string \<Rightarrow> int option" where
  "ParseInt0 s =
     (case split_sign s of (neg, u) \<Rightarrow>
      if u = [] then None
      else case base_and_digits u of (base, ds) \<Rightarrow>
        (case digits_in base ds 0 of
           None \<Rightarrow> None
         | Some n \<Rightarrow>
             let v = (if neg then - n else n) in
             if (CHR ''_'' \<in> set ds \<longrightarrow> underscoreOK u) \<and> int64_min \<le> v \<and> v \<le> int64_max
             then Some v else None))"

text \<open>
  \<^verbatim>\<open>fmt.Sscan(raw, &value)\<close>: leading white space, a sign, a base prefix and the longest run of digits
  and underscores; what follows is not looked at.
\<close>

definition drop_space :: "string \<Rightarrow> string" where
  "drop_space s = concat (dropWhile is_space (chunks s))"

definition digit_of_base :: "nat \<Rightarrow> char \<Rightarrow> bool" where
  "digit_of_base base c \<longleftrightarrow> c = CHR ''_'' \<or> (case hex_val c of Some d \<Rightarrow> d < base | None \<Rightarrow> False)"

definition scan_digits :: "string \<Rightarrow> string option" where
  "scan_digits s =
     (case s of
        z # rest \<Rightarrow>
          if z = CHR ''0'' then
            (case rest of
               p # ds \<Rightarrow>
                 (case base_of p of
                    Some b \<Rightarrow> Some (z # p # takeWhile (digit_of_base b) ds)
                  | None \<Rightarrow> Some (z # takeWhile (digit_of_base 8) rest))
             | [] \<Rightarrow> Some [z])
          else (case takeWhile (digit_of_base 10) s of [] \<Rightarrow> None | ds \<Rightarrow> Some ds)
      | [] \<Rightarrow> None)"

definition Sscan_int64 :: "string \<Rightarrow> int option" where
  "Sscan_int64 raw =
     (case split_sign (drop_space raw) of (neg, rest) \<Rightarrow>
      (case scan_digits rest of
         None \<Rightarrow> None
       | Some ds \<Rightarrow> ParseInt0 (if neg then CHR ''-'' # ds else ds)))"

lemma Sscan_range: "Sscan_int64 raw = Some v \<Longrightarrow> int64_min \<le> v \<and> v \<le> int64_max"
  by (auto simp: Sscan_int64_def ParseInt0_def Let_def split: prod.splits option.splits if_splits)

text \<open>A positive decimal number is scanned in full, whatever follows it.\<close>

lemma is_digit_facts:
  assumes "is_digit c"
  shows "c \<noteq> CHR ''_''" "hex_val c = Some (byte c - 48)" "byte c - 48 < 10" "48 \<le> byte c"
    "c \<noteq> CHR ''-''" "c \<noteq> CHR ''+''" "byte c < 128" "\<not> is_space [c]"
  using assms by (auto simp: is_digit_def byte_in_def byte_def hex_val_def is_space_def space_runes_def)

lemma digits_in_digits: "list_all is_digit ds \<Longrightarrow> digits_in 10 ds v = Some (foldl (\<lambda>v c. 10 * v + (int (byte c) - 48)) v ds)"
  by (induction ds arbitrary: v) (auto simp: is_digit_facts of_nat_diff)

lemma nat_text_hd: "0 < n \<Longrightarrow> hd (nat_text n) \<noteq> CHR ''0''"
proof (induction n rule: nat_text.induct)
  case (1 n)
  have "n < 10 \<Longrightarrow> 0 < n \<Longrightarrow> char_of (48 + n) \<noteq> CHR ''0''"
  proof
    assume "n < 10" "0 < n" "char_of (48 + n) = CHR ''0''"
    then have "48 + n = byte (CHR ''0'')" using byte_digit [of n] by simp
    with \<open>0 < n\<close> show False by (simp add: byte_def)
  qed
  with 1 show ?case by (subst nat_text.simps) (auto simp: hd_append)
qed

lemma nat_text_Cons:
  assumes "0 < n"
  obtains c cs where "nat_text n = c # cs" "is_digit c" "c \<noteq> CHR ''0''" "list_all is_digit cs"
  using nat_text_hd [OF assms] nat_text_digits [of n] nat_text_nonempty [of n] by (cases "nat_text n") auto

lemma ParseInt0_nat_text:
  assumes "0 < n" "int n \<le> int64_max"
  shows "ParseInt0 (nat_text n) = Some (int n)"
proof -
  obtain c cs where c: "nat_text n = c # cs" "is_digit c" "c \<noteq> CHR ''0''" "list_all is_digit cs"
    using assms(1) by (rule nat_text_Cons)
  have "digits_in 10 (nat_text n) 0 = Some (int n)"
    using digits_in_digits [OF nat_text_digits [of n], of 0] digits_val_nat_text [of n] by (simp add: digits_val_def)
  moreover have "CHR ''_'' \<notin> set (nat_text n)"
    using nat_text_digits [of n] is_digit_facts(1) by (auto simp: list_all_iff)
  moreover have "base_and_digits (nat_text n) = (10, nat_text n)" using c by (simp add: base_and_digits_def)
  ultimately show ?thesis using assms(2) by (simp add: ParseInt0_def int64_min_def)
qed

lemma Sscan_int64_prefix:
  assumes "0 < n" "int n \<le> int64_max" "rest = [] \<or> \<not> digit_of_base 10 (hd rest)"
  shows "Sscan_int64 (nat_text n @ rest) = Some (int n)"
proof -
  obtain c cs where c: "nat_text n = c # cs" "is_digit c" "c \<noteq> CHR ''0''" "list_all is_digit cs"
    using assms(1) by (rule nat_text_Cons)
  have "drop_space (nat_text n @ rest) = nat_text n @ rest"
    using c(1,2) by (simp add: drop_space_def is_digit_facts)
  moreover have "split_sign (nat_text n @ rest) = (False, nat_text n @ rest)"
    using c(1,2) by (simp add: is_digit_facts)
  moreover have "takeWhile (digit_of_base 10) (nat_text n @ rest) = nat_text n"
    using nat_text_digits [of n] assms(3) is_digit_facts(2,3)
    by (cases rest) (auto simp: takeWhile_append digit_of_base_def list_all_iff)
  then have "scan_digits (nat_text n @ rest) = Some (nat_text n)"
    using c by (simp add: scan_digits_def)
  ultimately show ?thesis using ParseInt0_nat_text [OF assms(1,2)] by (simp add: Sscan_int64_def)
qed

section \<open>Durations\<close>

definition leading_int :: "string \<Rightarrow> (int \<times> string) option" where
  "leading_int s =
     (let ds = takeWhile is_digit s; v = digits_val ds in
      if v \<le> 9223372036854775808 then Some (v, dropWhile is_digit s) else None)"

text \<open>The digits after the point: their value and how many of them fit; further digits are skipped.\<close>

fun fraction_digits :: "int \<Rightarrow> nat \<Rightarrow> bool \<Rightarrow> string \<Rightarrow> int \<times> nat" where
  "fraction_digits x k overflow [] = (x, k)"
| "fraction_digits x k overflow (c # cs) =
     (if overflow then fraction_digits x k True cs
      else if x > int64_max div 10 then fraction_digits x k True cs
      else let y = 10 * x + (int (byte c) - 48) in
        if y > 9223372036854775808 then fraction_digits x k True cs
        else fraction_digits y (Suc k) False cs)"

definition unit_ns :: "string \<Rightarrow> int option" where
  "unit_ns u =
     (if u = ''ns'' then Some 1
      else if u = ''us'' \<or> u = [CHR 0xC2, CHR 0xB5, CHR ''s''] \<or> u = [CHR 0xCE, CHR 0xBC, CHR ''s''] then Some 1000
      else if u = ''ms'' then Some 1000000
      else if u = ''s'' then Some 1000000000
      else if u = ''m'' then Some 60000000000
      else if u = ''h'' then Some 3600000000000
      else None)"

text \<open>
  One term of a duration: integer part, optional fraction, unit.  The fraction is computed in
  \<^verbatim>\<open>float64\<close>; \<open>frac f k unit\<close> stands for \<^verbatim>\<open>uint64(float64(f) * (float64(unit) / scale))\<close> with scale
  \<open>10 ^ k\<close>.
\<close>

definition duration_term :: "(int \<Rightarrow> nat \<Rightarrow> int \<Rightarrow> int) \<Rightarrow> string \<Rightarrow> (int \<times> string) option" where
  "duration_term frac s =
     (case leading_int s of
        None \<Rightarrow> None
      | Some (v, s1) \<Rightarrow>
          let pre = (length s1 \<noteq> length s);
              point = (case s1 of c # _ \<Rightarrow> c = CHR ''.'' | [] \<Rightarrow> False);
              fd = (if point then takeWhile is_digit (tl s1) else []);
              s2 = (if point then dropWhile is_digit (tl s1) else s1);
              u = takeWhile (\<lambda>c. c \<noteq> CHR ''.'' \<and> \<not> is_digit c) s2
          in case fraction_digits 0 0 False fd of (f, k) \<Rightarrow>
          if \<not> pre \<and> fd = [] then None
          else if u = [] then None
          else case unit_ns u of
            None \<Rightarrow> None
          | Some ns \<Rightarrow>
              if v > 9223372036854775808 div ns then None
              else let w = v * ns + (if f > 0 then frac f k ns else 0) in
                if w > 9223372036854775808 then None
                else Some (w, dropWhile (\<lambda>c. c \<noteq> CHR ''.'' \<and> \<not> is_digit c) s2))"

lemma duration_term_shorter:
  "duration_term frac s = Some (w, rest) \<Longrightarrow> length rest < length s"
proof -
  assume a: "duration_term frac s = Some (w, rest)"
  then obtain v s1 where l: "leading_int s = Some (v, s1)"
    by (auto simp: duration_term_def split: option.splits)
  let ?point = "case s1 of c # _ \<Rightarrow> c = CHR ''.'' | [] \<Rightarrow> False"
  let ?s2 = "if ?point then dropWhile is_digit (tl s1) else s1"
  let ?unit = "\<lambda>c. c \<noteq> CHR ''.'' \<and> \<not> is_digit c"
  have s1: "length s1 \<le> length s"
    using l by (auto simp: leading_int_def Let_def length_dropWhile_le split: if_splits)
  have s2: "length ?s2 \<le> length s1"
    by (auto split: list.splits intro: le_trans [OF length_dropWhile_le])
  have "takeWhile ?unit ?s2 \<noteq> []" and rest: "rest = dropWhile ?unit ?s2"
    using a l by (auto simp: duration_term_def Let_def split: prod.splits option.splits if_splits)
  then have "length (dropWhile ?unit ?s2) < length ?s2"
    using length_append [of "takeWhile ?unit ?s2" "dropWhile ?unit ?s2"] by simp
  then have "length rest < length ?s2" unfolding rest .
  then show ?thesis using s1 s2 by (meson le_trans order_less_le_trans)
qed

function duration_terms :: "(int \<Rightarrow> nat \<Rightarrow> int \<Rightarrow> int) \<Rightarrow> string \<Rightarrow> int \<Rightarrow> int option" where
  "duration_terms frac s d =
     (case s of
        [] \<Rightarrow> Some d
      | c # _ \<Rightarrow>
          if \<not> (c = CHR ''.'' \<or> is_digit c) then None
          else case duration_term frac s of
            None \<Rightarrow> None
          | Some (w, rest) \<Rightarrow>
              if d + w > 9223372036854775808 then None else duration_terms frac rest (d + w))"
  by pat_completeness auto
termination
  by (relation "measure (\<lambda>(frac, s, d). length s)") (auto dest: duration_term_shorter)

declare duration_terms.simps [simp del]

definition ParseDuration :: "(int \<Rightarrow> nat \<Rightarrow> int \<Rightarrow> int) \<Rightarrow> string \<Rightarrow> go_duration option" where
  "ParseDuration frac s =
     (case split_sign s of (neg, s1) \<Rightarrow>
      if s1 = ''0'' then Some 0
      else if s1 = [] then None
      else case duration_terms frac s1 0 of
        None \<Rightarrow> None
      | Some d \<Rightarrow> if neg then Some (- d) else if d > int64_max then None else Some d)"

end
