(* ===== verification/Config.thy ===== *)
theory Config
  imports GoText Process
begin

text \<open>
  \<^verbatim>\<open>internal/config/config.go\<close>: the settings of the two processes, read from the environment.
  \<open>getenv\<close> stands for \<^verbatim>\<open>os.Getenv\<close> (the empty text for an unset variable), \<open>frac\<close> for the
  \<^verbatim>\<open>float64\<close> arithmetic of \<^verbatim>\<open>time.ParseDuration\<close> (theory \<open>GoText\<close>) and \<open>unix\<close> for the clock.

  \<open>config_accepted_exactly\<close> says which environments are accepted, and \<open>configured_options_kept\<close> that
  the consumer works with the reclaim settings of an accepted one.
\<close>

section \<open>Settings\<close>

record Config =
  cfg_ServiceName :: string
  cfg_HTTPAddr :: string
  cfg_DatabaseURL :: string
  cfg_RedisAddr :: string
  cfg_RedisStream :: string
  cfg_RedisGroup :: string
  cfg_RedisConsumer :: string
  cfg_RedisReclaimMinIdle :: go_duration
  cfg_RedisReclaimCount :: int
  cfg_StartupTimeout :: go_duration
  cfg_OutboxPollInterval :: go_duration
  cfg_OTLPTraceEndpoint :: string

text \<open>\<^verbatim>\<open>Config{}\<close>\<close>

definition zero_config :: Config where
  "zero_config = \<lparr>cfg_ServiceName = [], cfg_HTTPAddr = [], cfg_DatabaseURL = [], cfg_RedisAddr = [],
     cfg_RedisStream = [], cfg_RedisGroup = [], cfg_RedisConsumer = [], cfg_RedisReclaimMinIdle = 0,
     cfg_RedisReclaimCount = 0, cfg_StartupTimeout = 0, cfg_OutboxPollInterval = 0, cfg_OTLPTraceEndpoint = []\<rparr>"

type_synonym getenv = "string \<Rightarrow> string"
type_synonym frac = "int \<Rightarrow> nat \<Rightarrow> int \<Rightarrow> int"

definition envOrDefault :: "getenv \<Rightarrow> string \<Rightarrow> string \<Rightarrow> string" where
  "envOrDefault getenv key fallback = (if getenv key \<noteq> [] then getenv key else fallback)"

definition durationOrDefault :: "frac \<Rightarrow> getenv \<Rightarrow> string \<Rightarrow> go_duration \<Rightarrow> go_error + go_duration" where
  "durationOrDefault frac getenv key fallback =
     (let raw = getenv key in
      if raw = [] then Inr fallback
      else case ParseDuration frac raw of
        None \<Rightarrow> Inl (Wrap (key @ '' must be a valid duration: '') (TextError raw))
      | Some d \<Rightarrow> if d \<le> 0 then Inl (ErrorString (key @ '' must be greater than 0'')) else Inr d)"

definition int64OrDefault :: "getenv \<Rightarrow> string \<Rightarrow> int \<Rightarrow> go_error + int" where
  "int64OrDefault getenv key fallback =
     (let raw = getenv key in
      if raw = [] then Inr fallback
      else case Sscan_int64 raw of
        None \<Rightarrow> Inl (Wrap (key @ '' must be a valid integer: '') (TextError raw))
      | Some v \<Rightarrow> if v \<le> 0 then Inl (ErrorString (key @ '' must be greater than 0'')) else Inr v)"

section \<open>Loading\<close>

definition http_addr_key :: "string \<Rightarrow> string" where
  "http_addr_key kind = (if kind = ''worker'' then ''WORKER_HTTP_ADDR'' else ''API_HTTP_ADDR'')"

definition loadConfig :: "frac \<Rightarrow> getenv \<Rightarrow> string \<Rightarrow> go_error + Config" where
  "loadConfig frac getenv kind =
     (let cfg = zero_config
        \<lparr>cfg_ServiceName := envOrDefault getenv ''SERVICE_NAME'' [],
         cfg_HTTPAddr := envOrDefault getenv (http_addr_key kind) [],
         cfg_DatabaseURL := envOrDefault getenv ''DATABASE_URL'' [],
         cfg_RedisAddr := envOrDefault getenv ''REDIS_ADDR'' [],
         cfg_RedisStream := envOrDefault getenv ''REDIS_STREAM'' [],
         cfg_RedisGroup := envOrDefault getenv ''REDIS_GROUP'' [],
         cfg_RedisConsumer := envOrDefault getenv ''REDIS_CONSUMER'' [],
         cfg_OTLPTraceEndpoint := getenv ''OTEL_EXPORTER_OTLP_ENDPOINT''\<rparr>
      in case durationOrDefault frac getenv ''REDIS_RECLAIM_MIN_IDLE'' (30 * Second) of
        Inl e \<Rightarrow> Inl e
      | Inr minIdle \<Rightarrow>
        (case int64OrDefault getenv ''REDIS_RECLAIM_COUNT'' 10 of
           Inl e \<Rightarrow> Inl e
         | Inr reclaimCount \<Rightarrow>
           (case durationOrDefault frac getenv ''STARTUP_TIMEOUT'' (30 * Second) of
              Inl e \<Rightarrow> Inl e
            | Inr timeout \<Rightarrow>
              (case durationOrDefault frac getenv ''OUTBOX_POLL_INTERVAL'' (2 * Second) of
                 Inl e \<Rightarrow> Inl e
               | Inr interval \<Rightarrow>
                   Inr (cfg\<lparr>cfg_RedisReclaimMinIdle := minIdle, cfg_RedisReclaimCount := reclaimCount,
                         cfg_StartupTimeout := timeout, cfg_OutboxPollInterval := interval\<rparr>)))))"

definition blank :: "string \<Rightarrow> string \<Rightarrow> string list" where
  "blank problem v = (if TrimSpace v = [] then [problem] else [])"

definition not_positive :: "string \<Rightarrow> int \<Rightarrow> string list" where
  "not_positive problem v = (if v \<le> 0 then [problem] else [])"

definition config_problems :: "Config \<Rightarrow> string list" where
  "config_problems c =
     blank ''SERVICE_NAME must not be empty'' (cfg_ServiceName c) @
     blank ''HTTP listen address must not be empty'' (cfg_HTTPAddr c) @
     blank ''DATABASE_URL must not be empty'' (cfg_DatabaseURL c) @
     blank ''REDIS_ADDR must not be empty'' (cfg_RedisAddr c) @
     blank ''REDIS_STREAM must not be empty'' (cfg_RedisStream c) @
     blank ''REDIS_GROUP must not be empty'' (cfg_RedisGroup c) @
     blank ''REDIS_CONSUMER must not be empty'' (cfg_RedisConsumer c) @
     not_positive ''REDIS_RECLAIM_MIN_IDLE must be greater than 0'' (cfg_RedisReclaimMinIdle c) @
     not_positive ''REDIS_RECLAIM_COUNT must be greater than 0'' (cfg_RedisReclaimCount c) @
     not_positive ''STARTUP_TIMEOUT must be greater than 0'' (cfg_StartupTimeout c) @
     not_positive ''OUTBOX_POLL_INTERVAL must be greater than 0'' (cfg_OutboxPollInterval c)"

definition Validate :: "Config \<Rightarrow> go_error option" where
  "Validate c =
     (let problems = config_problems c in
      if length problems > 0 then Some (ErrorString (join_on ''; '' problems)) else None)"

definition or_default :: "string \<Rightarrow> string \<Rightarrow> string" where
  "or_default v fallback = (if v = [] then fallback else v)"

text \<open>Both functions return the configuration together with the verdict on it.\<close>

definition LoadAPIConfig :: "frac \<Rightarrow> getenv \<Rightarrow> Config \<times> go_error option" where
  "LoadAPIConfig frac getenv =
     (case loadConfig frac getenv ''api'' of
        Inl e \<Rightarrow> (zero_config, Some e)
      | Inr cfg0 \<Rightarrow>
          let cfg = cfg0\<lparr>cfg_ServiceName := or_default (cfg_ServiceName cfg0) ''durableflow-api'',
                cfg_HTTPAddr := or_default (cfg_HTTPAddr cfg0) '':8080'',
                cfg_RedisConsumer := or_default (cfg_RedisConsumer cfg0) ''api''\<rparr>
          in (cfg, Validate cfg))"

definition LoadWorkerConfig :: "frac \<Rightarrow> getenv \<Rightarrow> int \<Rightarrow> Config \<times> go_error option" where
  "LoadWorkerConfig frac getenv unix =
     (case loadConfig frac getenv ''worker'' of
        Inl e \<Rightarrow> (zero_config, Some e)
      | Inr cfg0 \<Rightarrow>
          let cfg = cfg0\<lparr>cfg_ServiceName := or_default (cfg_ServiceName cfg0) ''durableflow-worker'',
                cfg_HTTPAddr := or_default (cfg_HTTPAddr cfg0) '':8081'',
                cfg_RedisConsumer := or_default (cfg_RedisConsumer cfg0) (''worker-'' @ Itoa unix)\<rparr>
          in (cfg, Validate cfg))"

section \<open>Accepted environments\<close>

text \<open>A variable that must be set, one that may be unset, and the two kinds of numbers.\<close>

definition present :: "getenv \<Rightarrow> string \<Rightarrow> bool" where
  "present getenv key \<longleftrightarrow> TrimSpace (getenv key) \<noteq> []"

definition unset_or_present :: "getenv \<Rightarrow> string \<Rightarrow> bool" where
  "unset_or_present getenv key \<longleftrightarrow> getenv key = [] \<or> present getenv key"

definition unset_or_positive :: "(string \<Rightarrow> int option) \<Rightarrow> getenv \<Rightarrow> string \<Rightarrow> bool" where
  "unset_or_positive parse getenv key \<longleftrightarrow> getenv key = [] \<or> (\<exists>v. parse (getenv key) = Some v \<and> 0 < v)"

text \<open>
  Which environments the code accepts.  The count is what \<^verbatim>\<open>fmt.Sscan\<close> reads of the value, which need not be the
  whole of it (see \<open>reclaim_count_ignores_rest\<close> below); \<^verbatim>\<open>docs/operations.md\<close> says that an invalid count is rejected.
\<close>

definition environment_ok :: "frac \<Rightarrow> getenv \<Rightarrow> string \<Rightarrow> bool" where
  "environment_ok frac getenv kind \<longleftrightarrow>
     list_all (present getenv) [''DATABASE_URL'', ''REDIS_ADDR'', ''REDIS_STREAM'', ''REDIS_GROUP''] \<and>
     list_all (unset_or_present getenv) [''SERVICE_NAME'', http_addr_key kind, ''REDIS_CONSUMER''] \<and>
     list_all (unset_or_positive (ParseDuration frac) getenv)
       [''REDIS_RECLAIM_MIN_IDLE'', ''STARTUP_TIMEOUT'', ''OUTBOX_POLL_INTERVAL''] \<and>
     unset_or_positive Sscan_int64 getenv ''REDIS_RECLAIM_COUNT''"

lemma duration_Inr_iff:
  "0 < fallback \<Longrightarrow> (\<exists>d. durationOrDefault frac getenv key fallback = Inr d) \<longleftrightarrow> unset_or_positive (ParseDuration frac) getenv key"
  by (auto simp: durationOrDefault_def unset_or_positive_def Let_def not_le split: option.splits)

lemma int64_Inr_iff:
  "0 < fallback \<Longrightarrow> (\<exists>d. int64OrDefault getenv key fallback = Inr d) \<longleftrightarrow> unset_or_positive Sscan_int64 getenv key"
  by (auto simp: int64OrDefault_def unset_or_positive_def Let_def not_le split: option.splits)

lemma orDefault_positive:
  "durationOrDefault frac getenv key fallback = Inr d \<Longrightarrow> 0 < fallback \<Longrightarrow> 0 < d"
  "int64OrDefault getenv key fallback = Inr d \<Longrightarrow> 0 < fallback \<Longrightarrow> 0 < d"
  by (auto simp: durationOrDefault_def int64OrDefault_def Let_def split: option.splits if_splits)

lemma Validate_None:
  "Validate c = None \<longleftrightarrow>
     (\<forall>v \<in> {cfg_ServiceName c, cfg_HTTPAddr c, cfg_DatabaseURL c, cfg_RedisAddr c, cfg_RedisStream c,
        cfg_RedisGroup c, cfg_RedisConsumer c}. TrimSpace v \<noteq> []) \<and>
     0 < cfg_RedisReclaimMinIdle c \<and> 0 < cfg_RedisReclaimCount c \<and> 0 < cfg_StartupTimeout c \<and>
     0 < cfg_OutboxPollInterval c"
  by (auto simp: Validate_def config_problems_def Let_def blank_def not_positive_def)

lemma envOrDefault_Nil [simp]: "envOrDefault getenv key [] = getenv key"
  by (simp add: envOrDefault_def)

definition setting :: "(string \<Rightarrow> int option) \<Rightarrow> getenv \<Rightarrow> string \<Rightarrow> int \<Rightarrow> int" where
  "setting parse getenv key fallback =
     (if getenv key = [] then fallback else case parse (getenv key) of Some v \<Rightarrow> v | None \<Rightarrow> fallback)"

text \<open>The settings of an accepted environment, given the three defaults of the process.\<close>

definition settings_of :: "frac \<Rightarrow> getenv \<Rightarrow> string \<Rightarrow> string \<Rightarrow> string \<Rightarrow> string \<Rightarrow> Config" where
  "settings_of frac getenv kind name addr consumer =
     \<lparr>cfg_ServiceName = envOrDefault getenv ''SERVICE_NAME'' name,
      cfg_HTTPAddr = envOrDefault getenv (http_addr_key kind) addr,
      cfg_DatabaseURL = getenv ''DATABASE_URL'', cfg_RedisAddr = getenv ''REDIS_ADDR'',
      cfg_RedisStream = getenv ''REDIS_STREAM'', cfg_RedisGroup = getenv ''REDIS_GROUP'',
      cfg_RedisConsumer = envOrDefault getenv ''REDIS_CONSUMER'' consumer,
      cfg_RedisReclaimMinIdle = setting (ParseDuration frac) getenv ''REDIS_RECLAIM_MIN_IDLE'' (30 * Second),
      cfg_RedisReclaimCount = setting Sscan_int64 getenv ''REDIS_RECLAIM_COUNT'' 10,
      cfg_StartupTimeout = setting (ParseDuration frac) getenv ''STARTUP_TIMEOUT'' (30 * Second),
      cfg_OutboxPollInterval = setting (ParseDuration frac) getenv ''OUTBOX_POLL_INTERVAL'' (2 * Second),
      cfg_OTLPTraceEndpoint = getenv ''OTEL_EXPORTER_OTLP_ENDPOINT''\<rparr>"

lemma durationOrDefault_setting:
  "0 < fallback \<Longrightarrow> durationOrDefault frac getenv key fallback = Inr d \<longleftrightarrow>
     unset_or_positive (ParseDuration frac) getenv key \<and> d = setting (ParseDuration frac) getenv key fallback"
  by (auto simp: durationOrDefault_def unset_or_positive_def setting_def Let_def not_le split: option.splits)

lemma int64OrDefault_setting:
  "0 < fallback \<Longrightarrow> int64OrDefault getenv key fallback = Inr d \<longleftrightarrow>
     unset_or_positive Sscan_int64 getenv key \<and> d = setting Sscan_int64 getenv key fallback"
  by (auto simp: int64OrDefault_def unset_or_positive_def setting_def Let_def not_le split: option.splits)

lemma setting_positive: "unset_or_positive parse getenv key \<Longrightarrow> 0 < fallback \<Longrightarrow> 0 < setting parse getenv key fallback"
  by (auto simp: unset_or_positive_def setting_def)

definition numbers_ok :: "frac \<Rightarrow> getenv \<Rightarrow> bool" where
  "numbers_ok frac getenv \<longleftrightarrow>
     unset_or_positive (ParseDuration frac) getenv ''REDIS_RECLAIM_MIN_IDLE'' \<and>
     unset_or_positive Sscan_int64 getenv ''REDIS_RECLAIM_COUNT'' \<and>
     unset_or_positive (ParseDuration frac) getenv ''STARTUP_TIMEOUT'' \<and>
     unset_or_positive (ParseDuration frac) getenv ''OUTBOX_POLL_INTERVAL''"

lemma loadConfig_Inr:
  "loadConfig frac getenv kind = Inr cfg \<longleftrightarrow>
     numbers_ok frac getenv \<and> cfg = settings_of frac getenv kind [] [] []"
proof -
  have "loadConfig frac getenv kind = Inr cfg \<longleftrightarrow>
     (\<exists>d1 n d2 d3. durationOrDefault frac getenv ''REDIS_RECLAIM_MIN_IDLE'' (30 * Second) = Inr d1 \<and>
        int64OrDefault getenv ''REDIS_RECLAIM_COUNT'' 10 = Inr n \<and>
        durationOrDefault frac getenv ''STARTUP_TIMEOUT'' (30 * Second) = Inr d2 \<and>
        durationOrDefault frac getenv ''OUTBOX_POLL_INTERVAL'' (2 * Second) = Inr d3 \<and>
        cfg = (settings_of frac getenv kind [] [] [])\<lparr>cfg_RedisReclaimMinIdle := d1, cfg_RedisReclaimCount := n,
          cfg_StartupTimeout := d2, cfg_OutboxPollInterval := d3\<rparr>)"
    by (auto simp: loadConfig_def Let_def settings_of_def zero_config_def split: sum.splits)
  then show ?thesis
    by (auto simp: durationOrDefault_setting int64OrDefault_setting Second_def numbers_ok_def settings_of_def)
qed

lemma loadConfig_cases:
  obtains "numbers_ok frac getenv" "loadConfig frac getenv kind = Inr (settings_of frac getenv kind [] [] [])"
    | e where "\<not> numbers_ok frac getenv" "loadConfig frac getenv kind = Inl e"
  using loadConfig_Inr [of frac getenv kind] by (cases "loadConfig frac getenv kind") auto

lemma or_default_env [simp]: "or_default (getenv key) fallback = envOrDefault getenv key fallback"
  by (simp add: or_default_def envOrDefault_def)

lemma named_iff: "TrimSpace fallback \<noteq> [] \<Longrightarrow> TrimSpace (envOrDefault getenv key fallback) \<noteq> [] \<longleftrightarrow> unset_or_present getenv key"
  by (auto simp: envOrDefault_def unset_or_present_def present_def)

lemma settings_valid:
  assumes "TrimSpace name \<noteq> []" "TrimSpace addr \<noteq> []" "TrimSpace consumer \<noteq> []"
  shows "numbers_ok frac getenv \<and> Validate (settings_of frac getenv kind name addr consumer) = None \<longleftrightarrow>
    environment_ok frac getenv kind"
  using named_iff [OF assms(1)] named_iff [OF assms(2)] named_iff [OF assms(3)]
  by (auto simp: numbers_ok_def environment_ok_def Validate_None settings_of_def setting_positive Second_def present_def)

lemma defaults_present:
  "TrimSpace ''durableflow-api'' \<noteq> []" "TrimSpace '':8080'' \<noteq> []" "TrimSpace ''api'' \<noteq> []"
  "TrimSpace ''durableflow-worker'' \<noteq> []" "TrimSpace '':8081'' \<noteq> []" "TrimSpace (''worker-'' @ s) \<noteq> []"
  by (simp_all add: TrimSpace_letter byte_def is_space_def space_runes_def)

lemma load_api_iff:
  "LoadAPIConfig frac getenv = (cfg, None) \<longleftrightarrow> environment_ok frac getenv ''api'' \<and>
     cfg = settings_of frac getenv ''api'' ''durableflow-api'' '':8080'' ''api''"
  using settings_valid [OF defaults_present(1-3), of frac getenv "''api''"]
  by (cases rule: loadConfig_cases [of frac getenv "''api''"]) (auto simp: LoadAPIConfig_def settings_of_def Let_def)

lemma load_worker_iff:
  "LoadWorkerConfig frac getenv unix = (cfg, None) \<longleftrightarrow> environment_ok frac getenv ''worker'' \<and>
     cfg = settings_of frac getenv ''worker'' ''durableflow-worker'' '':8081'' (''worker-'' @ Itoa unix)"
  using settings_valid [OF defaults_present(4-6), of frac getenv "''worker''"]
  by (cases rule: loadConfig_cases [of frac getenv "''worker''"]) (auto simp: LoadWorkerConfig_def settings_of_def Let_def)

text \<open>
  C29.  A process accepts its environment exactly when the four addresses and names that have no default
  are not blank, the other names are unset or not blank, the durations are unset or parse to a positive value, and
  the count is unset or begins, as \<^verbatim>\<open>fmt.Sscan\<close> reads it, with a positive number; then the settings are those of the environment, with the defaults for the
  unset ones.
\<close>

theorem config_accepted_exactly:
  "(LoadAPIConfig frac getenv = (cfg, None) \<longleftrightarrow> environment_ok frac getenv ''api'' \<and>
      cfg = settings_of frac getenv ''api'' ''durableflow-api'' '':8080'' ''api'') \<and>
   (LoadWorkerConfig frac getenv unix = (cfg, None) \<longleftrightarrow> environment_ok frac getenv ''worker'' \<and>
      cfg = settings_of frac getenv ''worker'' ''durableflow-worker'' '':8081'' (''worker-'' @ Itoa unix))"
  by (rule conjI [OF load_api_iff load_worker_iff])

text \<open>
  The consumer of an accepted worker configuration uses its reclaim settings as they are: the
  normalisation of \<^verbatim>\<open>Consume\<close> only adds the batch size 1 and the blocking time of five seconds.
\<close>

lemma configured_options_kept:
  assumes "LoadWorkerConfig frac getenv unix = (cfg, None)"
  shows "normalizeConsumeOptions
     (worker_options (cfg_RedisConsumer cfg) (cfg_RedisReclaimMinIdle cfg) (cfg_RedisReclaimCount cfg)) =
     \<lparr>opt_Consumer = cfg_RedisConsumer cfg, opt_ReclaimMinIdle = cfg_RedisReclaimMinIdle cfg,
      opt_ReclaimCount = cfg_RedisReclaimCount cfg, opt_ReadCount = 1, opt_Block = 5 * Second\<rparr> \<and>
     TrimSpace (cfg_RedisConsumer cfg) \<noteq> []"
proof -
  have "Validate cfg = None" using assms by (auto simp: LoadWorkerConfig_def Let_def split: sum.splits)
  then show ?thesis by (simp add: Validate_None normalizeConsumeOptions_def worker_options_def)
qed

definition demo_getenv :: getenv where
  "demo_getenv key =
     (if key \<in> {''DATABASE_URL'', ''REDIS_ADDR'', ''REDIS_STREAM'', ''REDIS_GROUP''} then ''x''
      else if key = ''REDIS_RECLAIM_MIN_IDLE'' then ''45s'' else [])"

lemma demo_getenv_ok: "environment_ok (\<lambda>f k unit. 0) demo_getenv ''worker''"
proof -
  have "ParseDuration (\<lambda>f k unit. 0) ''45s'' = Some 45000000000" by code_simp
  moreover have "TrimSpace ''x'' \<noteq> []" by code_simp
  ultimately show ?thesis
    by (simp add: environment_ok_def present_def unset_or_present_def unset_or_positive_def demo_getenv_def http_addr_key_def)
qed

text \<open>
  \<^verbatim>\<open>REDIS_RECLAIM_COUNT\<close> is read with \<^verbatim>\<open>fmt.Sscan\<close>, which stops at the first byte that is no digit:
  a positive number followed by anything is accepted as that number, although it is no valid integer.
\<close>

lemma reclaim_count_ignores_rest:
  assumes "0 < n" "int n \<le> int64_max" "\<not> digit_of_base 10 (hd rest)"
    and "getenv ''REDIS_RECLAIM_COUNT'' = nat_text n @ rest"
  shows "int64OrDefault getenv ''REDIS_RECLAIM_COUNT'' 10 = Inr (int n)"
  using Sscan_int64_prefix [of n rest] assms by (simp add: int64OrDefault_def Let_def)

end
