(* ===== verification/Migrate.thy ===== *)
theory Migrate
  imports GoText Postgres
begin

text \<open>
  \<^verbatim>\<open>internal/db/migrate.go\<close>: applying the migration files at start-up.  The database is seen as its
  schema (an arbitrary type \<open>'d\<close>, changed by the statements of a file through \<open>mig_exec\<close>) and the
  versions recorded in \<^verbatim>\<open>schema_migrations\<close>, in the order they were recorded.  The surroundings of a run
  are the directory, the files, and what may go wrong at each round trip; runs exclude one another by
  the advisory lock, so the processes of a deployment make a sequence of runs.

  \<open>migrations_applied_once\<close> is the contract: whatever fails in whichever run, every recorded file has
  been executed exactly once, in the recorded order, and a run that returns nil leaves no file out.
\<close>

section \<open>State and surroundings\<close>

record 'd migdb =
  mg_versions :: "string list"
  mg_schema :: 'd

record 'd migenv =
  mig_acquire :: "go_error option"
  mig_lock :: "go_error option"
  mig_create :: "go_error option"
  mig_readdir :: "go_error + (string \<times> bool) list"
  mig_read :: "string \<Rightarrow> go_error + string"
  mig_text_ok :: "string \<Rightarrow> bool"
  mig_exec :: "string \<Rightarrow> 'd \<Rightarrow> go_error + 'd"
  mig_query_fault :: "string \<Rightarrow> go_error option"
  mig_begin_fault :: "string \<Rightarrow> go_error option"
  mig_record_fault :: "string \<Rightarrow> go_error option"
  mig_commit :: "string \<Rightarrow> commit_outcome"

section \<open>Applying migrations\<close>

text \<open>The names of the files with the suffix \<^verbatim>\<open>.sql\<close>, sorted by bytes (\<^verbatim>\<open>sort.Strings\<close>).\<close>

definition migration_files :: "(string \<times> bool) list \<Rightarrow> string list" where
  "migration_files entries = sort (map fst (filter (\<lambda>(name, isDir). \<not> isDir \<and> has_suffix ''.sql'' name) entries))"

definition sql_already_applied :: "string \<Rightarrow> 'd migenv \<Rightarrow> 'd migdb \<Rightarrow> go_error + bool" where
  "sql_already_applied file env m =
     (case mig_query_fault env file of
        Some e \<Rightarrow> Inl e
      | None \<Rightarrow> if mig_text_ok env file then Inr (file \<in> set (mg_versions m)) else Inl (PgError ''22021''))"

definition sql_record_version :: "string \<Rightarrow> 'd migdb \<Rightarrow> 'd migdb" where
  "sql_record_version file m =
     (if file \<in> set (mg_versions m) then m else m\<lparr>mg_versions := mg_versions m @ [file]\<rparr>)"

text \<open>One round of the loop: the error that ends the run, if any, and the database.\<close>

definition apply_migration :: "string \<Rightarrow> 'd migenv \<Rightarrow> 'd migdb \<Rightarrow> go_error option \<times> 'd migdb" where
  "apply_migration file env m =
     (case sql_already_applied file env m of
        Inl e \<Rightarrow> (Some e, m)
      | Inr True \<Rightarrow> (None, m)
      | Inr False \<Rightarrow>
        (case mig_read env file of
           Inl e \<Rightarrow> (Some (Wrap (''read migration '' @ file @ '': '') e), m)
         | Inr sqlBytes \<Rightarrow>
           (case mig_begin_fault env file of
              Some e \<Rightarrow> (Some e, m)
            | None \<Rightarrow>
              (case mig_exec env sqlBytes (mg_schema m) of
                 Inl e \<Rightarrow> (Some (Wrap (''apply migration '' @ file @ '': '') e), m)
               | Inr schema \<Rightarrow>
                 (case mig_record_fault env file of
                    Some e \<Rightarrow> (Some (Wrap (''record migration '' @ file @ '': '') e), m)
                  | None \<Rightarrow>
                    (let m' = sql_record_version file (m\<lparr>mg_schema := schema\<rparr>) in
                     case mig_commit env file of
                       CommitOk \<Rightarrow> (None, m')
                     | CommitRolledBack e \<Rightarrow> (Some (Wrap (''commit migration '' @ file @ '': '') e), m)
                     | CommitLost e \<Rightarrow> (Some (Wrap (''commit migration '' @ file @ '': '') e), m')))))))"

fun apply_files :: "string list \<Rightarrow> 'd migenv \<Rightarrow> 'd migdb \<Rightarrow> go_error option \<times> 'd migdb" where
  "apply_files [] env m = (None, m)"
| "apply_files (file # files) env m =
     (case apply_migration file env m of
        (Some e, m') \<Rightarrow> (Some e, m')
      | (None, m') \<Rightarrow> apply_files files env m')"

text \<open>
  The wait for \<^verbatim>\<open>pg_advisory_lock\<close> returns in this model, with the lock or with an error: another run that
  never released it would block this one in the code.
\<close>

definition ApplyMigrations :: "'d migenv \<Rightarrow> 'd migdb \<Rightarrow> go_error option \<times> 'd migdb" where
  "ApplyMigrations env m =
     (case mig_acquire env of
        Some e \<Rightarrow> (Some e, m)
      | None \<Rightarrow>
        (case mig_lock env of
           Some e \<Rightarrow> (Some (Wrap ''acquire migration lock: '' e), m)
         | None \<Rightarrow>
           (case mig_create env of
              Some e \<Rightarrow> (Some e, m)
            | None \<Rightarrow>
              (case mig_readdir env of
                 Inl e \<Rightarrow> (Some (Wrap ''read migrations dir: '' e), m)
               | Inr entries \<Rightarrow> apply_files (migration_files entries) env m))))"

text \<open>The runs of the processes of a deployment, one after the other.\<close>

definition migration_runs :: "'d migenv list \<Rightarrow> 'd migdb \<Rightarrow> 'd migdb" where
  "migration_runs envs m = foldl (\<lambda>m env. snd (ApplyMigrations env m)) m envs"

section \<open>The contract\<close>

text \<open>Executing the files of a list of versions, in this order.\<close>

fun executed :: "(string \<Rightarrow> 'd \<Rightarrow> go_error + 'd) \<Rightarrow> (string \<Rightarrow> string) \<Rightarrow> string list \<Rightarrow> 'd \<Rightarrow> go_error + 'd" where
  "executed exec content [] d = Inr d"
| "executed exec content (v # vs) d =
     (case exec (content v) d of Inl e \<Rightarrow> Inl e | Inr d' \<Rightarrow> executed exec content vs d')"

text \<open>
  The recorded versions explain the schema: each was executed once, in order, on the initial schema.
\<close>

definition explained :: "(string \<Rightarrow> 'd \<Rightarrow> go_error + 'd) \<Rightarrow> (string \<Rightarrow> string) \<Rightarrow> 'd \<Rightarrow> 'd migdb \<Rightarrow> bool" where
  "explained exec content d0 m \<longleftrightarrow>
     distinct (mg_versions m) \<and> executed exec content (mg_versions m) d0 = Inr (mg_schema m)"

text \<open>The files do not change between runs, and their statements act as \<open>exec\<close> says.\<close>

definition deployment :: "(string \<Rightarrow> 'd \<Rightarrow> go_error + 'd) \<Rightarrow> (string \<Rightarrow> string) \<Rightarrow> 'd migenv \<Rightarrow> bool" where
  "deployment exec content env \<longleftrightarrow>
     mig_exec env = exec \<and> (\<forall>file sqlBytes. mig_read env file = Inr sqlBytes \<longrightarrow> sqlBytes = content file)"

lemma executed_snoc:
  "executed exec content (vs @ [v]) d =
     (case executed exec content vs d of Inl e \<Rightarrow> Inl e | Inr d' \<Rightarrow> exec (content v) d')"
  by (induction vs arbitrary: d) (auto split: sum.split)

text \<open>A round leaves the database as it is, or executes the file and records it at the end.\<close>

lemma apply_migration_cases:
  assumes "apply_migration file env m = (err, m')"
  shows "m' = m \<and> (err = None \<longrightarrow> file \<in> set (mg_versions m)) \<or>
    (\<exists>sqlBytes schema. file \<notin> set (mg_versions m) \<and> mig_read env file = Inr sqlBytes \<and>
       mig_exec env sqlBytes (mg_schema m) = Inr schema \<and>
       m' = m\<lparr>mg_versions := mg_versions m @ [file], mg_schema := schema\<rparr>)"
proof (cases "sql_already_applied file env m")
  case (Inr applied)
  then have "applied \<longleftrightarrow> file \<in> set (mg_versions m)"
    by (auto simp: sql_already_applied_def split: option.splits if_splits)
  with assms Inr show ?thesis
    by (auto simp: apply_migration_def sql_record_version_def Let_def
        split: sum.splits option.splits bool.splits commit_outcome.splits) (metis option.exhaust option.distinct(1))+
qed (use assms in \<open>auto simp: apply_migration_def\<close>)

lemma apply_migration_explained:
  assumes "deployment exec content env" "explained exec content d0 m" "apply_migration file env m = (err, m')"
  shows "explained exec content d0 m' \<and> set (mg_versions m) \<subseteq> set (mg_versions m') \<and>
    (err = None \<longrightarrow> file \<in> set (mg_versions m'))"
  using apply_migration_cases [OF assms(3)]
proof
  assume "\<exists>sqlBytes schema. file \<notin> set (mg_versions m) \<and> mig_read env file = Inr sqlBytes \<and>
       mig_exec env sqlBytes (mg_schema m) = Inr schema \<and>
       m' = m\<lparr>mg_versions := mg_versions m @ [file], mg_schema := schema\<rparr>"
  then obtain schema where "file \<notin> set (mg_versions m)" "exec (content file) (mg_schema m) = Inr schema"
      "m' = m\<lparr>mg_versions := mg_versions m @ [file], mg_schema := schema\<rparr>"
    using assms(1) by (auto simp: deployment_def)
  then show ?thesis using assms(2) by (auto simp: explained_def executed_snoc)
qed (use assms(2) in simp)

lemma apply_files_explained:
  assumes "deployment exec content env" "explained exec content d0 m" "apply_files files env m = (err, m')"
  shows "explained exec content d0 m' \<and> set (mg_versions m) \<subseteq> set (mg_versions m') \<and>
    (err = None \<longrightarrow> set files \<subseteq> set (mg_versions m'))"
  using assms(2,3)
proof (induction files arbitrary: m)
  case (Cons f fs)
  obtain err1 m1 where step: "apply_migration f env m = (err1, m1)" by fastforce
  note ok = apply_migration_explained [OF assms(1) Cons.prems(1) step]
  show ?case
  proof (cases err1)
    case None
    then have "apply_files fs env m1 = (err, m')" using Cons.prems(2) step by simp
    from Cons.IH [OF _ this] ok None show ?thesis by auto
  next
    case (Some e)
    then have "err = Some e" "m' = m1" using Cons.prems(2) step by auto
    with ok show ?thesis by simp
  qed
qed simp

lemma ApplyMigrations_explained:
  assumes "deployment exec content env" "explained exec content d0 m" "ApplyMigrations env m = (err, m')"
  shows "explained exec content d0 m'"
    and "err = None \<Longrightarrow> mig_readdir env = Inr entries \<Longrightarrow> set (migration_files entries) \<subseteq> set (mg_versions m')"
  using assms(3) apply_files_explained [OF assms(1,2)] assms(2)
  by (auto simp: ApplyMigrations_def split: option.splits sum.splits)

text \<open>Whatever the files do, a run that returns nil has recorded all of them.\<close>

lemma apply_migration_keeps:
  assumes "apply_migration file env m = (err, m')"
  shows "set (mg_versions m) \<subseteq> set (mg_versions m') \<and> (err = None \<longrightarrow> file \<in> set (mg_versions m'))"
  using apply_migration_cases [OF assms] by auto

lemma apply_files_recorded:
  assumes "apply_files files env m = (None, m')"
  shows "set (mg_versions m) \<union> set files \<subseteq> set (mg_versions m')"
  using assms
proof (induction files arbitrary: m)
  case (Cons f fs)
  then obtain m1 where "apply_migration f env m = (None, m1)" "apply_files fs env m1 = (None, m')"
    by (auto split: prod.splits option.splits)
  with Cons.IH [of m1] apply_migration_keeps [of f env m None m1] show ?case by auto
qed simp

lemma ApplyMigrations_recorded:
  assumes "ApplyMigrations env m = (None, m')" "mig_readdir env = Inr entries"
  shows "set (migration_files entries) \<subseteq> set (mg_versions m')"
  using assms apply_files_recorded [of "migration_files entries" env m m']
  by (auto simp: ApplyMigrations_def split: option.splits)

lemma migration_runs_explained:
  assumes "list_all (deployment exec content) envs" "explained exec content d0 m"
  shows "explained exec content d0 (migration_runs envs m)"
  using assms
proof (induction envs arbitrary: m)
  case (Cons env envs)
  have "explained exec content d0 (snd (ApplyMigrations env m))"
    using Cons.prems ApplyMigrations_explained(1) [of exec content env d0 m] by (metis list.pred_inject(2) prod.collapse)
  then show ?case using Cons by (simp add: migration_runs_def)
qed (simp add: migration_runs_def)

lemma apply_files_idle:
  assumes "set files \<subseteq> set (mg_versions m)" "apply_files files env m = (err, m')"
  shows "m' = m"
  using assms
proof (induction files)
  case (Cons f fs)
  then have "f \<in> set (mg_versions m)" "set fs \<subseteq> set (mg_versions m)" by auto
  then show ?case using Cons
    by (auto simp: apply_migration_def sql_already_applied_def split: option.splits if_splits)
qed simp

text \<open>
  C25.  Whatever fails in whichever of the runs (a round trip, a statement, a commit, even the reply to
  a commit that took effect), afterwards every recorded migration has been executed exactly once on
  the initial schema, in the recorded order.  A further run that returns nil has recorded every
  migration file of its directory, and with no new file it changes nothing.
\<close>

theorem migrations_applied_once:
  assumes "list_all (deployment exec content) (envs @ [env])" "mig_readdir env = Inr entries"
    and "ApplyMigrations env (migration_runs envs \<lparr>mg_versions = [], mg_schema = d0\<rparr>) = (err, m)"
  shows "distinct (mg_versions m) \<and> executed exec content (mg_versions m) d0 = Inr (mg_schema m) \<and>
    (err = None \<longrightarrow> set (migration_files entries) \<subseteq> set (mg_versions m)) \<and>
    (set (migration_files entries) \<subseteq> set (mg_versions (migration_runs envs \<lparr>mg_versions = [], mg_schema = d0\<rparr>)) \<longrightarrow>
       m = migration_runs envs \<lparr>mg_versions = [], mg_schema = d0\<rparr>)"
proof -
  let ?m = "migration_runs envs \<lparr>mg_versions = [], mg_schema = d0\<rparr>"
  have before: "explained exec content d0 ?m"
    using assms(1) by (intro migration_runs_explained) (auto simp: explained_def)
  have dep: "deployment exec content env" using assms(1) by simp
  have "set (migration_files entries) \<subseteq> set (mg_versions ?m) \<Longrightarrow> m = ?m"
    using assms(2,3) apply_files_idle [of "migration_files entries" ?m env err m]
    by (auto simp: ApplyMigrations_def split: option.splits)
  with ApplyMigrations_explained [OF dep before assms(3)] assms(2) show ?thesis
    by (auto simp: explained_def)
qed

text \<open>A deployment of two files whose first run loses the reply to the first commit.\<close>

definition demo_migenv :: "(string \<Rightarrow> commit_outcome) \<Rightarrow> (string list) migenv" where
  "demo_migenv outcome = \<lparr>mig_acquire = None, mig_lock = None, mig_create = None,
     mig_readdir = Inr [(''002.sql'', False), (''001.sql'', False), (''README'', False), (''old'', True)],
     mig_read = Inr, mig_text_ok = (\<lambda>_. True), mig_exec = (\<lambda>sql d. Inr (d @ [sql])),
     mig_query_fault = (\<lambda>_. None), mig_begin_fault = (\<lambda>_. None), mig_record_fault = (\<lambda>_. None),
     mig_commit = outcome\<rparr>"

lemma demo_files:
  "migration_files [(''002.sql'', False), (''001.sql'', False), (''README'', False), (''old'', True)] = [''001.sql'', ''002.sql'']"
  by code_simp

theorem migrations_applied_once_witness:
  "ApplyMigrations (demo_migenv (\<lambda>_. CommitOk))
     (migration_runs [demo_migenv (\<lambda>_. CommitLost (DriverError ''reset''))] \<lparr>mg_versions = [], mg_schema = []\<rparr>) =
     (None, \<lparr>mg_versions = [''001.sql'', ''002.sql''], mg_schema = [''001.sql'', ''002.sql'']\<rparr>) \<and>
   executed (\<lambda>sql d. Inr (d @ [sql])) id [''001.sql'', ''002.sql''] [] = Inr [''001.sql'', ''002.sql'']"
proof -
  let ?exec = "\<lambda>sql d. Inr (d @ [sql]) :: go_error + string list"
  have dep: "deployment ?exec id (demo_migenv outcome)" for outcome
    by (simp add: deployment_def demo_migenv_def)
  have run: "ApplyMigrations (demo_migenv (\<lambda>_. CommitOk))
     (migration_runs [demo_migenv (\<lambda>_. CommitLost (DriverError ''reset''))] \<lparr>mg_versions = [], mg_schema = []\<rparr>) =
     (None, \<lparr>mg_versions = [''001.sql'', ''002.sql''], mg_schema = [''001.sql'', ''002.sql'']\<rparr>)"
    by (simp add: migration_runs_def ApplyMigrations_def demo_migenv_def demo_files apply_migration_def
        sql_already_applied_def sql_record_version_def)
  have dir: "mig_readdir (demo_migenv (\<lambda>_. CommitOk)) =
      Inr [(''002.sql'', False), (''001.sql'', False), (''README'', False), (''old'', True)]"
    by (simp add: demo_migenv_def)
  from migrations_applied_once [of ?exec id "[demo_migenv (\<lambda>_. CommitLost (DriverError ''reset''))]", OF _ dir run]
  show ?thesis using dep run by simp
qed

end
