(* ===== verification/Startup.thy ===== *)
theory Startup
  imports Config Migrate
begin

text \<open>
  How the two processes come up: \<^verbatim>\<open>OpenWithRetry\<close> (\<^verbatim>\<open>internal/db/postgres.go\<close>), \<^verbatim>\<open>WaitForReady\<close>
  (\<^verbatim>\<open>internal/queue/redis_streams.go\<close>) and the sequence of \<^verbatim>\<open>main\<close> in \<^verbatim>\<open>apps/api/main.go\<close> and
  \<^verbatim>\<open>apps/worker/main.go\<close> up to the point where the server listens.

  Both connection loops are the same code but for the attempt they repeat, so they are one
  \<open>retry_loop\<close>.  It need not return, so it is a partial function; \<open>startup_decides\<close> shows that it does
  return when time passes between attempts as \<^verbatim>\<open>time.After\<close> promises.
\<close>

section \<open>Retrying until a deadline\<close>

text \<open>
  The clock and the context of a loop: \<^verbatim>\<open>time.Now()\<close> before the loop and after attempt \<open>n\<close>, and the
  error of the context when it is done in the wait after attempt \<open>n\<close>.
\<close>

record clock =
  ck_start :: go_time
  ck_now :: "nat \<Rightarrow> go_time"
  ck_done :: "nat \<Rightarrow> go_error option"

text \<open>Attempt \<open>n\<close>; the result of the loop is the list of joined errors or the success.\<close>

type_synonym ('s, 'p) attempt = "nat \<Rightarrow> 's \<Rightarrow> (go_error + 'p) \<times> 's"

partial_function (option) retry_loop ::
  "('s, 'p) attempt \<Rightarrow> clock \<Rightarrow> go_time \<Rightarrow> nat \<Rightarrow> 's \<Rightarrow> ((go_error list + 'p) \<times> 's) option"
where
  "retry_loop attempt ck deadline n s =
     (case attempt n s of
        (Inr p, s') \<Rightarrow> Some (Inr p, s')
      | (Inl lastErr, s') \<Rightarrow>
          if ck_now ck n > deadline then Some (Inl [lastErr], s')
          else case ck_done ck n of
            Some e \<Rightarrow> Some (Inl [e, lastErr], s')
          | None \<Rightarrow> retry_loop attempt ck deadline (Suc n) s')"

definition positive_timeout :: "go_duration \<Rightarrow> go_duration" where
  "positive_timeout timeout = (if timeout \<le> 0 then 30 * Second else timeout)"

section \<open>Connecting\<close>

text \<open>The PostgreSQL client library: its configuration \<open>'c\<close>, its pools \<open>'p\<close>, and the pools opened and closed.\<close>

record ('c, 'p) pgx =
  pgx_ParseConfig :: "string \<Rightarrow> go_error + 'c"
  pgx_set_MaxConns :: "int \<Rightarrow> 'c \<Rightarrow> 'c"
  pgx_NewWithConfig :: "nat \<Rightarrow> 'c \<Rightarrow> go_error + 'p"
  pgx_Ping :: "nat \<Rightarrow> 'p \<Rightarrow> go_error option"

datatype 'p pool_event = Opened 'p | Closed 'p

definition Open :: "('c, 'p) pgx \<Rightarrow> nat \<Rightarrow> string \<Rightarrow> go_error + 'p" where
  "Open pgx n databaseURL =
     (case pgx_ParseConfig pgx databaseURL of
        Inl e \<Rightarrow> Inl e
      | Inr config \<Rightarrow> pgx_NewWithConfig pgx n (pgx_set_MaxConns pgx 8 config))"

definition open_attempt :: "('c, 'p) pgx \<Rightarrow> string \<Rightarrow> ('p pool_event list, 'p) attempt" where
  "open_attempt pgx databaseURL n events =
     (case Open pgx n databaseURL of
        Inl e \<Rightarrow> (Inl e, events)
      | Inr pool \<Rightarrow>
          (case pgx_Ping pgx n pool of
             None \<Rightarrow> (Inr pool, events @ [Opened pool])
           | Some pingErr \<Rightarrow> (Inl pingErr, events @ [Opened pool, Closed pool])))"

definition OpenWithRetry ::
  "('c, 'p) pgx \<Rightarrow> clock \<Rightarrow> string \<Rightarrow> go_duration \<Rightarrow> 'p pool_event list \<Rightarrow>
     ((go_error list + 'p) \<times> 'p pool_event list) option"
where
  "OpenWithRetry pgx ck databaseURL timeout events =
     retry_loop (open_attempt pgx databaseURL) ck (ck_start ck + positive_timeout timeout) 0 events"

definition ping_attempt :: "(nat \<Rightarrow> go_error option) \<Rightarrow> (unit, unit) attempt" where
  "ping_attempt ping n s = (case ping n of None \<Rightarrow> (Inr (), s) | Some e \<Rightarrow> (Inl e, s))"

definition WaitForReady ::
  "(nat \<Rightarrow> go_error option) \<Rightarrow> clock \<Rightarrow> go_duration \<Rightarrow> ((go_error list + unit) \<times> unit) option"
where
  "WaitForReady ping ck timeout =
     retry_loop (ping_attempt ping) ck (ck_start ck + positive_timeout timeout) 0 ()"

section \<open>Telemetry\<close>

text \<open>
  \<^verbatim>\<open>telemetry.Setup\<close>: without an endpoint a provider that exports nothing, and otherwise a batching exporter
  whose options come from the parsed endpoint.  OpenTelemetry is a library: whether the exporter and
  the resource can be made is a parameter, and so is \<^verbatim>\<open>url.Parse\<close> (the scheme and the host of a URL).
\<close>

datatype exporter_option = WithEndpoint string | WithInsecure

datatype tracer_provider = NoExporter | Batcher "exporter_option list" string

record otel =
  ot_url_Parse :: "string \<Rightarrow> (string \<times> string) option"
  ot_exporter :: "exporter_option list \<Rightarrow> go_error option"
  ot_resource :: "string \<Rightarrow> go_error option"

definition exporter_options :: "otel \<Rightarrow> string \<Rightarrow> exporter_option list" where
  "exporter_options ot endpoint =
     (case ot_url_Parse ot endpoint of
        None \<Rightarrow> []
      | Some (scheme, host) \<Rightarrow>
          if host \<noteq> [] then WithEndpoint host # (if scheme = ''http'' then [WithInsecure] else []) else [])"

definition Setup :: "otel \<Rightarrow> string \<Rightarrow> string \<Rightarrow> go_error + tracer_provider" where
  "Setup ot serviceName endpoint =
     (if endpoint = [] then Inr NoExporter
      else
        let options = exporter_options ot endpoint in
        case ot_exporter ot options of
          Some e \<Rightarrow> Inl e
        | None \<Rightarrow> (case ot_resource ot serviceName of Some e \<Rightarrow> Inl e | None \<Rightarrow> Inr (Batcher options serviceName)))"

section \<open>The sequence of main\<close>

datatype exit_reason =
    InvalidConfig go_error
  | TelemetryFailed go_error
  | PostgresFailed "go_error list"
  | MigrationsFailed go_error
  | RedisFailed "go_error list"

record ('c, 'p, 'd) machine =
  ma_getenv :: getenv
  ma_frac :: frac
  ma_unix :: int
  ma_otel :: otel
  ma_pgx :: "('c, 'p) pgx"
  ma_pg_clock :: clock
  ma_migrations :: "'p \<Rightarrow> 'd migenv"
  ma_ping :: "string \<Rightarrow> nat \<Rightarrow> go_error option"
  ma_redis_clock :: clock

text \<open>
  From the loaded configuration on, both processes do the same.  Every failure ends the process
  (\<^verbatim>\<open>os.Exit(1)\<close>); the result is the reason, or the configuration to serve with, and the pool.
\<close>

definition bring_up ::
  "('c, 'p, 'd) machine \<Rightarrow> Config \<times> go_error option \<Rightarrow> 'd migdb \<Rightarrow> ((exit_reason + Config \<times> 'p) \<times> 'd migdb) option"
where
  "bring_up ma loaded m =
     (case loaded of
        (cfg, Some e) \<Rightarrow> Some (Inl (InvalidConfig e), m)
      | (cfg, None) \<Rightarrow>
        (case Setup (ma_otel ma) (cfg_ServiceName cfg) (cfg_OTLPTraceEndpoint cfg) of
           Inl e \<Rightarrow> Some (Inl (TelemetryFailed e), m)
         | Inr provider \<Rightarrow>
           (case OpenWithRetry (ma_pgx ma) (ma_pg_clock ma) (cfg_DatabaseURL cfg) (cfg_StartupTimeout cfg) [] of
              None \<Rightarrow> None
            | Some (Inl es, _) \<Rightarrow> Some (Inl (PostgresFailed es), m)
            | Some (Inr pool, _) \<Rightarrow>
              (case ApplyMigrations (ma_migrations ma pool) m of
                 (Some e, m') \<Rightarrow> Some (Inl (MigrationsFailed e), m')
               | (None, m') \<Rightarrow>
                 (case WaitForReady (ma_ping ma (cfg_RedisAddr cfg)) (ma_redis_clock ma) (cfg_StartupTimeout cfg) of
                    None \<Rightarrow> None
                  | Some (Inl es, _) \<Rightarrow> Some (Inl (RedisFailed es), m')
                  | Some (Inr _, _) \<Rightarrow> Some (Inr (cfg, pool), m'))))))"

definition api_startup ::
  "('c, 'p, 'd) machine \<Rightarrow> 'd migdb \<Rightarrow> ((exit_reason + Config \<times> 'p) \<times> 'd migdb) option"
where
  "api_startup ma = bring_up ma (LoadAPIConfig (ma_frac ma) (ma_getenv ma))"

definition worker_startup ::
  "('c, 'p, 'd) machine \<Rightarrow> 'd migdb \<Rightarrow> ((exit_reason + Config \<times> 'p) \<times> 'd migdb) option"
where
  "worker_startup ma = bring_up ma (LoadWorkerConfig (ma_frac ma) (ma_getenv ma) (ma_unix ma))"

section \<open>The loops return\<close>

text \<open>\<^verbatim>\<open>time.After(1 * time.Second)\<close>: a second passes between two attempts.\<close>

definition ticking :: "clock \<Rightarrow> bool" where
  "ticking ck \<longleftrightarrow> ck_start ck \<le> ck_now ck 0 \<and> (\<forall>n. ck_now ck n + Second \<le> ck_now ck (Suc n))"

lemma ticking_lower: "ticking ck \<Longrightarrow> ck_start ck + int n * Second \<le> ck_now ck n"
proof (induction n)
  case (Suc n)
  then have "ck_now ck n + Second \<le> ck_now ck (Suc n)" by (simp add: ticking_def)
  with Suc show ?case by (simp add: algebra_simps)
qed (simp add: ticking_def)

text \<open>The state after the first \<open>n\<close> attempts.\<close>

primrec after_attempts :: "('s, 'p) attempt \<Rightarrow> nat \<Rightarrow> 's \<Rightarrow> 's" where
  "after_attempts attempt 0 s = s"
| "after_attempts attempt (Suc n) s = snd (attempt n (after_attempts attempt n s))"

text \<open>What the loop returns when it ends with attempt \<open>n\<close>.\<close>

definition ends_with :: "('s, 'p) attempt \<Rightarrow> clock \<Rightarrow> nat \<Rightarrow> 's \<Rightarrow> go_error list + 'p \<Rightarrow> bool" where
  "ends_with attempt ck n s res \<longleftrightarrow>
     (case fst (attempt n s) of
        Inr p \<Rightarrow> res = Inr p
      | Inl e \<Rightarrow> res = Inl [e] \<or> (\<exists>e'. ck_done ck n = Some e' \<and> res = Inl [e', e]))"

lemma retry_loop_stops:
  assumes "\<not> (isl (fst (attempt n s)) \<and> ck_now ck n \<le> deadline \<and> ck_done ck n = None)"
  shows "\<exists>res. ends_with attempt ck n s res \<and> retry_loop attempt ck deadline n s = Some (res, snd (attempt n s))"
  using assms
  by (subst retry_loop.simps) (auto simp: ends_with_def isl_def not_le split: prod.split sum.split option.split)

lemma retry_loop_goes_on:
  assumes "isl (fst (attempt n s))" "ck_now ck n \<le> deadline" "ck_done ck n = None"
  shows "retry_loop attempt ck deadline n s = retry_loop attempt ck deadline (Suc n) (snd (attempt n s))"
  using assms by (subst retry_loop.simps) (auto simp: isl_def not_le split: prod.split sum.split option.split)

text \<open>The loop ends with some attempt up to number \<open>k\<close>, when \<open>k\<close> seconds are longer than the timeout.\<close>

lemma retry_loop_ends:
  assumes "ticking ck" "int k * Second > deadline - ck_start ck" "n \<le> k"
  shows "\<exists>j res. n \<le> j \<and> j \<le> k \<and> (\<forall>i. n \<le> i \<and> i < j \<longrightarrow> isl (fst (attempt i (after_attempts attempt i s0)))) \<and>
     ends_with attempt ck j (after_attempts attempt j s0) res \<and>
     retry_loop attempt ck deadline n (after_attempts attempt n s0) = Some (res, after_attempts attempt (Suc j) s0)"
  using assms(3)
proof (induction "k - n" arbitrary: n)
  case 0
  then have "n = k" by simp
  with ticking_lower [OF assms(1), of k] assms(2) have "ck_now ck n > deadline" by simp
  then obtain res where "ends_with attempt ck n (after_attempts attempt n s0) res"
    "retry_loop attempt ck deadline n (after_attempts attempt n s0) = Some (res, after_attempts attempt (Suc n) s0)"
    using retry_loop_stops [of attempt n "after_attempts attempt n s0" ck deadline] by auto
  then show ?case using \<open>n = k\<close> by (intro exI [of _ n] exI [of _ res]) auto
next
  case (Suc x)
  let ?s = "after_attempts attempt n s0"
  show ?case
  proof (cases "isl (fst (attempt n ?s)) \<and> ck_now ck n \<le> deadline \<and> ck_done ck n = None")
    case True
    then have step: "retry_loop attempt ck deadline n ?s = retry_loop attempt ck deadline (Suc n) (after_attempts attempt (Suc n) s0)"
      using retry_loop_goes_on [of attempt n ?s ck deadline] by simp
    have "x = k - Suc n" "Suc n \<le> k" using Suc.hyps(2) by auto
    from Suc.hyps(1) [OF this] obtain j res where j: "Suc n \<le> j" "j \<le> k"
        "\<forall>i. Suc n \<le> i \<and> i < j \<longrightarrow> isl (fst (attempt i (after_attempts attempt i s0)))"
        "ends_with attempt ck j (after_attempts attempt j s0) res"
        "retry_loop attempt ck deadline (Suc n) (after_attempts attempt (Suc n) s0) = Some (res, after_attempts attempt (Suc j) s0)"
      by blast
    have "\<forall>i. n \<le> i \<and> i < j \<longrightarrow> isl (fst (attempt i (after_attempts attempt i s0)))"
      using j(3) True by (metis Suc_leI le_neq_implies_less)
    with j step show ?thesis by (metis Suc_leD)
  next
    case False
    then obtain res where "ends_with attempt ck n ?s res"
        "retry_loop attempt ck deadline n ?s = Some (res, after_attempts attempt (Suc n) s0)"
      using retry_loop_stops [of attempt n ?s ck deadline] by auto
    then show ?thesis using Suc.prems by (intro exI [of _ n] exI [of _ res]) auto
  qed
qed

definition max_attempts :: "go_duration \<Rightarrow> nat" where
  "max_attempts timeout = nat (positive_timeout timeout div Second) + 1"

lemma max_attempts_enough: "int (max_attempts timeout) * Second > positive_timeout timeout"
proof -
  have "0 \<le> positive_timeout timeout div Second"
    by (simp add: positive_timeout_def Second_def pos_imp_zdiv_nonneg_iff)
  moreover have "positive_timeout timeout < (positive_timeout timeout div Second + 1) * Second"
    using mult_div_mod_eq [of Second "positive_timeout timeout"] pos_mod_bound [of Second "positive_timeout timeout"]
    by (simp add: Second_def algebra_simps)
  ultimately show ?thesis by (simp add: max_attempts_def add.commute)
qed

text \<open>Both loops, from their first attempt.\<close>

lemma retry_from_start:
  assumes "ticking ck"
  obtains j res where "j \<le> max_attempts timeout"
    "\<forall>i < j. isl (fst (attempt i (after_attempts attempt i s0)))"
    "ends_with attempt ck j (after_attempts attempt j s0) res"
    "retry_loop attempt ck (ck_start ck + positive_timeout timeout) 0 s0 = Some (res, after_attempts attempt (Suc j) s0)"
  using retry_loop_ends [OF assms, of "ck_start ck + positive_timeout timeout" "max_attempts timeout" 0 attempt s0]
    max_attempts_enough [of timeout] by auto

text \<open>Failed attempts close what they opened.\<close>

definition closed_again :: "'p list \<Rightarrow> 'p pool_event list" where
  "closed_again pools = concat (map (\<lambda>p. [Opened p, Closed p]) pools)"

lemma failed_attempts_closed:
  assumes "\<forall>i < j. isl (fst (open_attempt pgx url i (after_attempts (open_attempt pgx url) i [])))"
  shows "\<exists>pools. after_attempts (open_attempt pgx url) j [] = closed_again pools"
  using assms
proof (induction j)
  case (Suc j)
  then obtain pools where p: "after_attempts (open_attempt pgx url) j [] = closed_again pools" by auto
  have "isl (fst (open_attempt pgx url j (closed_again pools)))" using Suc.prems p by auto
  then have "snd (open_attempt pgx url j (closed_again pools)) =
      closed_again (pools @ (case Open pgx j url of Inl _ \<Rightarrow> [] | Inr pool \<Rightarrow> [pool]))"
    by (auto simp: open_attempt_def closed_again_def split: sum.splits option.splits)
  with p show ?case by auto
qed (auto simp: closed_again_def)

text \<open>
  \<^verbatim>\<open>OpenWithRetry\<close> returns after at most one attempt per second of the timeout and one more.  It
  returns a pool only when that pool answered a ping, and then every other pool it opened is closed;
  otherwise it returns the error of the last attempt, joined with the error of the context if that
  ended the wait, and every pool it opened is closed.
\<close>

lemma open_with_retry_returns:
  assumes "ticking ck"
  shows "\<exists>j res pools. j \<le> max_attempts timeout \<and>
     (case res of
        Inr pool \<Rightarrow> Open pgx j url = Inr pool \<and> pgx_Ping pgx j pool = None \<and>
          OpenWithRetry pgx ck url timeout [] = Some (res, closed_again pools @ [Opened pool])
      | Inl es \<Rightarrow> es \<noteq> [] \<and> last es = projl (fst (open_attempt pgx url j [])) \<and>
          OpenWithRetry pgx ck url timeout [] = Some (res, closed_again pools))"
proof -
  let ?at = "open_attempt pgx url"
  obtain j res where j: "j \<le> max_attempts timeout" "\<forall>i < j. isl (fst (?at i (after_attempts ?at i [])))"
    and e: "ends_with ?at ck j (after_attempts ?at j []) res"
    and l: "OpenWithRetry pgx ck url timeout [] = Some (res, after_attempts ?at (Suc j) [])"
    unfolding OpenWithRetry_def using retry_from_start [OF assms] by metis
  obtain pools where p: "after_attempts ?at j [] = closed_again pools" using failed_attempts_closed [OF j(2)] by blast
  show ?thesis
  proof (cases "fst (?at j (closed_again pools))")
    case (Inr pool)
    then have "Open pgx j url = Inr pool" "pgx_Ping pgx j pool = None"
      by (auto simp: open_attempt_def split: sum.splits option.splits)
    then show ?thesis using j(1) e l p Inr
      by (intro exI [of _ j] exI [of _ res] exI [of _ pools]) (simp add: ends_with_def open_attempt_def)
  next
    case (Inl err)
    then have err: "fst (?at j []) = Inl err" by (auto simp: open_attempt_def split: sum.splits option.splits)
    then have "\<exists>pools'. after_attempts ?at (Suc j) [] = closed_again pools'"
      by (intro failed_attempts_closed) (use j(2) p Inl in \<open>auto simp: less_Suc_eq\<close>)
    then obtain pools' where "after_attempts ?at (Suc j) [] = closed_again pools'" by blast
    moreover have "\<exists>es. res = Inl es \<and> es \<noteq> [] \<and> last es = err"
      using e p Inl by (auto simp: ends_with_def)
    ultimately show ?thesis using j(1) l err
      by (auto intro!: exI [of _ j] exI [of _ res] exI [of _ pools'])
  qed
qed

text \<open>A server that answers the second ping, and a clock that shows one second per attempt.\<close>

definition demo_clock :: clock where
  "demo_clock = \<lparr>ck_start = 0, ck_now = (\<lambda>n. int n * Second), ck_done = (\<lambda>_. None)\<rparr>"

lemma demo_clock_ticking: "ticking demo_clock"
  by (simp add: ticking_def demo_clock_def algebra_simps)

definition demo_pgx :: "(unit, nat) pgx" where
  "demo_pgx = \<lparr>pgx_ParseConfig = (\<lambda>_. Inr ()), pgx_set_MaxConns = (\<lambda>_ c. c), pgx_NewWithConfig = (\<lambda>n _. Inr n),
     pgx_Ping = (\<lambda>n _. if n = 0 then Some (DriverError ''starting up'') else None)\<rparr>"

lemma demo_open: "OpenWithRetry demo_pgx demo_clock url timeout [] = Some (Inr 1, [Opened 0, Closed 0, Opened 1])"
proof -
  have "\<not> deadline < 0" if "deadline = positive_timeout timeout" for deadline
    using that by (simp add: positive_timeout_def Second_def)
  then show ?thesis
    by (subst OpenWithRetry_def, subst retry_loop.simps, subst retry_loop.simps)
       (simp add: demo_pgx_def demo_clock_def open_attempt_def Open_def)
qed

lemma open_returns:
  assumes "ticking ck"
  shows "\<exists>res evs. OpenWithRetry pgx ck url timeout [] = Some (res, evs) \<and>
     (\<forall>pool. res = Inr pool \<longrightarrow> (\<exists>j. pgx_Ping pgx j pool = None))"
proof -
  let ?at = "open_attempt pgx url"
  obtain j res where "ends_with ?at ck j (after_attempts ?at j []) res"
    "OpenWithRetry pgx ck url timeout [] = Some (res, after_attempts ?at (Suc j) [])"
    unfolding OpenWithRetry_def using retry_from_start [OF assms] by metis
  then show ?thesis by (auto simp: ends_with_def open_attempt_def split: sum.splits option.splits)
qed

lemma wait_for_ready_returns:
  assumes "ticking ck"
  shows "\<exists>res. WaitForReady ping ck timeout = Some (res, ()) \<and> (res = Inr () \<longrightarrow> (\<exists>j. ping j = None))"
proof -
  obtain j res where "ends_with (ping_attempt ping) ck j (after_attempts (ping_attempt ping) j ()) res"
    "WaitForReady ping ck timeout = Some (res, after_attempts (ping_attempt ping) (Suc j) ())"
    unfolding WaitForReady_def using retry_from_start [OF assms] by metis
  then show ?thesis by (auto simp: ends_with_def ping_attempt_def split: option.splits)
qed

text \<open>What holds of a process that serves.\<close>

definition ready_to_serve :: "('c, 'p, 'd) machine \<Rightarrow> string \<Rightarrow> Config \<Rightarrow> 'p \<Rightarrow> 'd migdb \<Rightarrow> bool" where
  "ready_to_serve ma kind cfg pool m \<longleftrightarrow>
     environment_ok (ma_frac ma) (ma_getenv ma) kind \<and>
     (\<exists>j. pgx_Ping (ma_pgx ma) j pool = None) \<and> (\<exists>j. ma_ping ma (cfg_RedisAddr cfg) j = None) \<and>
     (\<forall>entries. mig_readdir (ma_migrations ma pool) = Inr entries \<longrightarrow>
        set (migration_files entries) \<subseteq> set (mg_versions m))"

lemma bring_up_decides:
  assumes "ticking (ma_pg_clock ma)" "ticking (ma_redis_clock ma)"
    and "\<And>cfg. loaded = (cfg, None) \<Longrightarrow> environment_ok (ma_frac ma) (ma_getenv ma) kind"
  shows "\<exists>res m'. bring_up ma loaded m = Some (res, m') \<and>
     (case res of Inl _ \<Rightarrow> True | Inr (cfg, pool) \<Rightarrow> ready_to_serve ma kind cfg pool m')"
proof -
  obtain cfg err where loaded: "loaded = (cfg, err)" by fastforce
  obtain pres evs where pg: "OpenWithRetry (ma_pgx ma) (ma_pg_clock ma) (cfg_DatabaseURL cfg) (cfg_StartupTimeout cfg) [] = Some (pres, evs)"
    and pinged: "\<And>pool. pres = Inr pool \<Longrightarrow> \<exists>j. pgx_Ping (ma_pgx ma) j pool = None"
    using open_returns [OF assms(1)] by metis
  obtain rres where rd: "WaitForReady (ma_ping ma (cfg_RedisAddr cfg)) (ma_redis_clock ma) (cfg_StartupTimeout cfg) = Some (rres, ())"
    and ready: "rres = Inr () \<Longrightarrow> \<exists>j. ma_ping ma (cfg_RedisAddr cfg) j = None"
    using wait_for_ready_returns [OF assms(2)] by metis
  show ?thesis
  proof (cases pres)
    case (Inl es)
    then show ?thesis by (simp add: bring_up_def loaded pg split: option.split sum.split)
  next
    case (Inr pool)
    obtain merr m' where mig: "ApplyMigrations (ma_migrations ma pool) m = (merr, m')" by fastforce
    have "ready_to_serve ma kind cfg pool m'" if "err = None" "merr = None" "rres = Inr ()"
      using that assms(3) loaded pinged Inr ready mig ApplyMigrations_recorded [of "ma_migrations ma pool" m m']
      by (simp add: ready_to_serve_def)
    then show ?thesis by (cases rres) (auto simp: bring_up_def loaded pg rd Inr mig split: option.split sum.split)
  qed
qed

text \<open>
  C26.  Start-up comes to an end: each process exits with a reason or serves.  It serves only with an
  accepted configuration, a database and a Redis that answered, and every migration file of its
  directory recorded.
\<close>

theorem startup_decides:
  assumes "ticking (ma_pg_clock ma)" "ticking (ma_redis_clock ma)"
  shows "(\<exists>res m'. api_startup ma m = Some (res, m') \<and>
     (case res of Inl _ \<Rightarrow> True | Inr (cfg, pool) \<Rightarrow> ready_to_serve ma ''api'' cfg pool m')) \<and>
   (\<exists>res m'. worker_startup ma m = Some (res, m') \<and>
     (case res of Inl _ \<Rightarrow> True | Inr (cfg, pool) \<Rightarrow> ready_to_serve ma ''worker'' cfg pool m'))"
  unfolding api_startup_def worker_startup_def
  by (intro conjI bring_up_decides assms) (simp_all add: load_api_iff load_worker_iff)

definition demo_machine :: "(unit, nat, string list) machine" where
  "demo_machine = \<lparr>ma_getenv = demo_getenv, ma_frac = (\<lambda>f k unit. 0), ma_unix = 1700000000,
     ma_otel = \<lparr>ot_url_Parse = (\<lambda>_. None), ot_exporter = (\<lambda>_. None), ot_resource = (\<lambda>_. None)\<rparr>, ma_pgx = demo_pgx, ma_pg_clock = demo_clock,
     ma_migrations = (\<lambda>_. demo_migenv (\<lambda>_. CommitOk)), ma_ping = (\<lambda>_ _. None), ma_redis_clock = demo_clock\<rparr>"

theorem startup_decides_witness:
  "\<exists>cfg pool m'. worker_startup demo_machine \<lparr>mg_versions = [], mg_schema = []\<rparr> = Some (Inr (cfg, pool), m') \<and>
     ready_to_serve demo_machine ''worker'' cfg pool m'"
proof -
  let ?m = "\<lparr>mg_versions = [], mg_schema = []\<rparr> :: string list migdb"
  have clocks: "ticking (ma_pg_clock demo_machine)" "ticking (ma_redis_clock demo_machine)"
    by (simp_all add: demo_machine_def demo_clock_ticking)
  obtain cfg where cfg: "LoadWorkerConfig (\<lambda>f k unit. 0) demo_getenv 1700000000 = (cfg, None)"
    using load_worker_iff demo_getenv_ok by blast
  obtain m' where "ApplyMigrations (demo_migenv (\<lambda>_. CommitOk)) ?m = (None, m')"
    by (simp add: ApplyMigrations_def demo_migenv_def demo_files apply_migration_def sql_already_applied_def sql_record_version_def)
  moreover have "WaitForReady (\<lambda>_. None) demo_clock timeout = Some (Inr (), ())" for timeout
    by (subst WaitForReady_def, subst retry_loop.simps) (simp add: ping_attempt_def)
  ultimately have "\<exists>m'. worker_startup demo_machine ?m = Some (Inr (cfg, 1), m')"
    by (simp add: worker_startup_def bring_up_def demo_machine_def cfg demo_open Setup_def)
  with startup_decides [OF clocks, of ?m] show ?thesis by fastforce
qed

end
