(* ===== verification/Lifetime.thy ===== *)
theory Lifetime
  imports QueueProps Startup
begin

text \<open>
  The end of \<^verbatim>\<open>main\<close> in \<^verbatim>\<open>apps/worker/main.go\<close> and \<^verbatim>\<open>apps/api/main.go\<close>: the HTTP server, the background goroutine
  (the consumer of the worker, the publisher of the API), which nobody waits for, the goroutine that shuts the
  server down when the context is done, and the deferred calls.  A process is a step relation over these, in any order.
\<close>

section \<open>States and steps\<close>

definition Canceled :: go_error where
  "Canceled = ContextError ''context canceled''"

definition ErrServerClosed :: go_error where
  "ErrServerClosed = ErrorString ''http: Server closed''"

text \<open>The goroutine works without or with a connection of the pool, or it has returned.\<close>

datatype background = Working bool | Stopped "go_error option"

datatype server = Listening | Returned "go_error option"

text \<open>What \<^verbatim>\<open>main\<close> defers, the last first.\<close>

datatype resource = Streams | Pool | Tracing | Signals

record process =
  ps_done :: bool
  ps_background :: background
  ps_shutdown :: bool
  ps_server :: server
  ps_returning :: bool
  ps_deferred :: "resource list"
  ps_exit :: "nat option"

definition process_start :: process where
  "process_start = \<lparr>ps_done = False, ps_background = Working False, ps_shutdown = False, ps_server = Listening,
     ps_returning = False, ps_deferred = [Streams, Pool, Tracing, Signals], ps_exit = None\<rparr>"

text \<open>\<^verbatim>\<open>err != nil && !errors.Is(err, target)\<close>\<close>

definition unexpected :: "go_error \<Rightarrow> go_error option \<Rightarrow> bool" where
  "unexpected target err = (case err of None \<Rightarrow> False | Some e \<Rightarrow> \<not> error_is e target)"

text \<open>
  \<open>stops\<close> says whether the background goroutine cancels the context when it fails: that of the worker calls
  \<^verbatim>\<open>stop()\<close>, that of the API only logs.  \<^verbatim>\<open>ListenAndServe\<close> returns \<^verbatim>\<open>ErrServerClosed\<close> once \<^verbatim>\<open>Shutdown\<close> was called, and
  may fail before.  \<^verbatim>\<open>os.Exit(1)\<close> and the panic of a goroutine (status 2) run no deferred call.  The deferred calls run
  one after the other; \<^verbatim>\<open>pool.Close\<close> waits until no connection is in use, and afterwards none is handed out.  The deferred
  \<^verbatim>\<open>stop()\<close> ends the context.
\<close>

inductive process_step :: "bool \<Rightarrow> process \<Rightarrow> process \<Rightarrow> bool" for stops where
  signal: "process_step stops p (p\<lparr>ps_done := True\<rparr>)"
    if "ps_exit p = None" "\<not> ps_done p"
| acquire: "process_step stops p (p\<lparr>ps_background := Working True\<rparr>)"
    if "ps_exit p = None" "ps_background p = Working False" "Pool \<in> set (ps_deferred p)"
| release: "process_step stops p (p\<lparr>ps_background := Working False\<rparr>)"
    if "ps_exit p = None" "ps_background p = Working True"
| background_returns: "process_step stops p
      (p\<lparr>ps_background := Stopped err, ps_done := ps_done p \<or> stops \<and> unexpected Canceled err\<rparr>)"
    if "ps_exit p = None" "ps_background p = Working False"
| background_panics: "process_step stops p (p\<lparr>ps_exit := Some 2\<rparr>)"
    if "ps_exit p = None" "ps_background p = Working busy"
| shutdown: "process_step stops p (p\<lparr>ps_shutdown := True\<rparr>)"
    if "ps_exit p = None" "ps_done p" "\<not> ps_shutdown p"
| server_closed: "process_step stops p (p\<lparr>ps_server := Returned (Some ErrServerClosed)\<rparr>)"
    if "ps_exit p = None" "ps_shutdown p" "ps_server p = Listening"
| server_fails: "process_step stops p (p\<lparr>ps_server := Returned (Some e)\<rparr>)"
    if "ps_exit p = None" "ps_server p = Listening" "\<not> error_is e ErrServerClosed"
| main_returns: "process_step stops p
      (if unexpected ErrServerClosed err then p\<lparr>ps_exit := Some 1\<rparr> else p\<lparr>ps_returning := True\<rparr>)"
    if "ps_exit p = None" "ps_server p = Returned err" "\<not> ps_returning p"
| close: "process_step stops p (p\<lparr>ps_deferred := rest, ps_done := ps_done p \<or> r = Signals\<rparr>)"
    if "ps_exit p = None" "ps_returning p" "ps_deferred p = r # rest" "r = Pool \<longrightarrow> ps_background p \<noteq> Working True"
| main_ends: "process_step stops p (p\<lparr>ps_exit := Some 0\<rparr>)"
    if "ps_exit p = None" "ps_returning p" "ps_deferred p = []"

inductive_cases process_stepE: "process_step stops p q"

text \<open>The two programs.\<close>

definition api_life :: "process \<Rightarrow> process \<Rightarrow> bool" where
  "api_life = process_step False"

definition worker_life :: "process \<Rightarrow> process \<Rightarrow> bool" where
  "worker_life = process_step True"

definition process_reachable :: "bool \<Rightarrow> process \<Rightarrow> bool" where
  "process_reachable stops p \<longleftrightarrow> (process_step stops)\<^sup>*\<^sup>* process_start p"

section \<open>How a life ends\<close>

text \<open>
  A process that exits with status 0 was told to stop, has shut its server down and has closed everything;
  one that exits with status 1 had its server fail and closed nothing.  No connection is in use once the pool is closed.
\<close>

definition process_ok :: "bool \<Rightarrow> process \<Rightarrow> bool" where
  "process_ok stops p \<longleftrightarrow>
     (ps_shutdown p \<longrightarrow> ps_done p) \<and>
     (ps_server p = Returned (Some ErrServerClosed) \<longrightarrow> ps_shutdown p) \<and>
     (\<forall>err. ps_server p = Returned err \<longrightarrow> err = Some ErrServerClosed \<or> unexpected ErrServerClosed err) \<and>
     (ps_returning p \<longrightarrow> ps_server p = Returned (Some ErrServerClosed)) \<and>
     (\<not> ps_returning p \<longrightarrow> ps_deferred p = [Streams, Pool, Tracing, Signals]) \<and>
     ps_deferred p \<in> set (map (\<lambda>n. drop n [Streams, Pool, Tracing, Signals]) [0..<5]) \<and>
     (Pool \<notin> set (ps_deferred p) \<longrightarrow> ps_background p \<noteq> Working True) \<and>
     (stops \<longrightarrow> (\<forall>err. ps_background p = Stopped err \<longrightarrow> unexpected Canceled err \<longrightarrow> ps_done p)) \<and>
     (case ps_exit p of
        None \<Rightarrow> True
      | Some c \<Rightarrow> c = 0 \<and> ps_returning p \<and> ps_deferred p = [] \<or>
          c = 1 \<and> \<not> ps_returning p \<and> (\<exists>err. ps_server p = Returned err \<and> unexpected ErrServerClosed err) \<or> c = 2)"

lemma step_ok:
  assumes "process_step stops p q" "process_ok stops p"
  shows "process_ok stops q"
  using assms
  by (cases rule: process_step.cases) (auto simp: process_ok_def unexpected_def upt_rec numeral_eq_Suc)

lemma reachable_ok: "process_reachable stops p \<Longrightarrow> process_ok stops p"
  unfolding process_reachable_def
proof (induction rule: rtranclp_induct)
  case base
  show ?case by (simp add: process_ok_def process_start_def upt_rec numeral_eq_Suc)
next
  case (step p q)
  then show ?case using step_ok by blast
qed

text \<open>A process that is to stop is not stuck: at worst the pool waits for a connection that the goroutine can release.\<close>

lemma not_stuck:
  assumes "ps_exit p = None" "ps_done p \<or> ps_server p \<noteq> Listening"
  shows "\<exists>q. process_step stops p q"
proof (cases "ps_server p")
  case Listening
  then have "ps_done p" using assms(2) by simp
  then show ?thesis
    using process_step.shutdown [OF assms(1)] process_step.server_closed [OF assms(1) _ Listening] by blast
next
  case (Returned err)
  show ?thesis
  proof (cases "ps_returning p")
    case True
    then show ?thesis
      using process_step.main_ends [OF assms(1) True] process_step.close [OF assms(1) True] process_step.release [OF assms(1)]
      by (cases "ps_deferred p") blast+
  qed (use process_step.main_returns [OF assms(1) Returned] in blast)
qed

text \<open>A worker whose consumer met a message it could not decode ends with status 0.\<close>

lemma failed_worker_exits_zero:
  assumes "unexpected Canceled (Some e)"
  shows "\<exists>p. worker_life\<^sup>*\<^sup>* process_start p \<and> ps_background p = Stopped (Some e) \<and> ps_exit p = Some 0"
proof -
  let ?step = "process_step True"
  let ?p1 = "process_start\<lparr>ps_background := Stopped (Some e), ps_done := True\<rparr>"
  let ?p2 = "?p1\<lparr>ps_shutdown := True\<rparr>"
  let ?p3 = "?p2\<lparr>ps_server := Returned (Some ErrServerClosed)\<rparr>"
  let ?p4 = "?p3\<lparr>ps_returning := True\<rparr>"
  have "?step process_start ?p1"
    using process_step.background_returns [of process_start True "Some e"] assms by (simp add: process_start_def)
  moreover have "?step ?p1 ?p2" by (rule process_step.shutdown) (simp_all add: process_start_def)
  moreover have "?step ?p2 ?p3" by (rule process_step.server_closed) (simp_all add: process_start_def)
  moreover have "?step ?p3 ?p4"
    using process_step.main_returns [of ?p3 "Some ErrServerClosed" True] by (simp add: process_start_def unexpected_def)
  moreover have closes: "?step\<^sup>*\<^sup>* (?p4\<lparr>ps_deferred := rs\<rparr>) (?p4\<lparr>ps_deferred := []\<rparr>)" for rs
  proof (induction rs)
    case (Cons r rs)
    have "?step (?p4\<lparr>ps_deferred := r # rs\<rparr>) (?p4\<lparr>ps_deferred := rs\<rparr>)"
      using process_step.close [of "?p4\<lparr>ps_deferred := r # rs\<rparr>" r rs True] by (simp add: process_start_def)
    with Cons.IH show ?case by simp
  qed simp
  from closes [of "ps_deferred process_start"] have "?step\<^sup>*\<^sup>* ?p4 (?p4\<lparr>ps_deferred := []\<rparr>)" by (simp add: process_start_def)
  moreover have "?step (?p4\<lparr>ps_deferred := []\<rparr>) (?p4\<lparr>ps_deferred := [], ps_exit := Some 0\<rparr>)"
    using process_step.main_ends [of "?p4\<lparr>ps_deferred := []\<rparr>" True] by (simp add: process_start_def)
  ultimately have "worker_life\<^sup>*\<^sup>* process_start (?p4\<lparr>ps_deferred := [], ps_exit := Some 0\<rparr>)"
    unfolding worker_life_def by (meson converse_rtranclp_into_rtranclp rtranclp.rtrancl_into_rtrancl)
  then show ?thesis by (intro exI conjI, assumption) simp_all
qed

end
