(* ===== verification/JsonRound.thy ===== *)
theory JsonRound
  imports GoText
begin

text \<open>
  \<^verbatim>\<open>json.Unmarshal\<close> after \<^verbatim>\<open>json.Marshal\<close>: every value with well-formed strings and numbers, nested less deep
  than the decoder's limit, comes back as it was (\<open>json_decode_print\<close>).  Numbers are the texts that the
  token automaton accepts; those that \<^verbatim>\<open>strconv.Itoa\<close> writes are.
\<close>

section \<open>Numbers\<close>

fun num_run :: "num_state \<Rightarrow> string \<Rightarrow> num_state option" where
  "num_run st [] = Some st"
| "num_run st (c # cs) = (case num_step st c of None \<Rightarrow> None | Some st' \<Rightarrow> num_run st' cs)"

definition number :: "string \<Rightarrow> bool" where
  "number n \<longleftrightarrow> (\<exists>c cs st0 st. n = c # cs \<and> idle_step c = Some (LNum st0 [c], []) \<and> num_run st0 cs = Some st \<and> num_final st)"

lemma num_run_digits: "list_all is_digit ds \<Longrightarrow> num_run NInt ds = Some NInt"
  by (induction ds) (auto simp: num_step_def)

lemma idle_step_digit: "is_digit c \<Longrightarrow> c \<noteq> CHR ''0'' \<Longrightarrow> idle_step c = Some (LNum NInt [c], [])"
proof -
  assume c: "is_digit c" "c \<noteq> CHR ''0''"
  have "\<not> is_digit (CHR 0x20)" "\<not> is_digit (CHR 0x09)" "\<not> is_digit (CHR 0x0D)" "\<not> is_digit (CHR 0x0A)"
    "\<not> is_digit (CHR 0x7B)" "\<not> is_digit (CHR 0x7D)" "\<not> is_digit (CHR 0x5B)" "\<not> is_digit (CHR 0x5D)"
    "\<not> is_digit (CHR 0x3A)" "\<not> is_digit (CHR 0x2C)" "\<not> is_digit (CHR 0x22)" "\<not> is_digit (CHR ''-'')"
    by (simp_all add: is_digit_def byte_in_def byte_def)
  then have "c \<noteq> CHR 0x20" "c \<noteq> CHR 0x09" "c \<noteq> CHR 0x0D" "c \<noteq> CHR 0x0A" "c \<noteq> CHR 0x7B" "c \<noteq> CHR 0x7D"
    "c \<noteq> CHR 0x5B" "c \<noteq> CHR 0x5D" "c \<noteq> CHR 0x3A" "c \<noteq> CHR 0x2C" "c \<noteq> CHR 0x22" "c \<noteq> CHR ''-''"
    using c(1) by blast+
  with c show ?thesis by (simp add: idle_step_def)
qed

lemma number_nat_text: "number (nat_text n)"
proof (cases "n = 0")
  case True
  have "nat_text 0 = ''0''" by code_simp
  then show ?thesis unfolding True number_def by (simp add: idle_step_def num_final_def)
next
  case False
  then obtain c cs where c: "nat_text n = c # cs" "is_digit c" "c \<noteq> CHR ''0''" "list_all is_digit cs"
    using nat_text_Cons [of n] by blast
  then show ?thesis unfolding number_def
    by (intro exI [of _ c] exI [of _ cs] exI [of _ NInt]) (simp add: idle_step_digit num_run_digits num_final_def)
qed

lemma number_Itoa: "number (Itoa i)"
proof (cases "i < 0")
  case True
  then obtain c cs where c: "nat_text (nat (- i)) = c # cs" "is_digit c" "c \<noteq> CHR ''0''" "list_all is_digit cs"
    using nat_text_Cons [of "nat (- i)"] by auto
  then have "num_run NNeg (nat_text (nat (- i))) = Some NInt"
    by (simp add: num_step_def num_run_digits)
  then show ?thesis using True unfolding number_def Itoa_def
    by (simp add: idle_step_def num_final_def)
qed (simp add: Itoa_def number_nat_text)

text \<open>What may follow a value in a printed text: nothing, the end of its container, a comma, or a newline.\<close>

definition ends_value :: "string \<Rightarrow> bool" where
  "ends_value rest \<longleftrightarrow> rest = [] \<or> hd rest \<in> {CHR 0x2C, CHR 0x5D, CHR 0x7D, CHR 0x0A}"

lemma num_step_delimiter: "c \<in> {CHR 0x2C, CHR 0x5D, CHR 0x7D, CHR 0x0A} \<Longrightarrow> num_step st c = None"
  by (cases st) (auto simp: num_step_def is_digit_def byte_in_def byte_def)

lemma lex_number_rest:
  assumes "num_run st cs = Some st'" "num_final st'" "ends_value rest"
  shows "lex (LNum st acc) (cs @ rest) = map_option (append [TNum (acc @ cs)]) (lex LIdle rest)"
  using assms
proof (induction cs arbitrary: st acc)
  case Nil
  then have fin: "num_final st" by simp
  show ?case
  proof (cases rest)
    case Nil
    with fin show ?thesis by (simp add: lex_end_def)
  next
    case (Cons c r)
    then have c: "c \<in> {CHR 0x2C, CHR 0x5D, CHR 0x7D, CHR 0x0A}" using Nil.prems(3) by (simp add: ends_value_def)
    then obtain us where "idle_step c = Some (LIdle, us)" by (auto simp: idle_step_def)
    with Cons fin num_step_delimiter [OF c] show ?thesis
      by (cases "lex LIdle r") auto
  qed
next
  case (Cons c cs)
  then obtain st1 where "num_step st c = Some st1" "num_run st1 cs = Some st'" by (auto split: option.splits)
  with Cons.IH [of st1 "acc @ [c]"] Cons.prems show ?case
    by (cases "lex LIdle rest") auto
qed

lemma lex_number:
  assumes "number n" "ends_value rest"
  shows "lex LIdle (n @ rest) = map_option (append [TNum n]) (lex LIdle rest)"
proof -
  from assms(1) obtain c cs st0 st where n: "n = c # cs" "idle_step c = Some (LNum st0 [c], [])"
      "num_run st0 cs = Some st" "num_final st" by (auto simp: number_def)
  from lex_number_rest [OF n(3,4) assms(2), of "[c]"] n(1,2) show ?thesis
    by (cases "lex LIdle rest") auto
qed

section \<open>Tokens of a value\<close>

fun with_commas :: "json_token list list \<Rightarrow> json_token list" where
  "with_commas [] = []"
| "with_commas [x] = x"
| "with_commas (x # xs) = x @ TComma # with_commas xs"

fun tokens :: "json \<Rightarrow> json_token list" where
  "tokens JNull = [TNull]"
| "tokens (JBool b) = [if b then TTrue else TFalse]"
| "tokens (JNum n) = [TNum n]"
| "tokens (JStr s) = [TStr s]"
| "tokens (JArr js) = TBeginArr # with_commas (map tokens js) @ [TEndArr]"
| "tokens (JObj ms) = TBeginObj # with_commas (map (\<lambda>(k, j). TStr k # TColon # tokens j) ms) @ [TEndObj]"

fun well_formed :: "json \<Rightarrow> bool" where
  "well_formed JNull = True"
| "well_formed (JBool b) = True"
| "well_formed (JNum n) = number n"
| "well_formed (JStr s) = utf8_valid s"
| "well_formed (JArr js) = list_all well_formed js"
| "well_formed (JObj ms) = list_all (\<lambda>(k, j). utf8_valid k \<and> well_formed j) ms"

fun nesting :: "json \<Rightarrow> nat" where
  "nesting (JArr js) = Suc (foldr max (map nesting js) 0)"
| "nesting (JObj ms) = Suc (foldr max (map (\<lambda>(k, j). nesting j) ms) 0)"
| "nesting _ = 0"

text \<open>Lexing one text is lexing its tokens; \<open>lexes x ts\<close> says so before any end of a value.\<close>

definition lexes :: "string \<Rightarrow> json_token list \<Rightarrow> bool" where
  "lexes x ts \<longleftrightarrow> (\<forall>rest. ends_value rest \<longrightarrow> lex LIdle (x @ rest) = map_option (append ts) (lex LIdle rest))"

lemma lexesD: "lexes x ts \<Longrightarrow> ends_value rest \<Longrightarrow> lex LIdle (x @ rest) = map_option (append ts) (lex LIdle rest)"
  by (simp add: lexes_def)

lemma lexes_commas:
  assumes "list_all2 lexes xs tss"
  shows "lexes (join_comma xs) (with_commas tss)"
  using assms
proof (induction xs arbitrary: tss rule: join_comma.induct)
  case (3 x y xs)
  then obtain t ts' where t: "tss = t # ts'" "lexes x t" "list_all2 lexes (y # xs) ts'" by (auto simp: list_all2_Cons1)
  note rec = "3.IH" [OF t(3)]
  obtain u us where ts': "ts' = u # us" using t(3) by (auto simp: list_all2_Cons1)
  show ?case unfolding lexes_def
  proof (intro allI impI)
    fix rest assume e: "ends_value rest"
    have "ends_value (CHR 0x2C # join_comma (y # xs) @ rest)" by (simp add: ends_value_def)
    from lexesD [OF t(2) this] lexesD [OF rec e]
    show "lex LIdle (join_comma (x # y # xs) @ rest) = map_option (append (with_commas tss)) (lex LIdle rest)"
      by (cases "lex LIdle rest") (simp_all add: t(1) ts' idle_step_def)
  qed
next
  case (2 x)
  then obtain t where "tss = [t]" "lexes x t" by (auto simp: list_all2_Cons1)
  then show ?case by simp
qed (simp add: lexes_def option.map_ident)

lemma lexes_member:
  assumes "utf8_valid k" "lexes x ts"
  shows "lexes (json_quote k @ [CHR 0x3A] @ x) (TStr k # TColon # ts)"
  unfolding lexes_def
proof (intro allI impI)
  fix rest assume "ends_value rest"
  from lexesD [OF assms(2) this]
  show "lex LIdle ((json_quote k @ [CHR 0x3A] @ x) @ rest) = map_option (append (TStr k # TColon # ts)) (lex LIdle rest)"
    by (cases "lex LIdle rest") (simp_all add: json_quote_lex [OF assms(1)] idle_step_def)
qed

lemma lexes_bracket:
  assumes "lexes x ts"
  shows "lexes ([CHR 0x5B] @ x @ [CHR 0x5D]) (TBeginArr # ts @ [TEndArr])"
    "lexes ([CHR 0x7B] @ x @ [CHR 0x7D]) (TBeginObj # ts @ [TEndObj])"
  unfolding lexes_def
proof -
  have "ends_value (CHR 0x5D # rest)" "ends_value (CHR 0x7D # rest)" for rest by (simp_all add: ends_value_def)
  note ends = lexesD [OF assms this(1)] lexesD [OF assms this(2)]
  show "\<forall>rest. ends_value rest \<longrightarrow> lex LIdle (([CHR 0x5B] @ x @ [CHR 0x5D]) @ rest) =
      map_option (append (TBeginArr # ts @ [TEndArr])) (lex LIdle rest)"
    "\<forall>rest. ends_value rest \<longrightarrow> lex LIdle (([CHR 0x7B] @ x @ [CHR 0x7D]) @ rest) =
      map_option (append (TBeginObj # ts @ [TEndObj])) (lex LIdle rest)"
    using ends by (auto simp: idle_step_def option.map_comp comp_def fun_eq_iff intro!: option.map_cong)
qed

lemma lexes_literals: "lexes ''null'' [TNull]" "lexes ''true'' [TTrue]" "lexes ''false'' [TFalse]"
  by (auto simp: lexes_def idle_step_def is_digit_def byte_in_def byte_def)

lemma lex_print: "well_formed j \<Longrightarrow> lexes (json_print j) (tokens j)"
proof (induction j)
  case (JArr js)
  then have "list_all2 lexes (map json_print js) (map tokens js)"
    by (auto simp: list_all2_map1 list_all2_map2 list.rel_refl_strong list_all_iff intro!: list_all2_all_nthI)
  from lexes_bracket(1) [OF lexes_commas [OF this]] show ?case by simp
next
  case (JObj ms)
  let ?text = "\<lambda>(k, j). json_quote k @ [CHR 0x3A] @ json_print j" and ?toks = "\<lambda>(k, j). TStr k # TColon # tokens j"
  have "lexes (?text m) (?toks m)" if "m \<in> set ms" for m
  proof -
    obtain k j where m: "m = (k, j)" by fastforce
    then have "lexes (json_print j) (tokens j)" "utf8_valid k" using JObj that by (auto simp: list_all_iff)
    from lexes_member [OF this(2,1)] m show ?thesis by simp
  qed
  then have "list_all2 lexes (map ?text ms) (map ?toks ms)"
    by (auto simp: list_all2_conv_all_nth)
  from lexes_bracket(2) [OF lexes_commas [OF this]] show ?case by simp
next
  case (JNum n)
  then show ?case using lex_number [of n] by (simp add: lexes_def)
next
  case (JStr s)
  then show ?case using json_quote_lex [of s] by (simp add: lexes_def)
qed (simp_all add: lexes_literals)

section \<open>Parsing the tokens\<close>

definition fits :: "json_frame list \<Rightarrow> json \<Rightarrow> bool" where
  "fits st j \<longleftrightarrow> int (length st + nesting j) \<le> max_nesting_depth"

text \<open>Parsing the tokens of a value delivers it to the frame on top of the stack.\<close>

definition parses :: "json \<Rightarrow> bool" where
  "parses j \<longleftrightarrow> (\<forall>st ts. fits st j \<longrightarrow>
     parse_tokens (PVal, st) (tokens j @ ts) = parse_tokens (deliver j st) ts)"

lemma nesting_elem: "j \<in> set js \<Longrightarrow> nesting j \<le> foldr max (map nesting js) 0"
  by (induction js) auto

lemma nesting_member: "(k, j) \<in> set ms \<Longrightarrow> nesting j \<le> foldr max (map (\<lambda>(k, j). nesting j) ms) 0"
  by (induction ms) auto

lemma parse_elems:
  assumes "\<forall>j \<in> set js. parses j \<and> fits (FArr [] # st) j" "js \<noteq> []"
  shows "parse_tokens (PVal, FArr xs # st) (with_commas (map tokens js) @ TEndArr # ts) =
    parse_tokens (deliver (JArr (xs @ js)) st) ts"
  using assms
proof (induction js arbitrary: xs)
  case (Cons j js)
  have one: "parse_tokens (PVal, FArr xs # st) (tokens j @ us) = parse_tokens (PElem (xs @ [j]), st) us" for us
    using Cons.prems(1) by (simp add: parses_def fits_def)
  show ?case
  proof (cases js)
    case Nil
    then show ?thesis by (simp add: one parse_step_def)
  next
    case (Cons j' js')
    with Cons.IH [of "xs @ [j]"] Cons.prems(1) one show ?thesis by (simp add: parse_step_def)
  qed
qed simp

lemma parse_object_members:
  assumes "\<forall>m \<in> set ms. parses (snd m) \<and> fits (FArr [] # st) (snd m)" "ms \<noteq> []"
  shows "parse_tokens (PKey ns, st) (with_commas (map (\<lambda>(k, j). TStr k # TColon # tokens j) ms) @ TEndObj # ts) =
    parse_tokens (deliver (JObj (ns @ ms)) st) ts"
  using assms
proof (induction ms arbitrary: ns)
  case (Cons m ms)
  obtain k j where m: "m = (k, j)" by fastforce
  have one: "parse_tokens (PKey ns, st) (TStr k # TColon # tokens j @ us) = parse_tokens (PMem (ns @ [(k, j)]), st) us" for us
    using Cons.prems(1) m by (simp add: parses_def fits_def parse_step_def)
  show ?case
  proof (cases ms)
    case Nil
    then show ?thesis using one by (simp add: m parse_step_def)
  next
    case (Cons m' ms')
    obtain k' j' where m': "m' = (k', j')" by fastforce
    with Cons Cons.IH [of "ns @ [(k, j)]"] Cons.prems(1) one m show ?thesis by (simp add: parse_step_def)
  qed
qed simp

lemma parse_print: "parses j"
proof (induction j)
  case (JArr js)
  show ?case unfolding parses_def
  proof (intro allI impI)
    fix st ts assume fits: "fits st (JArr js)"
    then have elem: "\<forall>j \<in> set js. parses j \<and> fits (FArr [] # st) j"
      using JArr nesting_elem [of _ js] by (fastforce simp: fits_def)
    show "parse_tokens (PVal, st) (tokens (JArr js) @ ts) = parse_tokens (deliver (JArr js) st) ts"
    proof (cases js)
      case Nil
      with fits show ?thesis by (simp add: fits_def parse_step_def begin_value_def)
    next
      case (Cons j js')
      then have "parse_tokens (PValOrEnd, FArr [] # st) (with_commas (map tokens js) @ TEndArr # ts) =
          parse_tokens (PVal, FArr [] # st) (with_commas (map tokens js) @ TEndArr # ts)"
        by (cases j; cases js') (simp_all add: parse_step_def)
      moreover have "int (length st) < max_nesting_depth" using fits by (simp add: fits_def)
      moreover have "parse_tokens (PVal, FArr [] # st) (with_commas (map tokens js) @ TEndArr # ts) =
          parse_tokens (deliver (JArr js) st) ts"
        using parse_elems [OF elem, of "[]" ts] Cons by simp
      ultimately show ?thesis by (simp add: parse_step_def begin_value_def)
    qed
  qed
next
  case (JObj ms)
  show ?case unfolding parses_def
  proof (intro allI impI)
    fix st ts assume fits: "fits st (JObj ms)"
    then have elem: "\<forall>m \<in> set ms. parses (snd m) \<and> fits (FArr [] # st) (snd m)"
      using JObj nesting_member [of _ _ ms] by (fastforce simp: fits_def snds.simps)
    show "parse_tokens (PVal, st) (tokens (JObj ms) @ ts) = parse_tokens (deliver (JObj ms) st) ts"
    proof (cases ms)
      case Nil
      with fits show ?thesis by (simp add: fits_def parse_step_def begin_value_def)
    next
      case (Cons m ms')
      obtain k j where m: "m = (k, j)" by fastforce
      have "parse_tokens (PKeyOrEnd, st) (with_commas (map (\<lambda>(k, j). TStr k # TColon # tokens j) ms) @ TEndObj # ts) =
          parse_tokens (PKey [], st) (with_commas (map (\<lambda>(k, j). TStr k # TColon # tokens j) ms) @ TEndObj # ts)"
        using Cons m by (cases ms') (simp_all add: parse_step_def)
      moreover have "int (length st) < max_nesting_depth" using fits by (simp add: fits_def)
      moreover have "parse_tokens (PKey [], st) (with_commas (map (\<lambda>(k, j). TStr k # TColon # tokens j) ms) @ TEndObj # ts) =
          parse_tokens (deliver (JObj ms) st) ts"
        using parse_object_members [OF elem, of "[]" ts] Cons by simp
      ultimately show ?thesis by (simp add: parse_step_def begin_value_def)
    qed
  qed
qed (simp_all add: parses_def parse_step_def begin_value_def)

section \<open>The round trip\<close>

lemma utf8_valid_ascii_char: "byte c < 128 \<Longrightarrow> utf8_valid [c]"
  by (rule utf8_valid_ascii) (simp add: ascii_def)

lemma digit_ascii: "is_digit c \<Longrightarrow> of_char c < (128::nat)"
  using is_digit_facts(7) [of c] by (simp add: byte_def)

lemma num_step_ascii: "num_step st c = Some st' \<Longrightarrow> byte c < 128"
  by (cases st) (auto simp: num_step_def digit_ascii Let_def byte_def split: if_splits)

lemma num_run_ascii: "num_run st cs = Some st' \<Longrightarrow> ascii cs"
  by (induction cs arbitrary: st) (auto simp: ascii_def num_step_ascii split: option.splits)

lemma number_ascii: "number n \<Longrightarrow> utf8_valid n"
proof -
  assume "number n"
  then obtain c cs st0 st where n: "n = c # cs" "idle_step c = Some (LNum st0 [c], [])" "num_run st0 cs = Some st"
    by (auto simp: number_def)
  have "byte c < 128" using n(2) by (auto simp: idle_step_def digit_ascii byte_def split: if_splits)
  with n num_run_ascii [OF n(3)] show ?thesis by (intro utf8_valid_ascii) (simp add: ascii_def)
qed

lemma utf8_valid_print: "well_formed j \<Longrightarrow> utf8_valid (json_print j)"
proof (induction j)
  case (JArr js)
  then have "utf8_valid (join_comma (map json_print js))"
    by (intro utf8_valid_join_comma) (auto simp: list_all_iff)
  then show ?case by (simp only: json_print.simps) (intro utf8_valid_append utf8_valid_ascii_char; simp add: byte_def)
next
  case (JObj ms)
  have "utf8_valid (json_quote k @ [CHR 0x3A] @ json_print j)" if "(k, j) \<in> set ms" for k j
    using JObj that by (intro utf8_valid_append utf8_valid_json_quote utf8_valid_ascii_char)
      (auto simp: list_all_iff byte_def)
  then have "utf8_valid (join_comma (map (\<lambda>(k, j). json_quote k @ [CHR 0x3A] @ json_print j) ms))"
    by (intro utf8_valid_join_comma) (auto simp: list_all_iff)
  then show ?case by (simp only: json_print.simps) (intro utf8_valid_append utf8_valid_ascii_char; simp add: byte_def)
qed (auto simp: number_ascii utf8_valid_json_quote intro!: utf8_valid_ascii simp: ascii_def byte_def)

text \<open>Also with the newline that \<^verbatim>\<open>json.Encoder\<close> writes after the value.\<close>

lemma json_decode_print_rest:
  assumes "well_formed j" "int (nesting j) \<le> max_nesting_depth" "rest = [] \<or> rest = [CHR 0x0A]"
  shows "json_decode (json_print j @ rest) = Some j"
proof -
  have "lex LIdle (json_print j @ rest) = map_option (append (tokens j)) (lex LIdle rest)"
    by (rule lexesD [OF lex_print [OF assms(1)]]) (use assms(3) in \<open>auto simp: ends_value_def\<close>)
  then have "lex LIdle (json_print j @ rest) = Some (tokens j)"
    using assms(3) by (auto simp: lex_end_def idle_step_def)
  moreover have "parse_tokens (PVal, []) (tokens j @ []) = parse_tokens (deliver j []) []"
    using parse_print [of j] assms(2) by (simp only: parses_def fits_def list.size add_0)
  moreover have "utf8_valid (json_print j @ rest)"
    using utf8_valid_print [OF assms(1)] assms(3) utf8_valid_ascii_char [of "CHR 0x0A"]
    by (auto intro: utf8_valid_append simp: byte_def)
  ultimately show ?thesis using to_valid_utf8_id [of "json_print j @ rest"] by (simp add: json_decode_def)
qed

lemmas json_decode_print = json_decode_print_rest [where rest = "[]", simplified]

end
