(* ===== verification/JsonDecode.thy ===== *)
theory JsonDecode
  imports JsonRound
begin

text \<open>
  What \<^verbatim>\<open>json.Unmarshal\<close> hands out is well formed, whatever bytes it reads: every string is valid UTF-8, every
  number follows the grammar and the nesting is bounded.  Each automaton of theory \<open>GoJson\<close> gets an invariant
  that a step preserves; so a decoded document survives encoding and decoding (\<open>json_redecode\<close>).
\<close>

section \<open>Encoded code points\<close>

definition code_point :: "nat \<Rightarrow> bool" where
  "code_point r \<longleftrightarrow> r < 55296 \<or> 57344 \<le> r \<and> r < 1114112"

lemma byte_char_of_lt: "n < 256 \<Longrightarrow> byte (char_of n) = n"
  by (simp add: byte_def)

lemma rune_bytes:
  fixes a b c d :: nat
  shows
  "2 \<le> a \<Longrightarrow> a < 32 \<Longrightarrow> b < 64 \<Longrightarrow> rune [char_of (192 + a), char_of (128 + b)]"
  "a < 16 \<Longrightarrow> b < 64 \<Longrightarrow> c < 64 \<Longrightarrow> (a = 0 \<Longrightarrow> 32 \<le> b) \<Longrightarrow> (a = 13 \<Longrightarrow> b < 32) \<Longrightarrow>
     rune [char_of (224 + a), char_of (128 + b), char_of (128 + c)]"
  "a < 5 \<Longrightarrow> b < 64 \<Longrightarrow> c < 64 \<Longrightarrow> d < 64 \<Longrightarrow> (a = 0 \<Longrightarrow> 16 \<le> b) \<Longrightarrow> (a = 4 \<Longrightarrow> b < 16) \<Longrightarrow>
     rune [char_of (240 + a), char_of (128 + b), char_of (128 + c), char_of (128 + d)]"
  by (auto simp: rune_def rune_len_def byte_in_def byte_char_of_lt)

lemma rune_encode:
  assumes "code_point r"
  shows "rune (utf8_encode r)"
proof -
  consider "r < 128" | "128 \<le> r" "r < 2048" | "2048 \<le> r" "r < 65536" | "65536 \<le> r" by linarith
  then show ?thesis
  proof cases
    case 1
    then show ?thesis by (simp add: utf8_encode_def rune_single byte_char_of_lt)
  next
    case 2
    then have "2 \<le> r div 64" "r div 64 < 32" by (auto simp: div_less_iff_less_mult less_eq_div_iff_mult_less_eq)
    with 2 rune_bytes(1) [of "r div 64" "r mod 64"] show ?thesis by (simp add: utf8_encode_def)
  next
    case 3
    then have d: "r div 4096 < 16" by (simp add: div_less_iff_less_mult)
    have e: "r div 64 mod 64 = r div 64 - 64 * (r div 4096)"
      using minus_mod_eq_mult_div [of "r div 64" 64] div_mult2_eq [of r 64 64] by (simp add: algebra_simps minus_mult_div_eq_mod [symmetric])
    have low: "32 \<le> r div 64 mod 64" if "r div 4096 = 0"
      using that 3(1) e by (simp add: less_eq_div_iff_mult_less_eq)
    have sur: "r div 64 mod 64 < 32" if "r div 4096 = 13"
    proof -
      have "r < 57344" using that div_mult_mod_eq [of r 4096] mod_less_divisor [of 4096 r] by simp
      with assms have "r < 55296" by (simp add: code_point_def)
      then have "r div 64 < 864" by (simp add: div_less_iff_less_mult)
      with that e show ?thesis by simp
    qed
    have "rune [char_of (224 + r div 4096), char_of (128 + r div 64 mod 64), char_of (128 + r mod 64)]"
      by (rule rune_bytes(2) [OF d _ _ low sur]) simp_all
    with 3 show ?thesis by (simp add: utf8_encode_def)
  next
    case 4
    then have r: "r < 1114112" using assms by (simp add: code_point_def)
    then have d: "r div 262144 < 5" by (simp add: div_less_iff_less_mult)
    have e: "r div 4096 mod 64 = r div 4096 - 64 * (r div 262144)"
      using div_mult2_eq [of r 4096 64] by (simp add: minus_mult_div_eq_mod [symmetric])
    have low: "16 \<le> r div 4096 mod 64" if "r div 262144 = 0"
      using that 4 e by (simp add: less_eq_div_iff_mult_less_eq)
    have top: "r div 4096 mod 64 < 16" if "r div 262144 = 4"
    proof -
      have "r div 4096 < 272" using r by (simp add: div_less_iff_less_mult)
      with that e show ?thesis by simp
    qed
    have "rune [char_of (240 + r div 262144), char_of (128 + r div 4096 mod 64), char_of (128 + r div 64 mod 64), char_of (128 + r mod 64)]"
      by (rule rune_bytes(3) [OF d _ _ _ low top]) simp_all
    with 4 show ?thesis by (simp add: utf8_encode_def)
  qed
qed

lemma utf8_valid_rune: "rune ch \<Longrightarrow> utf8_valid ch"
  using utf8_valid_concat [of "[ch]"] by simp

lemma utf8_valid_error [simp]: "utf8_valid rune_error"
  by (rule utf8_valid_rune) code_simp

section \<open>The byte automaton\<close>

text \<open>The bytes of a number so far, read from the idle mode.\<close>

definition number_prefix :: "num_state \<Rightarrow> string \<Rightarrow> bool" where
  "number_prefix st n \<longleftrightarrow> (\<exists>c cs st0. n = c # cs \<and> idle_step c = Some (LNum st0 [c], []) \<and> num_run st0 cs = Some st)"

definition waiting :: "nat option \<Rightarrow> bool" where
  "waiting hi \<longleftrightarrow> (\<forall>h. hi = Some h \<longrightarrow> 55296 \<le> h \<and> h < 56320)"

fun mode_ok :: "lex_mode \<Rightarrow> bool" where
  "mode_ok LIdle = True"
| "mode_ok (LStr acc hi) = (utf8_valid acc \<and> waiting hi)"
| "mode_ok (LEsc acc hi) = (utf8_valid acc \<and> waiting hi)"
| "mode_ok (LHex k v acc hi) = (utf8_valid acc \<and> waiting hi \<and> k \<le> 3 \<and> v < 16 ^ k)"
| "mode_ok (LNum st n) = number_prefix st n"
| "mode_ok (LLit rest tok) = (ascii rest \<and> tok \<in> {TTrue, TFalse, TNull})"

fun token_ok :: "json_token \<Rightarrow> bool" where
  "token_ok (TStr s) = utf8_valid s"
| "token_ok (TNum n) = number n"
| "token_ok _ = True"

lemma utf8_valid_snoc: "utf8_valid acc \<Longrightarrow> byte c < 128 \<Longrightarrow> utf8_valid (acc @ [c])"
  by (intro utf8_valid_append utf8_valid_ascii_char)

lemma utf8_valid_flush [intro]: "utf8_valid acc \<Longrightarrow> utf8_valid (flush acc hi)"
  by (cases hi) (simp_all add: flush_def utf8_valid_append)

lemma utf8_valid_encode: "code_point r \<Longrightarrow> utf8_valid acc \<Longrightarrow> utf8_valid (acc @ utf8_encode r)"
  by (rule utf8_valid_append, assumption, rule utf8_valid_rune, rule rune_encode)

lemma code_unit_ok:
  assumes "utf8_valid acc" "waiting hi" "v < 65536"
  shows "mode_ok (code_unit v acc hi)"
proof -
  have plain: "utf8_valid (x @ utf8_encode v)" if "\<not> (55296 \<le> v \<and> v < 57344)" "utf8_valid x" for x
    using that assms(3) by (intro utf8_valid_encode) (auto simp: code_point_def)
  have err: "utf8_valid (acc @ rune_error)" using assms(1) by (intro utf8_valid_append) simp_all
  show ?thesis
  proof (cases hi)
    case None
    with plain [of acc] err assms show ?thesis by (auto simp: code_unit_def waiting_def)
  next
    case (Some h)
    then have h: "55296 \<le> h" "h < 56320" using assms(2) by (simp_all add: waiting_def)
    have "utf8_valid (acc @ utf8_encode (65536 + (h - 55296) * 1024 + (v - 56320)))" if "56320 \<le> v" "v < 57344"
      using that h assms(1) by (intro utf8_valid_encode) (auto simp: code_point_def)
    with plain [of "acc @ rune_error"] err Some show ?thesis by (auto simp: code_unit_def waiting_def)
  qed
qed

lemma number_prefix_step: "number_prefix st n \<Longrightarrow> num_step st c = Some st' \<Longrightarrow> number_prefix st' (n @ [c])"
proof -
  have "num_run st0 (cs @ [c]) = Some st'" if "num_run st0 cs = Some st" "num_step st c = Some st'" for st0 cs
    using that by (induction cs arbitrary: st0) (auto split: option.splits)
  then show "number_prefix st n \<Longrightarrow> num_step st c = Some st' \<Longrightarrow> number_prefix st' (n @ [c])"
    unfolding number_prefix_def by fastforce
qed

lemma number_prefix_final: "number_prefix st n \<Longrightarrow> num_final st \<Longrightarrow> number n"
  unfolding number_prefix_def number_def by auto

lemma idle_step_ok:
  assumes "idle_step c = Some (m, ts)"
  shows "mode_ok m" "list_all token_ok ts" "byte c < 128"
proof -
  have "number_prefix st [c]" if "idle_step c = Some (LNum st [c], [])" for st
    unfolding number_prefix_def using that by (intro exI [of _ c] exI [of _ "[]"] exI [of _ st]) simp
  with assms show "mode_ok m"
    by (auto simp: idle_step_def waiting_def ascii_def byte_def split: if_splits)
  show "list_all token_ok ts" using assms by (auto simp: idle_step_def split: if_splits)
  show "byte c < 128" using assms by (auto simp: idle_step_def byte_def is_digit_def byte_in_def split: if_splits)
qed

lemma lex_step_ok:
  assumes "lex_step m c = Some (m', ts)" "mode_ok m" "byte c < 128"
  shows "mode_ok m' \<and> list_all token_ok ts"
proof (cases m)
  case LIdle
  with assms show ?thesis using idle_step_ok by simp
next
  case (LStr acc hi)
  with assms show ?thesis by (auto simp: waiting_def utf8_valid_snoc utf8_valid_flush split: if_splits)
next
  case (LEsc acc hi)
  have "byte d < 128" if "esc_char c = Some d" for d
    using that by (auto simp: esc_char_def byte_def split: if_splits)
  with LEsc assms show ?thesis by (auto simp: waiting_def utf8_valid_snoc utf8_valid_flush split: if_splits option.splits)
next
  case (LHex k v acc hi)
  from assms(1) LHex obtain d where d: "hex_val c = Some d" by (auto split: option.splits)
  then have "d < 16" by (auto simp: hex_val_def Let_def split: if_splits)
  have ok: "utf8_valid acc" "waiting hi" "k \<le> 3" "v < 16 ^ k" using assms(2) LHex by simp_all
  then have "16 * v + d < 16 ^ Suc k" using \<open>d < 16\<close> by simp
  with code_unit_ok [OF ok(1,2), of "16 * v + d"] ok d assms(1) LHex show ?thesis
    by (auto split: if_splits)
next
  case (LNum st n)
  with assms show ?thesis
    by (auto split: option.splits if_splits dest: idle_step_ok number_prefix_final intro: number_prefix_step)
next
  case (LLit rest tok)
  with assms show ?thesis by (auto simp: ascii_def split: list.splits if_splits)
qed

text \<open>A rune of more than one byte only fits inside a string.\<close>

lemma lex_step_high:
  assumes "128 \<le> byte c" "lex_step m c = Some (m', ts)" "mode_ok m"
  obtains acc hi where "m = LStr acc hi" "m' = LStr (flush acc hi @ [c]) None" "ts = []"
proof (cases m)
  case LIdle
  with assms show thesis using idle_step_ok(3) by fastforce
next
  case (LStr acc hi)
  moreover have "c \<noteq> CHR 0x22" "c \<noteq> CHR 0x5C" using assms(1) by (auto simp: byte_lits)
  ultimately show thesis using assms that by auto
next
  case (LEsc acc hi)
  moreover have "c \<noteq> CHR ''u''" using assms(1) by (auto simp: byte_def)
  moreover have "byte d < 128" if "esc_char d \<noteq> None" for d using that by (auto simp: esc_char_def byte_def split: if_splits)
  then have "esc_char c = None" using assms(1) by (meson not_le)
  ultimately show thesis using assms(2) by simp
next
  case (LHex k v acc hi)
  moreover have "hex_val c = None" using assms(1) by (auto simp: hex_val_def Let_def)
  ultimately show thesis using assms(2) by simp
next
  case (LNum st n)
  moreover have "num_step st c = None" using assms(1) num_step_ascii [of st c] by (cases "num_step st c") auto
  moreover have "idle_step c = None" using assms(1) idle_step_ok(3) [of c] by (cases "idle_step c") auto
  ultimately show thesis using assms(2) by (auto split: if_splits)
next
  case (LLit rest tok)
  with assms show thesis by (cases rest) (auto simp: ascii_def split: if_splits)
qed

lemma lex_high_rest:
  assumes "list_all (\<lambda>x. 128 \<le> byte x) ch" "lex (LStr acc None) (ch @ rest) = Some ts"
  shows "lex (LStr (acc @ ch) None) rest = Some ts"
  using assms by (simp add: lex_high)

lemma lex_ok:
  assumes "list_all rune chs" "mode_ok m" "lex m (concat chs) = Some ts"
  shows "list_all token_ok ts"
  using assms
proof (induction chs arbitrary: m ts)
  case Nil
  then show ?case by (cases m) (auto simp: lex_end_def intro: number_prefix_final split: if_splits)
next
  case (Cons ch chs)
  then obtain c cs where ch: "ch = c # cs" by (cases ch) (auto simp: rune_def)
  from Cons.prems(3) ch obtain m' us vs where s: "lex_step m c = Some (m', us)" "lex m' (cs @ concat chs) = Some vs" "ts = us @ vs"
    by (auto split: option.splits prod.splits)
  show ?case
  proof (cases cs)
    case Nil
    with Cons.prems(1) ch have "byte c < 128" by (simp add: rune_single)
    with lex_step_ok [OF s(1) Cons.prems(2)] Cons.IH [of m' vs] Cons.prems(1) s Nil show ?thesis by simp
  next
    case (Cons d ds)
    then have high: "list_all (\<lambda>x. 128 \<le> byte x) ch" using Cons.prems(1) ch rune_high [of c d ds] by simp
    then have "128 \<le> byte c" using ch by simp
    from lex_step_high [OF this s(1) Cons.prems(2)] obtain acc hi where
      m: "m = LStr acc hi" "m' = LStr (flush acc hi @ [c]) None" "us = []" .
    have "lex (LStr (flush acc hi @ ch) None) (concat chs) = Some vs"
      using lex_high_rest [of cs "flush acc hi @ [c]" "concat chs" vs] s(2) m(2) high ch by simp
    moreover have "utf8_valid (flush acc hi @ ch)"
      using Cons.prems(1,2) m(1) utf8_valid_append [OF utf8_valid_flush utf8_valid_rune] by simp
    ultimately show ?thesis using Cons.IH [of "LStr (flush acc hi @ ch) None" vs] Cons.prems(1) s(3) m(3) by (simp add: waiting_def)
  qed
qed

section \<open>The pushdown automaton\<close>

text \<open>What is built so far is well formed, and nested as deep as the stack leaves room for.\<close>

definition value_ok :: "nat \<Rightarrow> json \<Rightarrow> bool" where
  "value_ok d j \<longleftrightarrow> well_formed j \<and> nesting j + d \<le> 10000"

fun frame_ok :: "nat \<Rightarrow> json_frame \<Rightarrow> bool" where
  "frame_ok d (FArr xs) = list_all (value_ok (Suc d)) xs"
| "frame_ok d (FObj ms k) = (utf8_valid k \<and> list_all (\<lambda>(k, j). utf8_valid k \<and> value_ok (Suc d) j) ms)"

fun stack_ok :: "json_frame list \<Rightarrow> bool" where
  "stack_ok [] = True"
| "stack_ok (f # st) = (frame_ok (length st) f \<and> length st < 10000 \<and> stack_ok st)"

fun conf_ok :: "parse_conf \<Rightarrow> bool" where
  "conf_ok (PVal, st) = stack_ok st"
| "conf_ok (PValOrEnd, st) = (stack_ok st \<and> st \<noteq> [])"
| "conf_ok (PElem xs, st) = (stack_ok st \<and> length st < 10000 \<and> list_all (value_ok (Suc (length st))) xs)"
| "conf_ok (PKeyOrEnd, st) = (stack_ok st \<and> length st < 10000)"
| "conf_ok (PKey ms, st) = (stack_ok st \<and> length st < 10000 \<and> list_all (\<lambda>(k, j). utf8_valid k \<and> value_ok (Suc (length st)) j) ms)"
| "conf_ok (PColon ms k, st) = (stack_ok st \<and> length st < 10000 \<and> utf8_valid k \<and>
     list_all (\<lambda>(k, j). utf8_valid k \<and> value_ok (Suc (length st)) j) ms)"
| "conf_ok (PMem ms, st) = (stack_ok st \<and> length st < 10000 \<and> list_all (\<lambda>(k, j). utf8_valid k \<and> value_ok (Suc (length st)) j) ms)"
| "conf_ok (PDone v, st) = value_ok 0 v"

lemma foldr_max_le: "list_all (\<lambda>x. x \<le> n) xs \<Longrightarrow> foldr max xs 0 \<le> (n :: nat)"
  by (induction xs) auto

lemma value_ok_containers:
  "d < 10000 \<Longrightarrow> list_all (value_ok (Suc d)) xs \<Longrightarrow> value_ok d (JArr xs)"
  "d < 10000 \<Longrightarrow> list_all (\<lambda>(k, j). utf8_valid k \<and> value_ok (Suc d) j) ms \<Longrightarrow> value_ok d (JObj ms)"
proof -
  assume d: "d < 10000" and xs: "list_all (value_ok (Suc d)) xs"
  have "list_all (\<lambda>x. x \<le> 10000 - Suc d) (map nesting xs)" using xs by (auto simp: list_all_iff value_ok_def)
  from foldr_max_le [OF this] d xs show "value_ok d (JArr xs)" by (auto simp: value_ok_def list_all_iff)
next
  assume d: "d < 10000" and ms: "list_all (\<lambda>(k, j). utf8_valid k \<and> value_ok (Suc d) j) ms"
  have "list_all (\<lambda>x. x \<le> 10000 - Suc d) (map (\<lambda>(k, j). nesting j) ms)" using ms by (auto simp: list_all_iff value_ok_def)
  from foldr_max_le [OF this] d ms show "value_ok d (JObj ms)" by (auto simp: value_ok_def list_all_iff)
qed

lemma deliver_ok: "stack_ok st \<Longrightarrow> value_ok (length st) v \<Longrightarrow> conf_ok (deliver v st)"
  by (cases "(v, st)" rule: deliver.cases) auto

lemma stack_ok_length: "stack_ok st \<Longrightarrow> length st \<le> 10000"
  by (cases st) auto

lemma begin_value_ok: "begin_value t st = Some conf \<Longrightarrow> stack_ok st \<Longrightarrow> token_ok t \<Longrightarrow> conf_ok conf"
  using stack_ok_length [of st]
  by (auto simp: begin_value_def max_nesting_depth_def value_ok_def intro: deliver_ok split: json_token.splits if_splits)

lemma parse_step_ok:
  assumes "parse_step conf t = Some conf'" "conf_ok conf" "token_ok t"
  shows "conf_ok conf'"
proof -
  obtain p st where conf: "conf = (p, st)" by fastforce
  have tail: "stack_ok (tl st)" "length (tl st) < 10000" if "stack_ok st" "st \<noteq> []" using that by (cases st; simp)+
  show ?thesis
    using assms conf tail
    by (cases p) (auto simp: parse_step_def intro!: deliver_ok value_ok_containers dest: begin_value_ok
        split: if_splits json_token.splits)
qed

lemma parse_ok: "parse_tokens conf ts = Some v \<Longrightarrow> conf_ok conf \<Longrightarrow> list_all token_ok ts \<Longrightarrow> value_ok 0 v"
proof (induction conf ts rule: parse_tokens.induct)
  case (1 p st)
  then show ?case by (cases p) auto
next
  case (2 conf t ts)
  then show ?case by (auto split: option.splits dest: parse_step_ok)
qed

text \<open>What is decoded is well formed, and encoding it again gives a text of the same value.\<close>

lemma json_decode_ok:
  assumes "json_decode s = Some j"
  shows "well_formed j" "nesting j \<le> 10000"
proof -
  have "rune rune_error" by code_simp
  then have "list_all rune (map (\<lambda>ch. if valid_chunk ch then ch else rune_error) (chunks s))"
    using valid_chunk_rune by (auto simp: list_all_iff)
  from lex_ok [OF this, of LIdle] assms have "value_ok 0 j"
    by (auto simp: json_decode_def to_valid_utf8_def intro: parse_ok split: option.splits)
  then show "well_formed j" "nesting j \<le> 10000" by (simp_all add: value_ok_def)
qed

lemma json_redecode: "json_decode s = Some j \<Longrightarrow> json_decode (json_print j) = Some j"
  using json_decode_print json_decode_ok by (simp add: max_nesting_depth_def)

end
