(* ===== verification/GoHttp.thy ===== *)
theory GoHttp
  imports GoText
begin

text \<open>
  What the HTTP API uses of Go's libraries: \<^verbatim>\<open>json.NewDecoder(body).Decode\<close> (which stops after the first
  value and leaves the text of \<^verbatim>\<open>json.RawMessage\<close> fields as it is), \<^verbatim>\<open>url.Values\<close>, the routing of
  \<^verbatim>\<open>http.ServeMux\<close>, and requests and responses.

  \<open>stream_decode_complete\<close> shows that the decoder accepts whatever \<^verbatim>\<open>json.Unmarshal\<close> accepts, with the
  same value.
\<close>

section \<open>The first JSON value of a stream\<close>

text \<open>Feeding tokens to the parser stops when the value is complete.\<close>

fun feed :: "parse_conf \<Rightarrow> json_token list \<Rightarrow> parse_conf option" where
  "feed conf [] = Some conf"
| "feed conf (t # ts) =
     (case conf of
        (PDone v, st) \<Rightarrow> Some conf
      | _ \<Rightarrow> (case parse_step conf t of None \<Rightarrow> None | Some conf' \<Rightarrow> feed conf' ts))"

definition stream_end :: "lex_mode \<Rightarrow> parse_conf \<Rightarrow> json option" where
  "stream_end m conf =
     (case lex_end m of
        None \<Rightarrow> None
      | Some ts \<Rightarrow> (case feed conf ts of Some (PDone v, st) \<Rightarrow> Some v | _ \<Rightarrow> None))"

text \<open>A byte that fits no token may still end a top-level number.\<close>

fun stream_parse :: "lex_mode \<Rightarrow> parse_conf \<Rightarrow> string \<Rightarrow> json option" where
  "stream_parse m conf [] = stream_end m conf"
| "stream_parse m conf (c # cs) =
     (case lex_step m c of
        None \<Rightarrow> stream_end m conf
      | Some (m', ts) \<Rightarrow>
          (case feed conf ts of
             None \<Rightarrow> None
           | Some (PDone v, st) \<Rightarrow> Some v
           | Some conf' \<Rightarrow> stream_parse m' conf' cs))"

definition stream_decode :: "string \<Rightarrow> json option" where
  "stream_decode body = stream_parse LIdle (PVal, []) (to_valid_utf8 body)"

definition running :: "parse_conf \<Rightarrow> bool" where
  "running conf = (case fst conf of PDone _ \<Rightarrow> False | _ \<Rightarrow> True)"

lemma feed_running: "running conf \<Longrightarrow> feed conf (t # ts) = (case parse_step conf t of None \<Rightarrow> None | Some conf' \<Rightarrow> feed conf' ts)"
  by (cases conf; cases "fst conf") (auto simp: running_def)

lemma parse_done: "\<not> running conf \<Longrightarrow> parse_tokens conf ts = Some v \<Longrightarrow> ts = [] \<and> fst conf = PDone v"
  by (cases conf; cases "fst conf"; cases ts) (auto simp: running_def parse_step_def)

lemma parse_feed:
  assumes "parse_tokens conf (ts @ us) = Some v"
  shows "\<exists>conf'. feed conf ts = Some conf' \<and> parse_tokens conf' us = Some v"
  using assms
proof (induction ts arbitrary: conf)
  case (Cons t ts)
  have run: "running conf" using Cons.prems parse_done [of conf "(t # ts) @ us" v] by (metis append_Cons list.distinct(1))
  then obtain conf1 where "parse_step conf t = Some conf1" "parse_tokens conf1 (ts @ us) = Some v"
    using Cons.prems by (cases conf) (auto split: option.splits)
  with Cons.IH [of conf1] feed_running [OF run] show ?case by auto
qed simp

lemma stream_parse_complete:
  assumes "lex m s = Some ts" "parse_tokens conf ts = Some v" "running conf"
  shows "stream_parse m conf s = Some v"
  using assms
proof (induction s arbitrary: m conf ts)
  case Nil
  then obtain conf' where "feed conf ts = Some conf'" "parse_tokens conf' [] = Some v"
    using parse_feed [of conf ts "[]"] by auto
  with Nil show ?case by (cases conf') (auto simp: stream_end_def split: parse_state.splits)
next
  case (Cons c s)
  then obtain m' us vs where l: "lex_step m c = Some (m', us)" "lex m' s = Some vs" "ts = us @ vs"
    by (auto split: option.splits)
  obtain conf' where f: "feed conf us = Some conf'" "parse_tokens conf' vs = Some v"
    using parse_feed [of conf us vs] Cons.prems l by auto
  show ?case
  proof (cases "running conf'")
    case True
    with Cons.IH [OF l(2) f(2)] l f show ?thesis
      by (cases conf') (auto simp: running_def split: parse_state.splits)
  next
    case False
    with parse_done [OF this f(2)] l f show ?thesis by (cases conf') auto
  qed
qed

lemma stream_decode_complete: "json_decode s = Some v \<Longrightarrow> stream_decode s = Some v"
  using stream_parse_complete [of LIdle "to_valid_utf8 s" _ "(PVal, [])" v]
  by (auto simp: json_decode_def stream_decode_def running_def split: option.splits)

section \<open>The raw text of members\<close>

text \<open>The tokens of a text, each with the bytes it is made of and the space before it.\<close>

fun lexemes :: "string \<Rightarrow> lex_mode \<Rightarrow> string \<Rightarrow> (json_token \<times> string) list" where
  "lexemes acc m [] = (case lex_end m of Some ts \<Rightarrow> map (\<lambda>t. (t, acc)) ts | None \<Rightarrow> [])"
| "lexemes acc m (c # cs) =
     (case lex_step m c of
        None \<Rightarrow> (case lex_end m of Some ts \<Rightarrow> map (\<lambda>t. (t, acc)) ts | None \<Rightarrow> [])
      | Some (m', []) \<Rightarrow> lexemes (acc @ [c]) m' cs
      | Some (m', TNum n # ts) \<Rightarrow>
          (TNum n, acc) # (case ts of [] \<Rightarrow> lexemes [c] m' cs | _ \<Rightarrow> map (\<lambda>t. (t, [c])) ts @ lexemes [] m' cs)
      | Some (m', t # ts) \<Rightarrow> (t, acc @ [c]) # lexemes [] m' cs)"

definition json_space :: "char \<Rightarrow> bool" where
  "json_space c \<longleftrightarrow> c = CHR 0x20 \<or> c = CHR 0x09 \<or> c = CHR 0x0D \<or> c = CHR 0x0A"

text \<open>The text of the value that the lexemes start with, and the lexemes after it.\<close>

fun raw_value :: "nat \<Rightarrow> string \<Rightarrow> (json_token \<times> string) list \<Rightarrow> string \<times> (json_token \<times> string) list" where
  "raw_value d acc [] = (acc, [])"
| "raw_value d acc ((t, x) # ts) =
     (if t = TBeginObj \<or> t = TBeginArr then raw_value (Suc d) (acc @ x) ts
      else if t = TEndObj \<or> t = TEndArr then
        (if d \<le> 1 then (acc @ x, ts) else raw_value (d - 1) (acc @ x) ts)
      else if d = 0 then (acc @ x, ts) else raw_value d (acc @ x) ts)"

lemma raw_value_tail: "snd (raw_value d acc ts) = y # vs \<Longrightarrow> length vs < length ts"
  by (induction d acc ts rule: raw_value.induct) (auto split: if_splits)

function raw_members :: "(json_token \<times> string) list \<Rightarrow> (string \<times> string) list" where
  "raw_members ts =
     (case ts of
        (TStr k, _) # (TColon, _) # us \<Rightarrow>
          (to_valid_utf8 k, dropWhile json_space (fst (raw_value 0 [] us))) #
            (case snd (raw_value 0 [] us) of (TComma, _) # vs \<Rightarrow> raw_members vs | _ \<Rightarrow> [])
      | _ \<Rightarrow> [])"
  by pat_completeness auto
termination
  by (relation "measure length") (auto dest: raw_value_tail)

declare raw_members.simps [simp del]

text \<open>The members of the object a body starts with; \<^verbatim>\<open>null\<close> has none, anything else is an error.\<close>

definition body_members :: "string \<Rightarrow> (string \<times> string) list option" where
  "body_members body =
     (case stream_decode body of
        Some (JObj _) \<Rightarrow> Some (raw_members (tl (lexemes [] LIdle body)))
      | Some JNull \<Rightarrow> Some []
      | _ \<Rightarrow> None)"

text \<open>Storing the members that match a field, in order.\<close>

fun decode_fields ::
  "string list \<Rightarrow> (string \<Rightarrow> string \<Rightarrow> 'a \<Rightarrow> 'a option) \<Rightarrow> (string \<times> string) list \<Rightarrow> 'a \<Rightarrow> 'a option"
where
  "decode_fields names set_field [] v = Some v"
| "decode_fields names set_field ((k, raw) # ms) v =
     (case match_field names k of
        None \<Rightarrow> decode_fields names set_field ms v
      | Some f \<Rightarrow>
          (case set_field f raw v of
             None \<Rightarrow> None
           | Some v' \<Rightarrow> decode_fields names set_field ms v'))"

definition decode_string :: "string \<Rightarrow> string \<Rightarrow> string option" where
  "decode_string raw old = (case json_decode raw of Some j \<Rightarrow> unmarshal_string j old | None \<Rightarrow> None)"

section \<open>URLs\<close>

text \<open>\<^verbatim>\<open>url.QueryUnescape\<close> (with \<open>form\<close>) and \<^verbatim>\<open>url.PathUnescape\<close>.\<close>

fun unescape :: "bool \<Rightarrow> string \<Rightarrow> string option" where
  "unescape form [] = Some []"
| "unescape form (c # cs) =
     (if c = CHR ''%'' then
        (case cs of
           h # l # rest \<Rightarrow>
             (case (hex_val h, hex_val l) of
                (Some a, Some b) \<Rightarrow> map_option (\<lambda>s. char_of (16 * a + b) # s) (unescape form rest)
              | _ \<Rightarrow> None)
         | _ \<Rightarrow> None)
      else map_option (\<lambda>s. (if form \<and> c = CHR ''+'' then CHR '' '' else c) # s) (unescape form cs))"

text \<open>A parameter of a query: the text up to the first \<open>=\<close> and the text after it.\<close>

definition cut_equals :: "string \<Rightarrow> string \<times> string" where
  "cut_equals p = (takeWhile (\<lambda>c. c \<noteq> CHR ''='') p, drop 1 (dropWhile (\<lambda>c. c \<noteq> CHR ''='') p))"

definition query_param :: "string \<Rightarrow> (string \<times> string) option" where
  "query_param p =
     (if CHR '';'' \<in> set p \<or> p = [] then None
      else case cut_equals p of (k, v) \<Rightarrow>
        (case (unescape True k, unescape True v) of (Some k', Some v') \<Rightarrow> Some (k', v') | _ \<Rightarrow> None))"

text \<open>\<^verbatim>\<open>r.URL.Query().Get(key)\<close>: the first value of the key, else the empty text.\<close>

definition query_get :: "string \<Rightarrow> string \<Rightarrow> string" where
  "query_get rawQuery key =
     (case map_of (List.map_filter query_param (split_on (CHR ''&'') rawQuery)) key of
        Some v \<Rightarrow> v | None \<Rightarrow> [])"

lemma unescape_plain:
  "CHR ''%'' \<notin> set s \<Longrightarrow> CHR ''+'' \<notin> set s \<Longrightarrow> unescape form s = Some s"
  by (induction form s rule: unescape.induct) auto

lemma unescape_path_plain: "CHR ''%'' \<notin> set s \<Longrightarrow> unescape False s = Some s"
  by (induction s) auto

text \<open>\<^verbatim>\<open>path.Clean\<close> on a rooted path, and the cleaning of \<^verbatim>\<open>ServeMux\<close>, which keeps a trailing slash.\<close>

definition clean_segment :: "string list \<Rightarrow> string \<Rightarrow> string list" where
  "clean_segment acc seg =
     (if seg = [] \<or> seg = ''.'' then acc else if seg = ''..'' then butlast acc else acc @ [seg])"

definition clean_path :: "string \<Rightarrow> string" where
  "clean_path p =
     (let p' = (case p of [] \<Rightarrow> ''/'' | c # _ \<Rightarrow> if c = CHR ''/'' then p else CHR ''/'' # p);
          np = CHR ''/'' # join_on ''/'' (foldl clean_segment [] (split_on (CHR ''/'') p'))
      in if last p' = CHR ''/'' \<and> np \<noteq> ''/'' then np @ ''/'' else np)"

text \<open>The segments of a rooted path, unescaped one by one; one that cannot be unescaped stays.\<close>

definition path_segments :: "string \<Rightarrow> string list" where
  "path_segments p =
     map (\<lambda>seg. case unescape False seg of Some s \<Rightarrow> s | None \<Rightarrow> seg) (split_on (CHR ''/'') (tl p))"

section \<open>Requests and responses\<close>

text \<open>
  A request as a handler sees it: \<^verbatim>\<open>r.Method\<close>, \<^verbatim>\<open>r.URL.Path\<close>, \<^verbatim>\<open>r.URL.EscapedPath()\<close>, \<^verbatim>\<open>r.URL.RawQuery\<close>
  and the body.
\<close>

record http_request =
  hr_Method :: string
  hr_Path :: string
  hr_EscapedPath :: string
  hr_RawQuery :: string
  hr_Body :: string

text \<open>
  A response: its status, its headers and its body.  A JSON body is the value that is written, or
  \<open>None\<close> when encoding fails and nothing is written after the status.
\<close>

datatype http_body = NoBody | TextBody string | JsonBody "json option" | MetricsBody

record http_response =
  rs_Status :: int
  rs_Headers :: "(string \<times> string) list"
  rs_Body :: http_body

definition http_Error :: "string \<Rightarrow> int \<Rightarrow> http_response" where
  "http_Error msg code =
     \<lparr>rs_Status = code,
      rs_Headers = [(''Content-Type'', ''text/plain; charset=utf-8''), (''X-Content-Type-Options'', ''nosniff'')],
      rs_Body = TextBody (msg @ [CHR 0x0A])\<rparr>"

definition http_Redirect :: "string \<Rightarrow> http_response" where
  "http_Redirect target = \<lparr>rs_Status = 301, rs_Headers = [(''Location'', target)], rs_Body = NoBody\<rparr>"

section \<open>Routing\<close>

text \<open>
  A pattern is its segments and whether it ends in a slash and so matches the whole subtree below.
  The first pattern that matches is taken: no path matches two patterns of the same mux here.
\<close>

type_synonym 'h mux = "((string list \<times> bool) \<times> 'h) list"

fun pattern_matches :: "string list \<times> bool \<Rightarrow> string list \<Rightarrow> bool" where
  "pattern_matches (segs, subtree) path =
     (if subtree then length segs < length path \<and> take (length segs) path = segs else path = segs)"

definition mux_find :: "'h mux \<Rightarrow> string \<Rightarrow> 'h option" where
  "mux_find mux path = map_option snd (find (\<lambda>(p, h). pattern_matches p (path_segments path)) mux)"

text \<open>A path without its trailing slash, when only the pattern with the slash is registered.\<close>

definition slash_redirect :: "'h mux \<Rightarrow> string \<Rightarrow> bool" where
  "slash_redirect mux path \<longleftrightarrow>
     (path_segments path, False) \<notin> set (map fst mux) \<and> path \<noteq> [] \<and> \<not> has_suffix ''/'' path \<and>
     (path_segments path, True) \<in> set (map fst mux)"

datatype 'h mux_result = Routed 'h | RedirectTo string | NotRouted

definition serve_mux :: "'h mux \<Rightarrow> http_request \<Rightarrow> 'h mux_result" where
  "serve_mux mux r =
     (let esc = hr_EscapedPath r;
          path = (if hr_Method r = ''CONNECT'' then esc else clean_path esc)
      in if slash_redirect mux path then RedirectTo (clean_path (hr_Path r) @ ''/'')
         else if path \<noteq> esc then RedirectTo path
         else case mux_find mux path of Some h \<Rightarrow> Routed h | None \<Rightarrow> NotRouted)"

end
