(* ===== verification/Httpapi.thy ===== *)
theory Httpapi
  imports GoHttp Service Handlers
begin

text \<open>
  \<^verbatim>\<open>internal/httpapi\<close>: the router of the API with its handlers (\<^verbatim>\<open>router.go\<close>), the health routes and
  \<^verbatim>\<open>writeJSON\<close> (\<^verbatim>\<open>health.go\<close>), and \<^verbatim>\<open>telemetry.Middleware\<close> around them.  A handler takes the request, the
  session it makes its store calls in and the database, and returns the response, the counters it
  increments and the database.  Log lines and spans are left out.

  Parameters: \<open>fmt\<close> formats a time as \<^verbatim>\<open>time.Time\<close> does in JSON, \<open>lib\<close> renders the texts of library
  errors, \<open>health\<close> is the result of the health check.
\<close>

section \<open>JSON of responses\<close>

text \<open>Members with a value that may fail to encode, and members left out by \<^verbatim>\<open>omitempty\<close>.\<close>

fun json_members :: "(string \<times> json option) list \<Rightarrow> (string \<times> json) list option" where
  "json_members [] = Some []"
| "json_members ((k, j) # ms) =
     (case (j, json_members ms) of (Some v, Some vs) \<Rightarrow> Some ((k, v) # vs) | _ \<Rightarrow> None)"

definition json_obj :: "(string \<times> json option) list \<Rightarrow> json option" where
  "json_obj ms = map_option JObj (json_members ms)"

fun json_arr :: "json option list \<Rightarrow> json list option" where
  "json_arr [] = Some []"
| "json_arr (j # js) = (case (j, json_arr js) of (Some v, Some vs) \<Rightarrow> Some (v # vs) | _ \<Rightarrow> None)"

definition str :: "string \<Rightarrow> json option" where "str s = Some (JStr (to_valid_utf8 s))"
definition num :: "int \<Rightarrow> json option" where "num i = Some (JNum (Itoa i))"

text \<open>
  A \<^verbatim>\<open>json.RawMessage\<close>: its value, \<^verbatim>\<open>null\<close> when nil, an error when it is no JSON.  Go copies the bytes without
  their white space; here the value is printed anew, so the escapes inside its strings are those of
  \<open>json_print\<close>.  The two texts decode to the same value.
\<close>

definition raw_json :: "string \<Rightarrow> json option" where
  "raw_json raw = (if raw = [] then Some JNull else json_decode raw)"

definition omit_raw :: "string \<Rightarrow> string \<Rightarrow> (string \<times> json option) list" where
  "omit_raw k raw = (if raw = [] then [] else [(k, raw_json raw)])"

definition omit_str :: "string \<Rightarrow> string \<Rightarrow> (string \<times> json option) list" where
  "omit_str k s = (if s = [] then [] else [(k, str s)])"

definition omit_time :: "(go_time \<Rightarrow> string) \<Rightarrow> string \<Rightarrow> go_time option \<Rightarrow> (string \<times> json option) list" where
  "omit_time fmt k t = (case t of None \<Rightarrow> [] | Some v \<Rightarrow> [(k, str (fmt v))])"

definition marshal_definition :: "(go_time \<Rightarrow> string) \<Rightarrow> WorkflowDefinition \<Rightarrow> json option" where
  "marshal_definition fmt d = json_obj
     [(''id'', str (def_ID d)), (''name'', str (def_Name d)), (''description'', str (def_Description d)),
      (''version'', num (def_Version d)), (''status'', str (def_Status d)),
      (''definition'', raw_json (def_DefinitionJSON d)),
      (''created_at'', str (fmt (def_CreatedAt d))), (''updated_at'', str (fmt (def_UpdatedAt d)))]"

definition marshal_execution :: "(go_time \<Rightarrow> string) \<Rightarrow> WorkflowExecution \<Rightarrow> json option" where
  "marshal_execution fmt x = json_obj
     ([(''id'', str (exec_ID x)), (''workflow_definition_id'', str (exec_WorkflowDefinitionID x)),
       (''status'', str (exec_Status x)), (''input'', raw_json (exec_InputJSON x))] @
      omit_raw ''output'' (exec_OutputJSON x) @ omit_str ''error'' (exec_ErrorText x) @
      [(''created_at'', str (fmt (exec_CreatedAt x))), (''updated_at'', str (fmt (exec_UpdatedAt x)))] @
      omit_time fmt ''started_at'' (exec_StartedAt x) @ omit_time fmt ''completed_at'' (exec_CompletedAt x))"

definition marshal_task :: "(go_time \<Rightarrow> string) \<Rightarrow> TaskInstance \<Rightarrow> json option" where
  "marshal_task fmt t = json_obj
     ([(''id'', str (task_ID t)), (''workflow_execution_id'', str (task_WorkflowExecutionID t)),
       (''task_name'', str (task_TaskName t)), (''handler_key'', str (task_HandlerKey t)),
       (''status'', str (task_Status t)), (''input'', raw_json (task_InputJSON t))] @
      omit_raw ''output'' (task_OutputJSON t) @ omit_time fmt ''next_run_at'' (task_NextRunAt t) @
      omit_str ''last_error'' (task_LastErrorText t) @
      [(''attempts_total'', num (task_AttemptsTotal t)), (''idempotency_key'', str (task_IdempotencyKey t))] @
      omit_time fmt ''dispatched_at'' (task_DispatchedAt t) @ omit_time fmt ''completed_at'' (task_CompletedAt t) @
      [(''created_at'', str (fmt (task_CreatedAt t))), (''updated_at'', str (fmt (task_UpdatedAt t)))])"

definition marshal_attempt :: "(go_time \<Rightarrow> string) \<Rightarrow> TaskAttempt \<Rightarrow> json option" where
  "marshal_attempt fmt a = json_obj
     ([(''id'', str (att_ID a)), (''task_instance_id'', str (att_TaskInstanceID a)),
       (''attempt_number'', num (att_AttemptNumber a)), (''status'', str (att_Status a)),
       (''started_at'', str (fmt (att_StartedAt a)))] @
      omit_time fmt ''finished_at'' (att_FinishedAt a) @ omit_str ''error'' (att_ErrorText a) @
      omit_raw ''output'' (att_OutputJSON a) @ [(''created_at'', str (fmt (att_CreatedAt a)))])"

definition marshal_start :: "(go_time \<Rightarrow> string) \<Rightarrow> ExecutionStartResult \<Rightarrow> json option" where
  "marshal_start fmt s = json_obj
     [(''execution'', marshal_execution fmt (start_Execution s)), (''task'', marshal_task fmt (start_Task s))]"

definition marshal_snapshot :: "(go_time \<Rightarrow> string) \<Rightarrow> ExecutionSnapshot \<Rightarrow> json option" where
  "marshal_snapshot fmt s = json_obj
     [(''execution'', marshal_execution fmt (snap_Execution s)),
      (''tasks'', map_option JArr (json_arr (map (\<lambda>t. json_obj
         [(''task'', marshal_task fmt (snap_Task t)),
          (''attempts'', map_option JArr (json_arr (map (marshal_attempt fmt) (snap_Attempts t))))])
         (snap_Tasks s))))]"

text \<open>The slice of a listing stays nil when there are no rows, and nil is written as \<^verbatim>\<open>null\<close>.\<close>

definition marshal_tasks :: "(go_time \<Rightarrow> string) \<Rightarrow> TaskInstance list \<Rightarrow> json option" where
  "marshal_tasks fmt ts = (if ts = [] then Some JNull else map_option JArr (json_arr (map (marshal_task fmt) ts)))"

section \<open>Responses\<close>

definition writeJSON :: "int \<Rightarrow> json option \<Rightarrow> http_response" where
  "writeJSON status payload =
     \<lparr>rs_Status = status, rs_Headers = [(''Content-Type'', ''application/json'')], rs_Body = JsonBody payload\<rparr>"

definition error_json :: "string \<Rightarrow> json option" where
  "error_json msg = json_obj [(''error'', str msg)]"

definition no_content :: http_response where
  "no_content = \<lparr>rs_Status = 204, rs_Headers = [], rs_Body = NoBody\<rparr>"

definition method_not_allowed :: http_response where
  "method_not_allowed = http_Error ''method not allowed'' 405"

datatype api_metric =
    WorkflowDefinitionsCreated string
  | WorkflowExecutionsCreated string
  | TaskReplays string
  | HTTPRequests string string string string
  | HTTPRequestDuration string string string string

type_synonym api_result = "(http_response \<times> api_metric list) \<times> pg"

section \<open>Requests\<close>

record createWorkflowRequest =
  cw_Name :: string
  cw_Description :: string
  cw_Definition :: string

record triggerExecutionRequest =
  te_WorkflowDefinitionID :: string
  te_Input :: string

definition set_create_field :: "string \<Rightarrow> string \<Rightarrow> createWorkflowRequest \<Rightarrow> createWorkflowRequest option" where
  "set_create_field f raw r =
     (if f = ''name'' then map_option (\<lambda>s. r\<lparr>cw_Name := s\<rparr>) (decode_string raw (cw_Name r))
      else if f = ''description'' then map_option (\<lambda>s. r\<lparr>cw_Description := s\<rparr>) (decode_string raw (cw_Description r))
      else Some (r\<lparr>cw_Definition := raw\<rparr>))"

definition decode_create :: "string \<Rightarrow> createWorkflowRequest option" where
  "decode_create body =
     (case body_members body of
        None \<Rightarrow> None
      | Some ms \<Rightarrow> decode_fields [''name'', ''description'', ''definition''] set_create_field ms
          \<lparr>cw_Name = [], cw_Description = [], cw_Definition = []\<rparr>)"

definition set_trigger_field :: "string \<Rightarrow> string \<Rightarrow> triggerExecutionRequest \<Rightarrow> triggerExecutionRequest option" where
  "set_trigger_field f raw r =
     (if f = ''workflow_definition_id''
      then map_option (\<lambda>s. r\<lparr>te_WorkflowDefinitionID := s\<rparr>) (decode_string raw (te_WorkflowDefinitionID r))
      else Some (r\<lparr>te_Input := raw\<rparr>))"

definition decode_trigger :: "string \<Rightarrow> triggerExecutionRequest option" where
  "decode_trigger body =
     (case body_members body of
        None \<Rightarrow> None
      | Some ms \<Rightarrow> decode_fields [''workflow_definition_id'', ''input''] set_trigger_field ms
          \<lparr>te_WorkflowDefinitionID = [], te_Input = []\<rparr>)"

definition parsePositiveIntQuery :: "http_request \<Rightarrow> string \<Rightarrow> go_error + int" where
  "parsePositiveIntQuery r key =
     (let raw = TrimSpace (query_get (hr_RawQuery r) key) in
      if raw = [] then Inr 0
      else case Atoi raw of
        None \<Rightarrow> Inl (ErrorString (key @ '' must be a valid integer''))
      | Some v \<Rightarrow> if v \<le> 0 then Inl (ErrorString (key @ '' must be greater than 0'')) else Inr v)"

definition parseTaskActionPath :: "string \<Rightarrow> (string \<times> string) option" where
  "parseTaskActionPath path =
     (case split_on (CHR ''/'') (trim_both (CHR ''/'') (trim_prefix ''/api/tasks/'' path)) of
        [taskID, action] \<Rightarrow> if TrimSpace taskID = [] \<or> TrimSpace action = [] then None else Some (taskID, action)
      | _ \<Rightarrow> None)"

section \<open>Handlers\<close>

definition bad_request :: "string \<Rightarrow> http_response" where
  "bad_request msg = writeJSON 400 (error_json msg)"

definition handleWorkflows ::
  "(go_time \<Rightarrow> string) \<Rightarrow> (go_error \<Rightarrow> string) \<Rightarrow> http_request \<Rightarrow> session \<Rightarrow> pg \<Rightarrow> api_result"
where
  "handleWorkflows fmt lib r ses db =
     (if hr_Method r = ''OPTIONS'' then ((no_content, []), db)
      else if hr_Method r \<noteq> ''POST'' then ((method_not_allowed, []), db)
      else case decode_create (hr_Body r) of
        None \<Rightarrow> ((bad_request ''invalid JSON body'', []), db)
      | Some req \<Rightarrow>
          (case ServiceCreateWorkflowDefinition
              \<lparr>req_Name = cw_Name req, req_Description = cw_Description req, req_Definition = cw_Definition req\<rparr>
              (ses_env ses 0) (ses_other ses 0 db) of
             (Inl e, db') \<Rightarrow> ((bad_request (error_text lib e), []), db')
           | (Inr result, db') \<Rightarrow>
               ((writeJSON 201 (marshal_definition fmt result), [WorkflowDefinitionsCreated ''api'']), db')))"

definition handleExecutions ::
  "(go_time \<Rightarrow> string) \<Rightarrow> (go_error \<Rightarrow> string) \<Rightarrow> http_request \<Rightarrow> session \<Rightarrow> pg \<Rightarrow> api_result"
where
  "handleExecutions fmt lib r ses db =
     (if hr_Method r = ''OPTIONS'' then ((no_content, []), db)
      else if hr_Method r \<noteq> ''POST'' then ((method_not_allowed, []), db)
      else case decode_trigger (hr_Body r) of
        None \<Rightarrow> ((bad_request ''invalid JSON body'', []), db)
      | Some req \<Rightarrow>
          (case TriggerExecution
              \<lparr>req_WorkflowDefinitionID = te_WorkflowDefinitionID req, req_Input = te_Input req\<rparr>
              (ses_env ses 0) (ses_other ses 1) (ses_env ses 1) (ses_other ses 0 db) of
             (Inl e, db') \<Rightarrow>
               (if IsNotFound e
                then ((writeJSON 404 (error_json ''workflow definition not found''), []), db')
                else ((bad_request (error_text lib e), []), db'))
           | (Inr result, db') \<Rightarrow>
               ((writeJSON 202 (marshal_start fmt result), [WorkflowExecutionsCreated ''api'']), db')))"

text \<open>The three queries of a snapshot run at different times; other sessions commit in between.\<close>

definition handleExecutionSnapshot ::
  "(go_time \<Rightarrow> string) \<Rightarrow> http_request \<Rightarrow> session \<Rightarrow> pg \<Rightarrow> api_result"
where
  "handleExecutionSnapshot fmt r ses db =
     (if hr_Method r = ''OPTIONS'' then ((no_content, []), db)
      else if hr_Method r \<noteq> ''GET'' then ((method_not_allowed, []), db)
      else
        let executionID = trim_prefix ''/api/executions/'' (hr_Path r) in
        if executionID = [] then ((bad_request ''execution id is required'', []), db)
        else
          let db1 = ses_other ses 0 db; db2 = ses_other ses 1 db1; db3 = ses_other ses 2 db2 in
          case ServiceGetExecutionSnapshot executionID (ses_env ses 0) db1 db2 db3 of
            Inl e \<Rightarrow>
              (if IsNotFound e then ((writeJSON 404 (error_json ''execution not found''), []), db3)
               else ((writeJSON 500 (error_json ''failed to load execution''), []), db3))
          | Inr snapshot \<Rightarrow> ((writeJSON 200 (marshal_snapshot fmt snapshot), []), db3))"

definition handleDeadLetteredTasks ::
  "(go_time \<Rightarrow> string) \<Rightarrow> (go_error \<Rightarrow> string) \<Rightarrow> http_request \<Rightarrow> session \<Rightarrow> pg \<Rightarrow> api_result"
where
  "handleDeadLetteredTasks fmt lib r ses db =
     (if hr_Method r = ''OPTIONS'' then ((no_content, []), db)
      else if hr_Method r \<noteq> ''GET'' then ((method_not_allowed, []), db)
      else case parsePositiveIntQuery r ''limit'' of
        Inl e \<Rightarrow> ((bad_request (error_text lib e), []), db)
      | Inr limit \<Rightarrow>
          let db1 = ses_other ses 0 db in
          (case GetDeadLetteredTasks limit (ses_env ses 0) db1 of
             Inl e \<Rightarrow> ((writeJSON 500 (error_json ''failed to load dead lettered tasks''), []), db1)
           | Inr tasks \<Rightarrow> ((writeJSON 200 (marshal_tasks fmt tasks), []), db1)))"

definition task_action_not_found :: http_response where
  "task_action_not_found = writeJSON 404 (error_json ''task action not found'')"

definition handleTaskActions ::
  "(go_time \<Rightarrow> string) \<Rightarrow> http_request \<Rightarrow> session \<Rightarrow> pg \<Rightarrow> api_result"
where
  "handleTaskActions fmt r ses db =
     (if hr_Method r = ''OPTIONS'' then ((no_content, []), db)
      else if hr_Method r \<noteq> ''POST'' then ((method_not_allowed, []), db)
      else case parseTaskActionPath (hr_Path r) of
        None \<Rightarrow> ((task_action_not_found, []), db)
      | Some (taskID, action) \<Rightarrow>
          if action = ''replay'' then
            (case ServiceReplayDeadLetteredTask taskID (ses_env ses 0) (ses_other ses 0 db) of
               (Inl e, db') \<Rightarrow>
                 (if IsNotFound e then ((writeJSON 404 (error_json ''task not found''), []), db')
                  else if IsTaskNotReplayable e
                  then ((bad_request ''only dead-lettered tasks can be replayed'', []), db')
                  else ((writeJSON 500 (error_json ''failed to replay task''), []), db'))
             | (Inr task, db') \<Rightarrow> ((writeJSON 202 (marshal_task fmt task), [TaskReplays ''api'']), db'))
          else ((task_action_not_found, []), db))"

section \<open>Health\<close>

definition handleHealth :: "string \<Rightarrow> (go_error \<Rightarrow> string) \<Rightarrow> go_error option \<Rightarrow> http_request \<Rightarrow> http_response" where
  "handleHealth service lib health r =
     (if hr_Method r \<noteq> ''GET'' then method_not_allowed
      else case health of
        Some e \<Rightarrow> writeJSON 503 (json_obj
          [(''error'', str (error_text lib e)), (''service'', str service), (''status'', str ''unhealthy'')])
      | None \<Rightarrow> writeJSON 200 (json_obj [(''service'', str service), (''status'', str ''ok'')]))"

section \<open>The router\<close>

datatype route = Metrics | Healthz | Workflows | Executions | ExecutionSnapshotRoute | TaskActions | DeadLetteredTasksRoute

definition RegisterHealthRoutes :: "route mux" where
  "RegisterHealthRoutes = [(([''metrics''], False), Metrics), (([''healthz''], False), Healthz)]"

definition api_mux :: "route mux" where
  "api_mux = RegisterHealthRoutes @
     [(([''api'', ''workflows''], False), Workflows),
      (([''api'', ''executions''], False), Executions),
      (([''api'', ''executions''], True), ExecutionSnapshotRoute),
      (([''api'', ''tasks''], True), TaskActions),
      (([''api'', ''dead-letter-tasks''], False), DeadLetteredTasksRoute),
      (([''api'', ''dead-lettered-tasks''], False), DeadLetteredTasksRoute)]"

definition metrics_response :: http_response where
  "metrics_response = \<lparr>rs_Status = 200, rs_Headers = [], rs_Body = MetricsBody\<rparr>"

definition serve_route ::
  "(go_time \<Rightarrow> string) \<Rightarrow> (go_error \<Rightarrow> string) \<Rightarrow> go_error option \<Rightarrow> route \<Rightarrow> http_request \<Rightarrow> session \<Rightarrow> pg \<Rightarrow> api_result"
where
  "serve_route fmt lib health rt r ses db =
     (case rt of
        Metrics \<Rightarrow> ((metrics_response, []), db)
      | Healthz \<Rightarrow> ((handleHealth ''api'' lib health r, []), db)
      | Workflows \<Rightarrow> handleWorkflows fmt lib r ses db
      | Executions \<Rightarrow> handleExecutions fmt lib r ses db
      | ExecutionSnapshotRoute \<Rightarrow> handleExecutionSnapshot fmt r ses db
      | TaskActions \<Rightarrow> handleTaskActions fmt r ses db
      | DeadLetteredTasksRoute \<Rightarrow> handleDeadLetteredTasks fmt lib r ses db)"

definition serve_api_mux ::
  "(go_time \<Rightarrow> string) \<Rightarrow> (go_error \<Rightarrow> string) \<Rightarrow> go_error option \<Rightarrow> http_request \<Rightarrow> session \<Rightarrow> pg \<Rightarrow> api_result"
where
  "serve_api_mux fmt lib health r ses db =
     (case serve_mux api_mux r of
        Routed rt \<Rightarrow> serve_route fmt lib health rt r ses db
      | RedirectTo target \<Rightarrow> ((http_Redirect target, []), db)
      | NotRouted \<Rightarrow> ((http_Error ''404 page not found'' 404, []), db))"

definition cors_headers :: "(string \<times> string) list" where
  "cors_headers = [(''Access-Control-Allow-Origin'', ''*''), (''Access-Control-Allow-Headers'', ''Content-Type''),
     (''Access-Control-Allow-Methods'', ''GET,POST,OPTIONS'')]"

definition with_cors :: "http_response \<Rightarrow> http_response" where
  "with_cors resp = resp\<lparr>rs_Headers := cors_headers @ rs_Headers resp\<rparr>"

definition cors :: "(http_request \<Rightarrow> session \<Rightarrow> pg \<Rightarrow> api_result) \<Rightarrow> http_request \<Rightarrow> session \<Rightarrow> pg \<Rightarrow> api_result" where
  "cors handler r ses db =
     (if hr_Method r = ''OPTIONS'' then ((with_cors no_content, []), db)
      else case handler r ses db of ((resp, ms), db') \<Rightarrow> ((with_cors resp, ms), db'))"

definition NewRouter ::
  "(go_time \<Rightarrow> string) \<Rightarrow> (go_error \<Rightarrow> string) \<Rightarrow> go_error option \<Rightarrow> http_request \<Rightarrow> session \<Rightarrow> pg \<Rightarrow> api_result"
where
  "NewRouter fmt lib health = cors (serve_api_mux fmt lib health)"

text \<open>\<^verbatim>\<open>telemetry.Middleware\<close>: the request is counted and timed under the status the handler wrote.\<close>

definition Middleware ::
  "string \<Rightarrow> (http_request \<Rightarrow> session \<Rightarrow> pg \<Rightarrow> api_result) \<Rightarrow> http_request \<Rightarrow> session \<Rightarrow> pg \<Rightarrow> api_result"
where
  "Middleware service handler r ses db =
     (case handler r ses db of
        ((resp, ms), db') \<Rightarrow>
          let code = Itoa (rs_Status resp) in
          ((resp, ms @ [HTTPRequests service (hr_Path r) (hr_Method r) code,
             HTTPRequestDuration service (hr_Path r) (hr_Method r) code]), db'))"

text \<open>The server of the API process.\<close>

definition api_serve ::
  "(go_time \<Rightarrow> string) \<Rightarrow> (go_error \<Rightarrow> string) \<Rightarrow> go_error option \<Rightarrow> string \<Rightarrow> http_request \<Rightarrow> session \<Rightarrow> pg \<Rightarrow> api_result"
where
  "api_serve fmt lib health service = Middleware service (NewRouter fmt lib health)"

text \<open>The health function of both processes: the error of the store's ping, or else of the queue's.\<close>

definition health_check :: "go_error option \<Rightarrow> go_error option \<Rightarrow> go_error option" where
  "health_check store_ping streams_ping = (case store_ping of Some e \<Rightarrow> Some e | None \<Rightarrow> streams_ping)"

text \<open>The server of the worker process has the health routes only.\<close>

definition serve_worker_mux :: "(go_error \<Rightarrow> string) \<Rightarrow> go_error option \<Rightarrow> http_request \<Rightarrow> session \<Rightarrow> pg \<Rightarrow> api_result" where
  "serve_worker_mux lib health r ses db =
     (case serve_mux RegisterHealthRoutes r of
        Routed Healthz \<Rightarrow> ((handleHealth ''worker'' lib health r, []), db)
      | Routed _ \<Rightarrow> ((metrics_response, []), db)
      | RedirectTo target \<Rightarrow> ((http_Redirect target, []), db)
      | NotRouted \<Rightarrow> ((http_Error ''404 page not found'' 404, []), db))"

definition worker_serve :: "(go_error \<Rightarrow> string) \<Rightarrow> go_error option \<Rightarrow> string \<Rightarrow> http_request \<Rightarrow> session \<Rightarrow> pg \<Rightarrow> api_result" where
  "worker_serve lib health service = Middleware service (serve_worker_mux lib health)"

lemma worker_serve_db [simp]: "snd (worker_serve lib health service r ses db) = db"
  by (simp add: worker_serve_def Middleware_def serve_worker_mux_def Let_def split: mux_result.split route.split)

text \<open>A health request is answered by 200 exactly when both pings succeed.\<close>

lemma health_status:
  "hr_Method r = ''GET'' \<Longrightarrow>
     rs_Status (handleHealth service lib (health_check p q) r) = (if p = None \<and> q = None then 200 else 503)"
  by (simp add: handleHealth_def health_check_def writeJSON_def split: option.split)

end
