(* ===== verification/HttpProps.thy ===== *)
theory HttpProps
  imports Httpapi EngineDemo
begin

text \<open>
  What an API request does to the database: exactly one successful store call when it is answered with
  201 or 202, on the route, with the arguments and with the body that belong to it, and nothing otherwise
  (\<open>request_effect\<close>).  \<open>replay_request_status\<close> follows one route from the path to the status.
\<close>

section \<open>Effects\<close>

text \<open>The database after the first \<open>n\<close> commits of other sessions.\<close>

definition others :: "session \<Rightarrow> nat \<Rightarrow> pg \<Rightarrow> pg" where
  "others ses n db = foldl (\<lambda>d i. ses_other ses i d) db [0..<n]"

lemma others_0 [simp]: "others ses 0 db = db"
  by (simp add: others_def)

lemma others_Suc: "others ses (Suc n) db = ses_other ses n (others ses n db)"
  by (simp add: others_def)

lemma others_unfold:
  "ses_other ses 0 db = others ses 1 db"
  "ses_other ses (Suc 0) (others ses 1 db) = others ses 2 db"
  "ses_other ses 2 (others ses 2 db) = others ses 3 db"
  by (simp_all add: others_Suc numeral_eq_Suc)

lemma others_two: "ses_other ses 1 (others ses 1 db) = others ses 2 db"
  by (simp add: others_Suc numeral_eq_Suc)

text \<open>The calls of the store that requests make to write, and the responses that report success of one.\<close>

definition success :: "http_response \<Rightarrow> bool" where
  "success resp \<longleftrightarrow> rs_Status resp = 201 \<or> rs_Status resp = 202"

text \<open>
  A request leaves the database to the other sessions, or it makes one call on top of their commits; a
  call without success took effect only if the reply to its commit was lost.
\<close>

definition untouched :: "session \<Rightarrow> pg \<Rightarrow> pg \<Rightarrow> bool" where
  "untouched ses db db' \<longleftrightarrow> (\<exists>n. db' = others ses n db)"

definition called :: "session \<Rightarrow> pg \<Rightarrow> bool \<Rightarrow> pg \<Rightarrow> bool" where
  "called ses db ok db' \<longleftrightarrow> (\<exists>c n. api_call c \<and> db' = perform c (ses_env ses n) (others ses (Suc n) db) \<and>
     (ok \<or> \<not> no_lost_commit (ses_env ses n)))"

definition served :: "http_request \<Rightarrow> session \<Rightarrow> pg \<Rightarrow> http_response \<Rightarrow> pg \<Rightarrow> bool" where
  "served r ses db resp db' \<longleftrightarrow>
     (untouched ses db db' \<and> \<not> success resp) \<or> (hr_Method r = ''POST'' \<and> called ses db (success resp) db')"

lemma calledI:
  assumes "api_call c" "db' = perform c (ses_env ses n) (others ses (Suc n) db)" "ok \<or> \<not> no_lost_commit (ses_env ses n)"
  shows "called ses db ok db'"
  using assms unfolding called_def by blast

lemma untouchedI [intro]:
  "untouched ses db db" "untouched ses db (ses_other ses 0 db)"
  "untouched ses db (ses_other ses (Suc 0) (ses_other ses 0 db))"
  "untouched ses db (ses_other ses 2 (ses_other ses (Suc 0) (ses_other ses 0 db)))"
  unfolding untouched_def
  by (rule exI [of _ 0] exI [of _ 1] exI [of _ 2] exI [of _ 3]; simp add: others_def numeral_eq_Suc upt_rec)+

text \<open>The three writing operations of the service.\<close>

lemma write_cases:
  assumes "rolls_back f" "f env db = (res, db')"
  shows "(isl res \<and> db' = db) \<or> (db' = snd (f env db) \<and> (\<not> isl res \<or> \<not> no_lost_commit env))"
  using assms unfolding rolls_back_def by (cases res) auto

lemma write_called:
  assumes "rolls_back f" "f (ses_env ses n) (others ses (Suc n) db) = (res, db')"
    and "api_call c" "\<And>env db. perform c env db = snd (f env db)"
  shows "(isl res \<and> untouched ses db db') \<or> called ses db (\<not> isl res) db'"
  using write_cases [OF assms(1,2)] assms(3,4) unfolding called_def untouched_def by metis

lemma create_called:
  assumes "ServiceCreateWorkflowDefinition req (ses_env ses 0) (ses_other ses 0 db) = (res, db')"
  shows "(isl res \<and> untouched ses db db') \<or> called ses db (\<not> isl res) db'"
proof -
  have "(isl res \<and> db' = others ses 1 db) \<or> (\<exists>a b c r1.
      CreateWorkflowDefinition a b c (ses_env ses 0) (others ses 1 db) = (r1, db') \<and> isl r1 = isl res)"
    using assms unfolding others_unfold(1)
    by (auto simp: ServiceCreateWorkflowDefinition_def Let_def split: if_splits sum.splits prod.splits) (metis sum.disc)+
  then show ?thesis
  proof (elim disjE exE conjE)
    fix a b c r1 assume "CreateWorkflowDefinition a b c (ses_env ses 0) (others ses 1 db) = (r1, db')" "isl r1 = isl res"
    then show ?thesis
      using write_called [of "CreateWorkflowDefinition a b c" ses 0 db r1 db' "CallCreateWorkflowDefinition a b c"]
        rolls_back_definition by simp
  qed (auto simp: untouched_def)
qed

lemma trigger_called:
  assumes "TriggerExecution req (ses_env ses 0) (ses_other ses 1) (ses_env ses 1) (ses_other ses 0 db) = (res, db')"
  shows "(isl res \<and> untouched ses db db') \<or> called ses db (\<not> isl res) db'"
proof -
  have "(isl res \<and> db' = others ses 1 db) \<or> (\<exists>a b c d r1.
      CreateExecutionAndTask a b c d (ses_env ses 1) (others ses 2 db) = (r1, db') \<and> isl r1 = isl res)"
    using assms unfolding others_unfold(1)
    by (auto simp: TriggerExecution_def others_unfold others_two simp del: One_nat_def split: if_splits sum.splits prod.splits)
       (metis sum.disc)+
  then show ?thesis
  proof (elim disjE exE conjE)
    fix a b c d r1 assume "CreateExecutionAndTask a b c d (ses_env ses 1) (others ses 2 db) = (r1, db')" "isl r1 = isl res"
    then show ?thesis
      using write_called [of "CreateExecutionAndTask a b c d" ses 1 db r1 db' "CallCreateExecutionAndTask a b c d"]
      by (simp add: rolls_back_run_tx CreateExecutionAndTask_def numeral_2_eq_2)
  qed (auto simp: untouched_def)
qed

lemma replay_called:
  assumes "ServiceReplayDeadLetteredTask t (ses_env ses 0) (ses_other ses 0 db) = (res, db')"
  shows "(isl res \<and> untouched ses db db') \<or> called ses db (\<not> isl res) db'"
proof -
  have "(isl res \<and> db' = others ses 1 db) \<or> (\<exists>a r1.
      ReplayDeadLetteredTask a (ses_env ses 0) (others ses 1 db) = (r1, db') \<and> isl r1 = isl res)"
    using assms unfolding others_unfold(1)
    by (auto simp: ServiceReplayDeadLetteredTask_def Let_def split: if_splits sum.splits prod.splits) (metis sum.disc)+
  then show ?thesis
  proof (elim disjE exE conjE)
    fix a r1 assume "ReplayDeadLetteredTask a (ses_env ses 0) (others ses 1 db) = (r1, db')" "isl r1 = isl res"
    then show ?thesis
      using write_called [of "ReplayDeadLetteredTask a" ses 0 db r1 db' "CallReplayDeadLetteredTask a"]
      by (simp add: rolls_back_run_tx ReplayDeadLetteredTask_def)
  qed (auto simp: untouched_def)
qed

lemma response_simps [simp]:
  "rs_Status (writeJSON code j) = code" "rs_Status (bad_request msg) = 400" "rs_Status no_content = 204"
  "rs_Status method_not_allowed = 405" "rs_Status task_action_not_found = 404"
  "rs_Status (http_Redirect target) = 301" "rs_Status (http_Error msg code) = code"
  "rs_Status metrics_response = 200" "rs_Status (with_cors resp) = rs_Status resp"
  by (simp_all add: writeJSON_def bad_request_def no_content_def method_not_allowed_def http_Error_def
      task_action_not_found_def http_Redirect_def metrics_response_def with_cors_def)

text \<open>Handlers, router and middleware.\<close>

definition handles :: "(http_request \<Rightarrow> session \<Rightarrow> pg \<Rightarrow> api_result) \<Rightarrow> bool" where
  "handles h \<longleftrightarrow> (\<forall>r ses db resp ms db'. h r ses db = ((resp, ms), db') \<longrightarrow> served r ses db resp db')"

lemma handlesD: "handles h \<Longrightarrow> h r ses db = ((resp, ms), db') \<Longrightarrow> served r ses db resp db'"
  unfolding handles_def by blast

lemma served_idle: "untouched ses db db' \<Longrightarrow> \<not> success resp \<Longrightarrow> served r ses db resp db'"
  by (simp add: served_def)

lemma handles_workflows: "handles (handleWorkflows fmt lib)"
  unfolding handles_def handleWorkflows_def
  by (auto simp: served_def success_def dest!: create_called split: if_splits option.splits prod.splits sum.splits)

lemma handles_executions: "handles (handleExecutions fmt lib)"
  unfolding handles_def handleExecutions_def
  by (auto simp: served_def success_def simp del: One_nat_def dest!: trigger_called
      split: if_splits option.splits prod.splits sum.splits)

lemma handles_replay: "handles (handleTaskActions fmt)"
  unfolding handles_def handleTaskActions_def
  by (auto simp: served_def success_def dest!: replay_called split: if_splits option.splits prod.splits sum.splits)

lemma handles_reads: "handles (handleExecutionSnapshot fmt)" "handles (handleDeadLetteredTasks fmt lib)"
  by (auto simp: handles_def handleExecutionSnapshot_def handleDeadLetteredTasks_def served_def success_def Let_def
      split: if_splits sum.splits)

lemma handles_health: "handles (\<lambda>r ses db. ((handleHealth service lib health r, []), db))"
  by (auto simp: handles_def handleHealth_def served_def success_def split: option.splits)

lemma handles_metrics: "handles (\<lambda>r ses db. ((metrics_response, []), db))"
  by (auto simp: handles_def served_def success_def)

lemmas handles_all = handles_workflows handles_executions handles_replay handles_reads handles_health handles_metrics

lemma handles_route: "handles (serve_route fmt lib health rt)"
  unfolding serve_route_def by (cases rt) (simp_all add: handles_all)

lemma handles_router: "handles (NewRouter fmt lib health)"
proof -
  have "served r ses db resp db'" if "serve_api_mux fmt lib health r ses db = ((resp, ms), db')" for r ses db resp ms db'
    using that handlesD [OF handles_route]
    by (auto simp: serve_api_mux_def served_def success_def split: mux_result.splits) 
  moreover have "served r ses db (with_cors resp) db' = served r ses db resp db'" for r ses db resp db'
    by (simp add: served_def success_def)
  moreover have "served r ses db (with_cors no_content) db" for r ses db
    by (auto simp: served_def success_def)
  ultimately show ?thesis
    by (auto simp: handles_def NewRouter_def cors_def split: prod.splits if_splits)
qed

lemma handles_server: "handles (api_serve fmt lib health service)"
  using handlesD [OF handles_router [of fmt lib health]]
  by (auto simp: handles_def api_serve_def Middleware_def Let_def split: prod.splits)

text \<open>
  What a request that succeeded did, by the operation: the body is decoded, its fields become the arguments of
  one call of the store, the call succeeds, and its result is the answer.
\<close>

definition definition_created :: "(go_time \<Rightarrow> string) \<Rightarrow> http_request \<Rightarrow> session \<Rightarrow> pg \<Rightarrow> http_response \<Rightarrow> pg \<Rightarrow> bool" where
  "definition_created fmt r ses db resp db' \<longleftrightarrow> (\<exists>q item. decode_create (hr_Body r) = Some q \<and>
     CreateWorkflowDefinition (TrimSpace (cw_Name q)) (cw_Description q)
       (if cw_Definition q = [] then default_definition else cw_Definition q)
       (ses_env ses 0) (others ses 1 db) = (Inr item, db') \<and>
     rs_Body resp = JsonBody (marshal_definition fmt item))"

definition execution_created :: "(go_time \<Rightarrow> string) \<Rightarrow> http_request \<Rightarrow> session \<Rightarrow> pg \<Rightarrow> http_response \<Rightarrow> pg \<Rightarrow> bool" where
  "execution_created fmt r ses db resp db' \<longleftrightarrow> (\<exists>q def spec task res. decode_trigger (hr_Body r) = Some q \<and>
     GetWorkflowDefinition (te_WorkflowDefinitionID q) (ses_env ses 0) (others ses 1 db) = Inr def \<and>
     ParseAndValidateWorkflowDefinition (def_DefinitionJSON def) = Inr spec \<and> FindEntryTask spec = Inr task \<and>
     CreateExecutionAndTask (te_WorkflowDefinitionID q) (te_Input q) (spec_Name task) (spec_HandlerKey task)
       (ses_env ses 1) (others ses 2 db) = (Inr res, db') \<and>
     rs_Body resp = JsonBody (marshal_start fmt res))"

definition task_replayed :: "(go_time \<Rightarrow> string) \<Rightarrow> http_request \<Rightarrow> session \<Rightarrow> pg \<Rightarrow> http_response \<Rightarrow> pg \<Rightarrow> bool" where
  "task_replayed fmt r ses db resp db' \<longleftrightarrow> (\<exists>t task. parseTaskActionPath (hr_Path r) = Some (t, ''replay'') \<and>
     ReplayDeadLetteredTask (TrimSpace t) (ses_env ses 0) (others ses 1 db) = (Inr task, db') \<and>
     rs_Body resp = JsonBody (marshal_task fmt task))"

lemma body_simps [simp]:
  "rs_Body (writeJSON code j) = JsonBody j" "rs_Body (with_cors resp) = rs_Body resp"
  by (simp_all add: writeJSON_def with_cors_def)

lemma workflows_success:
  assumes "handleWorkflows fmt lib r ses db = ((resp, ms), db')" "success resp"
  shows "rs_Status resp = 201" "hr_Method r = ''POST''" "definition_created fmt r ses db resp db'"
  using assms
  by (auto simp: handleWorkflows_def ServiceCreateWorkflowDefinition_def definition_created_def success_def others_unfold Let_def
      split: if_splits option.splits prod.splits sum.splits)

lemma executions_success:
  assumes "handleExecutions fmt lib r ses db = ((resp, ms), db')" "success resp"
  shows "rs_Status resp = 202" "hr_Method r = ''POST''" "execution_created fmt r ses db resp db'"
  using assms
  by (auto simp: handleExecutions_def TriggerExecution_def execution_created_def success_def others_unfold others_two Let_def
      simp del: One_nat_def split: if_splits option.splits prod.splits sum.splits)

lemma task_actions_success:
  assumes "handleTaskActions fmt r ses db = ((resp, ms), db')" "success resp"
  shows "rs_Status resp = 202" "hr_Method r = ''POST''" "task_replayed fmt r ses db resp db'"
  using assms
  by (auto simp: handleTaskActions_def ServiceReplayDeadLetteredTask_def task_replayed_def success_def others_unfold Let_def
      split: if_splits option.splits prod.splits sum.splits)

lemma reads_fail:
  "handleExecutionSnapshot fmt r ses db = ((resp, ms), db') \<Longrightarrow> \<not> success resp"
  "handleDeadLetteredTasks fmt lib r ses db = ((resp, ms), db') \<Longrightarrow> \<not> success resp"
  "\<not> success (handleHealth service lib health r)" "\<not> success metrics_response"
  by (auto simp: handleExecutionSnapshot_def handleDeadLetteredTasks_def handleHealth_def success_def Let_def
      split: if_splits sum.splits option.splits)

lemma routed_paths:
  assumes "serve_mux api_mux r = Routed rt"
  shows "rt = Workflows \<Longrightarrow> path_segments (hr_EscapedPath r) = [''api'', ''workflows'']"
    "rt = Executions \<Longrightarrow> path_segments (hr_EscapedPath r) = [''api'', ''executions'']"
    "rt = TaskActions \<Longrightarrow> take 2 (path_segments (hr_EscapedPath r)) = [''api'', ''tasks'']"
  using assms
  by (auto simp: serve_mux_def mux_find_def api_mux_def RegisterHealthRoutes_def Let_def numeral_2_eq_2 split: if_splits option.splits)

lemma router_success:
  assumes "serve_api_mux fmt lib health r ses db = ((resp, ms), db')" "success resp"
  obtains "rs_Status resp = 201" "hr_Method r = ''POST''" "path_segments (hr_EscapedPath r) = [''api'', ''workflows'']"
      "definition_created fmt r ses db resp db'"
    | "rs_Status resp = 202" "hr_Method r = ''POST''" "path_segments (hr_EscapedPath r) = [''api'', ''executions'']"
      "execution_created fmt r ses db resp db'"
    | "rs_Status resp = 202" "hr_Method r = ''POST''" "take 2 (path_segments (hr_EscapedPath r)) = [''api'', ''tasks'']"
      "task_replayed fmt r ses db resp db'"
proof -
  from assms obtain rt where rt: "serve_mux api_mux r = Routed rt" "serve_route fmt lib health rt r ses db = ((resp, ms), db')"
    by (auto simp: serve_api_mux_def success_def split: mux_result.splits)
  show thesis
    using rt(2) assms(2) that routed_paths [OF rt(1)]
      workflows_success [of fmt lib r ses db resp ms db'] executions_success [of fmt lib r ses db resp ms db']
      task_actions_success [of fmt r ses db resp ms db']
    by (cases rt) (auto simp: serve_route_def reads_fail)
qed

text \<open>
  C11.  What an API request does to the database can be read off its status.  A request answered with 201 was a
  \<^verbatim>\<open>POST\<close> to \<^verbatim>\<open>/api/workflows\<close>: it created the definition whose name (trimmed), description and document (or
  the default one) its body gives.  One answered with 202 was a \<^verbatim>\<open>POST\<close> to \<^verbatim>\<open>/api/executions\<close>, and created an execution of
  the definition its body names, with the input of the body and the entry task of that definition, or a
  \<^verbatim>\<open>POST\<close> below \<^verbatim>\<open>/api/tasks/\<close>, and replayed the task its path names.  Each is one call of the store on
  top of what other sessions committed, and its result is the answer.  Any other request leaves the database to
  the other sessions, unless it is a \<^verbatim>\<open>POST\<close> whose one call took effect although the reply to its commit was lost.
\<close>

theorem request_effect:
  assumes "api_serve fmt lib health service r ses db = ((resp, ms), db')"
  shows "(rs_Status resp = 201 \<longrightarrow> hr_Method r = ''POST'' \<and>
      path_segments (hr_EscapedPath r) = [''api'', ''workflows''] \<and> definition_created fmt r ses db resp db') \<and>
    (rs_Status resp = 202 \<longrightarrow> hr_Method r = ''POST'' \<and>
      (path_segments (hr_EscapedPath r) = [''api'', ''executions''] \<and> execution_created fmt r ses db resp db' \<or>
       take 2 (path_segments (hr_EscapedPath r)) = [''api'', ''tasks''] \<and> task_replayed fmt r ses db resp db')) \<and>
    (rs_Status resp \<noteq> 201 \<and> rs_Status resp \<noteq> 202 \<longrightarrow>
      (\<exists>n. db' = others ses n db) \<or>
      (hr_Method r = ''POST'' \<and> (\<exists>c n. api_call c \<and> \<not> no_lost_commit (ses_env ses n) \<and>
         db' = perform c (ses_env ses n) (others ses (Suc n) db))))"
proof -
  have idle: "\<not> success resp \<Longrightarrow> (\<exists>n. db' = others ses n db) \<or> (hr_Method r = ''POST'' \<and> (\<exists>c n. api_call c \<and>
      \<not> no_lost_commit (ses_env ses n) \<and> db' = perform c (ses_env ses n) (others ses (Suc n) db)))"
    using handlesD [OF handles_server assms] by (auto simp: served_def called_def untouched_def)
  show ?thesis
  proof (cases "success resp")
    case True
    from assms True obtain resp' ms' where m: "serve_api_mux fmt lib health r ses db = ((resp', ms'), db')" "resp = with_cors resp'"
      by (auto simp: api_serve_def Middleware_def NewRouter_def cors_def success_def Let_def split: prod.splits if_splits)
    moreover have "definition_created fmt r ses db resp' = definition_created fmt r ses db resp"
      "execution_created fmt r ses db resp' = execution_created fmt r ses db resp"
      "task_replayed fmt r ses db resp' = task_replayed fmt r ses db resp"
      by (simp_all add: fun_eq_iff definition_created_def execution_created_def task_replayed_def m(2))
    moreover have "success resp'" using True m(2) by (simp add: success_def)
    ultimately show ?thesis using router_success [OF m(1)] by (elim router_success [OF m(1)]) simp_all
  qed (use idle in \<open>simp add: success_def\<close>)
qed

section \<open>Replaying a task\<close>

lemma split_task_path:
  assumes "CHR ''/'' \<notin> set t"
  shows "split_on (CHR ''/'') (''/api/tasks/'' @ t @ ''/replay'') = [[], ''api'', ''tasks'', t, ''replay'']"
  using split_on_append [OF assms, of "''replay''"] by simp

lemma replay_path_routed:
  assumes "CHR ''/'' \<notin> set t" "CHR ''%'' \<notin> set t" "t \<noteq> []" "t \<noteq> ''.''" "t \<noteq> ''..''"
    and "hr_EscapedPath r = ''/api/tasks/'' @ t @ ''/replay''"
  shows "serve_mux api_mux r = Routed TaskActions"
proof -
  let ?p = "''/api/tasks/'' @ t @ ''/replay''"
  have "clean_path ?p = ?p"
    using assms(3-5) split_task_path [OF assms(1)] by (simp add: clean_path_def clean_segment_def)
  moreover have "path_segments ?p = [''api'', ''tasks'', t, ''replay'']"
  proof -
    have u: "unescape False t = Some t" using assms(2) by (rule unescape_path_plain)
    have "split_on (CHR ''/'') (tl ?p) = [''api'', ''tasks'', t, ''replay'']"
      using split_on_append [OF assms(1), of "''replay''"] by simp
    then show ?thesis by (simp add: path_segments_def u)
  qed
  moreover have "has_suffix ''/'' ?p = False" by (simp add: has_suffix_def has_prefix_def)
  ultimately show ?thesis using assms(6)
    by (simp add: serve_mux_def slash_redirect_def mux_find_def api_mux_def RegisterHealthRoutes_def Let_def)
qed

lemma replay_path_parsed:
  assumes "CHR ''/'' \<notin> set t" "TrimSpace t = t" "t \<noteq> []"
  shows "parseTaskActionPath (''/api/tasks/'' @ t @ ''/replay'') = Some (t, ''replay'')"
proof -
  have "hd t \<noteq> CHR ''/''" using assms(1,3) by (cases t) auto
  then have "trim_both (CHR ''/'') (t @ ''/replay'') = t @ ''/replay''"
    using assms(3) by (intro trim_both_id) (auto simp: hd_append)
  moreover have "TrimSpace ''replay'' \<noteq> []" by (rule TrimSpace_letter) (simp_all add: byte_def is_space_def space_runes_def)
  ultimately show ?thesis
    using assms split_on_append [OF assms(1), of "''replay''"] trim_prefix_append [of "''/api/tasks/''" "t @ ''/replay''"]
    by (simp add: parseTaskActionPath_def split_on_append)
qed

lemma replay_routed:
  assumes "hr_Path r = ''/api/tasks/'' @ t @ ''/replay''" "hr_EscapedPath r = hr_Path r"
    and "CHR ''/'' \<notin> set t" "CHR ''%'' \<notin> set t" "t \<noteq> []" "t \<noteq> ''.''" "t \<noteq> ''..''" "TrimSpace t = t"
  shows "serve_mux api_mux r = Routed TaskActions" "parseTaskActionPath (hr_Path r) = Some (t, ''replay'')"
  using replay_path_routed [OF assms(3-7)] replay_path_parsed [OF assms(3,8,5)] assms(1,2) by simp_all

text \<open>A replay request reaches the service with the task id of its path.\<close>

lemma replay_request:
  assumes "hr_Method r = ''POST''" "hr_Path r = ''/api/tasks/'' @ t @ ''/replay''" "hr_EscapedPath r = hr_Path r"
    and "CHR ''/'' \<notin> set t" "CHR ''%'' \<notin> set t" "t \<noteq> []" "t \<noteq> ''.''" "t \<noteq> ''..''" "TrimSpace t = t"
    and "ServiceReplayDeadLetteredTask t (ses_env ses 0) (ses_other ses 0 db) = (Inl e, db')"
  shows "api_serve fmt lib health service r ses db =
    (let resp = (if IsNotFound e then writeJSON 404 (error_json ''task not found'')
                 else if IsTaskNotReplayable e then bad_request ''only dead-lettered tasks can be replayed''
                 else writeJSON 500 (error_json ''failed to replay task''));
         code = Itoa (rs_Status resp)
     in ((with_cors resp, [HTTPRequests service (hr_Path r) ''POST'' code, HTTPRequestDuration service (hr_Path r) ''POST'' code]), db'))"
proof -
  note routed = replay_routed [OF assms(2-9)]
  with assms(1,10) show ?thesis
    by (simp add: api_serve_def Middleware_def NewRouter_def cors_def serve_api_mux_def serve_route_def
        handleTaskActions_def Let_def)
qed

lemma replay_request_done:
  assumes "hr_Method r = ''POST''" "hr_Path r = ''/api/tasks/'' @ t @ ''/replay''" "hr_EscapedPath r = hr_Path r"
    and "CHR ''/'' \<notin> set t" "CHR ''%'' \<notin> set t" "t \<noteq> []" "t \<noteq> ''.''" "t \<noteq> ''..''" "TrimSpace t = t"
    and "ServiceReplayDeadLetteredTask t (ses_env ses 0) (ses_other ses 0 db) = (Inr task, db')"
  shows "\<exists>resp ms. api_serve fmt lib health service r ses db = ((resp, ms), db') \<and> rs_Status resp = 202"
  using assms(1,10) replay_routed [OF assms(2-9)]
  by (simp add: api_serve_def Middleware_def NewRouter_def cors_def serve_api_mux_def serve_route_def
      handleTaskActions_def Let_def)

text \<open>
  A replay request for an unknown task is answered with 404, one for a task that is not
  dead-lettered with 400 and the reason; both leave the database alone.
\<close>

lemma replay_request_status:
  assumes "hr_Method r = ''POST''" "hr_Path r = ''/api/tasks/'' @ t @ ''/replay''" "hr_EscapedPath r = hr_Path r"
    and "CHR ''/'' \<notin> set t" "CHR ''%'' \<notin> set t" "t \<noteq> []" "t \<noteq> ''.''" "t \<noteq> ''..''" "TrimSpace t = t"
    and "calm (ses_env ses 0)" "pg_uuid_in (ses_env ses 0) t = Some u"
    and "api_serve fmt lib health service r ses db = ((resp, ms), db')"
  shows "(select_by ti_id u (task_instances (ses_other ses 0 db)) = None \<longrightarrow>
      rs_Status resp = 404 \<and> rs_Body resp = JsonBody (error_json ''task not found'') \<and> db' = ses_other ses 0 db) \<and>
    (\<forall>q. select_by ti_id u (task_instances (ses_other ses 0 db)) = Some q \<and> ti_status q \<noteq> TaskStatusDeadLettered \<longrightarrow>
      rs_Status resp = 400 \<and> rs_Body resp = JsonBody (error_json ''only dead-lettered tasks can be replayed'') \<and>
      db' = ses_other ses 0 db)"
proof -
  let ?db = "ses_other ses 0 db"
  have served: "ServiceReplayDeadLetteredTask t (ses_env ses 0) ?db = (Inl e, ?db)"
    if "ReplayDeadLetteredTask t (ses_env ses 0) ?db = (Inl e, ?db)" "IsNotFound e \<or> IsTaskNotReplayable e" for e
    using that assms(6,9) by (simp add: ServiceReplayDeadLetteredTask_def Let_def)
  show ?thesis
    using replay_refused [OF assms(10,11), of ?db] replay_request [OF assms(1-9) served] assms(12)
    by (fastforce simp: Let_def with_cors_def writeJSON_def bad_request_def)
qed

definition replay_demo :: "string \<Rightarrow> http_request" where
  "replay_demo t = \<lparr>hr_Method = ''POST'', hr_Path = ''/api/tasks/'' @ t @ ''/replay'',
     hr_EscapedPath = ''/api/tasks/'' @ t @ ''/replay'', hr_RawQuery = [], hr_Body = []\<rparr>"

definition demo_format :: "go_time \<Rightarrow> string" where
  "demo_format _ = ''1970-01-01T00:00:00Z''"

definition demo_serve :: "session \<Rightarrow> pg \<Rightarrow> api_result" where
  "demo_serve = api_serve demo_format (\<lambda>_. ''failed'') None ''durableflow-api'' (replay_demo ''ue..'')"

lemma demo_trim: "TrimSpace ''ue..'' = ''ue..''"
  by code_simp

theorem request_effect_witness:
  "\<exists>resp ms task db'. demo_serve (demo_session ''p'') demo_dead = ((resp, ms), db') \<and> rs_Status resp = 202 \<and>
     ReplayDeadLetteredTask ''ue..'' (demo_env ''p'' 100) demo_dead = (Inr task, db') \<and>
     rs_Body resp = JsonBody (marshal_task demo_format task)"
proof -
  let ?r = "replay_demo ''ue..''"
  obtain item db1 where p: "ReplayDeadLetteredTask ''ue..'' (demo_env ''p'' 100) demo_dead = (Inr item, db1)"
    by (rule demo_replayed)
  then have "ServiceReplayDeadLetteredTask ''ue..'' (ses_env (demo_session ''p'') 0) (ses_other (demo_session ''p'') 0 demo_dead) = (Inr item, db1)"
    by (simp add: ServiceReplayDeadLetteredTask_def demo_trim Let_def)
  from replay_request_done [OF _ _ _ _ _ _ _ _ demo_trim this, of ?r demo_format "\<lambda>_. ''failed''" None "''durableflow-api''"] obtain resp ms where
    s: "demo_serve (demo_session ''p'') demo_dead = ((resp, ms), db1)" "rs_Status resp = 202"
    by (auto simp: demo_serve_def replay_demo_def)
  have "path_segments (hr_EscapedPath ?r) \<noteq> [''api'', ''executions'']"
    using split_task_path [of "''ue..''"] by (simp add: replay_demo_def path_segments_def)
  with request_effect [OF s(1) [unfolded demo_serve_def]] s(2)
  have "task_replayed demo_format ?r (demo_session ''p'') demo_dead resp db1" by simp
  then obtain t task where t: "parseTaskActionPath (hr_Path ?r) = Some (t, ''replay'')" "rs_Body resp = JsonBody (marshal_task demo_format task)"
      "ReplayDeadLetteredTask (TrimSpace t) (demo_env ''p'' 100) demo_dead = (Inr task, db1)"
    by (auto simp: task_replayed_def others_def)
  have "t = ''ue..''" using t(1) replay_path_parsed [OF _ demo_trim] by (simp add: replay_demo_def)
  with s t show ?thesis by (auto simp: demo_trim)
qed

end
