(* ===== verification/Telemetry.thy ===== *)
theory Telemetry
  imports JsonDecode QueueProps EngineDemo HttpProps
begin

text \<open>
  The metrics of \<^verbatim>\<open>internal/telemetry/telemetry.go\<close>: the collectors as they are registered and the label values
  of every place in the code that increments or observes one.  A call of \<^verbatim>\<open>WithLabelValues\<close> with a wrong
  number of values or a value that is not accepted panics; \<open>metrics_panic_iff\<close> says which calls do.
\<close>

section \<open>Collectors\<close>

datatype vector = CounterVec | HistogramVec

record collector =
  co_Vector :: vector
  co_Name :: string
  co_Labels :: "string list"

definition counter_vec :: "string \<Rightarrow> string list \<Rightarrow> collector" where
  "counter_vec name labels = \<lparr>co_Vector = CounterVec, co_Name = name, co_Labels = labels\<rparr>"

definition histogram_vec :: "string \<Rightarrow> string list \<Rightarrow> collector" where
  "histogram_vec name labels = \<lparr>co_Vector = HistogramVec, co_Name = name, co_Labels = labels\<rparr>"

text \<open>The variables of the package.\<close>

definition collectors :: "(string \<times> collector) list" where
  "collectors =
     [(''HTTPRequests'', counter_vec ''durableflow_http_requests_total'' [''service'', ''route'', ''method'', ''status_code'']),
      (''HTTPRequestDuration'',
        histogram_vec ''durableflow_http_request_duration_seconds'' [''service'', ''route'', ''method'', ''status_code'']),
      (''WorkflowDefinitionsCreated'', counter_vec ''durableflow_workflow_definitions_created_total'' [''service'']),
      (''WorkflowExecutionsCreated'', counter_vec ''durableflow_workflow_executions_created_total'' [''service'']),
      (''DispatchEvents'', counter_vec ''durableflow_dispatch_events_total'' [''service'', ''status'']),
      (''TasksProcessed'', counter_vec ''durableflow_tasks_processed_total'' [''service'', ''handler'', ''status'']),
      (''TaskProcessingDuration'',
        histogram_vec ''durableflow_task_processing_duration_seconds'' [''service'', ''handler'', ''status'']),
      (''RetriesScheduled'', counter_vec ''durableflow_retries_scheduled_total'' [''service'', ''handler'']),
      (''RetriesEnqueued'', counter_vec ''durableflow_retries_enqueued_total'' [''service'']),
      (''DeadLetteredTasks'', counter_vec ''durableflow_dead_lettered_tasks_total'' [''service'', ''handler'', ''reason'']),
      (''TaskReplays'', counter_vec ''durableflow_task_replays_total'' [''service'']),
      (''ReclaimedMessages'', counter_vec ''durableflow_reclaimed_messages_total'' [''service'', ''stream'', ''group''])]"

text \<open>\<^verbatim>\<open>promauto\<close> registers each collector, and panics when a name is registered twice.\<close>

lemma collectors_register: "distinct (map fst collectors)" "distinct (map (co_Name \<circ> snd) collectors)"
  by (simp_all add: collectors_def counter_vec_def histogram_vec_def)

section \<open>Label values\<close>

text \<open>The variable and the label values of each call in \<^verbatim>\<open>worker.go\<close> and \<^verbatim>\<open>publisher.go\<close>.\<close>

fun series :: "metric \<Rightarrow> string \<times> string list" where
  "series (RetriesEnqueued n) = (''RetriesEnqueued'', [''api''])"
| "series (DispatchEvents status) = (''DispatchEvents'', [''api'', status])"
| "series (TasksProcessed handler status) = (''TasksProcessed'', [''worker'', handler, status])"
| "series (RetriesScheduled handler) = (''RetriesScheduled'', [''worker'', handler])"
| "series (DeadLetteredTasks handler reason) = (''DeadLetteredTasks'', [''worker'', handler, reason])"
| "series (TaskProcessingDuration handler outcome) = (''TaskProcessingDuration'', [''worker'', handler, outcome])"

text \<open>Those of \<^verbatim>\<open>router.go\<close> and of \<^verbatim>\<open>Middleware\<close>.\<close>

fun api_series :: "api_metric \<Rightarrow> string \<times> string list" where
  "api_series (WorkflowDefinitionsCreated service) = (''WorkflowDefinitionsCreated'', [service])"
| "api_series (WorkflowExecutionsCreated service) = (''WorkflowExecutionsCreated'', [service])"
| "api_series (TaskReplays service) = (''TaskReplays'', [service])"
| "api_series (HTTPRequests service route meth code) = (''HTTPRequests'', [service, route, meth, code])"
| "api_series (HTTPRequestDuration service route meth code) = (''HTTPRequestDuration'', [service, route, meth, code])"

text \<open>That of a turn of \<^verbatim>\<open>Consume\<close>, which counts reclaimed messages before it handles them.\<close>

definition turn_series :: "'w redis \<Rightarrow> ConsumeOptions \<Rightarrow> string \<Rightarrow> string \<Rightarrow> 'w \<Rightarrow> (string \<times> string list) list" where
  "turn_series rd opts stream grp w =
     (case rd_ctx_err rd w of
        Some e \<Rightarrow> []
      | None \<Rightarrow>
          (case fst (claimPending rd opts w) of
             Inl e \<Rightarrow> []
           | Inr reclaimed \<Rightarrow> if length reclaimed > 0 then [(''ReclaimedMessages'', [''worker'', stream, grp])] else []))"

text \<open>
  \<^verbatim>\<open>WithLabelValues\<close> of the Prometheus client returns a metric, or panics.  Which label values it accepts is a
  parameter; its documentation says: those that are valid UTF-8.
\<close>

definition WithLabelValues :: "(string \<Rightarrow> bool) \<Rightarrow> string \<times> string list \<Rightarrow> bool" where
  "WithLabelValues accepts call =
     (case map_of collectors (fst call) of
        None \<Rightarrow> False
      | Some co \<Rightarrow> length (snd call) = length (co_Labels co) \<and> list_all accepts (snd call))"

definition utf8_labels :: "(string \<Rightarrow> bool) \<Rightarrow> bool" where
  "utf8_labels accepts \<longleftrightarrow> (\<forall>v. accepts v = utf8_valid v)"

lemma recorded:
  "WithLabelValues accepts (series m) \<longleftrightarrow> list_all accepts (snd (series m))"
  by (cases m) (simp_all add: WithLabelValues_def collectors_def counter_vec_def histogram_vec_def)

lemma api_recorded:
  "WithLabelValues accepts (api_series m) \<longleftrightarrow> list_all accepts (snd (api_series m))"
  by (cases m) (simp_all add: WithLabelValues_def collectors_def counter_vec_def histogram_vec_def)

text \<open>So a metric is recorded when its label values are accepted.\<close>

definition labels_ok :: "(string \<Rightarrow> bool) \<Rightarrow> metric \<Rightarrow> bool" where
  "labels_ok accepts m = list_all accepts (snd (series m))"

definition api_labels_ok :: "(string \<Rightarrow> bool) \<Rightarrow> api_metric \<Rightarrow> bool" where
  "api_labels_ok accepts m = list_all accepts (snd (api_series m))"

lemma recorded_comp:
  "WithLabelValues accepts \<circ> series = labels_ok accepts" "WithLabelValues accepts \<circ> api_series = api_labels_ok accepts"
  by (simp_all add: fun_eq_iff recorded api_recorded labels_ok_def api_labels_ok_def)

section \<open>Which values are valid\<close>

text \<open>The strings of a decoded message are valid UTF-8, whatever was in the stream.\<close>

definition payload_valid :: "DispatchTaskPayload \<Rightarrow> bool" where
  "payload_valid p \<longleftrightarrow> utf8_valid (pay_TaskID p) \<and> utf8_valid (pay_ExecutionID p) \<and> utf8_valid (pay_HandlerKey p)"

lemma set_payload_valid: "set_payload_field f j p = Some q \<Longrightarrow> well_formed j \<Longrightarrow> payload_valid p \<Longrightarrow> payload_valid q"
  by (auto simp: set_payload_field_def payload_valid_def unmarshal_string_def split: if_splits json.splits)

lemma members_payload_valid:
  "unmarshal_members names set_payload_field ms p = Some q \<Longrightarrow> list_all (\<lambda>(k, j). utf8_valid k \<and> well_formed j) ms \<Longrightarrow>
     payload_valid p \<Longrightarrow> payload_valid q"
proof (induction ms arbitrary: p)
  case (Cons kj ms)
  obtain k j where kj: "kj = (k, j)" by fastforce
  show ?case
  proof (cases "match_field names k")
    case None
    with Cons kj show ?thesis by simp
  next
    case (Some f)
    with Cons.prems(1) kj obtain p' where "set_payload_field f j p = Some p'" "unmarshal_members names set_payload_field ms p' = Some q"
      by (auto split: option.splits)
    with Cons set_payload_valid kj show ?thesis by simp
  qed
qed simp

lemma decoded_message_valid:
  assumes "decodeTaskMessage x = Inr m"
  shows "utf8_valid (msg_TaskID m)" "utf8_valid (msg_ExecutionID m)" "utf8_valid (msg_HandlerKey m)"
proof -
  from assms obtain raw j p where d: "json_decode raw = Some j" "unmarshal_payload j = Some p" "m = payload_message p"
    by (auto simp: decodeTaskMessage_def json_unmarshal_def unmarshal_message_def Let_def split: option.splits xvalue.splits sum.splits)
  let ?zero = "\<lparr>pay_TaskID = [], pay_ExecutionID = [], pay_HandlerKey = []\<rparr>"
  have zero: "payload_valid ?zero" by (simp add: payload_valid_def)
  from d(2) consider "p = ?zero"
    | ms where "j = JObj ms" "unmarshal_members [''task_id'', ''execution_id'', ''handler_key''] set_payload_field ms ?zero = Some p"
    by (cases j) (simp_all add: unmarshal_payload_def unmarshal_struct_def)
  then have "payload_valid p"
    by cases (use zero json_decode_ok(1) [OF d(1)] members_payload_valid [OF _ _ zero] in \<open>simp_all\<close>)
  then show "utf8_valid (msg_TaskID m)" "utf8_valid (msg_ExecutionID m)" "utf8_valid (msg_HandlerKey m)"
    by (simp_all add: d(3) payload_message_def payload_valid_def)
qed

lemma literals_valid: "list_all utf8_valid
  ([''api'', ''worker'', ''failed'', ''persist_error'', ''published'', ''missing_handler'', ''exhausted_attempts''] @ nil_outcomes @ error_outcomes)"
proof -
  have "list_all ascii ([''api'', ''worker'', ''failed'', ''persist_error'', ''published'', ''missing_handler'',
      ''exhausted_attempts''] @ nil_outcomes @ error_outcomes)"
    by (simp add: nil_outcomes_def error_outcomes_def byte_def)
  then show ?thesis by (auto simp: list_all_iff intro: utf8_valid_ascii)
qed

text \<open>The metrics of a batch of the publisher.\<close>

definition publisher_metric :: "metric \<Rightarrow> bool" where
  "publisher_metric m \<longleftrightarrow> m \<in> range RetriesEnqueued \<union> DispatchEvents ` {''failed'', ''persist_error'', ''published''}"

lemma publisher_metrics [simp]:
  "publisher_metric (RetriesEnqueued n)" "publisher_metric (DispatchEvents ''failed'')"
  "publisher_metric (DispatchEvents ''persist_error'')" "publisher_metric (DispatchEvents ''published'')"
  by (simp_all add: publisher_metric_def)

lemma publish_events_labels: "list_all publisher_metric (snd (fst (publish_events rd ses n events (db, r))))"
  by (induction events arbitrary: n db r) (simp_all add: Let_def split: sum.split prod.split option.split)

lemma publishOnce_labels: "list_all publisher_metric (snd (fst (publishOnce rd ses st)))"
  by (simp add: publishOnce_def Let_def publish_events_labels split: prod.split sum.split)

text \<open>Those of the routes.\<close>

definition route_metric :: "api_metric \<Rightarrow> bool" where
  "route_metric m \<longleftrightarrow> m \<in> {WorkflowDefinitionsCreated ''api'', WorkflowExecutionsCreated ''api'', TaskReplays ''api''}"

lemma route_metrics [simp]:
  "route_metric (WorkflowDefinitionsCreated ''api'')" "route_metric (WorkflowExecutionsCreated ''api'')" "route_metric (TaskReplays ''api'')"
  by (simp_all add: route_metric_def)

lemma handler_labels [simp]:
  "list_all route_metric (snd (fst (handleWorkflows fmt lib r ses db)))"
  "list_all route_metric (snd (fst (handleExecutions fmt lib r ses db)))"
  "list_all route_metric (snd (fst (handleExecutionSnapshot fmt r ses db)))"
  "list_all route_metric (snd (fst (handleDeadLetteredTasks fmt lib r ses db)))"
  "list_all route_metric (snd (fst (handleTaskActions fmt r ses db)))"
  by (simp_all add: handleWorkflows_def handleExecutions_def handleExecutionSnapshot_def handleDeadLetteredTasks_def
      handleTaskActions_def Let_def split: prod.split sum.split option.split)

lemma router_labels: "list_all route_metric (snd (fst (NewRouter fmt lib health r ses db)))"
  by (simp add: NewRouter_def cors_def serve_api_mux_def serve_route_def case_prod_unfold split: route.split mux_result.split)

lemma Itoa_valid: "utf8_valid (Itoa n)"
  by (rule number_ascii, rule number_Itoa)

lemma publisher_labels: "utf8_labels accepts \<Longrightarrow> publisher_metric m \<Longrightarrow> labels_ok accepts m"
  using literals_valid by (auto simp: publisher_metric_def labels_ok_def utf8_labels_def)

lemma route_labels: "utf8_labels accepts \<Longrightarrow> route_metric m \<Longrightarrow> api_labels_ok accepts m"
  using literals_valid by (auto simp: route_metric_def api_labels_ok_def utf8_labels_def)

lemma worker_labels:
  assumes "utf8_labels accepts" "utf8_valid (msg_HandlerKey m)"
  shows "list_all (labels_ok accepts) (snd (fst (HandleDispatchedTask reg m run db)))"
proof -
  from message_accounted_once [of m reg run db] obtain outcome where
    ms: "snd (fst (HandleDispatchedTask reg m run db)) = TasksProcessed (msg_HandlerKey m) outcome #
       extra_counters (msg_HandlerKey m) outcome @ [TaskProcessingDuration (msg_HandlerKey m) outcome]"
    and o: "outcome \<in> set (nil_outcomes @ error_outcomes)" by (auto simp: accounted_def split: if_splits)
  have "utf8_valid outcome" using o literals_valid by (auto simp: list_all_iff)
  then show ?thesis
    using assms literals_valid by (simp add: ms extra_counters_def labels_ok_def utf8_labels_def)
qed

lemma reclaim_recorded:
  assumes "utf8_labels accepts" "utf8_valid stream" "utf8_valid grp"
  shows "list_all (WithLabelValues accepts) (turn_series rd opts stream grp w)"
  using assms literals_valid
  by (simp add: turn_series_def WithLabelValues_def collectors_def counter_vec_def histogram_vec_def utf8_labels_def
      split: option.split sum.split)

lemma worker_mux_labels: "snd (fst (serve_worker_mux lib health r ses db)) = []"
  by (simp add: serve_worker_mux_def split: mux_result.split route.split)

lemma middleware_labels:
  assumes "utf8_labels accepts" "utf8_valid service" "utf8_valid (hr_Method r)" "list_all (api_labels_ok accepts) (snd (fst (handler r ses db)))"
  shows "list_all (api_labels_ok accepts) (snd (fst (Middleware service handler r ses db))) \<longleftrightarrow> utf8_valid (hr_Path r)"
  using assms by (auto simp: Middleware_def Let_def api_labels_ok_def utf8_labels_def Itoa_valid split: prod.split)

text \<open>
  C15.  When is a metric recorded, and when does the code panic?  Handling a message never panics, whatever the
  message was, nor does the consumer, given that the configured names of stream and group are valid UTF-8; neither does
  the publisher.  The two HTTP servers, that of the API and the health server of the worker, whose service name
  is valid UTF-8, panic exactly on a request whose decoded path is not valid UTF-8: the path is a label value.
  By then the request has been served and its effect on the database stays.
\<close>

theorem metrics_panic_iff:
  assumes "utf8_labels accepts"
  shows "(decodeTaskMessage x = Inr m \<longrightarrow>
      list_all (WithLabelValues accepts \<circ> series) (snd (fst (HandleDispatchedTask reg m run db)))) \<and>
    (utf8_valid stream \<and> utf8_valid grp \<longrightarrow> list_all (WithLabelValues accepts) (turn_series rd' opts stream grp w)) \<and>
    list_all (WithLabelValues accepts \<circ> series) (snd (fst (publishOnce rd ses st))) \<and>
    (utf8_valid service \<and> utf8_valid (hr_Method r) \<longrightarrow>
      (list_all (WithLabelValues accepts \<circ> api_series) (snd (fst (api_serve fmt lib health service r ses db))) \<longleftrightarrow> utf8_valid (hr_Path r)) \<and>
      (list_all (WithLabelValues accepts \<circ> api_series) (snd (fst (worker_serve lib health service r ses db))) \<longleftrightarrow> utf8_valid (hr_Path r)))"
  unfolding recorded_comp
proof (intro conjI impI)
  assume "decodeTaskMessage x = Inr m"
  then have "utf8_valid (msg_HandlerKey m)" by (rule decoded_message_valid)
  then show "list_all (labels_ok accepts) (snd (fst (HandleDispatchedTask reg m run db)))" by (rule worker_labels [OF assms])
next
  assume "utf8_valid stream \<and> utf8_valid grp"
  then show "list_all (WithLabelValues accepts) (turn_series rd' opts stream grp w)" by (intro reclaim_recorded [OF assms]) simp_all
next
  show "list_all (labels_ok accepts) (snd (fst (publishOnce rd ses st)))"
    using publishOnce_labels [of rd ses st] publisher_labels [OF assms] by (auto simp: list_all_iff)
next
  assume v: "utf8_valid service \<and> utf8_valid (hr_Method r)"
  have "list_all (api_labels_ok accepts) (snd (fst (NewRouter fmt lib health r ses db)))"
    using router_labels [of fmt lib health r ses db] route_labels [OF assms] by (auto simp: list_all_iff)
  then show "list_all (api_labels_ok accepts) (snd (fst (api_serve fmt lib health service r ses db))) \<longleftrightarrow> utf8_valid (hr_Path r)"
    unfolding api_serve_def using v by (intro middleware_labels [OF assms]) simp_all
  show "list_all (api_labels_ok accepts) (snd (fst (worker_serve lib health service r ses db))) \<longleftrightarrow> utf8_valid (hr_Path r)"
    unfolding worker_serve_def using v by (intro middleware_labels [OF assms]) (simp_all add: worker_mux_labels)
qed

text \<open>The path \<^verbatim>\<open>/%ff\<close> of a request, decoded.\<close>

theorem metrics_panic_iff_witness:
  "let r = \<lparr>hr_Method = ''GET'', hr_Path = [CHR ''/'', CHR 0xFF], hr_EscapedPath = ''/%ff'', hr_RawQuery = [], hr_Body = []\<rparr> in
   list_all (WithLabelValues utf8_valid \<circ> series) (snd (fst (HandleDispatchedTask Map.empty strict_message demo_run strict_db))) \<and>
   list_all (WithLabelValues utf8_valid) (turn_series (demo_redis [strict_entry]) (worker_options ''c'' 0 0) ''api'' ''api'' 0) \<and>
   \<not> list_all (WithLabelValues utf8_valid \<circ> api_series)
     (snd (fst (api_serve (\<lambda>_. []) (\<lambda>_. []) None ''api'' r (strict_session 0) strict_db))) \<and>
   \<not> list_all (WithLabelValues utf8_valid \<circ> api_series)
     (snd (fst (worker_serve (\<lambda>_. []) None ''api'' r (strict_session 0) strict_db)))"
proof -
  let ?r = "\<lparr>hr_Method = ''GET'', hr_Path = [CHR ''/'', CHR 0xFF], hr_EscapedPath = ''/%ff'', hr_RawQuery = [], hr_Body = []\<rparr>"
  have acc: "utf8_labels utf8_valid" by (simp add: utf8_labels_def)
  have "utf8_valid ''api''" "utf8_valid ''GET''" "\<not> utf8_valid [CHR ''/'', CHR 0xFF]" by code_simp+
  then show ?thesis
    using metrics_panic_iff [where x = strict_entry and m = strict_message and reg = Map.empty and run = demo_run and rd = demo_stream
        and rd' = "demo_redis [strict_entry]" and opts = "worker_options ''c'' 0 0" and stream = "''api''" and grp = "''api''" and w = 0
        and st = "(strict_db, [])" and service = "''api''" and r = ?r and fmt = "\<lambda>_. []" and lib = "\<lambda>_. []" and health = None
        and ses = "strict_session 0" and db = strict_db, OF acc] strict_entry_decodes by (simp add: Let_def)
qed

end
