(* ===== verification/Testutil.thy ===== *)
theory Testutil
  imports Startup
begin

text \<open>
  \<^verbatim>\<open>internal/testutil/integration.go\<close>: what an integration test needs, and the store it opens.  The migrations
  are applied under a \<^verbatim>\<open>sync.Once\<close>, so once per test process whatever the tests do (\<open>migrated_once\<close>).
\<close>

section \<open>Requirements\<close>

text \<open>\<^verbatim>\<open>t.Skip\<close> and \<^verbatim>\<open>t.Fatalf\<close> end the test; \<open>Failed\<close> holds the format's text and its error.\<close>

datatype 'a outcome = Skipped string | Failed string go_error | Ready 'a

definition require :: "string \<Rightarrow> string \<Rightarrow> getenv \<Rightarrow> string outcome" where
  "require var missing getenv =
     (if getenv ''ENABLE_INTEGRATION_TESTS'' \<noteq> ''true''
      then Skipped ''integration test skipped: ENABLE_INTEGRATION_TESTS is not set to true''
      else if getenv var = [] then Skipped missing else Ready (getenv var))"

definition RequireIntegrationDatabase :: "getenv \<Rightarrow> string outcome" where
  "RequireIntegrationDatabase = require ''TEST_DATABASE_URL'' ''integration test skipped: TEST_DATABASE_URL is not set''"

definition RequireIntegrationRedis :: "getenv \<Rightarrow> string outcome" where
  "RequireIntegrationRedis = require ''TEST_REDIS_ADDR'' ''integration test skipped: TEST_REDIS_ADDR is not set''"

section \<open>The store of a test\<close>

text \<open>
  The variables of the package: \<open>None\<close> before \<^verbatim>\<open>migrationsOnce\<close> has run, then \<^verbatim>\<open>migrationsErr\<close>; with the database
  and the cleanups that the test has registered (they run in the reverse order).
\<close>

datatype 'p cleanup = Cancel | ClosePool 'p

record ('p, 'd) suite =
  su_migrations :: "go_error option option"
  su_db :: "'d migdb"
  su_cleanups :: "'p cleanup list"

definition migrationsOnce :: "'d migenv \<Rightarrow> ('p, 'd) suite \<Rightarrow> go_error option \<times> ('p, 'd) suite" where
  "migrationsOnce env st =
     (case su_migrations st of
        Some err \<Rightarrow> (err, st)
      | None \<Rightarrow>
          (case ApplyMigrations env (su_db st) of
             (err, m) \<Rightarrow> (err, st\<lparr>su_migrations := Some err, su_db := m\<rparr>)))"

definition OpenIntegrationStore ::
  "getenv \<Rightarrow> ('c, 'p) pgx \<Rightarrow> ('p \<Rightarrow> 'd migenv) \<Rightarrow> nat \<Rightarrow> ('p, 'd) suite \<Rightarrow> 'p outcome \<times> ('p, 'd) suite"
where
  "OpenIntegrationStore getenv pgx env n st =
     (case RequireIntegrationDatabase getenv of
        Skipped msg \<Rightarrow> (Skipped msg, st)
      | Failed msg e \<Rightarrow> (Failed msg e, st)
      | Ready databaseURL \<Rightarrow>
          let st1 = st\<lparr>su_cleanups := Cancel # su_cleanups st\<rparr> in
          (case Open pgx n databaseURL of
             Inl e \<Rightarrow> (Failed ''open integration database: '' e, st1)
           | Inr pool \<Rightarrow>
               (case migrationsOnce (env pool) (st1\<lparr>su_cleanups := ClosePool pool # su_cleanups st1\<rparr>) of
                  (Some e, st2) \<Rightarrow> (Failed ''apply migrations: '' e, st2)
                | (None, st2) \<Rightarrow> (Ready pool, st2))))"

text \<open>The tests of a process, one after another.\<close>

fun open_all ::
  "getenv \<Rightarrow> ('c, 'p) pgx \<Rightarrow> ('p \<Rightarrow> 'd migenv) \<Rightarrow> nat list \<Rightarrow> ('p, 'd) suite \<Rightarrow> 'p outcome list \<times> ('p, 'd) suite"
where
  "open_all getenv pgx env [] st = ([], st)"
| "open_all getenv pgx env (n # ns) st =
     (case OpenIntegrationStore getenv pgx env n st of (r, st1) \<Rightarrow>
        (case open_all getenv pgx env ns st1 of (rs, st2) \<Rightarrow> (r # rs, st2)))"

section \<open>Once per process\<close>

text \<open>Once the migrations have run, their result and the database stay as they are.\<close>

lemma open_later:
  assumes "OpenIntegrationStore getenv pgx env n st = (r, st')" "su_migrations st = Some err"
  shows "su_migrations st' = Some err" "su_db st' = su_db st" "r = Ready pool \<Longrightarrow> err = None"
  using assms
  by (auto simp: OpenIntegrationStore_def migrationsOnce_def Let_def split: outcome.splits sum.splits option.splits)

lemma open_all_later:
  "open_all getenv pgx env ns st = (rs, st') \<Longrightarrow> su_migrations st = Some err \<Longrightarrow>
     su_migrations st' = Some err \<and> su_db st' = su_db st \<and> (\<forall>pool. Ready pool \<in> set rs \<longrightarrow> err = None)"
proof (induction ns arbitrary: st rs)
  case (Cons n ns)
  obtain r st1 where o: "OpenIntegrationStore getenv pgx env n st = (r, st1)" by fastforce
  obtain rs' where rs: "open_all getenv pgx env ns st1 = (rs', st')" "rs = r # rs'"
    using Cons.prems(1) o by (auto split: prod.splits)
  from open_later [OF o Cons.prems(2)] Cons.IH [OF rs(1)] rs(2) show ?case by auto
qed simp

lemma open_first:
  assumes "OpenIntegrationStore getenv pgx env n st = (r, st')" "su_migrations st = None"
  shows "su_migrations st' = None \<and> su_db st' = su_db st \<and> (\<forall>pool. r \<noteq> Ready pool) \<or>
    (\<exists>p err m. ApplyMigrations (env p) (su_db st) = (err, m) \<and> su_migrations st' = Some err \<and> su_db st' = m \<and>
       (\<forall>pool. r = Ready pool \<longrightarrow> err = None))"
  using assms
  by (auto simp: OpenIntegrationStore_def migrationsOnce_def Let_def split: outcome.splits sum.splits option.splits prod.splits)

text \<open>
  However many tests of a process open the store, the migrations are applied at most once, and a test
  gets a store only when that one run succeeded.
\<close>

lemma migrated_once:
  assumes "open_all getenv pgx env ns st = (rs, st')" "su_migrations st = None"
  shows "su_migrations st' = None \<and> su_db st' = su_db st \<and> (\<forall>pool. Ready pool \<notin> set rs) \<or>
    (\<exists>p err m. ApplyMigrations (env p) (su_db st) = (err, m) \<and> su_migrations st' = Some err \<and> su_db st' = m \<and>
       (\<forall>pool. Ready pool \<in> set rs \<longrightarrow> err = None))"
  using assms
proof (induction ns arbitrary: st rs)
  case (Cons n ns)
  obtain r st1 where o: "OpenIntegrationStore getenv pgx env n st = (r, st1)" by fastforce
  obtain rs' where rs: "open_all getenv pgx env ns st1 = (rs', st')" "rs = r # rs'"
    using Cons.prems(1) o by (auto split: prod.splits)
  from open_first [OF o Cons.prems(2)] show ?case
  proof (elim disjE exE conjE)
    assume "su_migrations st1 = None" "su_db st1 = su_db st" "\<forall>pool. r \<noteq> Ready pool"
    with Cons.IH [OF rs(1)] rs(2) show ?thesis by auto
  next
    fix p err m
    assume "ApplyMigrations (env p) (su_db st) = (err, m)" "su_migrations st1 = Some err" "su_db st1 = m"
      "\<forall>pool. r = Ready pool \<longrightarrow> err = None"
    with open_all_later [OF rs(1), of err] rs(2) show ?thesis by (intro disjI2) fastforce
  qed
qed simp

end
