(* ===== verification/Bench.thy ===== *)
theory Bench
  imports GoHttp JsonRound Httpapi Worker
begin

text \<open>
  \<^verbatim>\<open>cmd/bench/main.go\<close>: the benchmark driver.  It writes a workflow definition for a scenario, creates it
  over HTTP, triggers executions and polls each until it is terminal (replaying its dead-lettered task
  once if the scenario asks for it), and summarises the runs.

  The HTTP client and the clock are the record \<open>client\<close> over a world \<open>'w\<close>; the polling loop is a partial
  function, since the server may never answer with a terminal status.  The goroutines of a benchmark are
  what each of them returned and the order in which they finished.  Floating-point values have an
  arbitrary ordered type.  The texts printed at the end are left out.
\<close>

section \<open>Scenarios\<close>

definition scenarioSuccessLinear :: string where "scenarioSuccessLinear = ''success-linear''"
definition scenarioSuccessDeepChain :: string where "scenarioSuccessDeepChain = ''success-deep-chain''"
definition scenarioRetryInvalidInput :: string where "scenarioRetryInvalidInput = ''retry-invalid-input''"
definition scenarioDeadLetterMissingHandler :: string where
  "scenarioDeadLetterMissingHandler = ''dead-letter-missing-handler''"
definition scenarioReplayMissingHandler :: string where
  "scenarioReplayMissingHandler = ''replay-missing-handler''"

record scenarioSpec =
  sc_Definition :: string
  sc_Description :: string
  sc_Input :: string
  sc_ReplayAfterTerminal :: bool

text \<open>\<^verbatim>\<open>json.Marshal\<close> of a map writes the keys in order.\<close>

definition scenario_task :: "string \<Rightarrow> string \<Rightarrow> int \<Rightarrow> int \<Rightarrow> string \<Rightarrow> json" where
  "scenario_task name handler maxAttempts backoffSeconds next =
     JObj ([(''backoff_seconds'', JNum (Itoa backoffSeconds)), (''handler_key'', JStr handler),
            (''max_attempts'', JNum (Itoa maxAttempts)), (''name'', JStr name)] @
           (if next = [] then [] else [(''next_task'', JStr next)]))"

definition scenario_definition :: "string \<Rightarrow> json list \<Rightarrow> string" where
  "scenario_definition entry tasks = json_print (JObj [(''entry_task'', JStr entry), (''tasks'', JArr tasks)])"

definition step_name :: "nat \<Rightarrow> string" where
  "step_name i = ''step-'' @ Itoa (int i + 1)"

definition chain_task :: "int \<Rightarrow> int \<Rightarrow> nat \<Rightarrow> nat \<Rightarrow> json" where
  "chain_task maxAttempts backoffSeconds chainLength i =
     scenario_task (step_name i) (if i mod 2 = 1 then ''notifications.send'' else ''sample.echo'')
       maxAttempts backoffSeconds (if i < chainLength - 1 then step_name (Suc i) else [])"

definition plain_scenario :: "string \<Rightarrow> string \<Rightarrow> scenarioSpec" where
  "plain_scenario def description =
     \<lparr>sc_Definition = def, sc_Description = description, sc_Input = [], sc_ReplayAfterTerminal = False\<rparr>"

definition buildScenarioSpec :: "(string \<Rightarrow> bool) \<Rightarrow> string \<Rightarrow> int \<Rightarrow> int \<Rightarrow> int \<Rightarrow> go_error + scenarioSpec" where
  "buildScenarioSpec isPrint scenario maxAttempts backoffSeconds chainLength =
     (let task = (\<lambda>name handler next. scenario_task name handler maxAttempts backoffSeconds next);
          broken = scenario_definition ''broken-step'' [task ''broken-step'' ''missing.handler'' []]
      in
      if scenario = scenarioSuccessLinear then
        Inr (plain_scenario (scenario_definition ''validate-order''
          [task ''validate-order'' ''sample.echo'' ''send-confirmation'',
           task ''send-confirmation'' ''notifications.send'' []])
          ''Benchmark workflow for steady-state success latency and throughput.'')
      else if scenario = scenarioSuccessDeepChain then
        Inr (plain_scenario (scenario_definition ''step-1''
          (map (chain_task maxAttempts backoffSeconds (nat chainLength)) [0..<nat chainLength]))
          (''Benchmark workflow for '' @ Itoa chainLength @ ''-step chained execution latency and throughput.''))
      else if scenario = scenarioRetryInvalidInput then
        Inr ((plain_scenario (scenario_definition ''retry-step'' [task ''retry-step'' ''sample.echo'' []])
          ''Benchmark workflow for persisted retries and eventual dead-letter after invalid handler input.'')
          \<lparr>sc_Input := ''123''\<rparr>)
      else if scenario = scenarioDeadLetterMissingHandler then
        Inr (plain_scenario broken
          ''Benchmark workflow for immediate terminal dead-letter behavior caused by a missing handler.'')
      else if scenario = scenarioReplayMissingHandler then
        Inr ((plain_scenario broken
          ''Benchmark workflow for dead-letter replay overhead through the normal dispatch path.'')
          \<lparr>sc_ReplayAfterTerminal := True\<rparr>)
      else Inl (ErrorString (''unsupported scenario '' @ go_quote isPrint scenario)))"

text \<open>The checks of the flags in \<^verbatim>\<open>main\<close>; each failure ends the program.\<close>

definition check_flags :: "int \<Rightarrow> int \<Rightarrow> int \<Rightarrow> int \<Rightarrow> int \<Rightarrow> int \<Rightarrow> string option" where
  "check_flags executions concurrency maxAttempts backoff chainLength repeat =
     (if executions \<le> 0 then Some ''executions must be greater than 0''
      else if concurrency \<le> 0 then Some ''concurrency must be greater than 0''
      else if maxAttempts \<le> 0 then Some ''max-attempts must be greater than 0''
      else if backoff < 0 then Some ''backoff-seconds must be at least 0''
      else if chainLength < 2 then Some ''chain-length must be at least 2''
      else if repeat \<le> 0 then Some ''repeat must be greater than 0''
      else None)"

section \<open>Snapshots\<close>

record benchAttempt = ba_Status :: string

record benchTask =
  bt_ID :: string
  bt_Status :: string
  bt_AttemptsTotal :: int
  bt_Attempts :: "benchAttempt list"

record executionSnapshot =
  es_ID :: string
  es_Status :: string
  es_StartedAt :: string
  es_CompletedAt :: string
  es_Tasks :: "benchTask list"

definition isTerminal :: "string \<Rightarrow> bool" where
  "isTerminal status \<longleftrightarrow> status = ''succeeded'' \<or> status = ''failed'' \<or> status = ''dead_lettered''"

fun firstDeadLetteredTaskID :: "benchTask list \<Rightarrow> go_error + string" where
  "firstDeadLetteredTaskID [] = Inl (ErrorString ''no dead-lettered task found for replay'')"
| "firstDeadLetteredTaskID (t # ts) =
     (if bt_Status t = ''dead_lettered'' then Inr (bt_ID t) else firstDeadLetteredTaskID ts)"

definition totalAttempts :: "executionSnapshot \<Rightarrow> int" where
  "totalAttempts snapshot = foldl (\<lambda>total t. total + int (length (bt_Attempts t))) 0 (es_Tasks snapshot)"

definition countTerminalTasks :: "executionSnapshot \<Rightarrow> int" where
  "countTerminalTasks snapshot =
     foldl (\<lambda>n t. if isTerminal (bt_Status t) then n + 1 else n) 0 (es_Tasks snapshot)"

text \<open>\<^verbatim>\<open>Time.Sub\<close> answers the nearest duration when the difference does not fit in one.\<close>

definition time_Sub :: "go_time \<Rightarrow> go_time \<Rightarrow> go_duration" where
  "time_Sub t u = max int64_min (min int64_max (t - u))"

text \<open>\<open>parse\<close> is \<^verbatim>\<open>time.Parse(time.RFC3339Nano, ..)\<close>.\<close>

definition parseReportedLatency ::
  "(string \<Rightarrow> go_error + go_time) \<Rightarrow> executionSnapshot \<Rightarrow> go_error + go_duration"
where
  "parseReportedLatency parse snapshot =
     (if es_StartedAt snapshot = [] \<or> es_CompletedAt snapshot = []
      then Inl (ErrorString ''snapshot missing started_at or completed_at'')
      else case parse (es_StartedAt snapshot) of
        Inl e \<Rightarrow> Inl (Wrap ''parse started_at: '' e)
      | Inr startedAt \<Rightarrow>
          (case parse (es_CompletedAt snapshot) of
             Inl e \<Rightarrow> Inl (Wrap ''parse completed_at: '' e)
           | Inr completedAt \<Rightarrow> Inr (time_Sub completedAt startedAt)))"

section \<open>Decoding responses\<close>

text \<open>
  Objects into structs; a member that matches no field is skipped, \<^verbatim>\<open>null\<close> changes nothing.  Each array is
  decoded into fresh elements (an object of the API never repeats a member).
\<close>

definition decode_response :: "(json \<Rightarrow> 'a option) \<Rightarrow> string \<Rightarrow> go_error + 'a" where
  "decode_response dec body =
     (case stream_decode body of
        None \<Rightarrow> Inl (JsonSyntaxError body)
      | Some j \<Rightarrow> (case dec j of None \<Rightarrow> Inl (JsonTypeError body) | Some v \<Rightarrow> Inr v))"

definition decode_id :: "json \<Rightarrow> string option" where
  "decode_id j = unmarshal_struct [''id''] (\<lambda>f j old. unmarshal_string j old) j []"

definition decode_triggered :: "json \<Rightarrow> string option" where
  "decode_triggered j = unmarshal_struct [''execution'']
     (\<lambda>f j old. unmarshal_struct [''id''] (\<lambda>f j old. unmarshal_string j old) j old) j []"

fun decode_list :: "('a \<Rightarrow> json \<Rightarrow> 'a option) \<Rightarrow> 'a \<Rightarrow> json list \<Rightarrow> 'a list option" where
  "decode_list dec zero [] = Some []"
| "decode_list dec zero (j # js) =
     (case (dec zero j, decode_list dec zero js) of (Some v, Some vs) \<Rightarrow> Some (v # vs) | _ \<Rightarrow> None)"

definition unmarshal_slice :: "('a \<Rightarrow> json \<Rightarrow> 'a option) \<Rightarrow> 'a \<Rightarrow> json \<Rightarrow> 'a list option" where
  "unmarshal_slice dec zero j =
     (case j of JArr js \<Rightarrow> decode_list dec zero js | JNull \<Rightarrow> Some [] | _ \<Rightarrow> None)"

definition decode_attempt :: "benchAttempt \<Rightarrow> json \<Rightarrow> benchAttempt option" where
  "decode_attempt old j = unmarshal_struct [''status'']
     (\<lambda>f j a. map_option (\<lambda>s. a\<lparr>ba_Status := s\<rparr>) (unmarshal_string j (ba_Status a))) j old"

definition set_task_field :: "string \<Rightarrow> json \<Rightarrow> benchTask \<Rightarrow> benchTask option" where
  "set_task_field f j t =
     (if f = ''id'' then map_option (\<lambda>s. t\<lparr>bt_ID := s\<rparr>) (unmarshal_string j (bt_ID t))
      else if f = ''status'' then map_option (\<lambda>s. t\<lparr>bt_Status := s\<rparr>) (unmarshal_string j (bt_Status t))
      else map_option (\<lambda>i. t\<lparr>bt_AttemptsTotal := i\<rparr>) (unmarshal_int j (bt_AttemptsTotal t)))"

definition decode_task :: "benchTask \<Rightarrow> json \<Rightarrow> benchTask option" where
  "decode_task old j = unmarshal_struct [''task'', ''attempts'']
     (\<lambda>f j t. if f = ''task'' then unmarshal_struct [''id'', ''status'', ''attempts_total''] set_task_field j t
              else map_option (\<lambda>as. t\<lparr>bt_Attempts := as\<rparr>) (unmarshal_slice decode_attempt \<lparr>ba_Status = []\<rparr> j)) j old"

definition set_execution_field :: "string \<Rightarrow> json \<Rightarrow> executionSnapshot \<Rightarrow> executionSnapshot option" where
  "set_execution_field f j s =
     (if f = ''id'' then map_option (\<lambda>v. s\<lparr>es_ID := v\<rparr>) (unmarshal_string j (es_ID s))
      else if f = ''status'' then map_option (\<lambda>v. s\<lparr>es_Status := v\<rparr>) (unmarshal_string j (es_Status s))
      else if f = ''started_at'' then map_option (\<lambda>v. s\<lparr>es_StartedAt := v\<rparr>) (unmarshal_string j (es_StartedAt s))
      else map_option (\<lambda>v. s\<lparr>es_CompletedAt := v\<rparr>) (unmarshal_string j (es_CompletedAt s)))"

definition zero_task :: benchTask where
  "zero_task = \<lparr>bt_ID = [], bt_Status = [], bt_AttemptsTotal = 0, bt_Attempts = []\<rparr>"

definition decode_snapshot :: "json \<Rightarrow> executionSnapshot option" where
  "decode_snapshot j = unmarshal_struct [''execution'', ''tasks'']
     (\<lambda>f j s. if f = ''execution''
              then unmarshal_struct [''id'', ''status'', ''started_at'', ''completed_at''] set_execution_field j s
              else map_option (\<lambda>ts. s\<lparr>es_Tasks := ts\<rparr>) (unmarshal_slice decode_task zero_task j)) j
     \<lparr>es_ID = [], es_Status = [], es_StartedAt = [], es_CompletedAt = [], es_Tasks = []\<rparr>"

section \<open>The client\<close>

text \<open>
  \<open>cl_do\<close> performs a request and reads the body of the response (a read that fails leaves the bytes read
  until then); \<open>cl_wait\<close> is the \<^verbatim>\<open>select\<close> of the
  polling loop, true when the context is done and false when the ticker fired; \<open>cl_since\<close> is the time
  since the start of the run.
\<close>

record 'w client =
  cl_do :: "string \<Rightarrow> string \<Rightarrow> string \<Rightarrow> 'w \<Rightarrow> (go_error + int \<times> string) \<times> 'w"
  cl_wait :: "'w \<Rightarrow> bool \<times> 'w"
  cl_since :: "'w \<Rightarrow> go_duration"
  cl_parse_time :: "string \<Rightarrow> go_error + go_time"

type_synonym ('w, 'a) client_call = "'w \<Rightarrow> (go_error + 'a) \<times> 'w"

text \<open>A request whose response must have the given status; the error names the status and the body.\<close>

definition expect :: "'w client \<Rightarrow> string \<Rightarrow> string \<Rightarrow> string \<Rightarrow> int \<Rightarrow> string \<Rightarrow> ('w, string) client_call" where
  "expect cl meth path body status doing w =
     (case cl_do cl meth path body w of
        (Inl e, w') \<Rightarrow> (Inl e, w')
      | (Inr (code, resp), w') \<Rightarrow>
          if code \<noteq> status
          then (Inl (ErrorString (''unexpected status '' @ Itoa code @ '' '' @ doing @ '': '' @ TrimSpace resp)), w')
          else (Inr resp, w'))"

definition create_body :: "string \<Rightarrow> string \<Rightarrow> string \<Rightarrow> go_error + string" where
  "create_body name description def =
     (case json_obj [(''name'', str name), (''description'', str description), (''definition'', raw_json def)] of
        Some j \<Rightarrow> json_marshal j | None \<Rightarrow> Inl (JsonSyntaxError def))"

definition createWorkflow :: "'w client \<Rightarrow> string \<Rightarrow> string \<Rightarrow> string \<Rightarrow> ('w, string) client_call" where
  "createWorkflow cl name description def w =
     (case create_body name description def of
        Inl e \<Rightarrow> (Inl e, w)
      | Inr reqBody \<Rightarrow>
          (case expect cl ''POST'' ''/api/workflows'' reqBody 201 ''creating workflow'' w of
             (Inl e, w') \<Rightarrow> (Inl e, w')
           | (Inr resp, w') \<Rightarrow>
               (case decode_response decode_id resp of
                  Inl e \<Rightarrow> (Inl e, w')
                | Inr ident \<Rightarrow>
                    if TrimSpace ident = [] then (Inl (ErrorString ''workflow creation response missing id''), w')
                    else (Inr ident, w'))))"

definition getExecutionSnapshot :: "'w client \<Rightarrow> string \<Rightarrow> ('w, executionSnapshot) client_call" where
  "getExecutionSnapshot cl executionID w =
     (case expect cl ''GET'' (''/api/executions/'' @ executionID) [] 200 ''fetching snapshot'' w of
        (Inl e, w') \<Rightarrow> (Inl e, w')
      | (Inr resp, w') \<Rightarrow> (decode_response decode_snapshot resp, w'))"

definition replayTask :: "'w client \<Rightarrow> string \<Rightarrow> ('w, unit) client_call" where
  "replayTask cl taskID w =
     (case expect cl ''POST'' (''/api/tasks/'' @ taskID @ ''/replay'') [] 202 ''replaying task'' w of
        (Inl e, w') \<Rightarrow> (Inl e, w')
      | (Inr _, w') \<Rightarrow> (Inr (), w'))"

record executionRun =
  er_ExecutionID :: string
  er_FinalStatus :: string
  er_ObservedLatency :: go_duration
  er_ReportedLatency :: go_duration
  er_AttemptsObserved :: int
  er_TerminalTaskCount :: int

definition finished_run :: "'w client \<Rightarrow> executionSnapshot \<Rightarrow> 'w \<Rightarrow> go_error + executionRun" where
  "finished_run cl snapshot w =
     (case parseReportedLatency (cl_parse_time cl) snapshot of
        Inl e \<Rightarrow> Inl e
      | Inr reportedLatency \<Rightarrow>
          Inr \<lparr>er_ExecutionID = es_ID snapshot, er_FinalStatus = es_Status snapshot,
               er_ObservedLatency = cl_since cl w, er_ReportedLatency = reportedLatency,
               er_AttemptsObserved = totalAttempts snapshot, er_TerminalTaskCount = countTerminalTasks snapshot\<rparr>)"

text \<open>The polling loop, with its variable \<^verbatim>\<open>replayAfterTerminal\<close>.\<close>

partial_function (option) poll ::
  "'w client \<Rightarrow> string \<Rightarrow> bool \<Rightarrow> 'w \<Rightarrow> ((go_error + executionRun) \<times> 'w) option"
where
  "poll cl executionID replayAfterTerminal w =
     (case getExecutionSnapshot cl executionID w of
        (Inl e, w1) \<Rightarrow> Some (Inl e, w1)
      | (Inr snapshot, w1) \<Rightarrow>
          if isTerminal (es_Status snapshot) then
            (if replayAfterTerminal then
               (case firstDeadLetteredTaskID (es_Tasks snapshot) of
                  Inl e \<Rightarrow> Some (Inl e, w1)
                | Inr taskID \<Rightarrow>
                    (case replayTask cl taskID w1 of
                       (Inl e, w2) \<Rightarrow> Some (Inl e, w2)
                     | (Inr _, w2) \<Rightarrow> poll cl executionID False w2))
             else Some (finished_run cl snapshot w1, w1))
          else
            (case cl_wait cl w1 of (expired, w2) \<Rightarrow>
               if expired
               then Some (Inl (ErrorString (''execution '' @ executionID @ '' did not complete before timeout'')), w2)
               else poll cl executionID replayAfterTerminal w2))"

definition trigger_body :: "string \<Rightarrow> string \<Rightarrow> go_error + string" where
  "trigger_body workflowID input =
     (case json_obj [(''workflow_definition_id'', str workflowID), (''input'', raw_json input)] of
        Some j \<Rightarrow> json_marshal j | None \<Rightarrow> Inl (JsonSyntaxError input))"

definition runExecution ::
  "'w client \<Rightarrow> string \<Rightarrow> string \<Rightarrow> bool \<Rightarrow> 'w \<Rightarrow> ((go_error + executionRun) \<times> 'w) option"
where
  "runExecution cl workflowID input replayAfterTerminal w =
     (case trigger_body workflowID input of
        Inl e \<Rightarrow> Some (Inl e, w)
      | Inr reqBody \<Rightarrow>
          (case expect cl ''POST'' ''/api/executions'' reqBody 202 ''triggering execution'' w of
             (Inl e, w') \<Rightarrow> Some (Inl e, w')
           | (Inr resp, w') \<Rightarrow>
               (case decode_response decode_triggered resp of
                  Inl e \<Rightarrow> Some (Inl e, w')
                | Inr executionID \<Rightarrow>
                    if TrimSpace executionID = []
                    then Some (Inl (ErrorString ''execution trigger response missing execution id''), w')
                    else poll cl executionID replayAfterTerminal w')))"

section \<open>Statistics\<close>

record latencySummary =
  ls_Count :: int
  ls_Min :: go_duration
  ls_Avg :: go_duration
  ls_P50 :: go_duration
  ls_P95 :: go_duration
  ls_P99 :: go_duration
  ls_Max :: go_duration

record 'f numberSummary =
  ns_Count :: int
  ns_Min :: int
  ns_Avg :: 'f
  ns_P50 :: int
  ns_P95 :: int
  ns_P99 :: int
  ns_Max :: int

record 'f floatSummary =
  fs_Count :: int
  fs_Min :: 'f
  fs_Avg :: 'f
  fs_P50 :: 'f
  fs_P95 :: 'f
  fs_P99 :: 'f
  fs_Max :: 'f

datatype quantile = Q50 | Q95 | Q99

instantiation quantile :: linorder
begin

fun rank :: "quantile \<Rightarrow> nat" where
  "rank Q50 = 50"
| "rank Q95 = 95"
| "rank Q99 = 99"

definition less_eq_quantile where "q \<le> q' \<longleftrightarrow> rank q \<le> rank q'"
definition less_quantile where "q < q' \<longleftrightarrow> rank q < rank q'"

instance
proof
  fix q q' :: quantile
  assume "q \<le> q'" "q' \<le> q"
  then show "q = q'" by (cases q; cases q') (simp_all add: less_eq_quantile_def)
qed (auto simp: less_eq_quantile_def less_quantile_def)

end

text \<open>
  \<open>ceil q n\<close> stands for \<^verbatim>\<open>int(math.Ceil(quantile*float64(length)))\<close>; the other floating-point
  operations are the quotient of two integers, the zero value and the average of a list.
\<close>

record 'f floats =
  fl_ceil :: "quantile \<Rightarrow> nat \<Rightarrow> int"
  fl_quotient :: "int \<Rightarrow> int \<Rightarrow> 'f"
  fl_zero :: 'f
  fl_average :: "'f list \<Rightarrow> 'f"

definition percentileIndex :: "'f floats \<Rightarrow> nat \<Rightarrow> quantile \<Rightarrow> int" where
  "percentileIndex fl n q =
     (if n = 1 then 0
      else let index = fl_ceil fl q n - 1 in
        if index < 0 then 0 else if index \<ge> int n then int n - 1 else index)"

definition percentile :: "'f floats \<Rightarrow> 'a list \<Rightarrow> quantile \<Rightarrow> 'a" where
  "percentile fl vals q = vals ! nat (percentileIndex fl (length vals) q)"

definition add64 :: "int \<Rightarrow> int \<Rightarrow> int" where
  "add64 a b = int64 (a + b)"

text \<open>Go's integer division truncates towards zero.\<close>

definition div64 :: "int \<Rightarrow> int \<Rightarrow> int" where
  "div64 a b = sgn a * sgn b * (\<bar>a\<bar> div \<bar>b\<bar>)"

definition summarizeDurations :: "'f floats \<Rightarrow> go_duration list \<Rightarrow> latencySummary" where
  "summarizeDurations fl vs =
     (if vs = [] then \<lparr>ls_Count = 0, ls_Min = 0, ls_Avg = 0, ls_P50 = 0, ls_P95 = 0, ls_P99 = 0, ls_Max = 0\<rparr>
      else
        let vals = sort vs; total = foldl add64 0 vals in
        \<lparr>ls_Count = int (length vals), ls_Min = vals ! 0, ls_Avg = div64 total (int (length vals)),
         ls_P50 = percentile fl vals Q50, ls_P95 = percentile fl vals Q95, ls_P99 = percentile fl vals Q99,
         ls_Max = vals ! (length vals - 1)\<rparr>)"

definition summarizeInts :: "'f floats \<Rightarrow> int list \<Rightarrow> 'f numberSummary" where
  "summarizeInts fl vs =
     (if vs = [] then \<lparr>ns_Count = 0, ns_Min = 0, ns_Avg = fl_zero fl, ns_P50 = 0, ns_P95 = 0, ns_P99 = 0, ns_Max = 0\<rparr>
      else
        let vals = sort vs; total = foldl add64 0 vals in
        \<lparr>ns_Count = int (length vals), ns_Min = vals ! 0, ns_Avg = fl_quotient fl total (int (length vals)),
         ns_P50 = percentile fl vals Q50, ns_P95 = percentile fl vals Q95, ns_P99 = percentile fl vals Q99,
         ns_Max = vals ! (length vals - 1)\<rparr>)"

definition summarizeFloats :: "('f::linorder) floats \<Rightarrow> 'f list \<Rightarrow> 'f floatSummary" where
  "summarizeFloats fl vs =
     (if vs = [] then \<lparr>fs_Count = 0, fs_Min = fl_zero fl, fs_Avg = fl_zero fl, fs_P50 = fl_zero fl,
        fs_P95 = fl_zero fl, fs_P99 = fl_zero fl, fs_Max = fl_zero fl\<rparr>
      else
        let vals = sort vs in
        \<lparr>fs_Count = int (length vals), fs_Min = vals ! 0, fs_Avg = fl_average fl vals,
         fs_P50 = percentile fl vals Q50, fs_P95 = percentile fl vals Q95, fs_P99 = percentile fl vals Q99,
         fs_Max = vals ! (length vals - 1)\<rparr>)"

section \<open>Results\<close>

record benchmarkConfig =
  bc_Scenario :: string
  bc_WorkflowDefinitionID :: string
  bc_Executions :: int
  bc_Concurrency :: int
  bc_IncludeRuns :: bool
  bc_Input :: string
  bc_ReplayAfterTerminal :: bool

record 'f benchmarkResult =
  br_Scenario :: string
  br_WorkflowDefinitionID :: string
  br_Executions :: int
  br_Concurrency :: int
  br_OverallElapsed :: go_duration
  br_ThroughputPerSecond :: 'f
  br_Succeeded :: int
  br_Failed :: int
  br_ObservedLatency :: latencySummary
  br_ReportedLatency :: latencySummary
  br_AttemptsPerExecution :: "'f numberSummary"
  br_Runs :: "executionRun list"

definition count_status :: "string \<Rightarrow> executionRun list \<Rightarrow> int" where
  "count_status status runs = foldl (\<lambda>n run. if er_FinalStatus run = status then n + 1 else n) 0 runs"

text \<open>The part of \<^verbatim>\<open>runBenchmark\<close> after all runs ended without error, with the throughput as computed.\<close>

definition benchmark_result ::
  "'f floats \<Rightarrow> benchmarkConfig \<Rightarrow> go_duration \<Rightarrow> 'f \<Rightarrow> executionRun list \<Rightarrow> 'f benchmarkResult"
where
  "benchmark_result fl cfg overallElapsed throughput results =
     \<lparr>br_Scenario = bc_Scenario cfg, br_WorkflowDefinitionID = bc_WorkflowDefinitionID cfg,
      br_Executions = bc_Executions cfg, br_Concurrency = bc_Concurrency cfg,
      br_OverallElapsed = overallElapsed, br_ThroughputPerSecond = throughput,
      br_Succeeded = count_status ''succeeded'' results, br_Failed = count_status ''failed'' results,
      br_ObservedLatency = summarizeDurations fl (map er_ObservedLatency results),
      br_ReportedLatency = summarizeDurations fl (map er_ReportedLatency results),
      br_AttemptsPerExecution = summarizeInts fl (map er_AttemptsObserved results),
      br_Runs = (if bc_IncludeRuns cfg then results else [])\<rparr>"

text \<open>
  The inputs of the runs: the one of the scenario, or an object that numbers the run (\<open>requestedAt i\<close> is the
  formatted time at which input \<open>i\<close> is made).
\<close>

definition run_payload :: "string \<Rightarrow> string \<Rightarrow> nat \<Rightarrow> go_error + string" where
  "run_payload scenario requestedAt i =
     (case json_obj [(''benchmark_run'', num (int i + 1)), (''requested_at'', str requestedAt), (''scenario'', str scenario)] of
        Some j \<Rightarrow> json_marshal j | None \<Rightarrow> Inl (JsonSyntaxError []))"

fun run_inputs :: "benchmarkConfig \<Rightarrow> (nat \<Rightarrow> string) \<Rightarrow> nat list \<Rightarrow> go_error + string list" where
  "run_inputs cfg requestedAt [] = Inr []"
| "run_inputs cfg requestedAt (i # is) =
     (case (if bc_Input cfg \<noteq> [] then Inr (bc_Input cfg) else run_payload (bc_Scenario cfg) (requestedAt i) i) of
        Inl e \<Rightarrow> Inl e
      | Inr payload \<Rightarrow>
          (case run_inputs cfg requestedAt is of Inl e \<Rightarrow> Inl e | Inr inputs \<Rightarrow> Inr (payload # inputs)))"

text \<open>
  One goroutine ends: its run goes to its place among the results, or its error is kept if it is the
  first (\<^verbatim>\<open>errOnce\<close>).
\<close>

definition zero_run :: executionRun where
  "zero_run = \<lparr>er_ExecutionID = [], er_FinalStatus = [], er_ObservedLatency = 0, er_ReportedLatency = 0,
     er_AttemptsObserved = 0, er_TerminalTaskCount = 0\<rparr>"

fun run_ends :: "go_error option \<times> executionRun list \<Rightarrow> nat \<times> (go_error + executionRun) \<Rightarrow> go_error option \<times> executionRun list" where
  "run_ends (runErr, results) (index, Inl e) = (case runErr of None \<Rightarrow> (Some e, results) | Some _ \<Rightarrow> (runErr, results))"
| "run_ends (runErr, results) (index, Inr run) = (runErr, results[index := run])"

text \<open>
  A benchmark, given what \<^verbatim>\<open>runExecution\<close> returned for the input of each goroutine and the order in which
  they finished; \<open>ru_rate\<close> is the number of executions by the elapsed seconds.
\<close>

record 'f bench_run =
  ru_requestedAt :: "nat \<Rightarrow> string"
  ru_outcome :: "string \<Rightarrow> bool \<Rightarrow> nat \<Rightarrow> string \<Rightarrow> go_error + executionRun"
  ru_finished :: "nat list"
  ru_elapsed :: go_duration
  ru_rate :: "int \<Rightarrow> go_duration \<Rightarrow> 'f"

definition runBenchmark :: "'f floats \<Rightarrow> 'f bench_run \<Rightarrow> benchmarkConfig \<Rightarrow> go_error + 'f benchmarkResult" where
  "runBenchmark fl ru cfg =
     (case run_inputs cfg (ru_requestedAt ru) [0..<nat (bc_Executions cfg)] of
        Inl e \<Rightarrow> Inl e
      | Inr inputs \<Rightarrow>
          (case foldl run_ends (None, replicate (length inputs) zero_run)
                  (map (\<lambda>i. (i, ru_outcome ru (bc_WorkflowDefinitionID cfg) (bc_ReplayAfterTerminal cfg) i (inputs ! i)))
                     (ru_finished ru)) of
             (Some e, _) \<Rightarrow> Inl e
           | (None, results) \<Rightarrow>
               Inr (benchmark_result fl cfg (ru_elapsed ru) (ru_rate ru (bc_Executions cfg) (ru_elapsed ru)) results)))"

record 'f suiteAggregate =
  sa_RepeatCount :: int
  sa_SucceededRuns :: int
  sa_FailedRuns :: int
  sa_Throughput :: "'f floatSummary"
  sa_OverallElapsed :: latencySummary
  sa_ReportedLatencyP95 :: latencySummary
  sa_ReportedLatencyAvg :: latencySummary
  sa_ObservedLatencyP95 :: latencySummary

definition suite_aggregate :: "('f::linorder) floats \<Rightarrow> 'f benchmarkResult list \<Rightarrow> 'f suiteAggregate" where
  "suite_aggregate fl results =
     \<lparr>sa_RepeatCount = int (length results),
      sa_SucceededRuns = foldl (\<lambda>n r. if br_Failed r = 0 then n + 1 else n) 0 results,
      sa_FailedRuns = foldl (\<lambda>n r. if br_Failed r = 0 then n else n + 1) 0 results,
      sa_Throughput = summarizeFloats fl (map br_ThroughputPerSecond results),
      sa_OverallElapsed = summarizeDurations fl (map br_OverallElapsed results),
      sa_ReportedLatencyP95 = summarizeDurations fl (map (\<lambda>r. ls_P95 (br_ReportedLatency r)) results),
      sa_ReportedLatencyAvg = summarizeDurations fl (map (\<lambda>r. ls_Avg (br_ReportedLatency r)) results),
      sa_ObservedLatencyP95 = summarizeDurations fl (map (\<lambda>r. ls_P95 (br_ObservedLatency r)) results)\<rparr>"

record suiteConfig =
  su_Label :: string
  su_CapturedAt :: go_time
  su_Scenario :: string
  su_Executions :: int
  su_Concurrency :: int
  su_Repeat :: int
  su_PollInterval :: go_duration
  su_Timeout :: go_duration
  su_MaxAttempts :: int
  su_Backoff :: int
  su_ChainLength :: int
  su_APIBaseURL :: string

record 'f benchmarkSuiteResult = suiteConfig +
  su_GoVersion :: string
  su_Hostname :: string
  su_Results :: "'f benchmarkResult list"
  su_Aggregate :: "'f suiteAggregate"

text \<open>The host name is empty when it cannot be read.\<close>

definition buildSuiteResult ::
  "('f::linorder) floats \<Rightarrow> string \<Rightarrow> go_error + string \<Rightarrow> 'f benchmarkResult list \<Rightarrow> suiteConfig \<Rightarrow> 'f benchmarkSuiteResult"
where
  "buildSuiteResult fl goVersion hostname results cfg =
     suiteConfig.extend cfg
       \<lparr>su_GoVersion = goVersion, su_Hostname = (case hostname of Inl _ \<Rightarrow> [] | Inr h \<Rightarrow> h), su_Results = results,
        su_Aggregate = suite_aggregate fl results\<rparr>"

section \<open>The program\<close>

record flags =
  fg_APIBaseURL :: string
  fg_Scenario :: string
  fg_Executions :: int
  fg_Concurrency :: int
  fg_PollInterval :: go_duration
  fg_Timeout :: go_duration
  fg_MaxAttempts :: int
  fg_Backoff :: int
  fg_ChainLength :: int
  fg_Repeat :: int
  fg_IncludeRuns :: bool
  fg_Label :: string

text \<open>
  \<open>bm_run i\<close> is what the goroutines of repetition \<open>i\<close> did and \<open>bm_after i\<close> the world they left; \<open>bm_now\<close> is the
  clock in nanoseconds.
\<close>

record ('w, 'f) bench_machine =
  bm_client :: "'w client"
  bm_floats :: "'f floats"
  bm_is_print :: "string \<Rightarrow> bool"
  bm_now :: "'w \<Rightarrow> go_time"
  bm_run :: "nat \<Rightarrow> 'f bench_run"
  bm_after :: "nat \<Rightarrow> 'w \<Rightarrow> 'w"
  bm_go_version :: string
  bm_hostname :: "go_error + string"

text \<open>Why \<^verbatim>\<open>exitf\<close> ended the program.\<close>

datatype bench_exit =
    BadFlag string | BadScenario go_error | CreateFailed go_error | RunFailed go_error
  | WriteFailed go_error | EncodeFailed go_error

definition workflow_name :: "string \<Rightarrow> go_time \<Rightarrow> nat \<Rightarrow> string" where
  "workflow_name scenario unixNano i = ''bench-'' @ scenario @ ''-'' @ Itoa unixNano @ ''-'' @ Itoa (int i + 1)"

definition run_config :: "flags \<Rightarrow> scenarioSpec \<Rightarrow> string \<Rightarrow> benchmarkConfig" where
  "run_config fg spec workflowID =
     \<lparr>bc_Scenario = fg_Scenario fg, bc_WorkflowDefinitionID = workflowID, bc_Executions = fg_Executions fg,
      bc_Concurrency = fg_Concurrency fg, bc_IncludeRuns = fg_IncludeRuns fg, bc_Input = sc_Input spec,
      bc_ReplayAfterTerminal = sc_ReplayAfterTerminal spec\<rparr>"

fun repetitions ::
  "('w, 'f) bench_machine \<Rightarrow> flags \<Rightarrow> scenarioSpec \<Rightarrow> nat list \<Rightarrow> 'w \<Rightarrow> (bench_exit + 'f benchmarkResult list) \<times> 'w"
where
  "repetitions bm fg spec [] w = (Inr [], w)"
| "repetitions bm fg spec (i # is) w =
     (case createWorkflow (bm_client bm) (workflow_name (fg_Scenario fg) (bm_now bm w) i) (sc_Description spec) (sc_Definition spec) w of
        (Inl e, w1) \<Rightarrow> (Inl (CreateFailed e), w1)
      | (Inr workflowID, w1) \<Rightarrow>
          (case runBenchmark (bm_floats bm) (bm_run bm i) (run_config fg spec workflowID) of
             Inl e \<Rightarrow> (Inl (RunFailed e), bm_after bm i w1)
           | Inr result \<Rightarrow>
               (case repetitions bm fg spec is (bm_after bm i w1) of
                  (Inl e, w2) \<Rightarrow> (Inl e, w2)
                | (Inr results, w2) \<Rightarrow> (Inr (result # results), w2))))"

definition suite_config :: "flags \<Rightarrow> go_time \<Rightarrow> suiteConfig" where
  "suite_config fg now =
     \<lparr>su_Label = TrimSpace (fg_Label fg), su_CapturedAt = now, su_Scenario = fg_Scenario fg,
      su_Executions = fg_Executions fg, su_Concurrency = fg_Concurrency fg, su_Repeat = fg_Repeat fg,
      su_PollInterval = fg_PollInterval fg, su_Timeout = fg_Timeout fg, su_MaxAttempts = fg_MaxAttempts fg,
      su_Backoff = fg_Backoff fg, su_ChainLength = fg_ChainLength fg,
      su_APIBaseURL = trim_right (CHR ''/'') (fg_APIBaseURL fg)\<rparr>"

definition bench_main ::
  "('w, 'f::linorder) bench_machine \<Rightarrow> flags \<Rightarrow> 'w \<Rightarrow> (bench_exit + 'f benchmarkSuiteResult) \<times> 'w"
where
  "bench_main bm fg w =
     (case check_flags (fg_Executions fg) (fg_Concurrency fg) (fg_MaxAttempts fg) (fg_Backoff fg) (fg_ChainLength fg) (fg_Repeat fg) of
        Some msg \<Rightarrow> (Inl (BadFlag msg), w)
      | None \<Rightarrow>
        (case buildScenarioSpec (bm_is_print bm) (fg_Scenario fg) (fg_MaxAttempts fg) (fg_Backoff fg) (fg_ChainLength fg) of
           Inl e \<Rightarrow> (Inl (BadScenario e), w)
         | Inr spec \<Rightarrow>
           (case repetitions bm fg spec [0..<nat (fg_Repeat fg)] w of
              (Inl e, w') \<Rightarrow> (Inl e, w')
            | (Inr results, w') \<Rightarrow>
                (Inr (buildSuiteResult (bm_floats bm) (bm_go_version bm) (bm_hostname bm) results (suite_config fg (bm_now bm w'))), w'))))"

end
