(* ===== verification/BenchProps.thy ===== *)
theory BenchProps
  imports Bench ServiceProps
begin

text \<open>
  What the benchmark driver's numbers mean (\<open>summary_exact\<close>, \<open>benchmark_exact\<close>) and that its polling
  ends (\<open>poll_returns\<close>).
\<close>

section \<open>Percentiles\<close>

lemma percentileIndex_bounds: "0 < n \<Longrightarrow> 0 \<le> percentileIndex fl n q \<and> percentileIndex fl n q < int n"
  by (auto simp: percentileIndex_def Let_def)

definition ceil_monotone :: "'f floats \<Rightarrow> bool" where
  "ceil_monotone fl \<longleftrightarrow> (\<forall>n. mono (\<lambda>q. fl_ceil fl q n))"

lemma quantile_order [simp]: "Q50 \<le> Q95" "Q95 \<le> Q99"
  by (simp_all add: less_eq_quantile_def)

lemma percentileIndex_monotone:
  assumes "ceil_monotone fl" "0 < n" "q \<le> q'"
  shows "percentileIndex fl n q \<le> percentileIndex fl n q'"
  using monoD [of "\<lambda>q. fl_ceil fl q n" q q'] assms
  by (auto simp: ceil_monotone_def percentileIndex_def Let_def)

text \<open>On the sorted values of a list: members of it, in order, between its least and its greatest.\<close>

lemma percentile_facts:
  fixes vs :: "'a::linorder list"
  assumes "vs \<noteq> []"
  shows "percentile fl (sort vs) q \<in> set vs" "sort vs ! 0 = Min (set vs)" "sort vs ! (length vs - 1) = Max (set vs)"
    "ceil_monotone fl \<Longrightarrow> p \<le> p' \<Longrightarrow> percentile fl (sort vs) p \<le> percentile fl (sort vs) p'"
proof -
  have n: "0 < length vs" using assms by simp
  have idx: "nat (percentileIndex fl (length vs) q) < length vs" for q
    using percentileIndex_bounds [OF n, of fl q] by linarith
  show "percentile fl (sort vs) q \<in> set vs"
    using nth_mem [of "nat (percentileIndex fl (length vs) q)" "sort vs"] idx by (simp add: percentile_def)
  have le: "i \<le> j \<Longrightarrow> j < length vs \<Longrightarrow> sort vs ! i \<le> sort vs ! j" for i j
    by (rule sorted_nth_mono) simp_all
  have all: "\<exists>i < length vs. v = sort vs ! i" if "v \<in> set vs" for v
    using that by (metis in_set_conv_nth length_sort set_sort)
  have mem: "i < length vs \<Longrightarrow> sort vs ! i \<in> set vs" for i
    using nth_mem [of i "sort vs"] by simp
  show "sort vs ! 0 = Min (set vs)"
    by (rule Min_eqI [symmetric]) (use n le all mem in \<open>fastforce+\<close>)
  show "sort vs ! (length vs - 1) = Max (set vs)"
  proof (rule Max_eqI [symmetric])
    fix v assume "v \<in> set vs"
    then obtain i where "i < length vs" "v = sort vs ! i" using all by blast
    then show "v \<le> sort vs ! (length vs - 1)" using le [of i "length vs - 1"] by simp
  qed (use n mem in auto)
  show "percentile fl (sort vs) p \<le> percentile fl (sort vs) p'" if "ceil_monotone fl" "p \<le> p'"
    using le idx percentileIndex_monotone [OF that(1) n that(2)] by (simp add: percentile_def nat_mono)
qed

section \<open>Averages\<close>

lemma sum64_exact:
  assumes "list_all (\<lambda>v. 0 \<le> v) vs" "0 \<le> acc" "acc + sum_list vs \<le> int64_max"
  shows "foldl add64 acc vs = acc + sum_list vs"
  using assms
proof (induction vs arbitrary: acc)
  case (Cons v vs)
  have "0 \<le> sum_list vs" using Cons.prems(1) by (auto simp: list_all_iff intro: sum_list_nonneg)
  then have "add64 acc v = acc + v"
    using Cons.prems by (simp add: add64_def int64_id int64_min_def)
  then show ?case using Cons by (simp add: algebra_simps)
qed simp

lemma average_bounds:
  fixes vs :: "int list"
  assumes "vs \<noteq> []" "list_all (\<lambda>v. lo \<le> v \<and> v \<le> hi) vs"
  shows "lo \<le> sum_list vs div int (length vs)" "sum_list vs div int (length vs) \<le> hi"
proof -
  have b: "int (length vs) * lo \<le> sum_list vs \<and> sum_list vs \<le> int (length vs) * hi"
    using assms(2) by (induction vs) (auto simp: algebra_simps)
  have n: "0 < int (length vs)" using assms(1) by simp
  show "lo \<le> sum_list vs div int (length vs)"
    using zdiv_mono1 [of "int (length vs) * lo" "sum_list vs" "int (length vs)"] b n by simp
  show "sum_list vs div int (length vs) \<le> hi"
    using zdiv_mono1 [of "sum_list vs" "int (length vs) * hi" "int (length vs)"] b n by simp
qed

text \<open>
  A latency summary of a non-empty list of latencies counts them, and its minimum, median, 95th and
  99th percentile and maximum are latencies of the list in ascending order, the first the least and the
  last the greatest.  Whatever the rounding of the quantile, no index leaves the list.  When the
  latencies are not negative and their sum fits in 64 bits, the average is the exact quotient, rounded
  down, and lies between minimum and maximum.
\<close>

lemma summary_exact:
  assumes "vs \<noteq> []" "ceil_monotone fl"
  shows "let s = summarizeDurations fl vs in
     ls_Count s = int (length vs) \<and> {ls_P50 s, ls_P95 s, ls_P99 s} \<subseteq> set vs \<and>
     ls_Min s = Min (set vs) \<and> ls_Max s = Max (set vs) \<and>
     ls_Min s \<le> ls_P50 s \<and> ls_P50 s \<le> ls_P95 s \<and> ls_P95 s \<le> ls_P99 s \<and> ls_P99 s \<le> ls_Max s \<and>
     (list_all (\<lambda>v. 0 \<le> v) vs \<and> sum_list vs \<le> int64_max \<longrightarrow>
        ls_Avg s = sum_list vs div int (length vs) \<and> ls_Min s \<le> ls_Avg s \<and> ls_Avg s \<le> ls_Max s)"
proof -
  let ?s = "summarizeDurations fl vs"
  note p = percentile_facts [OF assms(1)] and m = percentile_facts(4) [OF assms]
  have range: "Min (set vs) \<le> v \<and> v \<le> Max (set vs)" if "v \<in> set vs" for v using that by simp
  have sum: "sum_list (sort vs) = sum_list vs" by (metis mset_sort sum_mset_sum_list)
  have avg: "ls_Avg ?s = sum_list vs div int (length vs)" if "list_all (\<lambda>v. 0 \<le> v) vs" "sum_list vs \<le> int64_max"
  proof -
    have "list_all (\<lambda>v. 0 \<le> v) (sort vs)" using that(1) by (simp add: list_all_iff)
    then have "foldl add64 0 (sort vs) = sum_list vs"
      using sum64_exact [of "sort vs" 0] that(2) sum by simp
    moreover have "0 \<le> sum_list vs" using that(1) by (auto simp: list_all_iff intro: sum_list_nonneg)
    moreover have "sort vs \<noteq> []" using assms(1) by (metis length_0_conv length_sort)
    ultimately show ?thesis using assms(1) by (cases "sum_list vs = 0") (simp_all add: summarizeDurations_def Let_def div64_def)
  qed
  have "list_all (\<lambda>v. Min (set vs) \<le> v \<and> v \<le> Max (set vs)) vs" using range by (simp add: list_all_iff)
  note ab = average_bounds [OF assms(1) this]
  show ?thesis
    using assms(1) p(1) [of fl Q50] p(1) [of fl Q95] p(1) [of fl Q99] p(2,3) m [of Q50 Q95] m [of Q95 Q99] range avg ab
    by (simp add: summarizeDurations_def Let_def)
qed

definition demo_floats :: "int floats" where
  "demo_floats = \<lparr>fl_ceil = (\<lambda>q n. case q of Q50 \<Rightarrow> (int n + 1) div 2 | Q95 \<Rightarrow> (95 * int n + 99) div 100 | Q99 \<Rightarrow> (99 * int n + 99) div 100),
     fl_quotient = (\<lambda>a b. a div b), fl_zero = 0, fl_average = (\<lambda>vs. sum_list vs div int (length vs))\<rparr>"

section \<open>Counts\<close>

lemma foldl_count: "foldl (\<lambda>n x. if P x then n + 1 else n) (k :: int) xs = k + int (length (filter P xs))"
  by (induction xs arbitrary: k) auto

lemma foldl_count_not: "foldl (\<lambda>n x. if P x then n else n + 1) (k :: int) xs = k + int (length (filter (\<lambda>x. \<not> P x) xs))"
  by (induction xs arbitrary: k) auto

lemma filter_two: "length (filter P xs) + length (filter Q xs) = length (filter (\<lambda>x. P x \<or> Q x) xs)"
  if "\<And>x. \<not> (P x \<and> Q x)" for P Q
  using that by (induction xs) auto

lemma suite_counts:
  "sa_SucceededRuns (suite_aggregate fl results) + sa_FailedRuns (suite_aggregate fl results) =
     sa_RepeatCount (suite_aggregate fl results)"
proof -
  have "length (filter P results) + length (filter (\<lambda>x. \<not> P x) results) = length results" for P
    by (rule sum_length_filter_compl)
  then show ?thesis
    by (simp add: suite_aggregate_def foldl_count foldl_count_not flip: of_nat_add)
qed

lemma result_counts:
  "br_Succeeded (benchmark_result fl cfg elapsed tput runs) + br_Failed (benchmark_result fl cfg elapsed tput runs) =
      int (length (filter (\<lambda>run. er_FinalStatus run = ''succeeded'' \<or> er_FinalStatus run = ''failed'') runs))"
  using filter_two [of "\<lambda>run. er_FinalStatus run = ''succeeded''" "\<lambda>run. er_FinalStatus run = ''failed''" runs]
  by (simp add: benchmark_result_def count_status_def foldl_count flip: of_nat_add)

lemma filter_all: "length (filter P xs) = length xs \<longleftrightarrow> list_all P xs"
  by (metis filter_True filter_cong length_filter_less list_all_iff nat_neq_iff)

section \<open>A benchmark\<close>

lemma run_payload_succeeds: "\<exists>p. run_payload scenario at i = Inr p"
  by (simp add: run_payload_def json_obj_def num_def str_def json_marshal_def)

lemma run_inputs_succeed: "\<exists>inputs. run_inputs cfg at is = Inr inputs \<and> length inputs = length is"
proof (induction "is")
  case (Cons i "is")
  then show ?case using run_payload_succeeds [of "bc_Scenario cfg" "at i" i] by (auto split: sum.split)
qed simp

text \<open>The results after goroutines have finished: each in its place, and some error of one of them if any.\<close>

lemma run_ends_fold:
  assumes "foldl run_ends (err, res) (map (\<lambda>i. (i, f i)) is) = (err', res')"
  shows "length res' = length res" "err' = None \<longleftrightarrow> err = None \<and> (\<forall>i \<in> set is. \<not> isl (f i))"
    "err' = Some e \<Longrightarrow> err = Some e \<or> (\<exists>i \<in> set is. f i = Inl e)"
    "j < length res \<Longrightarrow> res' ! j = (if j \<in> set is \<and> \<not> isl (f j) then projr (f j) else res ! j)"
proof -
  have "length res' = length res \<and> (err' = None \<longleftrightarrow> err = None \<and> (\<forall>i \<in> set is. \<not> isl (f i))) \<and>
    (\<forall>e. err' = Some e \<longrightarrow> err = Some e \<or> (\<exists>i \<in> set is. f i = Inl e)) \<and>
    (\<forall>j < length res. res' ! j = (if j \<in> set is \<and> \<not> isl (f j) then projr (f j) else res ! j))"
    using assms
  proof (induction "is" arbitrary: err res)
    case (Cons i "is")
    then show ?case
    proof (cases "f i")
      case (Inl e)
      with Cons.prems Cons.IH [of "if err = None then Some e else err" res] show ?thesis by (cases err) auto
    next
      case (Inr run)
      then have "res[i := run] ! j = res ! j" if "isl (f j)" for j using that by (cases "j = i") auto
      with Inr Cons.prems Cons.IH [of err "res[i := run]"] show ?thesis by (auto simp: nth_list_update)
    qed
  qed simp
  then show "length res' = length res" "err' = None \<longleftrightarrow> err = None \<and> (\<forall>i \<in> set is. \<not> isl (f i))"
    "err' = Some e \<Longrightarrow> err = Some e \<or> (\<exists>i \<in> set is. f i = Inl e)"
    "j < length res \<Longrightarrow> res' ! j = (if j \<in> set is \<and> \<not> isl (f j) then projr (f j) else res ! j)"
    by auto
qed

text \<open>
  A benchmark whose goroutines all finish, in any order, has a result exactly when every run
  returned without error.  Then the result is made of the runs in the order of their index, whatever the
  order in which they finished, and its succeeded and failed executions are all of them exactly when each
  ended in one of the two statuses.  Otherwise the error is that of one of the runs.
\<close>

lemma benchmark_exact:
  assumes "mset (ru_finished ru) = mset [0..<nat (bc_Executions cfg)]"
  shows "\<exists>inputs. run_inputs cfg (ru_requestedAt ru) [0..<nat (bc_Executions cfg)] = Inr inputs \<and>
     length inputs = nat (bc_Executions cfg) \<and>
     (let outs = map (\<lambda>i. ru_outcome ru (bc_WorkflowDefinitionID cfg) (bc_ReplayAfterTerminal cfg) i (inputs ! i))
                   [0..<nat (bc_Executions cfg)]
      in case runBenchmark fl ru cfg of
           Inl e \<Rightarrow> Inl e \<in> set outs
         | Inr r \<Rightarrow> \<exists>runs. outs = map Inr runs \<and>
             r = benchmark_result fl cfg (ru_elapsed ru) (ru_rate ru (bc_Executions cfg) (ru_elapsed ru)) runs \<and>
             (br_Succeeded r + br_Failed r = int (length inputs) \<longleftrightarrow>
                list_all (\<lambda>run. er_FinalStatus run = ''succeeded'' \<or> er_FinalStatus run = ''failed'') runs))"
proof -
  let ?n = "nat (bc_Executions cfg)"
  obtain inputs where inputs: "run_inputs cfg (ru_requestedAt ru) [0..<?n] = Inr inputs" "length inputs = ?n"
    using run_inputs_succeed [of cfg "ru_requestedAt ru" "[0..<?n]"] by auto
  define f where "f i = ru_outcome ru (bc_WorkflowDefinitionID cfg) (bc_ReplayAfterTerminal cfg) i (inputs ! i)" for i
  have fin: "set (ru_finished ru) = {0..<?n}" by (metis assms set_mset_mset set_upt)
  obtain err res where fold: "foldl run_ends (None, replicate ?n zero_run) (map (\<lambda>i. (i, f i)) (ru_finished ru)) = (err, res)"
    by fastforce
  note facts = run_ends_fold [OF fold, unfolded fin]
  have run: "runBenchmark fl ru cfg = (case err of Some e \<Rightarrow> Inl e
      | None \<Rightarrow> Inr (benchmark_result fl cfg (ru_elapsed ru) (ru_rate ru (bc_Executions cfg) (ru_elapsed ru)) res))"
    using fold by (simp add: runBenchmark_def inputs f_def split: option.split)
  have "case err of Some e \<Rightarrow> Inl e \<in> set (map f [0..<?n]) | None \<Rightarrow> map f [0..<?n] = map Inr res"
  proof (cases err)
    case None
    then have "\<not> isl (f i) \<and> res ! i = projr (f i)" if "i < ?n" for i using facts(2,4) that by auto
    moreover have "length res = ?n" using facts(1) by simp
    ultimately show ?thesis using None by (auto intro!: nth_equalityI)
  next
    case (Some e)
    then show ?thesis using facts(3) [of e] by (auto intro: rev_image_eqI)
  qed
  moreover have "length res = length inputs" using facts(1) inputs(2) by simp
  then have "(int (length (filter P res)) = int (length inputs)) = list_all P res" for P
    using filter_all [of P res] by simp
  ultimately have "case runBenchmark fl ru cfg of Inl e \<Rightarrow> Inl e \<in> set (map f [0..<?n])
     | Inr r \<Rightarrow> map f [0..<?n] = map Inr res \<and>
         r = benchmark_result fl cfg (ru_elapsed ru) (ru_rate ru (bc_Executions cfg) (ru_elapsed ru)) res \<and>
         (br_Succeeded r + br_Failed r = int (length inputs) \<longleftrightarrow>
            list_all (\<lambda>run. er_FinalStatus run = ''succeeded'' \<or> er_FinalStatus run = ''failed'') res)"
    by (cases err) (simp_all add: run result_counts del: map_eq_conv int_eq_iff of_nat_eq_iff)
  moreover have "map f [0..<?n] =
      map (\<lambda>i. ru_outcome ru (bc_WorkflowDefinitionID cfg) (bc_ReplayAfterTerminal cfg) i (inputs ! i)) [0..<?n]"
    by (simp add: f_def)
  ultimately show ?thesis
    unfolding Let_def by (intro exI [of _ inputs] conjI inputs) (auto simp only: split: sum.splits)
qed

definition demo_run :: "int bench_run" where
  "demo_run = \<lparr>ru_requestedAt = (\<lambda>_. ''now''),
     ru_outcome = (\<lambda>_ _ i _. Inr (zero_run\<lparr>er_FinalStatus := if i = 0 then ''succeeded'' else ''failed'', er_AttemptsObserved := int i + 1\<rparr>)),
     ru_finished = [1, 0], ru_elapsed = 5, ru_rate = (\<lambda>n d. n div d)\<rparr>"

definition demo_bench :: benchmarkConfig where
  "demo_bench = \<lparr>bc_Scenario = ''success-linear'', bc_WorkflowDefinitionID = ''w'', bc_Executions = 2, bc_Concurrency = 2,
     bc_IncludeRuns = True, bc_Input = [], bc_ReplayAfterTerminal = False\<rparr>"

text \<open>A suite that comes to an end holds one result per repetition, each counted once.\<close>

lemma repetitions_length: "repetitions bm fg spec is w = (Inr results, w') \<Longrightarrow> length results = length is"
  by (induction "is" arbitrary: w results) (auto split: sum.splits prod.splits)

lemma suite_complete:
  assumes "bench_main bm fg w = (Inr suite, w')"
  shows "int (length (su_Results suite)) = fg_Repeat fg"
    "sa_SucceededRuns (su_Aggregate suite) + sa_FailedRuns (su_Aggregate suite) = fg_Repeat fg"
proof -
  from assms obtain spec results where r: "0 < fg_Repeat fg"
      "repetitions bm fg spec [0..<nat (fg_Repeat fg)] w = (Inr results, w')"
      "su_Results suite = results" "su_Aggregate suite = suite_aggregate (bm_floats bm) results"
    by (auto simp: bench_main_def check_flags_def buildSuiteResult_def suiteConfig.extend_def
        split: option.splits sum.splits prod.splits if_splits)
  show "int (length (su_Results suite)) = fg_Repeat fg" using repetitions_length [OF r(2)] r(1,3) by simp
  then show "sa_SucceededRuns (su_Aggregate suite) + sa_FailedRuns (su_Aggregate suite) = fg_Repeat fg"
    using suite_counts [of "bm_floats bm" results] r(3,4) by (simp add: suite_aggregate_def)
qed

section \<open>Polling\<close>

text \<open>
  The timeout of the polling context: \<open>left w\<close> bounds the ticks that are left, requests do not add to
  it and every tick takes one away.  And \<open>posts w\<close> counts the \<^verbatim>\<open>POST\<close> requests made so far.
\<close>

definition times_out :: "('w \<Rightarrow> nat) \<Rightarrow> 'w client \<Rightarrow> bool" where
  "times_out left cl \<longleftrightarrow> (\<forall>meth path body w. left (snd (cl_do cl meth path body w)) \<le> left w) \<and>
     (\<forall>w. fst (cl_wait cl w) \<or> left (snd (cl_wait cl w)) < left w)"

definition counts_posts :: "('w \<Rightarrow> nat) \<Rightarrow> 'w client \<Rightarrow> bool" where
  "counts_posts posts cl \<longleftrightarrow>
     (\<forall>meth path body w. posts (snd (cl_do cl meth path body w)) = posts w + of_bool (meth = ''POST'')) \<and>
     (\<forall>w. posts (snd (cl_wait cl w)) = posts w)"

lemma expect_world: "snd (expect cl meth path body status doing w) = snd (cl_do cl meth path body w)"
  by (auto simp: expect_def split: prod.split sum.split)

lemma call_worlds:
  "snd (getExecutionSnapshot cl ident w) = snd (cl_do cl ''GET'' (''/api/executions/'' @ ident) [] w)"
  "snd (replayTask cl t w) = snd (cl_do cl ''POST'' (''/api/tasks/'' @ t @ ''/replay'') [] w)"
  using expect_world [of cl "''GET''" "''/api/executions/'' @ ident" "[]" 200 "''fetching snapshot''" w]
    expect_world [of cl "''POST''" "''/api/tasks/'' @ t @ ''/replay''" "[]" 202 "''replaying task''" w]
  by (auto simp: getExecutionSnapshot_def replayTask_def split: prod.split sum.split)

definition poll_ok :: "('w \<Rightarrow> nat) \<Rightarrow> bool \<Rightarrow> 'w \<Rightarrow> (go_error + executionRun) \<times> 'w \<Rightarrow> bool" where
  "poll_ok posts replay w out \<longleftrightarrow> posts (snd out) \<le> posts w + of_bool replay \<and>
     (case fst out of Inl _ \<Rightarrow> True
      | Inr run \<Rightarrow> isTerminal (er_FinalStatus run) \<and> posts (snd out) = posts w + of_bool replay)"

lemma finished_run_terminal: "finished_run cl snapshot w = Inr run \<Longrightarrow> er_FinalStatus run = es_Status snapshot"
  by (auto simp: finished_run_def split: sum.splits)

text \<open>The four ways one turn of the loop ends: an error, the run, a replay, a tick.\<close>

lemma poll_turns:
  "getExecutionSnapshot cl x w = (Inl e, w1) \<Longrightarrow> poll cl x replay w = Some (Inl e, w1)"
  "getExecutionSnapshot cl x w = (Inr snapshot, w1) \<Longrightarrow> isTerminal (es_Status snapshot) \<Longrightarrow>
     poll cl x False w = Some (finished_run cl snapshot w1, w1)"
  "getExecutionSnapshot cl x w = (Inr snapshot, w1) \<Longrightarrow> isTerminal (es_Status snapshot) \<Longrightarrow>
     poll cl x True w =
       (case firstDeadLetteredTaskID (es_Tasks snapshot) of
          Inl e \<Rightarrow> Some (Inl e, w1)
        | Inr t \<Rightarrow> (case replayTask cl t w1 of (Inl e, w2) \<Rightarrow> Some (Inl e, w2) | (Inr _, w2) \<Rightarrow> poll cl x False w2))"
  "getExecutionSnapshot cl x w = (Inr snapshot, w1) \<Longrightarrow> \<not> isTerminal (es_Status snapshot) \<Longrightarrow>
     poll cl x replay w =
       (if fst (cl_wait cl w1)
        then Some (Inl (ErrorString (''execution '' @ x @ '' did not complete before timeout'')), snd (cl_wait cl w1))
        else poll cl x replay (snd (cl_wait cl w1)))"
  by (subst poll.simps; simp split: prod.split)+

lemma poll_ok_error: "posts w' \<le> posts w + of_bool replay \<Longrightarrow> poll_ok posts replay w (Inl e, w')"
  by (simp add: poll_ok_def)

lemma poll_ok_later:
  "poll_ok posts replay' w' out \<Longrightarrow> posts w' + of_bool replay' = posts w + of_bool replay \<Longrightarrow> poll_ok posts replay w out"
  by (simp only: poll_ok_def)

text \<open>
  C32.  The polling of an execution ends, with a result or an error, when its context has a timeout.
  A result is a run with a terminal status; if a replay was asked for, exactly one \<^verbatim>\<open>POST\<close> request (the
  replay) was made before it, and otherwise none.  No run makes more.
\<close>

theorem poll_returns:
  assumes "times_out left cl" "counts_posts posts cl"
  shows "\<exists>out. poll cl executionID replay w = Some out \<and> posts (snd out) \<le> posts w + of_bool replay \<and>
    (case fst out of Inl _ \<Rightarrow> True
     | Inr run \<Rightarrow> isTerminal (er_FinalStatus run) \<and> posts (snd out) = posts w + of_bool replay)"
proof -
  have get: "left (snd (getExecutionSnapshot cl executionID w)) \<le> left w"
    "posts (snd (getExecutionSnapshot cl executionID w)) = posts w" for w
    using assms by (simp_all add: call_worlds times_out_def counts_posts_def)
  have post: "left (snd (replayTask cl t w)) \<le> left w" "posts (snd (replayTask cl t w)) = posts w + 1" for t w
    using assms by (simp_all add: call_worlds times_out_def counts_posts_def)
  have wait: "fst (cl_wait cl w) \<or> left (snd (cl_wait cl w)) < left w" "posts (snd (cl_wait cl w)) = posts w" for w
    using assms by (simp_all add: times_out_def counts_posts_def)
  have "\<exists>out. poll cl executionID replay w = Some out \<and> poll_ok posts replay w out"
  proof (induction "left w + of_bool replay" arbitrary: w replay rule: less_induct)
    case less
    obtain res w1 where g: "getExecutionSnapshot cl executionID w = (res, w1)" by fastforce
    have w1: "left w1 \<le> left w" "posts w1 = posts w" using get [of w] g by simp_all
    consider (failed) e where "res = Inl e"
      | (final) snapshot where "res = Inr snapshot" "isTerminal (es_Status snapshot)" "\<not> replay"
      | (again) snapshot where "res = Inr snapshot" "isTerminal (es_Status snapshot)" "replay"
      | (running) snapshot where "res = Inr snapshot" "\<not> isTerminal (es_Status snapshot)" by (cases res) auto
    then show ?case
    proof cases
      case failed
      with g w1 show ?thesis by (simp add: poll_turns(1) poll_ok_error)
    next
      case final
      with g w1 show ?thesis
        by (auto simp: poll_turns(2) poll_ok_def finished_run_terminal split: sum.splits)
    next
      case (again snapshot)
      have later: "\<exists>out. poll cl executionID False (snd (replayTask cl t w1)) = Some out \<and> poll_ok posts replay w out" for t
        using less [of "snd (replayTask cl t w1)" False] post [of t w1] w1 again(3)
          poll_ok_later [of posts False "snd (replayTask cl t w1)" _ w replay] by auto
      have error: "poll_ok posts replay w (Inl e, snd (replayTask cl t w1))" "poll_ok posts replay w (Inl e, w1)" for e t
        using post [of t w1] w1 again(3) by (simp_all add: poll_ok_error)
      show ?thesis
      proof (cases "firstDeadLetteredTaskID (es_Tasks snapshot)")
        case (Inr t)
        obtain r w2 where r: "replayTask cl t w1 = (r, w2)" by fastforce
        show ?thesis using later [of t] error(1) [of _ t] g again Inr r by (cases r) (simp_all add: poll_turns(3))
      qed (use g again error(2) in \<open>simp add: poll_turns(3)\<close>)
    next
      case (running snapshot)
      let ?w2 = "snd (cl_wait cl w1)"
      have "poll_ok posts replay w (Inl e, ?w2)" for e using wait [of w1] w1 by (simp add: poll_ok_error)
      moreover have "\<exists>out. poll cl executionID replay ?w2 = Some out \<and> poll_ok posts replay w out" if "\<not> fst (cl_wait cl w1)"
        using less [of ?w2 replay] wait [of w1] w1 that poll_ok_later [of posts replay ?w2 _ w replay] by auto
      ultimately show ?thesis using g running by (auto simp: poll_turns(4))
    qed
  qed
  then show ?thesis by (simp add: poll_ok_def)
qed

text \<open>A server that answers with a running execution; the ticks run out.\<close>

definition demo_client :: "(nat \<times> nat) client" where
  "demo_client = \<lparr>cl_do = (\<lambda>meth path body w. (Inr (200, ''{}''), (fst w, snd w + of_bool (meth = ''POST'')))),
     cl_wait = (\<lambda>w. (fst w = 0, (fst w - 1, snd w))), cl_since = (\<lambda>_. 0), cl_parse_time = (\<lambda>_. Inr 0)\<rparr>"

theorem poll_returns_witness:
  "\<exists>out. poll demo_client ''x'' True (3, 0) = Some out \<and> snd (snd out) \<le> 1"
proof -
  have "times_out fst demo_client" "counts_posts snd demo_client"
    by (auto simp: times_out_def counts_posts_def demo_client_def)
  from poll_returns [OF this, of "''x''" True "(3, 0)"] show ?thesis by auto
qed

end
