(* ===== verification/BenchScenarios.thy ===== *)
theory BenchScenarios
  imports BenchProps
begin

text \<open>
  The definitions that the benchmark driver generates: the API accepts each of them, and the tasks of the
  chained scenario follow one another to the end (\<open>scenarios_accepted\<close>).
\<close>

section \<open>Decoding a generated definition\<close>

lemma parse_int64_Itoa: "int64_min \<le> i \<Longrightarrow> i \<le> int64_max \<Longrightarrow> parse_int64 (Itoa i) = Some i"
proof -
  assume i: "int64_min \<le> i" "i \<le> int64_max"
  have pos: "(case nat_text n of [] \<Rightarrow> False | c # _ \<Rightarrow> c = CHR ''-'') = False" for n
    using nat_text_digits [of n] by (cases "nat_text n") (auto simp: is_digit_facts)
  show ?thesis
    using i pos [of "nat i"]
    by (cases "i < 0") (simp_all add: parse_int64_def Itoa_def Let_def nat_text_digits digits_val_nat_text)
qed

text \<open>A task of a scenario is its name, its handler and its successor (empty for none).\<close>

type_synonym scenario_entry = "string \<times> string \<times> string"

fun entry_json :: "int \<Rightarrow> int \<Rightarrow> scenario_entry \<Rightarrow> json" where
  "entry_json ma bo (name, handler, nxt) = scenario_task name handler ma bo nxt"

fun entry_spec :: "int \<Rightarrow> int \<Rightarrow> scenario_entry \<Rightarrow> WorkflowTaskSpec" where
  "entry_spec ma bo (name, handler, nxt) =
     \<lparr>spec_Name = name, spec_HandlerKey = handler, spec_MaxAttempts = ma, spec_BackoffSeconds = bo, spec_NextTask = nxt\<rparr>"

definition in_int64 :: "int \<Rightarrow> bool" where
  "in_int64 i \<longleftrightarrow> int64_min \<le> i \<and> i \<le> int64_max"

lemma unmarshal_entry:
  assumes "in_int64 ma" "in_int64 bo"
  shows "unmarshal_task_spec (entry_json ma bo t) zero_task_spec = Some (entry_spec ma bo t)"
  using assms
  by (cases t) (auto simp: unmarshal_task_spec_def scenario_task_def unmarshal_struct_def match_field_def
      set_task_spec_field_def unmarshal_int_def unmarshal_string_def parse_int64_Itoa zero_task_spec_def in_int64_def)

lemma unmarshal_entries:
  assumes "in_int64 ma" "in_int64 bo"
  shows "unmarshal_elems (map (entry_json ma bo) ts) [] = Some (map (entry_spec ma bo) ts)"
  by (induction ts) (simp_all add: unmarshal_entry [OF assms])

lemma unmarshal_scenario:
  assumes "in_int64 ma" "in_int64 bo" "ts \<noteq> []"
  shows "unmarshal_spec (JObj [(''entry_task'', JStr entry), (''tasks'', JArr (map (entry_json ma bo) ts))]) =
    Some \<lparr>spec_EntryTask = entry, spec_Tasks = map (entry_spec ma bo) ts\<rparr>"
  using unmarshal_entries [OF assms(1,2), of ts] assms(3)
  by (cases ts) (simp_all add: unmarshal_spec_def unmarshal_struct_def match_field_def set_spec_field_def unmarshal_string_def)

text \<open>Names that are ASCII and survive trimming.\<close>

definition plain :: "string \<Rightarrow> bool" where
  "plain s \<longleftrightarrow> ascii s \<and> s \<noteq> [] \<and> TrimSpace s = s"

lemma TrimSpace_plain:
  assumes "ascii s" "s \<noteq> []" "\<not> is_space [hd s]" "\<not> is_space [last s]"
  shows "TrimSpace s = s"
  using assms trim_chunks_id [of "chunks s"] by (simp add: TrimSpace_def chunks_ascii hd_map last_map)

definition entries_ok :: "string \<Rightarrow> scenario_entry list \<Rightarrow> bool" where
  "entries_ok entry ts \<longleftrightarrow> plain entry \<and> entry \<in> set (map fst ts) \<and>
     list_all (\<lambda>(name, handler, nxt). plain name \<and> plain handler \<and>
       (nxt = [] \<or> plain nxt \<and> nxt \<noteq> name \<and> nxt \<in> set (map fst ts))) ts"

lemma well_formed_entries:
  assumes "entries_ok entry ts"
  shows "well_formed (JObj [(''entry_task'', JStr entry), (''tasks'', JArr (map (entry_json ma bo) ts))])"
    and "nesting (JObj [(''entry_task'', JStr entry), (''tasks'', JArr (map (entry_json ma bo) ts))]) \<le> 3"
proof -
  have valid: "utf8_valid s" if "plain s" for s using that by (simp add: plain_def utf8_valid_ascii)
  have keys: "utf8_valid ''backoff_seconds''" "utf8_valid ''handler_key''" "utf8_valid ''max_attempts''"
    "utf8_valid ''name''" "utf8_valid ''next_task''" "utf8_valid ''entry_task''" "utf8_valid ''tasks''"
    by (rule utf8_valid_ascii, simp add: ascii_def byte_def)+
  have "well_formed (entry_json ma bo t)" if t: "t \<in> set ts" for t
  proof -
    obtain name handler nxt where e: "t = (name, handler, nxt)" by (cases t) auto
    then have "utf8_valid name" "utf8_valid handler" "utf8_valid nxt"
      using assms t valid by (auto simp: entries_ok_def list_all_iff)
    then show ?thesis by (simp add: e scenario_task_def number_Itoa keys)
  qed
  moreover have "utf8_valid entry" using assms valid by (simp add: entries_ok_def)
  ultimately show "well_formed (JObj [(''entry_task'', JStr entry), (''tasks'', JArr (map (entry_json ma bo) ts))])"
    by (simp add: list_all_iff keys)
  have "nesting (entry_json ma bo t) = 1" for t by (cases t) (simp add: scenario_task_def)
  then have "foldr max (map (\<lambda>x. nesting (entry_json ma bo x)) ts) 0 \<le> 1" by (induction ts) auto
  then show "nesting (JObj [(''entry_task'', JStr entry), (''tasks'', JArr (map (entry_json ma bo) ts))]) \<le> 3"
    by (simp add: comp_def)
qed

lemma scenario_accepted:
  assumes "in_int64 ma" "in_int64 bo" "0 \<le> ma" "0 \<le> bo" "entries_ok entry ts"
  shows "ParseAndValidateWorkflowDefinition (scenario_definition entry (map (entry_json ma bo) ts)) =
    Inr \<lparr>spec_EntryTask = entry, spec_Tasks = map (entry_spec ma bo) ts\<rparr>"
proof -
  let ?spec = "\<lparr>spec_EntryTask = entry, spec_Tasks = map (entry_spec ma bo) ts\<rparr>"
  have "ts \<noteq> []" using assms(5) by (auto simp: entries_ok_def)
  have "json_unmarshal unmarshal_spec (scenario_definition entry (map (entry_json ma bo) ts)) = Inr ?spec"
    using json_decode_print [OF well_formed_entries(1) [OF assms(5), of ma bo]] well_formed_entries(2) [OF assms(5), of ma bo]
      unmarshal_scenario [OF assms(1,2) \<open>ts \<noteq> []\<close>, of entry]
    by (simp add: json_unmarshal_def scenario_definition_def max_nesting_depth_def)
  moreover have names: "task_names (spec_Tasks ?spec) = map fst ts"
    using assms(5) by (auto simp: task_names_def entries_ok_def list_all_iff plain_def)
  have "wf_task ?spec (entry_spec ma bo t)" if t: "t \<in> set ts" for t
  proof -
    obtain name handler nxt where e: "t = (name, handler, nxt)" by (cases t) auto
    then have "plain name" "plain handler" "nxt = [] \<or> plain nxt \<and> nxt \<noteq> name \<and> nxt \<in> set (map fst ts)"
      using assms(5) t by (auto simp: entries_ok_def list_all_iff)
    then show ?thesis using assms(3,4) names by (auto simp: e wf_task_def plain_def)
  qed
  then have "wf_spec ?spec"
    using assms(5) names by (auto simp: wf_spec_def entries_ok_def list_all_iff plain_def)
  ultimately show ?thesis by (simp add: parse_validate_iff)
qed

section \<open>The scenarios\<close>

lemma step_name_plain: "plain (step_name i)"
proof -
  have t: "step_name i = ''step-'' @ nat_text (Suc i)" by (simp add: step_name_def Itoa_def nat_add_distrib)
  have "ascii (step_name i)" using nat_text_ascii [of "Suc i"] by (simp add: t byte_def ascii_def)
  moreover have "\<not> is_space [last (step_name i)]"
  proof -
    have "last (nat_text (Suc i)) \<in> set (nat_text (Suc i))" by (rule last_in_set) simp
    then show ?thesis using nat_text_digits [of "Suc i"] is_digit_facts(8) by (auto simp: t list_all_iff)
  qed
  moreover have "\<not> is_space [hd (step_name i)]" by (simp add: t is_space_def space_runes_def)
  ultimately show ?thesis using TrimSpace_plain [of "step_name i"] by (simp add: plain_def t)
qed

lemma step_name_0: "step_name 0 = ''step-1''"
  by code_simp

lemma step_name_inj: "step_name i = step_name j \<Longrightarrow> i = j"
  using nat_text_inj [of "Suc i" "Suc j"] by (simp add: step_name_def Itoa_def nat_add_distrib)

lemma literals_plain:
  "plain ''step-1''" "plain ''validate-order''" "plain ''send-confirmation''" "plain ''retry-step''" "plain ''broken-step''"
  "plain ''sample.echo''" "plain ''notifications.send''" "plain ''missing.handler''"
  by code_simp+

definition chain_entry :: "nat \<Rightarrow> nat \<Rightarrow> scenario_entry" where
  "chain_entry n i = (step_name i, if i mod 2 = 1 then ''notifications.send'' else ''sample.echo'',
     if i < n - 1 then step_name (Suc i) else [])"

lemma chain_task_entry: "chain_task ma bo n = (\<lambda>i. entry_json ma bo (chain_entry n i))"
  by (simp add: chain_task_def [abs_def] chain_entry_def)

lemma chain_entries_ok:
  assumes "2 \<le> n"
  shows "entries_ok ''step-1'' (map (chain_entry n) [0..<n])"
proof -
  have "''step-1'' \<in> step_name ` {0..<n}" using assms step_name_0 by (metis atLeastLessThan_iff image_eqI le0 less_le_trans zero_less_numeral)
  moreover have "step_name (Suc i) \<in> step_name ` {0..<n}" if "i < n - 1" for i using that by auto
  moreover have "step_name (Suc i) \<noteq> step_name i" for i using step_name_inj [of "Suc i" i] by auto
  ultimately show ?thesis
    by (auto simp: entries_ok_def chain_entry_def list_all_iff literals_plain step_name_plain)
qed

lemma find_spec_nth:
  assumes "distinct (task_names tasks)" "i < length tasks"
  shows "find_spec (TrimSpace (spec_Name (tasks ! i))) tasks = Some (tasks ! i)"
  using assms
proof (induction tasks arbitrary: i)
  case (Cons t ts)
  have "TrimSpace (spec_Name (ts ! j)) \<in> set (task_names ts)" if "j < length ts" for j
    using that by (simp add: task_names_def)
  with Cons show ?case by (cases i) (auto simp: task_names_def)
qed simp

definition chain_spec_of :: "int \<Rightarrow> int \<Rightarrow> nat \<Rightarrow> WorkflowDefinitionSpec" where
  "chain_spec_of ma bo n =
     \<lparr>spec_EntryTask = ''step-1'', spec_Tasks = map (\<lambda>i. entry_spec ma bo (chain_entry n i)) [0..<n]\<rparr>"

lemma chain_find:
  assumes "i < n"
  shows "find_spec (step_name i) (spec_Tasks (chain_spec_of ma bo n)) = Some (entry_spec ma bo (chain_entry n i))"
proof -
  have "task_names (spec_Tasks (chain_spec_of ma bo n)) = map step_name [0..<n]"
    using step_name_plain by (simp add: task_names_def chain_spec_of_def chain_entry_def plain_def)
  then have "distinct (task_names (spec_Tasks (chain_spec_of ma bo n)))"
    by (simp add: distinct_map inj_on_def step_name_inj)
  from find_spec_nth [OF this, of i] assms show ?thesis
    using step_name_plain [of i] by (simp add: chain_spec_of_def chain_entry_def plain_def)
qed

lemma chain_next:
  assumes "i < n"
  shows "FindNextTaskSpec (chain_spec_of ma bo n) (step_name i) =
    Inr (if Suc i < n then Some (entry_spec ma bo (chain_entry n (Suc i))) else None)"
  using assms chain_find [of i n ma bo] chain_find [of "Suc i" n ma bo] step_name_plain [of i] step_name_plain [of "Suc i"]
  by (auto simp: FindNextTaskSpec_def FindTaskSpecByName_def plain_def chain_entry_def)

lemma scenario_cases:
  assumes "buildScenarioSpec pr scenario ma bo n = Inr spec" "2 \<le> n"
  obtains entry ts where "sc_Definition spec = scenario_definition entry (map (entry_json ma bo) ts)" "entries_ok entry ts"
    "scenario = scenarioSuccessDeepChain \<longrightarrow> entry = ''step-1'' \<and> ts = map (chain_entry (nat n)) [0..<nat n]"
proof -
  have chain: "entries_ok ''step-1'' (map (chain_entry (nat n)) [0..<nat n])" using assms(2) by (intro chain_entries_ok) simp
  have rest: "entries_ok ''validate-order'' [(''validate-order'', ''sample.echo'', ''send-confirmation''), (''send-confirmation'', ''notifications.send'', [])]"
    "entries_ok ''retry-step'' [(''retry-step'', ''sample.echo'', [])]" "entries_ok ''broken-step'' [(''broken-step'', ''missing.handler'', [])]"
    by (simp_all add: entries_ok_def literals_plain)
  note defs = scenarioSuccessLinear_def scenarioSuccessDeepChain_def scenarioRetryInvalidInput_def
    scenarioDeadLetterMissingHandler_def scenarioReplayMissingHandler_def
  consider "scenario = scenarioSuccessLinear" | "scenario = scenarioSuccessDeepChain" | "scenario = scenarioRetryInvalidInput"
    | "scenario = scenarioDeadLetterMissingHandler" | "scenario = scenarioReplayMissingHandler"
    using assms(1) by (auto simp: buildScenarioSpec_def Let_def split: if_splits)
  then show ?thesis
  proof cases
    case 1
    with assms(1) that [OF _ rest(1)] show ?thesis by (auto simp: buildScenarioSpec_def plain_scenario_def defs Let_def)
  next
    case 2
    with assms(1) that [OF _ chain] show ?thesis
      by (auto simp: buildScenarioSpec_def plain_scenario_def defs Let_def chain_task_entry comp_def)
  next
    case 3
    with assms(1) that [OF _ rest(2)] show ?thesis by (auto simp: buildScenarioSpec_def plain_scenario_def defs Let_def)
  next
    case 4
    with assms(1) that [OF _ rest(3)] show ?thesis by (auto simp: buildScenarioSpec_def plain_scenario_def defs Let_def)
  next
    case 5
    with assms(1) that [OF _ rest(3)] show ?thesis by (auto simp: buildScenarioSpec_def plain_scenario_def defs Let_def)
  qed
qed

text \<open>
  Every definition that the benchmark driver generates with flags it accepts is accepted by the
  service: the text parses and validates, and every task has the attempts and the backoff of the flags.
  In the chained scenario the definition has as many tasks as asked for, the entry task is the first, and
  the successor of each task is the one after it, up to the last, which has none.
\<close>

lemma scenarios_accepted:
  assumes "check_flags executions concurrency ma bo n repeat = None" "ma \<le> int64_max" "bo \<le> int64_max"
    "buildScenarioSpec pr scenario ma bo n = Inr spec"
  shows "\<exists>ws. ParseAndValidateWorkflowDefinition (sc_Definition spec) = Inr ws \<and>
    list_all (\<lambda>t. spec_MaxAttempts t = ma \<and> spec_BackoffSeconds t = bo) (spec_Tasks ws) \<and>
    (scenario = scenarioSuccessDeepChain \<longrightarrow> int (length (spec_Tasks ws)) = n \<and>
       FindEntryTask ws = Inr (spec_Tasks ws ! 0) \<and>
       (\<forall>i < nat n. FindNextTaskSpec ws (spec_Name (spec_Tasks ws ! i)) =
          Inr (if Suc i < nat n then Some (spec_Tasks ws ! Suc i) else None)))"
proof -
  have flags: "0 < ma" "0 \<le> bo" "2 \<le> n" using assms(1) by (auto simp: check_flags_def split: if_splits)
  obtain entry ts where e: "sc_Definition spec = scenario_definition entry (map (entry_json ma bo) ts)" "entries_ok entry ts"
    "scenario = scenarioSuccessDeepChain \<longrightarrow> entry = ''step-1'' \<and> ts = map (chain_entry (nat n)) [0..<nat n]"
    using scenario_cases [OF assms(4) flags(3)] .
  let ?ws = "\<lparr>spec_EntryTask = entry, spec_Tasks = map (entry_spec ma bo) ts\<rparr>"
  have "ParseAndValidateWorkflowDefinition (sc_Definition spec) = Inr ?ws"
    using scenario_accepted [of ma bo entry ts] flags assms(2,3) e(1,2) by (simp add: in_int64_def int64_min_def)
  moreover have "list_all (\<lambda>t. spec_MaxAttempts t = ma \<and> spec_BackoffSeconds t = bo) (spec_Tasks ?ws)"
    by (auto simp: list_all_iff)
  moreover have "int (length (spec_Tasks ?ws)) = n \<and> FindEntryTask ?ws = Inr (spec_Tasks ?ws ! 0) \<and>
      (\<forall>i < nat n. FindNextTaskSpec ?ws (spec_Name (spec_Tasks ?ws ! i)) =
          Inr (if Suc i < nat n then Some (spec_Tasks ?ws ! Suc i) else None))"
    if "scenario = scenarioSuccessDeepChain"
  proof -
    have ws: "?ws = chain_spec_of ma bo (nat n)" using e(3) that by (simp add: chain_spec_of_def comp_def)
    have tasks: "spec_Tasks (chain_spec_of ma bo (nat n)) ! i = entry_spec ma bo (chain_entry (nat n) i)" if "i < nat n" for i
      using that by (simp add: chain_spec_of_def)
    have "FindEntryTask ?ws = Inr (spec_Tasks ?ws ! 0)"
      using chain_find [of 0 "nat n" ma bo] tasks [of 0] flags(3) literals_plain(1)
      by (simp add: ws FindEntryTask_def plain_def chain_spec_of_def step_name_0)
    moreover have "int (length (spec_Tasks ?ws)) = n" using ws flags(3) by (simp add: chain_spec_of_def)
    moreover have "FindNextTaskSpec ?ws (spec_Name (spec_Tasks ?ws ! i)) =
        Inr (if Suc i < nat n then Some (spec_Tasks ?ws ! Suc i) else None)" if "i < nat n" for i
      using chain_next [OF that, of ma bo] tasks [of i] tasks [of "Suc i"] that
      by (simp only: ws) (simp add: chain_entry_def)
    ultimately show ?thesis by blast
  qed
  ultimately show ?thesis by blast
qed

end
