(* ===== verification/BenchApi.thy ===== *)
theory BenchApi
  imports BenchScenarios OutboxProps HandlerProps JsonDecode
begin

text \<open>
  The benchmark driver reads what the API writes: the snapshot of an execution, encoded by the API and
  decoded by the driver, keeps ids, statuses, times and attempts (\<open>snapshot_roundtrip\<close>); so the driver polls
  exactly as long as the execution runs and reports its final state (\<open>polled_state_typed\<close>).
\<close>

section \<open>Encodable values\<close>

lemma utf8_valid_to_valid [simp]: "utf8_valid (to_valid_utf8 s)"
proof -
  have "rune rune_error" by code_simp
  then have "list_all rune (map (\<lambda>ch. if valid_chunk ch then ch else rune_error) (chunks s))"
    using valid_chunk_rune by (auto simp: list_all_iff)
  then show ?thesis unfolding to_valid_utf8_def by (rule utf8_valid_concat)
qed

text \<open>An encoding that succeeds, with a well-formed value that is nested at most \<open>n\<close> deep.\<close>

definition encodes :: "nat \<Rightarrow> json option \<Rightarrow> bool" where
  "encodes n jo \<longleftrightarrow> (\<exists>j. jo = Some j \<and> well_formed j \<and> nesting j \<le> n)"

lemma encodes_mono: "encodes n jo \<Longrightarrow> n \<le> k \<Longrightarrow> encodes k jo"
  by (auto simp: encodes_def)

lemma encodes_leaf [simp]: "encodes n (str s)" "encodes n (num i)"
  by (simp_all add: encodes_def str_def num_def number_Itoa)

lemma json_members_Some:
  "list_all (\<lambda>(k, jo). utf8_valid k \<and> encodes n jo) ms \<Longrightarrow>
     \<exists>vs. json_members ms = Some vs \<and> list_all (\<lambda>(k, j). utf8_valid k \<and> well_formed j \<and> nesting j \<le> n) vs"
  by (induction ms) (auto simp: encodes_def split: option.splits)

lemma nesting_bound: "list_all (\<lambda>x. f x \<le> n) xs \<Longrightarrow> foldr max (map f xs) 0 \<le> (n :: nat)"
  by (induction xs) auto

lemma encodes_obj:
  assumes "list_all (\<lambda>(k, jo). utf8_valid k \<and> encodes n jo) ms"
  shows "encodes (Suc n) (json_obj ms)"
proof -
  obtain vs where vs: "json_members ms = Some vs" "list_all (\<lambda>(k, j). utf8_valid k \<and> well_formed j \<and> nesting j \<le> n) vs"
    using json_members_Some [OF assms] by blast
  then have "foldr max (map (\<lambda>(k, j). nesting j) vs) 0 \<le> n"
    by (intro nesting_bound) (auto simp: list_all_iff)
  with vs show ?thesis by (auto simp: encodes_def json_obj_def list_all_iff)
qed

lemma encodes_arr:
  assumes "list_all (encodes n) js"
  shows "encodes (Suc n) (map_option JArr (json_arr js))"
proof -
  have "\<exists>vs. json_arr js = Some vs \<and> list_all (\<lambda>j. well_formed j \<and> nesting j \<le> n) vs"
    using assms by (induction js) (auto simp: encodes_def)
  then obtain vs where vs: "json_arr js = Some vs" "list_all (\<lambda>j. well_formed j \<and> nesting j \<le> n) vs" by blast
  then have "foldr max (map nesting vs) 0 \<le> n" by (intro nesting_bound) (auto simp: list_all_iff)
  with vs show ?thesis by (auto simp: encodes_def list_all_iff)
qed

text \<open>
  A document as the database returns it: absent, or a JSON value that is nested less deep than the
  decoder's limit less what a snapshot adds.
\<close>

definition document_ok :: "string \<Rightarrow> bool" where
  "document_ok raw \<longleftrightarrow> raw = [] \<or> (\<exists>j. json_decode raw = Some j \<and> nesting j \<le> 9995)"

definition snapshot_ok :: "ExecutionSnapshot \<Rightarrow> bool" where
  "snapshot_ok s \<longleftrightarrow> document_ok (exec_InputJSON (snap_Execution s)) \<and> document_ok (exec_OutputJSON (snap_Execution s)) \<and>
     list_all (\<lambda>t. document_ok (task_InputJSON (snap_Task t)) \<and> document_ok (task_OutputJSON (snap_Task t)) \<and>
       in_int64 (task_AttemptsTotal (snap_Task t)) \<and> list_all (\<lambda>a. document_ok (att_OutputJSON a)) (snap_Attempts t)) (snap_Tasks s)"

lemma encodes_raw: "document_ok raw \<Longrightarrow> encodes 9995 (raw_json raw)"
  using json_decode_ok(1) [of raw] by (auto simp: document_ok_def raw_json_def encodes_def)

lemma encodes_omitted:
  assumes "utf8_valid k"
  shows "document_ok raw \<Longrightarrow> list_all (\<lambda>(k, jo). utf8_valid k \<and> encodes 9995 jo) (omit_raw k raw)"
    "list_all (\<lambda>(k, jo). utf8_valid k \<and> encodes 9995 jo) (omit_str k s)"
    "list_all (\<lambda>(k, jo). utf8_valid k \<and> encodes 9995 jo) (omit_time fmt k t)"
  using assms encodes_raw [of raw] by (auto simp: omit_raw_def omit_str_def omit_time_def split: option.split)

text \<open>The names of members are made of small letters and underscores, so they match a field only when equal.\<close>

definition plain_key :: "string \<Rightarrow> bool" where
  "plain_key k \<longleftrightarrow> list_all (byte_in 95 122) k"

lemma plain_keys: "list_all plain_key
  [''id'', ''workflow_definition_id'', ''status'', ''input'', ''output'', ''error'', ''created_at'', ''updated_at'',
   ''started_at'', ''completed_at'', ''workflow_execution_id'', ''task_name'', ''handler_key'', ''next_run_at'',
   ''last_error'', ''attempts_total'', ''idempotency_key'', ''dispatched_at'', ''task_instance_id'', ''attempt_number'',
   ''finished_at'', ''execution'', ''tasks'', ''task'', ''attempts'']"
  by (simp add: plain_key_def byte_in_def byte_def)

lemmas key_plain [simp] = plain_keys [unfolded list.pred_inject, simplified]

lemma plain_key_ascii: "plain_key k \<Longrightarrow> ascii k"
  by (auto simp: plain_key_def ascii_def byte_in_def list_all_iff)

lemma key_valid: "plain_key k \<Longrightarrow> utf8_valid k"
  by (rule utf8_valid_ascii, rule plain_key_ascii)

lemma fold_name_plain:
  assumes "plain_key k"
  shows "fold_name k = map (\<lambda>c. if byte_in 97 122 c then char_of (byte c - 32) else c) k"
  using chunks_ascii [OF plain_key_ascii [OF assms]]
  by (simp add: fold_name_def fold_chunk_def comp_def concat_map_singleton)

lemma fold_char_inj: "inj_on (\<lambda>c. if byte_in 97 122 c then char_of (byte c - 32) else c) {c. byte_in 95 122 c}"
proof (rule inj_onI)
  let ?up = "\<lambda>c. if byte_in 97 122 c then char_of (byte c - 32) else c"
  have up: "byte (?up c) = (if 97 \<le> byte c then byte c - 32 else byte c)" if "byte_in 95 122 c" for c
    using that by (auto simp: byte_in_def byte_def of_char_mod_256 intro: mod_less)
  fix c d assume "c \<in> {c. byte_in 95 122 c}" "d \<in> {c. byte_in 95 122 c}" "?up c = ?up d"
  then have "byte c = byte d" using up [of c] up [of d] by (auto simp: byte_in_def split: if_splits)
  then show "c = d" by (simp add: byte_def)
qed

lemma match_field_plain:
  assumes "plain_key k" "list_all plain_key names"
  shows "match_field names k = (if k \<in> set names then Some k else None)"
proof -
  have "n = k" if "n \<in> set names" "fold_name n = fold_name k" for n
  proof -
    have n: "plain_key n" using assms(2) that(1) by (simp add: list_all_iff)
    then have "inj_on (\<lambda>c. if byte_in 97 122 c then char_of (byte c - 32) else c) (set n \<union> set k)"
      using assms(1) by (intro inj_on_subset [OF fold_char_inj]) (auto simp: plain_key_def list_all_iff)
    then show ?thesis
      using that(2) fold_name_plain [OF n] fold_name_plain [OF assms(1)] by (simp add: inj_on_map_eq_map)
  qed
  then show ?thesis by (auto simp: match_field_def find_None_iff)
qed

lemma encodes_rows:
  "document_ok (exec_InputJSON x) \<Longrightarrow> document_ok (exec_OutputJSON x) \<Longrightarrow> encodes 9996 (marshal_execution fmt x)"
  "document_ok (task_InputJSON t) \<Longrightarrow> document_ok (task_OutputJSON t) \<Longrightarrow> encodes 9996 (marshal_task fmt t)"
  "document_ok (att_OutputJSON a) \<Longrightarrow> encodes 9996 (marshal_attempt fmt a)"
  unfolding marshal_execution_def marshal_task_def marshal_attempt_def
  by (rule encodes_obj [of 9995, simplified]; simp add: key_valid encodes_raw encodes_omitted)+

lemma encodes_snapshot:
  assumes "snapshot_ok s"
  shows "encodes 10000 (marshal_snapshot fmt s)"
proof -
  have task: "encodes 9998 (json_obj [(''task'', marshal_task fmt (snap_Task t)),
      (''attempts'', map_option JArr (json_arr (map (marshal_attempt fmt) (snap_Attempts t))))])" if "t \<in> set (snap_Tasks s)" for t
  proof -
    have "document_ok (task_InputJSON (snap_Task t))" "document_ok (task_OutputJSON (snap_Task t))"
      "list_all (\<lambda>a. document_ok (att_OutputJSON a)) (snap_Attempts t)"
      using assms that by (auto simp: snapshot_ok_def list_all_iff)
    moreover from this(3) have "encodes 9997 (map_option JArr (json_arr (map (marshal_attempt fmt) (snap_Attempts t))))"
      using encodes_arr [of 9996] encodes_rows(3) by (auto simp: list_all_iff)
    ultimately show ?thesis
      using encodes_obj [of 9997] encodes_mono [OF encodes_rows(2), of "snap_Task t" 9997 fmt] by (simp add: key_valid)
  qed
  then have "encodes 9999 (map_option JArr (json_arr (map (\<lambda>t. json_obj [(''task'', marshal_task fmt (snap_Task t)),
      (''attempts'', map_option JArr (json_arr (map (marshal_attempt fmt) (snap_Attempts t))))]) (snap_Tasks s))))"
    using encodes_arr [of 9998] by (auto simp: list_all_iff)
  moreover have "encodes 9999 (marshal_execution fmt (snap_Execution s))"
    using assms encodes_mono [OF encodes_rows(1), of "snap_Execution s" 9999 fmt] by (simp add: snapshot_ok_def)
  ultimately show ?thesis
    using encodes_obj [of 9999] by (simp add: marshal_snapshot_def key_valid)
qed

section \<open>Decoding\<close>

text \<open>What the driver keeps of a snapshot.\<close>

definition view_time :: "(go_time \<Rightarrow> string) \<Rightarrow> go_time option \<Rightarrow> string" where
  "view_time fmt t = (case t of None \<Rightarrow> [] | Some v \<Rightarrow> to_valid_utf8 (fmt v))"

definition view_task :: "TaskSnapshot \<Rightarrow> benchTask" where
  "view_task t = \<lparr>bt_ID = to_valid_utf8 (task_ID (snap_Task t)), bt_Status = to_valid_utf8 (task_Status (snap_Task t)),
     bt_AttemptsTotal = task_AttemptsTotal (snap_Task t),
     bt_Attempts = map (\<lambda>a. \<lparr>ba_Status = to_valid_utf8 (att_Status a)\<rparr>) (snap_Attempts t)\<rparr>"

definition driver_view :: "(go_time \<Rightarrow> string) \<Rightarrow> ExecutionSnapshot \<Rightarrow> executionSnapshot" where
  "driver_view fmt s =
     \<lparr>es_ID = to_valid_utf8 (exec_ID (snap_Execution s)), es_Status = to_valid_utf8 (exec_Status (snap_Execution s)),
      es_StartedAt = view_time fmt (exec_StartedAt (snap_Execution s)),
      es_CompletedAt = view_time fmt (exec_CompletedAt (snap_Execution s)),
      es_Tasks = map view_task (snap_Tasks s)\<rparr>"

text \<open>Members that may be left out, read one by one; those that match no field change nothing.\<close>

fun read_members :: "string list \<Rightarrow> (string \<Rightarrow> json \<Rightarrow> 'a \<Rightarrow> 'a option) \<Rightarrow> (string \<times> json option) list \<Rightarrow> 'a \<Rightarrow> 'a option" where
  "read_members names f [] v = Some v"
| "read_members names f ((k, jo) # ms) v =
     (case match_field names k of
        None \<Rightarrow> read_members names f ms v
      | Some g \<Rightarrow> (case jo of None \<Rightarrow> None | Some j \<Rightarrow> (case f g j v of None \<Rightarrow> None | Some v' \<Rightarrow> read_members names f ms v')))"

lemma read_json_members: "json_members ms = Some vs \<Longrightarrow> unmarshal_members names f vs v = read_members names f ms v"
  by (induction ms arbitrary: vs v) (auto split: option.splits)

lemma read_json_obj: "json_obj ms = Some j \<Longrightarrow> unmarshal_struct names f j v = read_members names f ms v"
  by (auto simp: json_obj_def unmarshal_struct_def read_json_members)

lemma read_append [simp]:
  "read_members names f (as @ bs) v = (case read_members names f as v of None \<Rightarrow> None | Some v' \<Rightarrow> read_members names f bs v')"
  by (induction as arbitrary: v) (auto split: option.split)

lemma read_omitted [simp]:
  "match_field names k = None \<Longrightarrow> read_members names f (omit_raw k raw) v = Some v"
  "match_field names k = None \<Longrightarrow> read_members names f (omit_str k s) v = Some v"
  "match_field names k = None \<Longrightarrow> read_members names f (omit_time fmt k t) v = Some v"
  by (simp_all add: omit_raw_def omit_str_def omit_time_def split: option.split)

lemma read_time:
  "match_field names k = Some g \<Longrightarrow> read_members names f (omit_time fmt k t) v =
     (case t of None \<Rightarrow> Some v | Some x \<Rightarrow> f g (JStr (to_valid_utf8 (fmt x))) v)"
  by (simp add: omit_time_def str_def split: option.split)

lemma decode_execution:
  assumes "marshal_execution fmt x = Some j"
  shows "unmarshal_struct [''id'', ''status'', ''started_at'', ''completed_at''] set_execution_field j
      \<lparr>es_ID = [], es_Status = [], es_StartedAt = [], es_CompletedAt = [], es_Tasks = ts\<rparr> =
    Some \<lparr>es_ID = to_valid_utf8 (exec_ID x), es_Status = to_valid_utf8 (exec_Status x),
      es_StartedAt = view_time fmt (exec_StartedAt x), es_CompletedAt = view_time fmt (exec_CompletedAt x), es_Tasks = ts\<rparr>"
  by (simp add: read_json_obj [OF assms [unfolded marshal_execution_def]] match_field_plain set_execution_field_def
      unmarshal_string_def str_def read_time view_time_def split: option.split)

lemma decode_task_row:
  assumes "marshal_task fmt t = Some j" "in_int64 (task_AttemptsTotal t)"
  shows "unmarshal_struct [''id'', ''status'', ''attempts_total''] set_task_field j zero_task =
    Some \<lparr>bt_ID = to_valid_utf8 (task_ID t), bt_Status = to_valid_utf8 (task_Status t),
      bt_AttemptsTotal = task_AttemptsTotal t, bt_Attempts = []\<rparr>"
  using assms(2)
  by (simp add: read_json_obj [OF assms(1) [unfolded marshal_task_def]] match_field_plain set_task_field_def
      unmarshal_string_def unmarshal_int_def str_def num_def zero_task_def parse_int64_Itoa in_int64_def)

lemma decode_attempt_row:
  assumes "marshal_attempt fmt a = Some j"
  shows "decode_attempt \<lparr>ba_Status = []\<rparr> j = Some \<lparr>ba_Status = to_valid_utf8 (att_Status a)\<rparr>"
  by (simp add: decode_attempt_def read_json_obj [OF assms [unfolded marshal_attempt_def]] match_field_plain
      unmarshal_string_def str_def num_def)

text \<open>A list whose elements decode one by one.\<close>

lemma decode_list_map:
  assumes "json_arr (map enc xs) = Some js" "\<And>x j. x \<in> set xs \<Longrightarrow> enc x = Some j \<Longrightarrow> dec zero j = Some (view x)"
  shows "decode_list dec zero js = Some (map view xs)"
  using assms
proof (induction xs arbitrary: js)
  case (Cons x xs)
  then obtain j js' where "js = j # js'" "enc x = Some j" "json_arr (map enc xs) = Some js'"
    by (auto split: option.splits)
  moreover from this(2) have "dec zero j = Some (view x)" by (rule Cons.prems(2) [rotated]) simp
  moreover have "decode_list dec zero js' = Some (map view xs)"
    using Cons.IH [OF \<open>json_arr (map enc xs) = Some js'\<close>] Cons.prems(2) by simp
  ultimately show ?case by simp
qed simp

lemma decode_task_snapshot:
  assumes "json_obj [(''task'', marshal_task fmt (snap_Task t)),
      (''attempts'', map_option JArr (json_arr (map (marshal_attempt fmt) (snap_Attempts t))))] = Some j"
    and "in_int64 (task_AttemptsTotal (snap_Task t))"
  shows "decode_task zero_task j = Some (view_task t)"
proof -
  obtain jt js where j: "j = JObj [(''task'', jt), (''attempts'', JArr js)]" "marshal_task fmt (snap_Task t) = Some jt"
      "json_arr (map (marshal_attempt fmt) (snap_Attempts t)) = Some js"
    using assms(1) by (auto simp: json_obj_def split: option.splits)
  have "decode_list decode_attempt \<lparr>ba_Status = []\<rparr> js = Some (map (\<lambda>a. \<lparr>ba_Status = to_valid_utf8 (att_Status a)\<rparr>) (snap_Attempts t))"
    by (rule decode_list_map [OF j(3)]) (rule decode_attempt_row)
  with decode_task_row [OF j(2) assms(2)] show ?thesis
    by (simp add: j(1) decode_task_def unmarshal_struct_def [of "[''task'', ''attempts'']"] match_field_plain unmarshal_slice_def view_task_def)
qed

lemma decode_marshalled:
  assumes "marshal_snapshot fmt s = Some j" "snapshot_ok s"
  shows "decode_snapshot j = Some (driver_view fmt s)"
proof -
  let ?enc = "\<lambda>t. json_obj [(''task'', marshal_task fmt (snap_Task t)),
      (''attempts'', map_option JArr (json_arr (map (marshal_attempt fmt) (snap_Attempts t))))]"
  obtain jx js where j: "j = JObj [(''execution'', jx), (''tasks'', JArr js)]"
      "marshal_execution fmt (snap_Execution s) = Some jx" "json_arr (map ?enc (snap_Tasks s)) = Some js"
    using assms(1) by (auto simp: marshal_snapshot_def json_obj_def [of "[(''execution'', _), (''tasks'', _)]"] split: option.splits)
  have "decode_list decode_task zero_task js = Some (map view_task (snap_Tasks s))"
    by (rule decode_list_map [OF j(3)], rule decode_task_snapshot)
       (use assms(2) in \<open>auto simp: snapshot_ok_def list_all_iff\<close>)
  with decode_execution [OF j(2)] show ?thesis
    by (simp add: j(1) decode_snapshot_def unmarshal_struct_def [of "[''execution'', ''tasks'']"] match_field_plain
        unmarshal_slice_def driver_view_def)
qed

section \<open>The driver as a client of the API\<close>

text \<open>A request of the driver, and the bytes of a response (those of \<^verbatim>\<open>/metrics\<close> are not modelled).\<close>

definition driver_request :: "string \<Rightarrow> string \<Rightarrow> string \<Rightarrow> http_request" where
  "driver_request meth path body =
     \<lparr>hr_Method = meth, hr_Path = path, hr_EscapedPath = path, hr_RawQuery = [], hr_Body = body\<rparr>"

fun body_text :: "http_body \<Rightarrow> string" where
  "body_text NoBody = []"
| "body_text (TextBody t) = t"
| "body_text (JsonBody None) = []"
| "body_text (JsonBody (Some j)) = json_print j @ [CHR 0x0A]"
| "body_text MetricsBody = []"

text \<open>
  The client of a driver that talks to the API: its world is the number of requests made so far (request
  \<open>n\<close> is served in the session \<open>ses n\<close>) and the database; \<open>clock\<close> tells whether the context has expired at the
  next tick, and the time since the start.
\<close>

definition api_client ::
  "(go_time \<Rightarrow> string) \<Rightarrow> (string \<Rightarrow> go_error + go_time) \<Rightarrow> (go_error \<Rightarrow> string) \<Rightarrow> string \<Rightarrow> (nat \<Rightarrow> session) \<Rightarrow>
    (nat \<times> pg \<Rightarrow> bool \<times> go_duration) \<Rightarrow> (nat \<times> pg) client"
where
  "api_client fmt parse lib service ses clock =
     \<lparr>cl_do = (\<lambda>meth path body (n, db).
        case api_serve fmt lib None service (driver_request meth path body) (ses n) db of
          ((resp, _), db') \<Rightarrow> (Inr (rs_Status resp, body_text (rs_Body resp)), (Suc n, db'))),
      cl_wait = (\<lambda>w. (fst (clock w), w)), cl_since = (\<lambda>w. snd (clock w)), cl_parse_time = parse\<rparr>"

text \<open>
  An id that is one segment of the path of the URL the driver puts together: no character ends the path or
  escapes another, and the URL parses (it has no control characters).
\<close>

definition segment :: "string \<Rightarrow> bool" where
  "segment t \<longleftrightarrow> t \<noteq> [] \<and> list_all (\<lambda>c. c \<notin> set ''/%?#'' \<and> 0x20 \<le> byte c \<and> byte c \<noteq> 0x7F) t \<and> t \<noteq> ''.'' \<and> t \<noteq> ''..''"

lemma snapshot_path_routed:
  assumes "segment t"
  shows "serve_mux api_mux (driver_request ''GET'' (''/api/executions/'' @ t) []) = Routed ExecutionSnapshotRoute"
proof -
  let ?p = "''/api/executions/'' @ t"
  have t: "t \<noteq> []" "CHR ''/'' \<notin> set t" "CHR ''%'' \<notin> set t" "t \<noteq> ''.''" "t \<noteq> ''..''"
    using assms by (auto simp: segment_def list_all_iff)
  have s: "split_on (CHR ''/'') t = [t]" using t(2) by (rule split_on_none)
  have last: "last t \<noteq> CHR ''/''" using t(1,2) last_in_set by fastforce
  have "clean_path ?p = ?p"
    using s last t by (simp add: clean_path_def clean_segment_def)
  moreover have "path_segments ?p = [''api'', ''executions'', t]"
    using s unescape_path_plain [OF t(3)] by (simp add: path_segments_def)
  ultimately show ?thesis
    by (simp add: driver_request_def serve_mux_def slash_redirect_def mux_find_def api_mux_def RegisterHealthRoutes_def Let_def t(1))
qed

lemma snapshot_fetched:
  assumes "segment ident" "snapshot_ok s"
    and "db1 = ses_other (ses n) 0 db" "db2 = ses_other (ses n) 1 db1" "db3 = ses_other (ses n) 2 db2"
    and "GetExecutionSnapshot ident (ses_env (ses n) 0) db1 db2 db3 = Inr s"
  shows "getExecutionSnapshot (api_client fmt parse lib service ses clock) ident (n, db) = (Inr (driver_view fmt s), (Suc n, db3))"
proof -
  obtain j where j: "marshal_snapshot fmt s = Some j" "well_formed j" "nesting j \<le> 10000"
    using encodes_snapshot [OF assms(2)] by (auto simp: encodes_def)
  have "stream_decode (json_print j @ [CHR 0x0A]) = Some j"
    using json_decode_print_rest [OF j(2), of "[CHR 0x0A]"] j(3)
    by (intro stream_decode_complete) (simp add: max_nesting_depth_def)
  then have "decode_response decode_snapshot (json_print j @ [CHR 0x0A]) = Inr (driver_view fmt s)"
    using decode_marshalled [OF j(1) assms(2)] by (simp add: decode_response_def)
  moreover have "ident \<noteq> []" using assms(1) by (simp add: segment_def)
  ultimately show ?thesis
    using snapshot_path_routed [OF assms(1)] assms(3-6) j(1) trim_prefix_append [of "''/api/executions/''" ident]
    by (simp add: getExecutionSnapshot_def expect_def api_client_def api_serve_def Middleware_def NewRouter_def cors_def
        serve_api_mux_def serve_route_def handleExecutionSnapshot_def ServiceGetExecutionSnapshot_def driver_request_def
        Let_def writeJSON_def with_cors_def del: One_nat_def)
qed

text \<open>
  C23.  The benchmark driver sees an execution as the store has it: when it fetches the snapshot of an
  execution from the API, the request is routed to the snapshot handler, and what the driver decodes from
  the response has the id, status and times of the execution and, for each task in order, its id,
  status, number of attempts and the statuses of its attempts.
\<close>

theorem snapshot_roundtrip:
  assumes "segment ident" "snapshot_ok s"
    and "db1 = ses_other (ses n) 0 db" "db2 = ses_other (ses n) 1 db1" "db3 = ses_other (ses n) 2 db2"
    and "GetExecutionSnapshot ident (ses_env (ses n) 0) db1 db2 db3 = Inr s"
  shows "getExecutionSnapshot (api_client fmt parse lib service ses clock) ident (n, db) =
    (Inr \<lparr>es_ID = to_valid_utf8 (exec_ID (snap_Execution s)), es_Status = to_valid_utf8 (exec_Status (snap_Execution s)),
      es_StartedAt = view_time fmt (exec_StartedAt (snap_Execution s)),
      es_CompletedAt = view_time fmt (exec_CompletedAt (snap_Execution s)),
      es_Tasks = map view_task (snap_Tasks s)\<rparr>, (Suc n, db3))"
  using snapshot_fetched [of ident s db1 ses n db db2 db3, OF assms] by (simp add: driver_view_def)

lemma document_empty_object: "document_ok ''{}''"
proof -
  have "json_decode ''{}'' = Some (JObj [])" by code_simp
  then show ?thesis by (simp add: document_ok_def)
qed

theorem snapshot_roundtrip_witness:
  "\<exists>snapshot. getExecutionSnapshot (api_client (\<lambda>_. ''1970-01-01T00:00:00Z'') (\<lambda>_. Inr 0) (\<lambda>_. []) ''api'' strict_session (\<lambda>_. (True, 0)))
       ''u-.'' (7, strict_db) = (Inr snapshot, (8, strict_db)) \<and>
     es_Status snapshot = ''running'' \<and> map bt_Status (es_Tasks snapshot) = [''pending''] \<and> totalAttempts snapshot = 0"
proof -
  define s where "s = \<lparr>snap_Execution = scanWorkflowExecution (hd (workflow_executions strict_db)),
    snap_Tasks = [\<lparr>snap_Task = scanTaskInstance strict_task, snap_Attempts = []\<rparr>]\<rparr>"
  have got: "GetExecutionSnapshot ''u-.'' (ses_env (strict_session 7) 0) strict_db strict_db strict_db = Inr s"
    by (simp add: GetExecutionSnapshot_def pool_query_def sql_select_execution_def with_uuid_def strict_defs one_row_def
        tasks_of_execution_def attempts_of_execution_def group_attempts_def Let_def strict_db_eq s_def strict_task_def)
  have "document_ok []" by (simp add: document_ok_def)
  then have "snapshot_ok s"
    using document_empty_object
    by (simp add: s_def snapshot_ok_def scanWorkflowExecution_def scanTaskInstance_def strict_db_eq strict_task_def
        in_int64_def int64_min_def int64_max_def stringValue_def)
  moreover have "segment ''u-.''" by (simp add: segment_def byte_def)
  moreover have "to_valid_utf8 ''running'' = ''running''" "to_valid_utf8 ''pending'' = ''pending''" by code_simp+
  ultimately show ?thesis
    using snapshot_roundtrip [of "''u-.''" s strict_db strict_session 7 strict_db strict_db strict_db, OF _ _ _ _ _ got]
    by (simp add: s_def strict_db_eq scanWorkflowExecution_def scanTaskInstance_def strict_task_def view_task_def
        totalAttempts_def ExecutionStatusRunning_def TaskStatusPending_def)
qed

section \<open>The states the driver sees\<close>

text \<open>What the columns of a status can hold, on both sides of the interface.\<close>

definition snapshot_typed :: "executionSnapshot \<Rightarrow> bool" where
  "snapshot_typed snapshot \<longleftrightarrow> es_Status snapshot \<in> set execution_statuses \<and>
     list_all (\<lambda>t. bt_Status t \<in> set task_statuses \<and> 0 \<le> bt_AttemptsTotal t \<and>
       list_all (\<lambda>a. ba_Status a \<in> set attempt_statuses) (bt_Attempts t)) (es_Tasks snapshot)"

lemma statuses_valid:
  "st \<in> set execution_statuses \<Longrightarrow> to_valid_utf8 st = st" "st \<in> set task_statuses \<Longrightarrow> to_valid_utf8 st = st"
  "st \<in> set attempt_statuses \<Longrightarrow> to_valid_utf8 st = st"
proof -
  have "list_all (\<lambda>st. to_valid_utf8 st = st) (execution_statuses @ task_statuses @ attempt_statuses)" by code_simp
  then show "st \<in> set execution_statuses \<Longrightarrow> to_valid_utf8 st = st" "st \<in> set task_statuses \<Longrightarrow> to_valid_utf8 st = st"
    "st \<in> set attempt_statuses \<Longrightarrow> to_valid_utf8 st = st" by (simp_all add: list_all_iff)
qed

text \<open>The rows of a snapshot, which three queries read in three states.\<close>

lemma snapshot_rows:
  assumes "server U env" "reachable (server U) db1" "reachable (server U) db2" "reachable (server U) db3"
    and "GetExecutionSnapshot e env db1 db2 db3 = Inr s"
  obtains r where "execution_row_ok r" "snap_Execution s = scanWorkflowExecution r"
    "\<forall>t \<in> set (snap_Tasks s). (\<exists>q. task_row_ok q \<and> snap_Task t = scanTaskInstance q) \<and>
      (\<forall>a \<in> set (snap_Attempts t). \<exists>q. attempt_row_ok q \<and> a = scanTaskAttempt q)"
proof -
  note ok = store_ok_parts(2) [OF reachable_store_ok, unfolded lifecycle_ok_def]
  note rows = ok [OF assms(2)] ok [OF assms(3)] ok [OF assms(4)] and scans = scans_sets [OF serverD(3) [OF assms(1)]]
  from assms(5) obtain r tasks attempts where q: "pool_query 0 (sql_select_execution e) env db1 = Inr r"
      "pool_query 1 (tasks_of_execution e) env db2 = Inr tasks" "pool_query 2 (attempts_of_execution e) env db3 = Inr attempts"
      "s = \<lparr>snap_Execution = scanWorkflowExecution r,
        snap_Tasks = map (\<lambda>task. \<lparr>snap_Task = task, snap_Attempts = group_attempts attempts (task_ID task)\<rparr>) tasks\<rparr>"
    by (auto simp: GetExecutionSnapshot_def Let_def simp del: One_nat_def split: sum.splits)
  have "execution_row_ok r"
    using q(1) rows(1) by (auto simp: pool_query_def sql_select_execution_def with_uuid_def one_row_def list_all_iff
        dest: select_by_mem split: option.splits if_splits)
  moreover have "set tasks \<subseteq> scanTaskInstance ` set (task_instances db2)"
    using q(2) by (auto simp: pool_query_def tasks_of_execution_def with_uuid_def scans split: option.splits if_splits)
  then have "\<exists>x. task_row_ok x \<and> t = scanTaskInstance x" if "t \<in> set tasks" for t
    using rows(2) that unfolding list_all_iff by blast
  moreover have "set attempts \<subseteq> scanTaskAttempt ` set (task_attempts db3)"
    using q(3) by (auto simp: pool_query_def attempts_of_execution_def with_uuid_def scans split: option.splits if_splits)
  then have "\<exists>x. attempt_row_ok x \<and> a = scanTaskAttempt x" if "a \<in> set attempts" for a
    using rows(3) that unfolding list_all_iff by blast
  ultimately show thesis by (intro that [of r]) (auto simp: q(4) group_attempts_filter)
qed

text \<open>Formatted times are read back.\<close>

definition times_roundtrip :: "(go_time \<Rightarrow> string) \<Rightarrow> (string \<Rightarrow> go_error + go_time) \<Rightarrow> bool" where
  "times_roundtrip fmt parse \<longleftrightarrow> (\<forall>t. fmt t \<noteq> [] \<and> utf8_valid (fmt t) \<and> parse (fmt t) = Inr t)"

lemma foldl_sum: "foldl (\<lambda>n t. n + f t) (c :: int) ts = c + sum_list (map f ts)"
  by (induction ts arbitrary: c) simp_all

lemma view_typed:
  assumes "execution_row_ok r" "snap_Execution s = scanWorkflowExecution r"
    and "\<forall>t \<in> set (snap_Tasks s). (\<exists>q. task_row_ok q \<and> snap_Task t = scanTaskInstance q) \<and>
      (\<forall>a \<in> set (snap_Attempts t). \<exists>q. attempt_row_ok q \<and> a = scanTaskAttempt q)"
  shows "snapshot_typed (driver_view fmt s)" "es_Status (driver_view fmt s) = we_status r"
proof -
  have r: "we_status r \<in> set execution_statuses" using assms(1) by (simp add: execution_row_ok_def)
  have "bt_Status (view_task t) \<in> set task_statuses \<and> 0 \<le> bt_AttemptsTotal (view_task t) \<and>
      list_all (\<lambda>a. ba_Status a \<in> set attempt_statuses) (bt_Attempts (view_task t))" if "t \<in> set (snap_Tasks s)" for t
  proof -
    from bspec [OF assms(3) that] obtain q where q: "task_row_ok q" "snap_Task t = scanTaskInstance q"
      and att: "\<forall>a \<in> set (snap_Attempts t). \<exists>q. attempt_row_ok q \<and> a = scanTaskAttempt q" by (elim conjE exE)
    have "att_Status a \<in> set attempt_statuses" if a: "a \<in> set (snap_Attempts t)" for a
    proof -
      from bspec [OF att a] obtain x where "attempt_row_ok x" "a = scanTaskAttempt x" by (elim conjE exE)
      then show ?thesis by (simp add: attempt_row_ok_def scanTaskAttempt_def)
    qed
    then have "list_all (\<lambda>a. ba_Status a \<in> set attempt_statuses) (bt_Attempts (view_task t))"
      by (simp add: view_task_def list_all_iff statuses_valid(3))
    moreover have "ti_status q \<in> set task_statuses" "0 \<le> ti_attempts_total q" using q(1) by (simp_all add: task_row_ok_def)
    ultimately show ?thesis by (simp add: view_task_def q(2) scanTaskInstance_def statuses_valid(2))
  qed
  then show "snapshot_typed (driver_view fmt s)"
    using r by (simp add: snapshot_typed_def driver_view_def assms(2) scanWorkflowExecution_def list_all_iff statuses_valid(1))
  show "es_Status (driver_view fmt s) = we_status r"
    using r by (simp add: driver_view_def assms(2) scanWorkflowExecution_def statuses_valid(1))
qed

lemma first_dead_lettered:
  assumes "\<forall>t \<in> set ts. (\<exists>q. task_row_ok q \<and> snap_Task t = scanTaskInstance q) \<and> P t"
  shows "firstDeadLetteredTaskID (map view_task ts) =
    (case filter (\<lambda>t. task_Status (snap_Task t) = TaskStatusDeadLettered) ts of
       [] \<Rightarrow> Inl (ErrorString ''no dead-lettered task found for replay'')
     | t # _ \<Rightarrow> Inr (to_valid_utf8 (task_ID (snap_Task t))))"
  using assms
proof (induction ts)
  case (Cons t ts)
  then obtain q where q: "task_row_ok q" "snap_Task t = scanTaskInstance q" by auto
  then have "to_valid_utf8 (task_Status (snap_Task t)) = task_Status (snap_Task t)"
    by (simp add: task_row_ok_def scanTaskInstance_def statuses_valid(2))
  then have "bt_Status (view_task t) = ''dead_lettered'' \<longleftrightarrow> task_Status (snap_Task t) = TaskStatusDeadLettered"
    by (simp add: view_task_def TaskStatusDeadLettered_def)
  moreover have "bt_ID (view_task t) = to_valid_utf8 (task_ID (snap_Task t))" by (simp add: view_task_def)
  ultimately show ?case using Cons by simp
qed simp

lemma finished_view:
  assumes "execution_row_ok r" "snap_Execution s = scanWorkflowExecution r"
    and "\<forall>t \<in> set (snap_Tasks s). (\<exists>q. task_row_ok q \<and> snap_Task t = scanTaskInstance q) \<and>
      (\<forall>a \<in> set (snap_Attempts t). \<exists>q. attempt_row_ok q \<and> a = scanTaskAttempt q)"
    and "times_roundtrip fmt parse" "cl = api_client fmt parse lib service ses clock"
    and "we_started_at r = Some started" "we_completed_at r = Some completed"
  shows "finished_run cl (driver_view fmt s) w = Inr \<lparr>er_ExecutionID = es_ID (driver_view fmt s), er_FinalStatus = we_status r,
      er_ObservedLatency = snd (clock w), er_ReportedLatency = time_Sub completed started,
      er_AttemptsObserved = sum_list (map (\<lambda>t. int (length (snap_Attempts t))) (snap_Tasks s)),
      er_TerminalTaskCount = countTerminalTasks (driver_view fmt s)\<rparr>"
  using assms(4,6,7)
  by (simp add: finished_run_def parseReportedLatency_def driver_view_def view_time_def assms(2) scanWorkflowExecution_def
      times_roundtrip_def to_valid_utf8_id assms(5) api_client_def totalAttempts_def foldl_sum comp_def view_task_def
      view_typed(2) [OF assms(1-3), unfolded driver_view_def assms(2) scanWorkflowExecution_def, simplified])

text \<open>
  C24.  What the driver polls is well-typed and decides what it does next.  Over a reachable database the
  statuses of the decoded snapshot are those of \<^verbatim>\<open>models.go\<close>.  While the execution is running, the poll waits
  for the next tick and goes on, or ends with the timeout error once the context has expired.  When the execution is
  not running, its start and its completion time are both there.  A poll without a pending replay then ends with the final
  status, the time between the two and the number of attempts; one with a pending replay asks the API to replay the first
  dead-lettered task of the snapshot and polls on without it, or ends with an error if there is none or the request fails.
\<close>

theorem polled_state_typed:
  assumes "segment ident" "snapshot_ok s"
    and "db1 = ses_other (ses n) 0 db" "db2 = ses_other (ses n) 1 db1" "db3 = ses_other (ses n) 2 db2"
    and "GetExecutionSnapshot ident (ses_env (ses n) 0) db1 db2 db3 = Inr s"
    and "server U (ses_env (ses n) 0)" "reachable (server U) db1" "reachable (server U) db2" "reachable (server U) db3"
    and "times_roundtrip fmt parse" "cl = api_client fmt parse lib service ses clock" "w' = (Suc n, db3)"
  shows "\<exists>snapshot. getExecutionSnapshot cl ident (n, db) = (Inr snapshot, w') \<and> snapshot_typed snapshot \<and>
    (if exec_Status (snap_Execution s) = ExecutionStatusRunning
     then poll cl ident replay (n, db) =
       (if fst (clock w') then Some (Inl (ErrorString (''execution '' @ ident @ '' did not complete before timeout'')), w')
        else poll cl ident replay w')
     else \<exists>started completed. exec_StartedAt (snap_Execution s) = Some started \<and> exec_CompletedAt (snap_Execution s) = Some completed \<and>
       poll cl ident replay (n, db) =
         (if \<not> replay then
            Some (Inr \<lparr>er_ExecutionID = es_ID snapshot, er_FinalStatus = exec_Status (snap_Execution s),
              er_ObservedLatency = snd (clock w'), er_ReportedLatency = time_Sub completed started,
              er_AttemptsObserved = sum_list (map (\<lambda>t. int (length (snap_Attempts t))) (snap_Tasks s)),
              er_TerminalTaskCount = countTerminalTasks snapshot\<rparr>, w')
          else case filter (\<lambda>t. task_Status (snap_Task t) = TaskStatusDeadLettered) (snap_Tasks s) of
            [] \<Rightarrow> Some (Inl (ErrorString ''no dead-lettered task found for replay''), w')
          | t # _ \<Rightarrow>
              (case replayTask cl (to_valid_utf8 (task_ID (snap_Task t))) w' of
                 (Inl e, w2) \<Rightarrow> Some (Inl e, w2)
               | (Inr _, w2) \<Rightarrow> poll cl ident False w2)))"
proof -
  let ?v = "driver_view fmt s"
  obtain r where r: "execution_row_ok r" "snap_Execution s = scanWorkflowExecution r"
    "\<forall>t \<in> set (snap_Tasks s). (\<exists>q. task_row_ok q \<and> snap_Task t = scanTaskInstance q) \<and>
      (\<forall>a \<in> set (snap_Attempts t). \<exists>q. attempt_row_ok q \<and> a = scanTaskAttempt q)"
    by (rule snapshot_rows [OF assms(7-10,6)])
  have get: "getExecutionSnapshot cl ident (n, db) = (Inr ?v, w')"
    using snapshot_fetched [of ident s db1 ses n db db2 db3, OF assms(1-6)] by (simp add: assms(12,13))
  have running: "exec_Status (snap_Execution s) = we_status r" by (simp add: r(2) scanWorkflowExecution_def)
  have terminal: "isTerminal (es_Status ?v) \<longleftrightarrow> we_status r \<noteq> ExecutionStatusRunning"
    using r(1) by (auto simp: view_typed(2) [OF r] isTerminal_def execution_row_ok_def execution_statuses_def
        ExecutionStatusRunning_def ExecutionStatusSucceeded_def ExecutionStatusFailed_def)
  have wait: "cl_wait cl w' = (fst (clock w'), w')" by (simp add: assms(12) api_client_def)
  have typed: "snapshot_typed ?v" by (rule view_typed(1) [OF r])
  show ?thesis
  proof (cases "we_status r = ExecutionStatusRunning")
    case True
    with get typed terminal running wait show ?thesis by (intro exI [of _ ?v]) (simp add: poll_turns(4))
  next
    case False
    then obtain started completed where t: "we_started_at r = Some started" "we_completed_at r = Some completed"
      using r(1) by (auto simp: execution_row_ok_def)
    have fin: "finished_run cl ?v w' = Inr \<lparr>er_ExecutionID = es_ID ?v, er_FinalStatus = we_status r,
        er_ObservedLatency = snd (clock w'), er_ReportedLatency = time_Sub completed started,
        er_AttemptsObserved = sum_list (map (\<lambda>t. int (length (snap_Attempts t))) (snap_Tasks s)),
        er_TerminalTaskCount = countTerminalTasks ?v\<rparr>"
      using assms(11) t by (intro finished_view [OF r]) (simp_all add: assms(12))
    have "poll cl ident replay (n, db) = (if \<not> replay then Some (finished_run cl ?v w', w') else
        case filter (\<lambda>t. task_Status (snap_Task t) = TaskStatusDeadLettered) (snap_Tasks s) of
            [] \<Rightarrow> Some (Inl (ErrorString ''no dead-lettered task found for replay''), w')
          | t # _ \<Rightarrow>
              (case replayTask cl (to_valid_utf8 (task_ID (snap_Task t))) w' of
                 (Inl e, w2) \<Rightarrow> Some (Inl e, w2)
               | (Inr _, w2) \<Rightarrow> poll cl ident False w2))"
      using poll_turns(2,3) [OF get] False terminal first_dead_lettered [OF r(3)] by (cases replay) (auto simp: driver_view_def split: list.split)
    then show ?thesis using get typed False t running unfolding fin
      by (intro exI [of _ ?v]) (simp add: r(2) scanWorkflowExecution_def)
  qed
qed

text \<open>Times in unary.\<close>

definition unary_time :: "go_time \<Rightarrow> string" where
  "unary_time t = (if t < 0 then CHR ''-'' else CHR ''+'') # replicate (nat \<bar>t\<bar>) (CHR ''1'')"

fun read_unary :: "string \<Rightarrow> go_error + go_time" where
  "read_unary (c # s) = Inr (if c = CHR ''-'' then - int (length s) else int (length s))"
| "read_unary [] = Inl (ErrorString ''no time'')"

lemma unary_roundtrip: "times_roundtrip unary_time read_unary"
  unfolding times_roundtrip_def unary_time_def
  by (intro allI conjI utf8_valid_ascii) (simp_all add: byte_def)

theorem polled_state_typed_witness:
  "\<exists>run. poll (api_client unary_time read_unary (\<lambda>_. []) ''api'' (\<lambda>_. demo_session ''g'') (\<lambda>_. (False, 7))) ''ue.'' False (0, demo_dead) =
       Some (Inr run, (1, demo_dead)) \<and>
     er_FinalStatus run = ''failed'' \<and> er_ReportedLatency run = 30 \<and> er_AttemptsObserved run = 1"
proof -
  let ?cl = "api_client unary_time read_unary (\<lambda>_. []) ''api'' (\<lambda>_. demo_session ''g'') (\<lambda>_. (False, 7))"
  have rows: "workflow_executions demo_dead = map (set_execution_failed 40 ''boom'') (workflow_executions demo_running)"
      "task_attempts demo_dead = map (set_attempt_failed 40 ''boom'') (task_attempts demo_running)"
    by (simp_all add: demo_dead_def FailTaskAttempt_def fail_attempt_tx_def run_defs demo_defs Let_def demo_running_eq
        demo_db_eq Store.truncate_def set_task_running_def)
  define s where "s = \<lparr>snap_Execution = scanWorkflowExecution (hd (workflow_executions demo_dead)),
    snap_Tasks = [\<lparr>snap_Task = scanTaskInstance (hd (task_instances demo_dead)), snap_Attempts = map scanTaskAttempt (task_attempts demo_dead)\<rparr>]\<rparr>"
  note dead = rows demo_dead_tasks demo_running_eq demo_db_eq set_execution_failed_def set_attempt_failed_def set_task_defs
  have got: "GetExecutionSnapshot ''ue.'' (ses_env (demo_session ''g'') 0) demo_dead demo_dead demo_dead = Inr s"
    by (simp add: GetExecutionSnapshot_def pool_query_def sql_select_execution_def with_uuid_def demo_defs one_row_def
        tasks_of_execution_def attempts_of_execution_def group_attempts_def Let_def s_def dead scanTaskInstance_def scanTaskAttempt_def)
  have "document_ok []" by (simp add: document_ok_def)
  then have ok: "snapshot_ok s"
    using document_empty_object
    by (simp add: s_def snapshot_ok_def scanWorkflowExecution_def scanTaskInstance_def scanTaskAttempt_def dead demo_task_def
        in_int64_def int64_min_def int64_max_def stringValue_def)
  have seg: "segment ''ue.''" by (simp add: segment_def byte_def)
  have failed: "exec_Status (snap_Execution s) = ExecutionStatusFailed" "ExecutionStatusFailed \<noteq> ExecutionStatusRunning"
    by (simp_all add: s_def scanWorkflowExecution_def dead ExecutionStatusFailed_def ExecutionStatusRunning_def)
  from polled_state_typed [where ses = "\<lambda>_. demo_session ''g''" and n = 0 and db = demo_dead and lib = "\<lambda>_. []" and service = "''api''"
        and clock = "\<lambda>_. (False, 7)", OF seg ok _ _ _ got _ demo_dead_reachable demo_dead_reachable demo_dead_reachable unary_roundtrip refl refl, of False] failed
  obtain started completed run where
    "exec_StartedAt (snap_Execution s) = Some started" "exec_CompletedAt (snap_Execution s) = Some completed"
    "poll ?cl ''ue.'' False (0, demo_dead) = Some (Inr run, (1, demo_dead))" "er_FinalStatus run = ExecutionStatusFailed"
    "er_ReportedLatency run = time_Sub completed started" "er_AttemptsObserved run = sum_list (map (\<lambda>t. int (length (snap_Attempts t))) (snap_Tasks s))"
    by auto
  then show ?thesis
    by (auto simp: s_def scanWorkflowExecution_def dead time_Sub_def int64_min_def int64_max_def ExecutionStatusFailed_def)
qed

end
