(* ===== verification/BenchOutput.thy ===== *)
theory BenchOutput
  imports BenchApi
begin

text \<open>
  What the benchmark driver writes at its end: the suite as indented JSON, into a file or to the standard
  output, or a summary in words.  The indented text decodes to the same value (\<open>json_decode_indent\<close>), so a
  result file can be read back (\<open>result_file_readable\<close>).
\<close>

section \<open>Indented JSON\<close>

text \<open>\<^verbatim>\<open>SetIndent("", "  ")\<close>: every element on a line of its own, two spaces per level.\<close>

definition new_line :: "nat \<Rightarrow> string" where
  "new_line d = CHR 0x0A # concat (replicate d ''  '')"

fun json_indent :: "nat \<Rightarrow> json \<Rightarrow> string" where
  "json_indent d (JArr js) =
     (if js = [] then ''[]''
      else [CHR 0x5B] @ (join_comma (map (\<lambda>j. new_line (Suc d) @ json_indent (Suc d) j) js) @ new_line d) @ [CHR 0x5D])"
| "json_indent d (JObj ms) =
     (if ms = [] then ''{}''
      else [CHR 0x7B] @ (join_comma (map (\<lambda>(k, j). new_line (Suc d) @ json_quote k @ '': '' @ json_indent (Suc d) j) ms) @ new_line d) @
        [CHR 0x7D])"
| "json_indent d j = json_print j"

lemma lex_space [simp]: "lex LIdle (CHR '' '' # x) = lex LIdle x"
  by (simp add: idle_step_def)

lemma lex_spaces [simp]: "lex LIdle (concat (replicate d ''  '') @ x) = lex LIdle x"
  by (induction d) (simp_all add: idle_step_def)

lemma lex_new_line [simp]: "lex LIdle (new_line d @ x) = lex LIdle x"
  by (simp add: new_line_def idle_step_def)

lemma lexes_new_line:
  "lexes x ts \<Longrightarrow> lexes (new_line d @ x) ts"
  "lexes x ts \<Longrightarrow> lexes (x @ new_line d) ts"
proof -
  assume x: "lexes x ts"
  then show "lexes (new_line d @ x) ts" by (simp add: lexes_def)
  have "ends_value (new_line d @ rest)" for rest by (simp add: ends_value_def new_line_def)
  with x show "lexes (x @ new_line d) ts" by (simp add: lexes_def)
qed

lemma lexes_member_indented:
  assumes "utf8_valid k" "lexes x ts"
  shows "lexes (json_quote k @ '': '' @ x) (TStr k # TColon # ts)"
  using lexes_member [OF assms(1), of "'' '' @ x" ts] assms(2) by (simp add: lexes_def idle_step_def)

lemma lex_indent: "well_formed j \<Longrightarrow> lexes (json_indent d j) (tokens j)"
proof (induction j arbitrary: d)
  case (JArr js)
  let ?text = "\<lambda>j. new_line (Suc d) @ json_indent (Suc d) j"
  have "lexes (?text j) (tokens j)" if "j \<in> set js" for j
    using JArr that by (auto simp: list_all_iff intro: lexes_new_line(1))
  then have "list_all2 lexes (map ?text js) (map tokens js)" by (auto simp: list_all2_conv_all_nth)
  from lexes_bracket(1) [OF lexes_new_line(2) [OF lexes_commas [OF this]]] lex_print [OF JArr.prems] show ?case
    by (cases "js = []") simp_all
next
  case (JObj ms)
  let ?text = "\<lambda>(k, j). new_line (Suc d) @ json_quote k @ '': '' @ json_indent (Suc d) j" and ?toks = "\<lambda>(k, j). TStr k # TColon # tokens j"
  have "lexes (?text m) (?toks m)" if "m \<in> set ms" for m
  proof -
    obtain k j where m: "m = (k, j)" by fastforce
    then have "lexes (json_indent (Suc d) j) (tokens j)" "utf8_valid k" using JObj that by (auto simp: list_all_iff)
    from lexes_new_line(1) [OF lexes_member_indented [OF this(2,1)]] m show ?thesis by simp
  qed
  then have "list_all2 lexes (map ?text ms) (map ?toks ms)" by (auto simp: list_all2_conv_all_nth)
  from lexes_bracket(2) [OF lexes_new_line(2) [OF lexes_commas [OF this]]] lex_print [OF JObj.prems] show ?case
    by (cases "ms = []") simp_all
next
  case JNull
  then show ?case using lex_print [of "JNull"] by simp
next
  case (JBool b)
  then show ?case using lex_print [of "JBool b"] by simp
next
  case (JNum n)
  then show ?case using lex_print [of "JNum n"] by simp
next
  case (JStr s)
  then show ?case using lex_print [of "JStr s"] by simp
qed

lemma utf8_valid_new_line [simp]: "utf8_valid (new_line d)"
proof -
  have "ascii (new_line d)" by (auto simp: new_line_def ascii_def list_all_iff byte_def)
  then show ?thesis by (rule utf8_valid_ascii)
qed

lemma utf8_valid_indent: "well_formed j \<Longrightarrow> utf8_valid (json_indent d j)"
proof (induction j arbitrary: d)
  case (JArr js)
  then have "utf8_valid (join_comma (map (\<lambda>j. new_line (Suc d) @ json_indent (Suc d) j) js))"
    by (intro utf8_valid_join_comma) (auto simp: list_all_iff intro: utf8_valid_append)
  moreover have "utf8_valid ''[]''" by code_simp
  ultimately show ?case
    by (simp only: json_indent.simps split: if_split) (intro conjI impI utf8_valid_append utf8_valid_ascii_char; simp add: byte_def)
next
  case (JObj ms)
  have sep: "utf8_valid '': ''" by code_simp
  have "utf8_valid (new_line (Suc d) @ json_quote k @ '': '' @ json_indent (Suc d) j)" if "(k, j) \<in> set ms" for k j
    using JObj that sep by (intro utf8_valid_append utf8_valid_json_quote) (auto simp: list_all_iff)
  then have "utf8_valid (join_comma (map (\<lambda>(k, j). new_line (Suc d) @ json_quote k @ '': '' @ json_indent (Suc d) j) ms))"
    by (intro utf8_valid_join_comma) (auto simp: list_all_iff)
  moreover have "utf8_valid ''{}''" by code_simp
  ultimately show ?case
    by (simp only: json_indent.simps split: if_split) (intro conjI impI utf8_valid_append utf8_valid_ascii_char; simp add: byte_def)
next
  case JNull
  then show ?case using utf8_valid_print [of "JNull"] by simp
next
  case (JBool b)
  then show ?case using utf8_valid_print [of "JBool b"] by simp
next
  case (JNum n)
  then show ?case using utf8_valid_print [of "JNum n"] by simp
next
  case (JStr s)
  then show ?case using utf8_valid_print [of "JStr s"] by simp
qed

text \<open>With the newline after the value.\<close>

lemma json_decode_indent:
  assumes "well_formed j" "nesting j \<le> 10000"
  shows "json_decode (json_indent 0 j @ [CHR 0x0A]) = Some j"
proof -
  have "lex LIdle (json_indent 0 j @ [CHR 0x0A]) = map_option (append (tokens j)) (lex LIdle [CHR 0x0A])"
    by (rule lexesD [OF lex_indent [OF assms(1)]]) (simp add: ends_value_def)
  then have "lex LIdle (json_indent 0 j @ [CHR 0x0A]) = Some (tokens j)" by (simp add: lex_end_def idle_step_def)
  moreover have "parse_tokens (PVal, []) (tokens j @ []) = parse_tokens (deliver j []) []"
    using parse_print [of j] assms(2) by (simp only: parses_def fits_def list.size add_0 max_nesting_depth_def)
  moreover have "utf8_valid (json_indent 0 j @ [CHR 0x0A])"
    by (intro utf8_valid_append utf8_valid_indent [OF assms(1)] utf8_valid_ascii_char) (simp add: byte_def)
  ultimately show ?thesis using to_valid_utf8_id [of "json_indent 0 j @ [CHR 0x0A]"] by (simp add: json_decode_def)
qed

section \<open>The suite as JSON\<close>

text \<open>
  \<open>flt\<close> is the encoding of a \<^verbatim>\<open>float64\<close>, which fails on infinities and NaN; durations are numbers of nanoseconds.
  A run has no struct tags, so its members have the names of the fields.
\<close>

definition marshal_latency :: "latencySummary \<Rightarrow> json option" where
  "marshal_latency l = json_obj
     [(''count'', num (ls_Count l)), (''min'', num (ls_Min l)), (''avg'', num (ls_Avg l)), (''p50'', num (ls_P50 l)),
      (''p95'', num (ls_P95 l)), (''p99'', num (ls_P99 l)), (''max'', num (ls_Max l))]"

definition marshal_numbers :: "('f \<Rightarrow> json option) \<Rightarrow> 'f numberSummary \<Rightarrow> json option" where
  "marshal_numbers flt l = json_obj
     [(''count'', num (ns_Count l)), (''min'', num (ns_Min l)), (''avg'', flt (ns_Avg l)), (''p50'', num (ns_P50 l)),
      (''p95'', num (ns_P95 l)), (''p99'', num (ns_P99 l)), (''max'', num (ns_Max l))]"

definition marshal_floats :: "('f \<Rightarrow> json option) \<Rightarrow> 'f floatSummary \<Rightarrow> json option" where
  "marshal_floats flt l = json_obj
     [(''count'', num (fs_Count l)), (''min'', flt (fs_Min l)), (''avg'', flt (fs_Avg l)), (''p50'', flt (fs_P50 l)),
      (''p95'', flt (fs_P95 l)), (''p99'', flt (fs_P99 l)), (''max'', flt (fs_Max l))]"

definition marshal_run :: "executionRun \<Rightarrow> json option" where
  "marshal_run r = json_obj
     [(''ExecutionID'', str (er_ExecutionID r)), (''FinalStatus'', str (er_FinalStatus r)),
      (''ObservedLatency'', num (er_ObservedLatency r)), (''ReportedLatency'', num (er_ReportedLatency r)),
      (''AttemptsObserved'', num (er_AttemptsObserved r)), (''TerminalTaskCount'', num (er_TerminalTaskCount r))]"

definition marshal_result :: "('f \<Rightarrow> json option) \<Rightarrow> 'f benchmarkResult \<Rightarrow> json option" where
  "marshal_result flt r = json_obj
     ([(''scenario'', str (br_Scenario r)), (''workflow_definition_id'', str (br_WorkflowDefinitionID r)),
       (''executions'', num (br_Executions r)), (''concurrency'', num (br_Concurrency r)),
       (''overall_elapsed'', num (br_OverallElapsed r)), (''throughput_per_second'', flt (br_ThroughputPerSecond r)),
       (''succeeded'', num (br_Succeeded r)), (''failed'', num (br_Failed r)),
       (''observed_latency'', marshal_latency (br_ObservedLatency r)), (''reported_latency'', marshal_latency (br_ReportedLatency r)),
       (''attempts_per_execution'', marshal_numbers flt (br_AttemptsPerExecution r))] @
      (if br_Runs r = [] then [] else [(''runs'', map_option JArr (json_arr (map marshal_run (br_Runs r))))]))"

definition marshal_aggregate :: "('f \<Rightarrow> json option) \<Rightarrow> 'f suiteAggregate \<Rightarrow> json option" where
  "marshal_aggregate flt a = json_obj
     [(''repeat_count'', num (sa_RepeatCount a)), (''succeeded_runs'', num (sa_SucceededRuns a)),
      (''failed_runs'', num (sa_FailedRuns a)), (''throughput_per_second'', marshal_floats flt (sa_Throughput a)),
      (''overall_elapsed'', marshal_latency (sa_OverallElapsed a)),
      (''reported_latency_p95'', marshal_latency (sa_ReportedLatencyP95 a)),
      (''reported_latency_avg'', marshal_latency (sa_ReportedLatencyAvg a)),
      (''observed_latency_p95'', marshal_latency (sa_ObservedLatencyP95 a))]"

definition marshal_suite :: "('f \<Rightarrow> json option) \<Rightarrow> (go_time \<Rightarrow> string) \<Rightarrow> 'f benchmarkSuiteResult \<Rightarrow> json option" where
  "marshal_suite flt fmt s = json_obj
     (omit_str ''label'' (su_Label s) @
      [(''captured_at'', str (fmt (su_CapturedAt s))), (''scenario'', str (su_Scenario s)),
       (''executions'', num (su_Executions s)), (''concurrency'', num (su_Concurrency s)), (''repeat'', num (su_Repeat s)),
       (''poll_interval'', num (su_PollInterval s)), (''timeout'', num (su_Timeout s)),
       (''max_attempts'', num (su_MaxAttempts s)), (''backoff_seconds'', num (su_Backoff s)),
       (''chain_length'', num (su_ChainLength s)), (''api_base_url'', str (su_APIBaseURL s)),
       (''go_version'', str (su_GoVersion s))] @
      omit_str ''hostname'' (su_Hostname s) @
      [(''results'', map_option JArr (json_arr (map (marshal_result flt) (su_Results s)))),
       (''aggregate'', marshal_aggregate flt (su_Aggregate s))])"

lemma output_keys: "list_all utf8_valid
  [''count'', ''min'', ''avg'', ''p50'', ''p95'', ''p99'', ''max'', ''ExecutionID'', ''FinalStatus'', ''ObservedLatency'',
   ''ReportedLatency'', ''AttemptsObserved'', ''TerminalTaskCount'', ''scenario'', ''workflow_definition_id'', ''executions'',
   ''concurrency'', ''overall_elapsed'', ''throughput_per_second'', ''succeeded'', ''failed'', ''observed_latency'',
   ''reported_latency'', ''attempts_per_execution'', ''runs'', ''repeat_count'', ''succeeded_runs'', ''failed_runs'',
   ''reported_latency_p95'', ''reported_latency_avg'', ''observed_latency_p95'', ''label'', ''captured_at'', ''repeat'',
   ''poll_interval'', ''timeout'', ''max_attempts'', ''backoff_seconds'', ''chain_length'', ''api_base_url'', ''go_version'',
   ''hostname'', ''results'', ''aggregate'']"
proof -
  have "list_all ascii
  [''count'', ''min'', ''avg'', ''p50'', ''p95'', ''p99'', ''max'', ''ExecutionID'', ''FinalStatus'', ''ObservedLatency'',
   ''ReportedLatency'', ''AttemptsObserved'', ''TerminalTaskCount'', ''scenario'', ''workflow_definition_id'', ''executions'',
   ''concurrency'', ''overall_elapsed'', ''throughput_per_second'', ''succeeded'', ''failed'', ''observed_latency'',
   ''reported_latency'', ''attempts_per_execution'', ''runs'', ''repeat_count'', ''succeeded_runs'', ''failed_runs'',
   ''reported_latency_p95'', ''reported_latency_avg'', ''observed_latency_p95'', ''label'', ''captured_at'', ''repeat'',
   ''poll_interval'', ''timeout'', ''max_attempts'', ''backoff_seconds'', ''chain_length'', ''api_base_url'', ''go_version'',
   ''hostname'', ''results'', ''aggregate'']" by (simp add: byte_def)
  then show ?thesis by (rule list.pred_mono_strong) (rule utf8_valid_ascii)
qed

lemmas output_key [simp] = output_keys [unfolded list.pred_inject, simplified]

text \<open>A \<^verbatim>\<open>float64\<close> that is a number is encoded as one.\<close>

definition finite_floats :: "('f \<Rightarrow> json option) \<Rightarrow> bool" where
  "finite_floats flt \<longleftrightarrow> (\<forall>x. encodes 0 (flt x))"

lemma float_encodes: "finite_floats flt \<Longrightarrow> encodes n (flt x)"
  unfolding finite_floats_def using encodes_mono [of 0 "flt x" n] by simp

lemma summaries_encode:
  assumes "finite_floats flt"
  shows "encodes (Suc n) (marshal_latency l)" "encodes (Suc n) (marshal_numbers flt ns)" "encodes (Suc n) (marshal_floats flt fs)"
    "encodes (Suc n) (marshal_run r)"
  unfolding marshal_latency_def marshal_numbers_def marshal_floats_def marshal_run_def
  by (rule encodes_obj; simp add: float_encodes [OF assms])+

lemma result_encodes:
  assumes "finite_floats flt"
  shows "encodes (Suc (Suc (Suc n))) (marshal_result flt r)"
proof -
  have "encodes (Suc (Suc n)) (map_option JArr (json_arr (map marshal_run (br_Runs r))))"
    by (rule encodes_arr) (simp add: list_all_iff summaries_encode(4) [OF assms])
  then show ?thesis
    unfolding marshal_result_def by (intro encodes_obj) (simp add: summaries_encode [OF assms] float_encodes [OF assms])
qed

lemma suite_encodes:
  assumes "finite_floats flt"
  shows "encodes 10000 (marshal_suite flt fmt s)"
proof -
  have "encodes 9999 (map_option JArr (json_arr (map (marshal_result flt) (su_Results s))))"
    using encodes_arr [of 9998 "map (marshal_result flt) (su_Results s)"] result_encodes [OF assms, of 9995] by (simp add: list_all_iff)
  moreover have "encodes 9999 (marshal_aggregate flt (su_Aggregate s))"
    unfolding marshal_aggregate_def using summaries_encode [OF assms, of 9997]
    by (intro encodes_obj [of 9998, simplified]) simp
  moreover have "list_all (\<lambda>(k, jo). utf8_valid k \<and> encodes 9999 jo) (omit_str k x)" if "utf8_valid k" for k x
    using that by (simp add: omit_str_def)
  ultimately show ?thesis
    unfolding marshal_suite_def by (intro encodes_obj [of 9999, simplified]) simp
qed

section \<open>The output of the program\<close>

text \<open>The file system: what is in the files, and which calls fail.\<close>

record disk =
  dk_MkdirAll :: "string \<Rightarrow> go_error option"
  dk_Create :: "string \<Rightarrow> go_error option"
  dk_Write :: "string \<Rightarrow> go_error option"

definition encoded :: "json option \<Rightarrow> go_error + string" where
  "encoded jo = (case jo of None \<Rightarrow> Inl (TextError ''json: unsupported value'') | Some j \<Rightarrow> Inr (json_indent 0 j @ [CHR 0x0A]))"

text \<open>The directory is that of the path; a file that was created stays when the encoding or the writing fails.\<close>

definition writeJSONFile :: "disk \<Rightarrow> string \<Rightarrow> json option \<Rightarrow> (string \<rightharpoonup> string) \<Rightarrow> go_error option \<times> (string \<rightharpoonup> string)" where
  "writeJSONFile dk path value files =
     (case dk_MkdirAll dk path of
        Some e \<Rightarrow> (Some e, files)
      | None \<Rightarrow>
          (case dk_Create dk path of
             Some e \<Rightarrow> (Some e, files)
           | None \<Rightarrow>
               (case encoded value of
                  Inl e \<Rightarrow> (Some e, files(path \<mapsto> []))
                | Inr out \<Rightarrow>
                    (case dk_Write dk path of
                       Some e \<Rightarrow> (Some e, files(path \<mapsto> []))
                     | None \<Rightarrow> (None, files(path \<mapsto> out))))))"

text \<open>\<open>dur\<close> is \<^verbatim>\<open>Duration.String\<close>, \<open>f2\<close> the verb \<^verbatim>\<open>%.2f\<close>.\<close>

definition line :: "string list \<Rightarrow> string" where
  "line parts = concat parts @ [CHR 0x0A]"

definition print_result :: "(go_duration \<Rightarrow> string) \<Rightarrow> ('f \<Rightarrow> string) \<Rightarrow> nat \<times> 'f benchmarkResult \<Rightarrow> string" where
  "print_result dur f2 ir = (case ir of (i, result) \<Rightarrow> concat
     [line [''Run '', Itoa (int i + 1)],
      line [''  Workflow definition: '', br_WorkflowDefinitionID result],
      line [''  Succeeded: '', Itoa (br_Succeeded result)],
      line [''  Failed: '', Itoa (br_Failed result)],
      line [''  Overall elapsed: '', dur (br_OverallElapsed result)],
      line [''  Throughput: '', f2 (br_ThroughputPerSecond result), '' executions/sec''],
      line [''  Reported latency p95: '', dur (ls_P95 (br_ReportedLatency result))],
      line [''  Attempts/execution avg: '', f2 (ns_Avg (br_AttemptsPerExecution result))],
      line []])"

definition printSuiteSummary :: "(go_duration \<Rightarrow> string) \<Rightarrow> ('f \<Rightarrow> string) \<Rightarrow> 'f benchmarkSuiteResult \<Rightarrow> string" where
  "printSuiteSummary dur f2 suite =
     (let a = su_Aggregate suite in concat
       ([line [''Scenario: '', su_Scenario suite],
         line [''Executions per run: '', Itoa (su_Executions suite)],
         line [''Concurrency: '', Itoa (su_Concurrency suite)],
         line [''Repeat: '', Itoa (su_Repeat suite)]] @
        (if su_Label suite \<noteq> [] then [line [''Label: '', su_Label suite]] else []) @
        [line []] @
        map (print_result dur f2) (zip [0..<length (su_Results suite)] (su_Results suite)) @
        [line [''Aggregate''],
         line [''  Successful runs: '', Itoa (sa_SucceededRuns a)],
         line [''  Failed runs: '', Itoa (sa_FailedRuns a)],
         line [''  Throughput avg: '', f2 (fs_Avg (sa_Throughput a)), '' exec/s (min '', f2 (fs_Min (sa_Throughput a)),
           '', p95 '', f2 (fs_P95 (sa_Throughput a)), '', max '', f2 (fs_Max (sa_Throughput a)), '')''],
         line [''  Reported latency p95 avg: '', dur (ls_Avg (sa_ReportedLatencyP95 a)), '' (min '',
           dur (ls_Min (sa_ReportedLatencyP95 a)), '', max '', dur (ls_Max (sa_ReportedLatencyP95 a)), '')''],
         line [''  Overall elapsed avg: '', dur (ls_Avg (sa_OverallElapsed a))]]))"

text \<open>Two more printers that the program does not call.\<close>

definition printLatencySummary :: "(go_duration \<Rightarrow> string) \<Rightarrow> latencySummary \<Rightarrow> string" where
  "printLatencySummary dur summary = concat
     [line [''  count: '', Itoa (ls_Count summary)], line [''  min:   '', dur (ls_Min summary)],
      line [''  avg:   '', dur (ls_Avg summary)], line [''  p50:   '', dur (ls_P50 summary)],
      line [''  p95:   '', dur (ls_P95 summary)], line [''  p99:   '', dur (ls_P99 summary)],
      line [''  max:   '', dur (ls_Max summary)]]"

definition printNumberSummary :: "('f \<Rightarrow> string) \<Rightarrow> 'f numberSummary \<Rightarrow> string" where
  "printNumberSummary f2 summary = concat
     [line [''  count: '', Itoa (ns_Count summary)], line [''  min:   '', Itoa (ns_Min summary)],
      line [''  avg:   '', f2 (ns_Avg summary)], line [''  p50:   '', Itoa (ns_P50 summary)],
      line [''  p95:   '', Itoa (ns_P95 summary)], line [''  p99:   '', Itoa (ns_P99 summary)],
      line [''  max:   '', Itoa (ns_Max summary)]]"

record 'f printing =
  pr_float :: "'f \<Rightarrow> json option"
  pr_time :: "go_time \<Rightarrow> string"
  pr_duration :: "go_duration \<Rightarrow> string"
  pr_decimals :: "'f \<Rightarrow> string"

text \<open>What \<^verbatim>\<open>exitf\<close> writes to the standard error before it ends the program with status 1.\<close>

fun exitf :: "(go_error \<Rightarrow> string) \<Rightarrow> bench_exit \<Rightarrow> string" where
  "exitf err (BadFlag msg) = line [msg]"
| "exitf err (BadScenario e) = line [error_text err e]"
| "exitf err (CreateFailed e) = line [''create benchmark workflow: '', error_text err e]"
| "exitf err (RunFailed e) = line [''run benchmark: '', error_text err e]"
| "exitf err (WriteFailed e) = line [''write output file: '', error_text err e]"
| "exitf err (EncodeFailed e) = line [''encode result: '', error_text err e]"

text \<open>The rest of \<^verbatim>\<open>main\<close>: the reason of the exit if there is one, and what was printed.\<close>

definition bench_output ::
  "disk \<Rightarrow> 'f printing \<Rightarrow> string \<Rightarrow> bool \<Rightarrow> 'f benchmarkSuiteResult \<Rightarrow> (string \<rightharpoonup> string) \<Rightarrow>
    (bench_exit option \<times> string) \<times> (string \<rightharpoonup> string)"
where
  "bench_output dk pr outputFile jsonOutput suite files =
     (let value = marshal_suite (pr_float pr) (pr_time pr) suite in
      case (if outputFile \<noteq> [] then writeJSONFile dk outputFile value files else (None, files)) of
        (Some e, files') \<Rightarrow> ((Some (WriteFailed e), []), files')
      | (None, files') \<Rightarrow>
          if jsonOutput then
            (case encoded value of
               Inl e \<Rightarrow> ((Some (EncodeFailed e), []), files')
             | Inr out \<Rightarrow> ((None, out), files'))
          else ((None, printSuiteSummary (pr_duration pr) (pr_decimals pr) suite), files'))"

text \<open>The whole program.\<close>

definition bench_program ::
  "('w, 'f::linorder) bench_machine \<Rightarrow> disk \<Rightarrow> 'f printing \<Rightarrow> flags \<Rightarrow> string \<Rightarrow> bool \<Rightarrow> (string \<rightharpoonup> string) \<Rightarrow> 'w \<Rightarrow>
    (bench_exit option \<times> string) \<times> (string \<rightharpoonup> string)"
where
  "bench_program bm dk pr fg outputFile jsonOutput files w =
     (case fst (bench_main bm fg w) of
        Inl e \<Rightarrow> ((Some e, []), files)
      | Inr suite \<Rightarrow> bench_output dk pr outputFile jsonOutput suite files)"

text \<open>
  A program that ends well has written what it should: the output file and the printed JSON decode to the
  JSON form of the suite, no other file is touched, and a program that ends with an error printed nothing.
\<close>

lemma result_file_readable:
  assumes "finite_floats (pr_float pr)" "bench_output dk pr outputFile jsonOutput suite files = ((err, out), files')"
  obtains j where "marshal_suite (pr_float pr) (pr_time pr) suite = Some j"
    "err = None \<Longrightarrow> outputFile \<noteq> [] \<Longrightarrow> \<exists>written. files' outputFile = Some written \<and> json_decode written = Some j"
    "err = None \<Longrightarrow> jsonOutput \<Longrightarrow> json_decode out = Some j"
    "\<And>f. f \<noteq> outputFile \<Longrightarrow> files' f = files f" "err \<noteq> None \<Longrightarrow> out = []"
proof -
  obtain j where j: "marshal_suite (pr_float pr) (pr_time pr) suite = Some j" "well_formed j" "nesting j \<le> 10000"
    using suite_encodes [OF assms(1)] by (auto simp: encodes_def)
  note d = json_decode_indent [OF j(2,3)]
  show thesis
    by (rule that [OF j(1)])
       (use assms(2) d j(1) in \<open>auto simp: bench_output_def Let_def writeJSONFile_def encoded_def split: option.splits if_splits\<close>)
qed

end
