(* ===== verification/RawMembers.thy ===== *)
theory RawMembers
  imports GoHttp JsonRound
begin

text \<open>
  A decoded request holds the text of each member as it was sent: the raw members of a printed
  object are its members, each printed (\<open>body_members_print\<close>).
\<close>

section \<open>Lexemes of a text\<close>

fun lex_run :: "lex_mode \<Rightarrow> string \<Rightarrow> (lex_mode \<times> json_token list) option" where
  "lex_run m [] = Some (m, [])"
| "lex_run m (c # cs) =
     (case lex_step m c of
        None \<Rightarrow> None
      | Some (m1, ts) \<Rightarrow> map_option (\<lambda>(m', us). (m', ts @ us)) (lex_run m1 cs))"

lemma lex_split: "lex m (x @ rest) = (case lex_run m x of None \<Rightarrow> None | Some (m', ts) \<Rightarrow> map_option (append ts) (lex m' rest))"
  by (induction x arbitrary: m) (auto simp: option.map_comp comp_def intro!: option.map_cong split: option.split prod.split)

text \<open>A step gives no token, one token that the byte completes, or a number and at most one token.\<close>

lemma idle_step_tokens: "idle_step c = Some (m, ts) \<Longrightarrow> ts = [] \<or> (\<exists>t. ts = [t] \<and> (\<forall>n. t \<noteq> TNum n) \<and> m = LIdle)"
  by (auto simp: idle_step_def split: if_splits)

lemma idle_step_silent: "idle_step c = Some (LIdle, []) \<longleftrightarrow> json_space c"
  by (auto simp: idle_step_def json_space_def split: if_splits)

definition literal_modes :: "lex_mode \<Rightarrow> bool" where
  "literal_modes m \<longleftrightarrow> (case m of LLit rest t \<Rightarrow> t \<in> {TTrue, TFalse, TNull} | _ \<Rightarrow> True)"

lemma literal_step: "lex_step m c = Some (m', ts) \<Longrightarrow> literal_modes m \<Longrightarrow> literal_modes m'"
  by (cases m) (auto simp: literal_modes_def idle_step_def code_unit_def split: if_splits option.splits list.splits)

lemma step_tokens:
  assumes "lex_step m c = Some (m', ts)" "literal_modes m"
  shows "(\<exists>st acc us. m = LNum st acc \<and> num_final st \<and> ts = TNum acc # us \<and> idle_step c = Some (m', us)) \<or>
    ts = [] \<or> (\<exists>t. ts = [t] \<and> (\<forall>n. t \<noteq> TNum n) \<and> m' = LIdle)"
proof (cases m)
  case LIdle
  with assms(1) idle_step_tokens [of c m' ts] show ?thesis by auto
next
  case (LNum st acc)
  with assms(1) show ?thesis by (auto split: option.splits if_splits)
next
  case (LLit rest t)
  with assms show ?thesis by (auto simp: literal_modes_def split: list.splits if_splits)
next
  case (LHex k v acc hi)
  with assms(1) show ?thesis by (auto split: option.splits if_splits)
next
  case (LEsc acc hi)
  with assms(1) show ?thesis by (auto split: option.splits if_splits)
next
  case (LStr acc hi)
  with assms(1) show ?thesis by (auto split: if_splits)
qed

text \<open>
  The lexemes of a text that is run through: their texts and what is left over are the text; after a
  complete token the rest is space.
\<close>

lemma lexemes_run:
  assumes "lex_run m x = Some (m', ts)" "literal_modes m" "m = LIdle \<Longrightarrow> list_all json_space acc"
  shows "\<exists>ls acc'. lexemes acc m (x @ rest) = ls @ lexemes acc' m' rest \<and> map fst ls = ts \<and>
    concat (map snd ls) @ acc' = acc @ x \<and> (m' = LIdle \<longrightarrow> list_all json_space acc')"
  using assms
proof (induction x arbitrary: m acc ts)
  case Nil
  then show ?case by (intro exI [of _ "[]"] exI [of _ acc]) auto
next
  case (Cons c cs)
  note IH = Cons.IH
  obtain m1 us vs where s: "lex_step m c = Some (m1, us)" "lex_run m1 cs = Some (m', vs)" "ts = us @ vs"
    using Cons.prems(1) by (auto split: option.splits)
  have lm: "literal_modes m1" by (rule literal_step [OF s(1) Cons.prems(2)])
  have spaces: "list_all json_space [c]" if "idle_step c = Some (LIdle, [])" using that by (simp add: idle_step_silent)
  from step_tokens [OF s(1) Cons.prems(2)] show ?case
  proof (elim disjE exE conjE)
    fix st nacc ws assume n: "m = LNum st nacc" "num_final st" "us = TNum nacc # ws" "idle_step c = Some (m1, ws)"
    show ?thesis
    proof (cases ws)
      case Nil
      then obtain ls acc' where "lexemes [c] m1 (cs @ rest) = ls @ lexemes acc' m' rest" "map fst ls = vs"
          "concat (map snd ls) @ acc' = [c] @ cs" "m' = LIdle \<longrightarrow> list_all json_space acc'"
        using Cons.IH [OF s(2) lm, of "[c]"] spaces n(4) by auto
      with Nil s n show ?thesis by (intro exI [of _ "(TNum nacc, acc) # ls"] exI [of _ acc']) simp
    next
      case (Cons t more)
      then have t: "ws = [t]" using idle_step_tokens [OF n(4)] by auto
      obtain ls acc' where "lexemes [] m1 (cs @ rest) = ls @ lexemes acc' m' rest" "map fst ls = vs"
          "concat (map snd ls) @ acc' = cs" "m' = LIdle \<longrightarrow> list_all json_space acc'"
        using IH [OF s(2) lm, of "[]"] by auto
      with t s n show ?thesis by (intro exI [of _ "(TNum nacc, acc) # (t, [c]) # ls"] exI [of _ acc']) simp
    qed
  next
    assume us: "us = []"
    have "list_all json_space (acc @ [c])" if "m1 = LIdle"
    proof -
      from that us s(1) have "m = LIdle"
        by (cases m) (auto simp: code_unit_def idle_step_def split: if_splits option.splits list.splits)
      with that us s(1) Cons.prems(3) show ?thesis by (simp add: idle_step_silent)
    qed
    with Cons.IH [OF s(2) lm, of "acc @ [c]"] us s show ?thesis by auto
  next
    fix t assume t: "us = [t]" "\<forall>n. t \<noteq> TNum n" "m1 = LIdle"
    obtain ls acc' where "lexemes [] m1 (cs @ rest) = ls @ lexemes acc' m' rest" "map fst ls = vs"
        "concat (map snd ls) @ acc' = cs" "m' = LIdle \<longrightarrow> list_all json_space acc'"
      using Cons.IH [OF s(2) lm, of "[]"] by auto
    with t s show ?thesis by (intro exI [of _ "(t, acc @ [c]) # ls"] exI [of _ acc']) (cases t; simp)
  qed
qed

section \<open>Lexemes of a value\<close>

text \<open>The first and the last byte of a printed value are not space.\<close>

lemma num_step_visible: "num_step st c = Some st' \<Longrightarrow> \<not> json_space c"
  by (cases st) (auto simp: num_step_def is_digit_def byte_in_def byte_def json_space_def split: if_splits)

lemma num_run_visible: "num_run st cs = Some st' \<Longrightarrow> c \<in> set cs \<Longrightarrow> \<not> json_space c"
  by (induction cs arbitrary: st) (auto split: option.splits dest: num_step_visible)

lemma number_visible: "number n \<Longrightarrow> n \<noteq> [] \<and> \<not> json_space (hd n) \<and> \<not> json_space (last n)"
proof -
  assume "number n"
  then obtain c cs st0 st where n: "n = c # cs" "idle_step c = Some (LNum st0 [c], [])" "num_run st0 cs = Some st"
    by (auto simp: number_def)
  have "\<not> json_space c" using n(2) idle_step_silent [of c] by auto
  with n num_run_visible [OF n(3)] show ?thesis by (cases cs rule: rev_cases) auto
qed

lemma print_visible: "well_formed j \<Longrightarrow> json_print j \<noteq> [] \<and> \<not> json_space (hd (json_print j)) \<and> \<not> json_space (last (json_print j))"
  using number_visible by (cases j) (auto simp: json_quote_def json_space_def)

lemma space_suffix: "list_all json_space acc' \<Longrightarrow> y @ acc' = x \<Longrightarrow> x \<noteq> [] \<Longrightarrow> \<not> json_space (last x) \<Longrightarrow> acc' = []"
  by (cases acc' rule: rev_cases) auto

lemma literal_idle [simp]: "literal_modes LIdle"
  by (simp add: literal_modes_def)

lemma literal_run: "lex_run m x = Some (m', ts) \<Longrightarrow> literal_modes m \<Longrightarrow> literal_modes m'"
  by (induction x arbitrary: m ts) (auto split: option.splits dest: literal_step)

text \<open>A text whose tokens are complete at its end, and a value before an end of a value.\<close>

lemma lexemes_complete:
  assumes "lex LIdle x = Some ts" "x \<noteq> []" "\<not> json_space (last x)" "\<forall>n. last ts \<noteq> TNum n"
  obtains ls where "lexemes [] LIdle (x @ rest) = ls @ lexemes [] LIdle rest" "map fst ls = ts" "concat (map snd ls) = x"
proof -
  have "lex LIdle (x @ []) = Some ts" using assms(1) by simp
  then obtain m' us vs where run: "lex_run LIdle x = Some (m', us)" "lex_end m' = Some vs" "ts = us @ vs"
    by (subst (asm) lex_split) (auto split: option.splits)
  have "m' = LIdle \<and> vs = [] \<or> (\<exists>n. vs = [TNum n])"
    using run(2) by (auto simp: lex_end_def split: lex_mode.splits if_splits)
  then have m': "m' = LIdle" "us = ts" using run(3) assms(4) by auto
  obtain ls acc' where l: "lexemes [] LIdle (x @ rest) = ls @ lexemes acc' LIdle rest" "map fst ls = ts"
      "concat (map snd ls) @ acc' = x" "list_all json_space acc'"
    using lexemes_run [OF run(1), of "[]" rest] m' by auto
  moreover have "acc' = []" by (rule space_suffix [OF l(4,3) assms(2,3)])
  ultimately show thesis by (intro that) simp_all
qed

lemma lexemes_number_end:
  assumes "ends_value rest" "num_final st"
  shows "lexemes acc (LNum st n) rest = (TNum n, acc) # lexemes [] LIdle rest"
proof (cases rest)
  case Nil
  with assms(2) show ?thesis by (simp add: lex_end_def)
next
  case (Cons c r)
  then have c: "c \<in> {CHR 0x2C, CHR 0x5D, CHR 0x7D, CHR 0x0A}" using assms(1) by (simp add: ends_value_def)
  then obtain us where "idle_step c = Some (LIdle, us)" by (auto simp: idle_step_def)
  moreover from idle_step_tokens [OF this] have "us = [] \<or> (\<exists>t. us = [t] \<and> (\<forall>n. t \<noteq> TNum n))" by auto
  ultimately show ?thesis using Cons assms(2) num_step_delimiter [OF c, of st] by (auto split: json_token.splits)
qed

lemma lexemes_value:
  assumes "lexes x ts" "x \<noteq> []" "\<not> json_space (last x)" "ends_value rest"
  obtains ls where "lexemes [] LIdle (x @ rest) = ls @ lexemes [] LIdle rest" "map fst ls = ts" "concat (map snd ls) = x"
proof -
  have "lex LIdle (x @ [CHR 0x2C]) = Some (ts @ [TComma])"
    using lexesD [OF assms(1), of "[CHR 0x2C]"] by (simp add: ends_value_def idle_step_def lex_end_def)
  then obtain m' us vs where run: "lex_run LIdle x = Some (m', us)" "lex m' [CHR 0x2C] = Some vs" "ts @ [TComma] = us @ vs"
    by (subst (asm) lex_split) (auto split: option.splits)
  have ends: "m' = LIdle \<and> us = ts \<or> (\<exists>st n. m' = LNum st n \<and> num_final st \<and> ts = us @ [TNum n])"
    using run(2,3) num_step_delimiter [of "CHR 0x2C"] literal_run [OF run(1)]
    by (cases m') (auto simp: literal_modes_def idle_step_def lex_end_def esc_char_def hex_val_def byte_def split: if_splits list.splits)
  obtain ls acc' where l: "lexemes [] LIdle (x @ rest) = ls @ lexemes acc' m' rest" "map fst ls = us"
      "concat (map snd ls) @ acc' = x" "m' = LIdle \<longrightarrow> list_all json_space acc'"
    using lexemes_run [OF run(1), of "[]" rest] by auto
  from ends show thesis
  proof (elim disjE exE conjE)
    assume "m' = LIdle" "us = ts"
    with l space_suffix [OF _ l(3) assms(2,3)] show thesis by (intro that [of ls]) auto
  next
    fix st n assume "m' = LNum st n" "num_final st" "ts = us @ [TNum n]"
    with l lexemes_number_end [OF assms(4)] show thesis by (intro that [of "ls @ [(TNum n, acc')]"]) simp_all
  qed
qed

section \<open>The text of a value\<close>

text \<open>Tokens that inside a container are passed over.\<close>

definition passes :: "json_token list \<Rightarrow> bool" where
  "passes ts \<longleftrightarrow> (\<forall>ls d acc us. map fst ls = ts \<longrightarrow>
     raw_value (Suc d) acc (ls @ us) = raw_value (Suc d) (acc @ concat (map snd ls)) us)"

lemma passes_append: "passes ts \<Longrightarrow> passes us \<Longrightarrow> passes (ts @ us)"
  unfolding passes_def
proof (intro allI impI)
  fix ls :: "(json_token \<times> string) list" and d acc vs
  assume a: "\<forall>ls d acc us. map fst ls = ts \<longrightarrow> raw_value (Suc d) acc (ls @ us) = raw_value (Suc d) (acc @ concat (map snd ls)) us"
    and b: "\<forall>ls d acc vs. map fst ls = us \<longrightarrow> raw_value (Suc d) acc (ls @ vs) = raw_value (Suc d) (acc @ concat (map snd ls)) vs"
    and "map fst ls = ts @ us"
  then obtain as bs where "ls = as @ bs" "map fst as = ts" "map fst bs = us" by (auto simp: map_eq_append_conv)
  with a b show "raw_value (Suc d) acc (ls @ vs) = raw_value (Suc d) (acc @ concat (map snd ls)) vs" by simp
qed

lemma passes_one: "t \<notin> {TBeginObj, TBeginArr, TEndObj, TEndArr} \<Longrightarrow> passes [t]"
  by (auto simp: passes_def map_eq_Cons_conv)

lemma passes_commas: "list_all passes tss \<Longrightarrow> passes (with_commas tss)"
proof (induction tss rule: with_commas.induct)
  case (3 x y xs)
  then have "passes ([TComma] @ with_commas (y # xs))" by (intro passes_append passes_one) simp_all
  with 3 show ?case using passes_append [of x] by simp
qed (simp_all add: passes_def)

lemma passes_bracket:
  assumes "passes ts"
  shows "passes (TBeginArr # ts @ [TEndArr])" "passes (TBeginObj # ts @ [TEndObj])"
  using assms by (auto simp: passes_def map_eq_Cons_conv map_eq_append_conv)

lemma passes_value: "passes (tokens j)"
proof (induction j)
  case (JArr js)
  then have "passes (with_commas (map tokens js))" by (intro passes_commas) (simp add: list_all_iff)
  from passes_bracket(1) [OF this] show ?case by simp
next
  case (JObj ms)
  have "passes ([TStr k, TColon] @ tokens j)" if "(k, j) \<in> set ms" for k j
    using JObj that passes_append [OF passes_one passes_one, of "TStr k" TColon] by (intro passes_append) auto
  then have "passes (with_commas (map (\<lambda>(k, j). TStr k # TColon # tokens j) ms))" by (intro passes_commas) (auto simp: list_all_iff)
  from passes_bracket(2) [OF this] show ?case by simp
qed (auto intro: passes_one)

lemma raw_value_print:
  assumes "map fst ls = tokens j"
  shows "raw_value 0 [] (ls @ us) = (concat (map snd ls), us)"
proof -
  have bracket: "raw_value 0 [] (ls @ us) = (concat (map snd ls), us)"
    if "map fst ls = b # with_commas tss @ [e]" "b \<in> {TBeginArr, TBeginObj}" "e \<in> {TEndArr, TEndObj}" "list_all passes tss" for b e tss
  proof -
    obtain x mid y where ls: "ls = (b, x) # mid @ [(e, y)]" "map fst mid = with_commas tss"
    proof -
      obtain l rest where l: "ls = l # rest" "fst l = b" "map fst rest = with_commas tss @ [e]"
        using \<open>map fst ls = b # with_commas tss @ [e]\<close> by (cases ls) simp_all
      obtain mid l' where "rest = mid @ [l']" "map fst mid = with_commas tss" "fst l' = e"
        using l(3) by (cases rest rule: rev_cases) simp_all
      with l have "ls = (b, snd l) # mid @ [(e, snd l')]" by auto
      with \<open>map fst mid = with_commas tss\<close> show thesis by (rule that [rotated])
    qed
    have "raw_value (Suc 0) x (mid @ (e, y) # us) = raw_value (Suc 0) (x @ concat (map snd mid)) ((e, y) # us)"
      using passes_commas [OF that(4)] ls(2) unfolding passes_def by blast
    with ls(1) that(2,3) show ?thesis by auto
  qed
  show ?thesis
  proof (cases j)
    case (JArr js)
    show ?thesis by (rule bracket [of TBeginArr "map tokens js" TEndArr]) (use assms JArr passes_value in \<open>auto simp: list_all_iff\<close>)
  next
    case (JObj ms)
    have "passes (TStr k # TColon # tokens j)" for k j
      using passes_append [OF passes_append [OF passes_one passes_one] passes_value, of "TStr k" TColon j] by simp
    then show ?thesis
      by (intro bracket [of TBeginObj "map (\<lambda>(k, j). TStr k # TColon # tokens j) ms" TEndObj]) (use assms JObj in \<open>auto simp: list_all_iff\<close>)
  qed (use assms in \<open>auto simp: map_eq_Cons_conv\<close>)
qed

section \<open>The raw members of an object\<close>

lemma punctuation_lexeme: "lexemes [] LIdle (CHR 0x3A # rest) = (TColon, [CHR 0x3A]) # lexemes [] LIdle rest"
  "lexemes [] LIdle (CHR 0x2C # rest) = (TComma, [CHR 0x2C]) # lexemes [] LIdle rest"
  "lexemes [] LIdle (CHR 0x7D # rest) = (TEndObj, [CHR 0x7D]) # lexemes [] LIdle rest"
  "lexemes [] LIdle (CHR 0x7B # rest) = (TBeginObj, [CHR 0x7B]) # lexemes [] LIdle rest"
  by (simp_all add: idle_step_def)

declare lexemes.simps [simp del]

lemma lexemes_quote:
  assumes "utf8_valid k"
  shows "lexemes [] LIdle (json_quote k @ rest) = (TStr k, json_quote k) # lexemes [] LIdle rest"
proof -
  have "lex LIdle (json_quote k) = Some [TStr k]" using json_quote_lex [OF assms, of "[]"] by (simp add: lex_end_def)
  then obtain ls where ls: "lexemes [] LIdle (json_quote k @ rest) = ls @ lexemes [] LIdle rest" "map fst ls = [TStr k]"
      "concat (map snd ls) = json_quote k"
    by (rule lexemes_complete [where rest = rest]) (auto simp: json_quote_def json_space_def)
  then show ?thesis by auto
qed

lemma print_no_space: "well_formed j \<Longrightarrow> dropWhile json_space (json_print j) = json_print j"
  by (cases "json_print j") (use print_visible [of j] in auto)

lemma raw_members_print:
  assumes "list_all (\<lambda>(k, j). utf8_valid k \<and> well_formed j) ms"
  shows "raw_members (lexemes [] LIdle (join_comma (map (\<lambda>(k, j). json_quote k @ [CHR 0x3A] @ json_print j) ms) @ CHR 0x7D # rest)) =
    map (\<lambda>(k, j). (k, json_print j)) ms"
  using assms
proof (induction ms)
  case Nil
  then show ?case by (simp add: punctuation_lexeme raw_members.simps)
next
  case (Cons m ms)
  obtain k j where m: "m = (k, j)" by fastforce
  define more where "more = (if ms = [] then [] else
     CHR 0x2C # join_comma (map (\<lambda>(k, j). json_quote k @ [CHR 0x3A] @ json_print j) ms)) @ CHR 0x7D # rest"
  have ok: "utf8_valid k" "well_formed j" using Cons.prems m by simp_all
  have "ends_value more" by (simp add: more_def ends_value_def)
  then obtain ls where ls: "lexemes [] LIdle (json_print j @ more) = ls @ lexemes [] LIdle more" "map fst ls = tokens j"
      "concat (map snd ls) = json_print j"
    using lexemes_value [OF lex_print] print_visible [OF ok(2)] ok(2) by metis
  have whole: "join_comma (map (\<lambda>(k, j). json_quote k @ [CHR 0x3A] @ json_print j) (m # ms)) @ CHR 0x7D # rest =
      json_quote k @ CHR 0x3A # json_print j @ more"
    by (cases ms) (simp_all add: m more_def)
  have "raw_members (lexemes [] LIdle (json_quote k @ CHR 0x3A # json_print j @ more)) =
     (k, json_print j) # (case lexemes [] LIdle more of (TComma, _) # vs \<Rightarrow> raw_members vs | _ \<Rightarrow> [])"
    using raw_value_print [OF ls(2), of "lexemes [] LIdle more"] ls(3) print_no_space [OF ok(2)] to_valid_utf8_id [OF ok(1)]
    by (subst raw_members.simps) (simp only: lexemes_quote [OF ok(1)] punctuation_lexeme ls(1); simp)
  also have "(case lexemes [] LIdle more of (TComma, _) # vs \<Rightarrow> raw_members vs | _ \<Rightarrow> []) = map (\<lambda>(k, j). (k, json_print j)) ms"
    using Cons by (auto simp: more_def punctuation_lexeme)
  finally show ?case by (simp only: whole) (simp add: m)
qed

lemma body_members_print:
  assumes "well_formed (JObj ms)" "int (nesting (JObj ms)) \<le> max_nesting_depth"
  shows "body_members (json_print (JObj ms)) = Some (map (\<lambda>(k, j). (k, json_print j)) ms)"
proof -
  have "stream_decode (json_print (JObj ms)) = Some (JObj ms)"
    by (rule stream_decode_complete [OF json_decode_print [OF assms]])
  moreover have "raw_members (tl (lexemes [] LIdle (json_print (JObj ms)))) = map (\<lambda>(k, j). (k, json_print j)) ms"
    using raw_members_print [of ms "[]"] assms(1) by (simp add: punctuation_lexeme)
  ultimately show ?thesis by (simp add: body_members_def)
qed

end
