(* ===== verification/DriverCalls.thy ===== *)
theory DriverCalls
  imports BenchApi RawMembers
begin

text \<open>
  What the benchmark driver sends is what the service is called with: the name, the description and
  the documents of a request pass through the bodies that the driver writes and the API reads.
\<close>

section \<open>Request bodies\<close>

lemma key_plain_requests [simp]: "plain_key ''name''" "plain_key ''description''" "plain_key ''definition''"
  by (simp_all add: plain_key_def byte_in_def byte_def)

lemma raw_json_ok: "raw_json raw = Some d \<Longrightarrow> well_formed d"
  using json_decode_ok(1) by (auto simp: raw_json_def split: if_splits)

lemma decode_string_print:
  assumes "utf8_valid s"
  shows "decode_string (json_print (JStr s)) old = Some s"
  using json_decode_print [of "JStr s"] assms by (simp add: decode_string_def unmarshal_string_def max_nesting_depth_def)

lemma create_body_decoded:
  assumes "utf8_valid name" "utf8_valid description" "raw_json raw = Some d" "nesting d < 10000"
  obtains body where "create_body name description raw = Inr body"
    "decode_create body = Some \<lparr>cw_Name = name, cw_Description = description, cw_Definition = json_print d\<rparr>"
proof -
  let ?ms = "[(''name'', JStr name), (''description'', JStr description), (''definition'', d)]"
  have "body_members (json_print (JObj ?ms)) = Some (map (\<lambda>(k, j). (k, json_print j)) ?ms)"
    using assms raw_json_ok [OF assms(3)] by (intro body_members_print) (simp_all add: key_valid max_nesting_depth_def)
  then have "decode_create (json_print (JObj ?ms)) = Some \<lparr>cw_Name = name, cw_Description = description, cw_Definition = json_print d\<rparr>"
    using decode_string_print [OF assms(1)] decode_string_print [OF assms(2)]
    by (simp add: decode_create_def match_field_plain set_create_field_def)
  moreover have "create_body name description raw = Inr (json_print (JObj ?ms))"
    using assms by (simp add: create_body_def json_obj_def str_def to_valid_utf8_id json_marshal_def)
  ultimately show thesis by (rule that [rotated])
qed

lemma trigger_body_decoded:
  assumes "utf8_valid workflowID" "raw_json raw = Some d" "nesting d < 10000"
  obtains body where "trigger_body workflowID raw = Inr body"
    "decode_trigger body = Some \<lparr>te_WorkflowDefinitionID = workflowID, te_Input = json_print d\<rparr>"
proof -
  let ?ms = "[(''workflow_definition_id'', JStr workflowID), (''input'', d)]"
  have "body_members (json_print (JObj ?ms)) = Some (map (\<lambda>(k, j). (k, json_print j)) ?ms)"
    using assms raw_json_ok [OF assms(2)] by (intro body_members_print) (simp_all add: key_valid max_nesting_depth_def)
  then have "decode_trigger (json_print (JObj ?ms)) = Some \<lparr>te_WorkflowDefinitionID = workflowID, te_Input = json_print d\<rparr>"
    using decode_string_print [OF assms(1)]
    by (simp add: decode_trigger_def match_field_plain set_trigger_field_def)
  moreover have "trigger_body workflowID raw = Inr (json_print (JObj ?ms))"
    using assms by (simp add: trigger_body_def json_obj_def str_def to_valid_utf8_id json_marshal_def)
  ultimately show thesis by (rule that [rotated])
qed

section \<open>Responses\<close>

lemma key_plain_definition [simp]: "plain_key ''version''"
  by (simp add: plain_key_def byte_in_def byte_def)

lemma decode_response_printed:
  assumes "well_formed j" "nesting j \<le> 10000" "dec j = Some v"
  shows "decode_response dec (json_print j @ [CHR 0x0A]) = Inr v"
  using json_decode_print_rest [OF assms(1), of "[CHR 0x0A]"] assms(2,3)
  by (simp add: decode_response_def stream_decode_complete max_nesting_depth_def)

lemma definition_response:
  assumes "document_ok (def_DefinitionJSON item)" "utf8_valid (def_ID item)"
  shows "decode_response decode_id (body_text (JsonBody (marshal_definition fmt item))) = Inr (def_ID item)"
proof -
  have "encodes 9996 (marshal_definition fmt item)" unfolding marshal_definition_def
    by (rule encodes_obj [of 9995, simplified]) (simp add: key_valid encodes_raw assms(1))
  then obtain j where j: "marshal_definition fmt item = Some j" "well_formed j" "nesting j \<le> 9996" by (auto simp: encodes_def)
  have "decode_id j = Some (def_ID item)"
    using assms(2) by (simp add: decode_id_def read_json_obj [OF j(1) [unfolded marshal_definition_def]] match_field_plain
      unmarshal_string_def str_def to_valid_utf8_id)
  with decode_response_printed [of j] j show ?thesis by simp
qed

lemma start_response:
  assumes "document_ok (exec_InputJSON (start_Execution res))" "document_ok (exec_OutputJSON (start_Execution res))"
    "document_ok (task_InputJSON (start_Task res))" "document_ok (task_OutputJSON (start_Task res))"
    "utf8_valid (exec_ID (start_Execution res))"
  shows "decode_response decode_triggered (body_text (JsonBody (marshal_start fmt res))) = Inr (exec_ID (start_Execution res))"
proof -
  obtain jx where x: "marshal_execution fmt (start_Execution res) = Some jx" "well_formed jx" "nesting jx \<le> 9996"
    using encodes_rows(1) [OF assms(1,2)] by (auto simp: encodes_def)
  obtain jt where t: "marshal_task fmt (start_Task res) = Some jt" "well_formed jt" "nesting jt \<le> 9996"
    using encodes_rows(2) [OF assms(3,4)] by (auto simp: encodes_def)
  let ?j = "JObj [(''execution'', jx), (''task'', jt)]"
  have "unmarshal_struct [''id''] (\<lambda>f j old. unmarshal_string j old) jx [] = Some (exec_ID (start_Execution res))"
    using assms(5) by (simp add: read_json_obj [OF x(1) [unfolded marshal_execution_def]] match_field_plain
      unmarshal_string_def str_def to_valid_utf8_id)
  then have "decode_triggered ?j = Some (exec_ID (start_Execution res))"
    by (simp add: decode_triggered_def unmarshal_struct_def [of "[''execution'']"] match_field_plain)
  moreover have "marshal_start fmt res = Some ?j" using x(1) t(1) by (simp add: marshal_start_def json_obj_def)
  ultimately show ?thesis using decode_response_printed [of ?j] x t by (simp add: key_valid)
qed

section \<open>Calls over HTTP\<close>

text \<open>
  Documented behaviour of the server: a generated uuid is text that is not blank, and \<^verbatim>\<open>jsonb\<close> returns a JSON
  value for a JSON value, nested no deeper (of members with one name it keeps the last).
\<close>

definition keeps_documents :: "pgenv \<Rightarrow> bool" where
  "keeps_documents env \<longleftrightarrow>
     (\<forall>n. utf8_valid (pg_gen_random_uuid env n) \<and> TrimSpace (pg_gen_random_uuid env n) \<noteq> []) \<and>
     (\<forall>raw v t. json_decode raw = Some v \<and> pg_jsonb_in env raw = Some t \<longrightarrow>
        (\<exists>w. json_decode t = Some w \<and> nesting w \<le> nesting v))"

lemma keeps_documentsD:
  assumes "keeps_documents env"
  shows "utf8_valid (pg_gen_random_uuid env n)" "TrimSpace (pg_gen_random_uuid env n) \<noteq> []"
    "well_formed d \<Longrightarrow> nesting d \<le> 9995 \<Longrightarrow> pg_jsonb_in env (json_print d) = Some t \<Longrightarrow> document_ok t"
proof -
  show "utf8_valid (pg_gen_random_uuid env n)" "TrimSpace (pg_gen_random_uuid env n) \<noteq> []"
    using assms by (simp_all add: keeps_documents_def)
  assume d: "well_formed d" "nesting d \<le> 9995" "pg_jsonb_in env (json_print d) = Some t"
  have "json_decode (json_print d) = Some d" using json_decode_print [OF d(1)] d(2) by (simp add: max_nesting_depth_def)
  with assms d(3) obtain w where "json_decode t = Some w" "nesting w \<le> nesting d" unfolding keeps_documents_def by blast
  with d(2) show "document_ok t" by (auto simp: document_ok_def)
qed

lemma create_path_routed: "serve_mux api_mux (driver_request ''POST'' ''/api/workflows'' body) = Routed Workflows"
  and trigger_path_routed: "serve_mux api_mux (driver_request ''POST'' ''/api/executions'' body) = Routed Executions"
  by (simp_all add: driver_request_def serve_mux_def slash_redirect_def mux_find_def api_mux_def RegisterHealthRoutes_def
      Let_def clean_path_def clean_segment_def path_segments_def)

lemma created_definition:
  assumes "ServiceCreateWorkflowDefinition req env db = (Inr item, db')" "req_Definition req \<noteq> []"
  shows "def_ID item = pg_gen_random_uuid env 0" "pg_jsonb_in env (req_Definition req) = Some (def_DefinitionJSON item)"
proof -
  obtain name where "CreateWorkflowDefinition name (req_Description req) (req_Definition req) env db = (Inr item, db')"
    using assms by (auto simp: ServiceCreateWorkflowDefinition_def Let_def split: if_splits sum.splits prod.splits)
  then have "def_ID item = pg_gen_random_uuid env 0 \<and> pg_jsonb_in env (req_Definition req) = Some (def_DefinitionJSON item)"
    using assms(2)
    by (auto simp: CreateWorkflowDefinition_def pool_exec_def sql_insert_definition_def with_text_def with_jsonb_def check_def Let_def
        normalizeJSON_def commit_def scanWorkflowDefinition_def apfst_def map_prod_def
        split: option.splits if_splits sum.splits commit_outcome.splits prod.splits)
  then show "def_ID item = pg_gen_random_uuid env 0" "pg_jsonb_in env (req_Definition req) = Some (def_DefinitionJSON item)" by blast+
qed

lemma started_execution:
  assumes "TriggerExecution req env other env' db = (Inr res, db')" "uuid_canonical env'" "req_Input req \<noteq> []"
  obtains j where "pg_jsonb_in env' (req_Input req) = Some j" "exec_ID (start_Execution res) = pg_gen_random_uuid env' 1"
    "exec_InputJSON (start_Execution res) = j" "exec_OutputJSON (start_Execution res) = []"
    "task_InputJSON (start_Task res) = j" "task_OutputJSON (start_Task res) = []"
proof -
  obtain name hkey s where "create_execution_tx (req_WorkflowDefinitionID req) (req_Input req) name hkey env'
      \<lparr>tx_db = other db, tx_rt = 1\<rparr> = Inr (res, s)"
    using assms(1) by (auto simp: TriggerExecution_def CreateExecutionAndTask_def split: if_splits sum.splits prod.splits elim!: run_tx_InrE)
  with assms(2) show thesis
    by (cases rule: create_execution_effect)
       (rule that, use assms(3) in \<open>auto simp: normalizeJSON_def new_execution_def new_task_def scanWorkflowExecution_def
          scanTaskInstance_def stringValue_def\<close>)
qed

lemmas served_defs = expect_def api_client_def api_serve_def Middleware_def NewRouter_def cors_def serve_api_mux_def
  serve_route_def with_cors_def writeJSON_def bad_request_def Let_def

lemma print_nonempty: "well_formed d \<Longrightarrow> json_print d \<noteq> []"
  using print_visible by blast

lemma create_over_api:
  assumes "utf8_valid name" "utf8_valid description" "raw_json raw = Some d" "nesting d \<le> 9995" "keeps_documents (ses_env (ses n) 0)"
  shows "createWorkflow (api_client fmt parse lib service ses clock) name description raw (n, db) =
    (case ServiceCreateWorkflowDefinition \<lparr>req_Name = name, req_Description = description, req_Definition = json_print d\<rparr>
        (ses_env (ses n) 0) (ses_other (ses n) 0 db) of
       (Inr item, db') \<Rightarrow> (Inr (def_ID item), (Suc n, db'))
     | (Inl e, db') \<Rightarrow> (Inl (ErrorString (''unexpected status 400 creating workflow: '' @
         TrimSpace (body_text (JsonBody (error_json (error_text lib e)))))), (Suc n, db')))"
proof -
  let ?req = "\<lparr>req_Name = name, req_Description = description, req_Definition = json_print d\<rparr>"
  have wf: "well_formed d" by (rule raw_json_ok [OF assms(3)])
  obtain body where body: "create_body name description raw = Inr body"
    "decode_create body = Some \<lparr>cw_Name = name, cw_Description = description, cw_Definition = json_print d\<rparr>"
    using create_body_decoded [OF assms(1-3)] assms(4) by auto
  have itoa: "Itoa 400 = ''400''" by code_simp
  obtain r db' where r: "ServiceCreateWorkflowDefinition ?req (ses_env (ses n) 0) (ses_other (ses n) 0 db) = (r, db')" by fastforce
  show ?thesis
  proof (cases r)
    case (Inl e)
    with r body show ?thesis
      by (simp add: createWorkflow_def served_defs create_path_routed [unfolded driver_request_def] driver_request_def handleWorkflows_def itoa)
  next
    case (Inr item)
    note item = created_definition [OF r [unfolded Inr]]
    have "decode_response decode_id (body_text (JsonBody (marshal_definition fmt item))) = Inr (def_ID item)"
      using item print_nonempty [OF wf] keeps_documentsD [OF assms(5)] wf assms(4) by (intro definition_response) simp_all
    moreover have "TrimSpace (def_ID item) \<noteq> []"
      using item print_nonempty [OF wf] keeps_documentsD(2) [OF assms(5)] by simp
    ultimately show ?thesis using r Inr body
      by (simp add: createWorkflow_def served_defs create_path_routed [unfolded driver_request_def] driver_request_def handleWorkflows_def)
  qed
qed

lemma run_over_api:
  fixes ses :: "nat \<Rightarrow> session" and n :: nat and db :: pg
  assumes "utf8_valid workflowID" "raw_json raw = Some d" "nesting d \<le> 9995"
    and "keeps_documents (ses_env (ses n) 1)" "uuid_canonical (ses_env (ses n) 1)"
  shows "runExecution (api_client fmt parse lib service ses clock) workflowID raw replay (n, db) =
    (case TriggerExecution \<lparr>req_WorkflowDefinitionID = workflowID, req_Input = json_print d\<rparr>
        (ses_env (ses n) 0) (ses_other (ses n) 1) (ses_env (ses n) 1) (ses_other (ses n) 0 db) of
       (Inr res, db') \<Rightarrow> poll (api_client fmt parse lib service ses clock) (exec_ID (start_Execution res)) replay (Suc n, db')
     | (Inl e, db') \<Rightarrow> Some (Inl (ErrorString (if IsNotFound e
         then ''unexpected status 404 triggering execution: '' @ TrimSpace (body_text (JsonBody (error_json ''workflow definition not found'')))
         else ''unexpected status 400 triggering execution: '' @ TrimSpace (body_text (JsonBody (error_json (error_text lib e)))))),
         (Suc n, db')))"
proof -
  let ?req = "\<lparr>req_WorkflowDefinitionID = workflowID, req_Input = json_print d\<rparr>"
  have wf: "well_formed d" by (rule raw_json_ok [OF assms(2)])
  obtain body where body: "trigger_body workflowID raw = Inr body"
    "decode_trigger body = Some \<lparr>te_WorkflowDefinitionID = workflowID, te_Input = json_print d\<rparr>"
    using trigger_body_decoded [OF assms(1,2)] assms(3) by auto
  have itoa: "Itoa 400 = ''400''" "Itoa 404 = ''404''" by code_simp+
  obtain r db' where r: "TriggerExecution ?req (ses_env (ses n) 0) (ses_other (ses n) 1) (ses_env (ses n) 1) (ses_other (ses n) 0 db) = (r, db')"
    by fastforce
  note call = runExecution_def served_defs trigger_path_routed [unfolded driver_request_def] driver_request_def handleExecutions_def
  show ?thesis
  proof (cases r)
    case (Inl e)
    with r body itoa show ?thesis by (simp add: call del: One_nat_def)
  next
    case (Inr res)
    obtain j where j: "pg_jsonb_in (ses_env (ses n) 1) (json_print d) = Some j"
      "exec_ID (start_Execution res) = pg_gen_random_uuid (ses_env (ses n) 1) 1" "exec_InputJSON (start_Execution res) = j"
      "exec_OutputJSON (start_Execution res) = []" "task_InputJSON (start_Task res) = j" "task_OutputJSON (start_Task res) = []"
      using started_execution [OF r [unfolded Inr] assms(5)] print_nonempty [OF wf]
      by (metis TriggerExecutionRequest.select_convs(2))
    have "document_ok j" "document_ok []"
      using keeps_documentsD(3) [OF assms(4) wf assms(3) j(1)] by (simp_all add: document_ok_def)
    then have "decode_response decode_triggered (body_text (JsonBody (marshal_start fmt res))) = Inr (exec_ID (start_Execution res))"
      using j keeps_documentsD(1) [OF assms(4)] by (intro start_response) (simp_all del: One_nat_def)
    moreover have "TrimSpace (exec_ID (start_Execution res)) \<noteq> []"
      using j(2) keeps_documentsD(2) [OF assms(4)] by (simp del: One_nat_def)
    ultimately show ?thesis using r Inr body by (simp add: call del: One_nat_def)
  qed
qed

section \<open>Scenarios over HTTP\<close>

lemma scenario_text:
  assumes "buildScenarioSpec pr scenario ma bo n = Inr spec" "2 \<le> n"
  obtains d where "sc_Definition spec = json_print d" "raw_json (sc_Definition spec) = Some d" "nesting d \<le> 3"
proof -
  obtain entry ts where e: "sc_Definition spec = scenario_definition entry (map (entry_json ma bo) ts)" "entries_ok entry ts"
    using scenario_cases [OF assms] by blast
  let ?d = "JObj [(''entry_task'', JStr entry), (''tasks'', JArr (map (entry_json ma bo) ts))]"
  note wf = well_formed_entries [OF e(2), of ma bo]
  have text_d: "sc_Definition spec = json_print ?d" by (simp only: e(1) scenario_definition_def)
  moreover have "raw_json (sc_Definition spec) = Some ?d"
    using json_decode_print [OF wf(1)] wf(2) print_nonempty [OF wf(1)]
    by (simp only: text_d raw_json_def) (simp only: max_nesting_depth_def, simp)
  ultimately show thesis using wf(2) by (rule that)
qed

lemma scenario_description:
  assumes "buildScenarioSpec pr scenario ma bo n = Inr spec"
  shows "utf8_valid (sc_Description spec)"
proof -
  have itoa: "utf8_valid (Itoa n)" by (rule number_ascii [OF number_Itoa])
  have "utf8_valid (''Benchmark workflow for '' @ Itoa n @ ''-step chained execution latency and throughput.'')"
    by (intro utf8_valid_append itoa; rule utf8_valid_ascii; simp add: ascii_def byte_def)
  moreover have "utf8_valid ''Benchmark workflow for steady-state success latency and throughput.''"
    "utf8_valid ''Benchmark workflow for persisted retries and eventual dead-letter after invalid handler input.''"
    "utf8_valid ''Benchmark workflow for immediate terminal dead-letter behavior caused by a missing handler.''"
    "utf8_valid ''Benchmark workflow for dead-letter replay overhead through the normal dispatch path.''"
    by (rule utf8_valid_ascii, simp add: ascii_def byte_def)+
  ultimately show ?thesis using assms by (auto simp: buildScenarioSpec_def plain_scenario_def Let_def split: if_splits)
qed

text \<open>
  C31.  The definitions that the driver generates are accepted over HTTP: with flags it accepts, the
  definition of a scenario validates, every task has the attempts and the backoff of the flags, and in
  the chained scenario the definition has as many tasks as asked for, each followed by the next.  So
  creating it through the API is the store's insert of exactly that text under the trimmed name: the driver
  gets the id of the new row, or the error of the insert in a response with status 400.
\<close>

theorem scenario_deployed:
  assumes "check_flags executions concurrency ma bo n repeat = None" "ma \<le> int64_max" "bo \<le> int64_max"
    and "buildScenarioSpec pr scenario ma bo n = Inr spec"
    and "utf8_valid name" "TrimSpace name \<noteq> []" "keeps_documents (ses_env (ses k) 0)"
  shows "(\<exists>ws. ParseAndValidateWorkflowDefinition (sc_Definition spec) = Inr ws \<and>
      list_all (\<lambda>t. spec_MaxAttempts t = ma \<and> spec_BackoffSeconds t = bo) (spec_Tasks ws) \<and>
      (scenario = scenarioSuccessDeepChain \<longrightarrow> int (length (spec_Tasks ws)) = n \<and>
         FindEntryTask ws = Inr (spec_Tasks ws ! 0) \<and>
         (\<forall>i < nat n. FindNextTaskSpec ws (spec_Name (spec_Tasks ws ! i)) =
            Inr (if Suc i < nat n then Some (spec_Tasks ws ! Suc i) else None)))) \<and>
    createWorkflow (api_client fmt parse lib service ses clock) name (sc_Description spec) (sc_Definition spec) (k, db) =
      (case CreateWorkflowDefinition (TrimSpace name) (sc_Description spec) (sc_Definition spec)
          (ses_env (ses k) 0) (ses_other (ses k) 0 db) of
         (Inr item, db') \<Rightarrow> (Inr (def_ID item), (Suc k, db'))
       | (Inl e, db') \<Rightarrow> (Inl (ErrorString (''unexpected status 400 creating workflow: '' @
           TrimSpace (body_text (JsonBody (error_json (if IsUniqueViolation e then ''workflow name already exists''
             else ''create workflow definition: '' @ error_text lib e)))))), (Suc k, db')))"
    (is "?accepted \<and> ?created")
proof
  show ?accepted by (rule scenarios_accepted [OF assms(1-4)])
  then obtain ws where ws: "ParseAndValidateWorkflowDefinition (sc_Definition spec) = Inr ws" by blast
  have "2 \<le> n" using assms(1) by (auto simp: check_flags_def split: if_splits)
  then obtain d where d: "sc_Definition spec = json_print d" "raw_json (sc_Definition spec) = Some d" "nesting d \<le> 3"
    using scenario_text [OF assms(4)] by blast
  have "json_print d \<noteq> []" by (rule print_nonempty [OF raw_json_ok [OF d(2)]])
  moreover have "nesting d \<le> 9995" using d(3) by simp
  note create_over_api [where ses = ses and n = k, OF assms(5) scenario_description [OF assms(4)] d(2) this assms(7),
      of fmt parse lib service clock db]
  ultimately show ?created
    using ws assms(6) unfolding d(1) ServiceCreateWorkflowDefinition_def
    by (simp add: Let_def split: prod.split sum.split)
qed

lemma strict_keeps: "keeps_documents (strict_env k now)"
  using TrimSpace_letter [of "CHR ''u''"]
  by (auto simp: keeps_documents_def demo_jsonb_in_def byte_def utf8_valid_ascii is_space_def space_runes_def split: if_splits)

theorem scenario_deployed_witness:
  "\<exists>spec db'. buildScenarioSpec (\<lambda>_. True) scenarioSuccessDeepChain 3 1 5 = Inr spec \<and>
     createWorkflow (api_client (\<lambda>_. ''1970-01-01T00:00:00Z'') (\<lambda>_. Inr 0) (\<lambda>_. []) ''api'' strict_session (\<lambda>_. (True, 0)))
       ''bench'' (sc_Description spec) (sc_Definition spec) (7, strict_db) = (Inr ''u-------'', (8, db')) \<and>
     map wd_name (workflow_definitions db') = [''demo'', ''bench'']"
proof -
  have flags: "check_flags 25 5 3 1 5 1 = None" "(3 :: int) \<le> int64_max" "(1 :: int) \<le> int64_max"
    by (simp_all add: check_flags_def int64_max_def)
  obtain spec where s: "buildScenarioSpec (\<lambda>_. True) scenarioSuccessDeepChain 3 1 5 = Inr spec"
    by (auto simp: buildScenarioSpec_def Let_def scenarioSuccessLinear_def scenarioSuccessDeepChain_def)
  have name: "utf8_valid ''bench''" "TrimSpace ''bench'' = ''bench''" "pg_text_ok (strict_env k now) ''bench''" for k now
    by (code_simp, code_simp, simp add: strict_defs)
  have "Itoa 5 = ''5''" by code_simp
  then have "ascii (sc_Description spec)"
    using s by (auto simp: buildScenarioSpec_def Let_def plain_scenario_def scenarioSuccessLinear_def scenarioSuccessDeepChain_def byte_def)
  moreover have "sc_Definition spec \<noteq> []"
    by (rule scenario_text [OF s]) (simp_all add: print_nonempty raw_json_ok)
  ultimately have "\<exists>item db'. CreateWorkflowDefinition ''bench'' (sc_Description spec) (sc_Definition spec) (strict_env 7 50) strict_db =
      (Inr item, db') \<and> def_ID item = ''u-------'' \<and> map wd_name (workflow_definitions db') = [''demo'', ''bench'']"
    by (simp add: CreateWorkflowDefinition_def run_defs strict_defs strict_db_eq normalizeJSON_def scanWorkflowDefinition_def
        numeral_eq_Suc Let_def commit_def)
  then obtain item db' where c: "CreateWorkflowDefinition ''bench'' (sc_Description spec) (sc_Definition spec) (strict_env 7 50) strict_db =
      (Inr item, db')" "def_ID item = ''u-------''" "map wd_name (workflow_definitions db') = [''demo'', ''bench'']" by (elim exE conjE)
  have "keeps_documents (ses_env (strict_session 7) 0)" by (simp add: strict_keeps)
  from scenario_deployed [where ses = strict_session and k = 7, OF flags s name(1) _ this, THEN conjunct2] c s name(2) show ?thesis by simp
qed

text \<open>
  C30.  Running an execution over HTTP is the service's trigger: the workflow id and the input arrive as
  they were sent, and the driver either gets the reason of a refusal (404 for an unknown definition,
  otherwise 400) or polls the execution that was started.  It is started only for a stored definition that
  validates, with exactly the entry task: the new task carries its name and handler and is pending.
\<close>

theorem execution_started_over_api:
  assumes "utf8_valid workflowID" "raw_json raw = Some d" "nesting d \<le> 9995"
    and "keeps_documents (ses_env (ses n) 1)" "server U (ses_env (ses n) 1)"
    and "TriggerExecution \<lparr>req_WorkflowDefinitionID = workflowID, req_Input = json_print d\<rparr>
        (ses_env (ses n) 0) (ses_other (ses n) 1) (ses_env (ses n) 1) (ses_other (ses n) 0 db) = (r, db')"
  shows "runExecution (api_client fmt parse lib service ses clock) workflowID raw replay (n, db) =
      (case r of
         Inr res \<Rightarrow> poll (api_client fmt parse lib service ses clock) (exec_ID (start_Execution res)) replay (Suc n, db')
       | Inl e \<Rightarrow> Some (Inl (ErrorString (if IsNotFound e
           then ''unexpected status 404 triggering execution: '' @ TrimSpace (body_text (JsonBody (error_json ''workflow definition not found'')))
           else ''unexpected status 400 triggering execution: '' @ TrimSpace (body_text (JsonBody (error_json (error_text lib e)))))),
           (Suc n, db'))) \<and>
    (\<forall>res. r = Inr res \<longrightarrow> (\<exists>def spec task.
       GetWorkflowDefinition workflowID (ses_env (ses n) 0) (ses_other (ses n) 0 db) = Inr def \<and>
       ParseAndValidateWorkflowDefinition (def_DefinitionJSON def) = Inr spec \<and> FindEntryTask spec = Inr task \<and>
       task_TaskName (start_Task res) = spec_Name task \<and> task_HandlerKey (start_Task res) = spec_HandlerKey task \<and>
       task_Status (start_Task res) = TaskStatusPending \<and>
       task_WorkflowExecutionID (start_Task res) = exec_ID (start_Execution res) \<and>
       U workflowID = Some (exec_WorkflowDefinitionID (start_Execution res))))"
proof (intro conjI allI impI)
  have "uuid_canonical (ses_env (ses n) 1)" using serverD(1) [OF assms(5)] .
  from run_over_api [where ses = ses and n = n, OF assms(1-4) this, of fmt parse lib service clock replay db]
  show "runExecution (api_client fmt parse lib service ses clock) workflowID raw replay (n, db) =
      (case r of
         Inr res \<Rightarrow> poll (api_client fmt parse lib service ses clock) (exec_ID (start_Execution res)) replay (Suc n, db')
       | Inl e \<Rightarrow> Some (Inl (ErrorString (if IsNotFound e
           then ''unexpected status 404 triggering execution: '' @ TrimSpace (body_text (JsonBody (error_json ''workflow definition not found'')))
           else ''unexpected status 400 triggering execution: '' @ TrimSpace (body_text (JsonBody (error_json (error_text lib e)))))),
           (Suc n, db')))"
    unfolding assms(6) by simp
next
  fix res assume "r = Inr res"
  from trigger_starts_entry_task [OF assms(5) assms(6) [unfolded this]]
  show "\<exists>def spec task.
       GetWorkflowDefinition workflowID (ses_env (ses n) 0) (ses_other (ses n) 0 db) = Inr def \<and>
       ParseAndValidateWorkflowDefinition (def_DefinitionJSON def) = Inr spec \<and> FindEntryTask spec = Inr task \<and>
       task_TaskName (start_Task res) = spec_Name task \<and> task_HandlerKey (start_Task res) = spec_HandlerKey task \<and>
       task_Status (start_Task res) = TaskStatusPending \<and>
       task_WorkflowExecutionID (start_Task res) = exec_ID (start_Execution res) \<and>
       U workflowID = Some (exec_WorkflowDefinitionID (start_Execution res))"
    by simp
qed

theorem execution_started_over_api_witness:
  "\<exists>res db'. TriggerExecution \<lparr>req_WorkflowDefinitionID = ''u'', req_Input = ''123''\<rparr> (strict_env 7 50) id (strict_env 8 50) strict_db =
       (Inr res, db') \<and>
     runExecution (api_client (\<lambda>_. ''1970-01-01T00:00:00Z'') (\<lambda>_. Inr 0) (\<lambda>_. []) ''api'' strict_session (\<lambda>_. (True, 0)))
       ''u'' ''123'' False (7, strict_db) =
     poll (api_client (\<lambda>_. ''1970-01-01T00:00:00Z'') (\<lambda>_. Inr 0) (\<lambda>_. []) ''api'' strict_session (\<lambda>_. (True, 0)))
       (exec_ID (start_Execution res)) False (8, db') \<and>
     task_TaskName (start_Task res) = ''a'' \<and> task_HandlerKey (start_Task res) = ''sample.echo''"
proof -
  let ?req = "\<lparr>req_WorkflowDefinitionID = ''u'', req_Input = ''123''\<rparr> :: TriggerExecutionRequest"
  let ?r = "TriggerExecution ?req (strict_env 7 50) id (strict_env 8 50) strict_db"
  have trim: "TrimSpace ''u'' \<noteq> []" by code_simp
  have "\<exists>def. GetWorkflowDefinition ''u'' (strict_env 7 50) strict_db = Inr def \<and> def_DefinitionJSON def = demo_definition"
    by (simp add: GetWorkflowDefinition_def pool_query_def sql_select_definition_def with_uuid_def
        strict_defs one_row_def strict_db_eq scanWorkflowDefinition_def)
  then obtain def where d: "GetWorkflowDefinition ''u'' (strict_env 7 50) strict_db = Inr def" "def_DefinitionJSON def = demo_definition" by blast
  have "\<not> isl (fst (CreateExecutionAndTask ''u'' ''123'' ''a'' ''sample.echo'' (strict_env 8 50) strict_db))"
    by (simp add: strict_db_eq CreateExecutionAndTask_def create_execution_tx_def run_defs strict_defs
        Let_def normalizeJSON_def numeral_eq_Suc scanWorkflowExecution_def scanTaskInstance_def
        makeTaskIdempotencyKey_def strict_task_def strict_event_def)
  then have "\<not> isl (fst ?r)"
    by (auto simp: TriggerExecution_def trim d demo_definition_accepted demo_spec_a_def split: prod.split sum.split)
  then obtain res db' where r: "?r = (Inr res, db')" by (rule result_cases)
  have json: "raw_json ''123'' = Some (JNum ''123'')" "json_print (JNum ''123'') = ''123''" "utf8_valid ''u''" by code_simp+
  have env: "keeps_documents (ses_env (strict_session 7) 1)" "server strict_uuid (ses_env (strict_session 7) 1)"
    using strict_keeps strict_faithful by (simp_all add: faithful_def)
  have trig: "TriggerExecution \<lparr>req_WorkflowDefinitionID = ''u'', req_Input = json_print (JNum ''123'')\<rparr>
        (ses_env (strict_session 7) 0) (ses_other (strict_session 7) 1) (ses_env (strict_session 7) 1)
        (ses_other (strict_session 7) 0 strict_db) = (Inr res, db')"
    using r by (simp add: json(2))
  note run = execution_started_over_api [where ses = strict_session and n = 7, OF json(3,1) _ env trig]
  have "task_TaskName (start_Task res) = ''a'' \<and> task_HandlerKey (start_Task res) = ''sample.echo''"
    using run d demo_definition_accepted by (auto simp: demo_spec_a_def)
  with r run show ?thesis by auto
qed

end
